(* ===== verification/Wolfe_Prelude.thy ===== *)
theory Wolfe_Prelude
  imports Complex_Main "HOL-Library.Word" "HOL-Library.AList" "HOL-Library.List_Lexorder"
    "HOL-Library.Char_ord" "HOL-Library.Multiset"
begin

text \<open>
  Shared vocabulary of the development: machine integers with their wrap-around written
  out, big-endian byte encodings, results with errors as values, and the association
  lists that stand for the hash maps and ordered tables of the program.
\<close>

section \<open>Collections of facts\<close>

named_theorems u64_simps \<open>bounded arithmetic that does not wrap\<close>
named_theorems res_simps \<open>inversion of results\<close>

section \<open>Machine integers\<close>

text \<open>
  Rust's \<open>u64\<close> and \<open>usize\<close> values are natural numbers below \<open>2 ^ 64\<close>; an
  addition in a release build wraps, a cast \<open>as u32\<close> keeps the low 32 bits and a cast
  \<open>as i32\<close> reads the low 32 bits as two's complement.
\<close>

definition w64 :: "nat \<Rightarrow> nat" where
  "w64 n = n mod 2 ^ 64"

definition as_u32 :: "nat \<Rightarrow> nat" where
  "as_u32 n = n mod 2 ^ 32"

definition as_i32 :: "nat \<Rightarrow> int" where
  "as_i32 n = (let m = int (n mod 2 ^ 32) in if m < 2 ^ 31 then m else m - 2 ^ 32)"

definition i32_as_u64 :: "int \<Rightarrow> nat" where
  "i32_as_u64 i = nat (i mod 2 ^ 64)"

definition sub64 :: "nat \<Rightarrow> nat \<Rightarrow> nat" where
  "sub64 a b = (if b \<le> a then a - b else a + 2 ^ 64 - b)"

definition sat_sub :: "nat \<Rightarrow> nat \<Rightarrow> nat" where
  "sat_sub a b = (if a < b then 0 else a - b)"

lemma w64_id [u64_simps]: "n < 2 ^ 64 \<Longrightarrow> w64 n = n"
  by (simp add: w64_def)

lemma w64_less [simp]: "w64 n < 2 ^ 64"
  by (simp add: w64_def)

lemma as_u32_id [u64_simps]: "n < 2 ^ 32 \<Longrightarrow> as_u32 n = n"
  by (simp add: as_u32_def)

lemma as_u32_less [simp]: "as_u32 n < 2 ^ 32"
  by (simp add: as_u32_def)

lemma sub64_le [u64_simps]: "b \<le> a \<Longrightarrow> sub64 a b = a - b"
  by (simp add: sub64_def)

lemma i32_as_u64_nonneg [u64_simps]: "0 \<le> i \<Longrightarrow> i < 2 ^ 63 \<Longrightarrow> i32_as_u64 i = nat i"
  by (simp add: i32_as_u64_def)

section \<open>Bytes\<close>

type_synonym byte = "8 word"
type_synonym bytes = "8 word list"

text \<open>\<open>to_be_bytes\<close> and \<open>from_be_bytes\<close> for an integer of \<open>n\<close> bytes.\<close>

fun be_bytes :: "nat \<Rightarrow> nat \<Rightarrow> bytes" where
  "be_bytes 0 v = []"
| "be_bytes (Suc n) v = be_bytes n (v div 256) @ [of_nat (v mod 256)]"

definition be_nat :: "bytes \<Rightarrow> nat" where
  "be_nat bs = foldl (\<lambda>a b. a * 256 + unat b) 0 bs"

lemma length_be_bytes [simp]: "length (be_bytes n v) = n"
  by (induction n arbitrary: v) auto

lemma be_nat_Nil [simp]: "be_nat [] = 0"
  by (simp add: be_nat_def)

lemma be_nat_snoc [simp]: "be_nat (bs @ [b]) = be_nat bs * 256 + unat b"
  by (simp add: be_nat_def)

lemma unat_byte: "v < 256 \<Longrightarrow> unat (of_nat v :: byte) = v"
  by (simp add: unat_of_nat)

lemma be_nat_be_bytes: "v < 256 ^ n \<Longrightarrow> be_nat (be_bytes n v) = v"
proof (induction n arbitrary: v)
  case 0
  then show ?case by simp
next
  case (Suc n)
  have "v div 256 < 256 ^ n"
    using Suc.prems by (simp add: less_mult_imp_div_less mult.commute)
  then show ?case
    by (simp add: Suc.IH unat_byte)
qed

lemma be_nat_bound: "be_nat bs < 256 ^ length bs"
proof (induction bs rule: rev_induct)
  case Nil
  then show ?case by simp
next
  case (snoc b bs)
  have "unat b < 256"
    using unsigned_less [of b] by simp
  with snoc show ?case
    by simp
qed

lemma be_bytes_be_nat: "be_bytes (length bs) (be_nat bs) = bs"
proof (induction bs rule: rev_induct)
  case Nil
  then show ?case by simp
next
  case (snoc b bs)
  have "unat b < 256"
    using unsigned_less [of b] by simp
  with snoc show ?case by simp
qed

lemma be_bytes_inject:
  "v < 256 ^ n \<Longrightarrow> w < 256 ^ n \<Longrightarrow> be_bytes n v = be_bytes n w \<longleftrightarrow> v = w"
  by (metis be_nat_be_bytes)

lemma be_bytes_4_inject [simp]:
  "v < 2 ^ 32 \<Longrightarrow> w < 2 ^ 32 \<Longrightarrow> be_bytes 4 v = be_bytes 4 w \<longleftrightarrow> v = w"
  by (rule be_bytes_inject) simp_all

lemma be_nat_4 [simp]: "v < 2 ^ 32 \<Longrightarrow> be_nat (be_bytes 4 v) = v"
  by (rule be_nat_be_bytes) simp

lemma be_nat_8 [simp]: "v < 2 ^ 64 \<Longrightarrow> be_nat (be_bytes 8 v) = v"
  by (rule be_nat_be_bytes) simp

lemma be_nat_4_bound: "length bs = 4 \<Longrightarrow> be_nat bs < 2 ^ 32"
  using be_nat_bound [of bs] by simp

text \<open>Lexicographic order of equally long encodings is numeric order.\<close>

lemma list_less_snoc_same_length:
  fixes xs ys :: "'a::linorder list"
  assumes "length xs = length ys"
  shows "xs @ [a] < ys @ [b] \<longleftrightarrow> xs < ys \<or> (xs = ys \<and> a < b)"
  using assms
  by (induction xs ys rule: list_induct2) auto

lemma be_nat_less_iff:
  assumes "length xs = length ys"
  shows "xs < ys \<longleftrightarrow> be_nat xs < be_nat ys"
  using assms
proof (induction xs arbitrary: ys rule: rev_induct)
  case Nil
  then show ?case by simp
next
  case (snoc x xs)
  then obtain zs y where ys: "ys = zs @ [y]" and len: "length xs = length zs"
    by (cases ys rule: rev_cases) auto
  have b: "unat x < 256" "unat y < 256"
    using unsigned_less [of x] unsigned_less [of y] by simp_all
  have eq: "xs = zs \<longleftrightarrow> be_nat xs = be_nat zs"
    using be_bytes_be_nat [of xs] be_bytes_be_nat [of zs] len by metis
  have "xs @ [x] < zs @ [y] \<longleftrightarrow> be_nat xs < be_nat zs \<or> (be_nat xs = be_nat zs \<and> unat x < unat y)"
    using snoc.IH [OF len] list_less_snoc_same_length [OF len, of x y] eq
    by (simp add: word_less_nat_alt)
  also have "\<dots> \<longleftrightarrow> be_nat xs * 256 + unat x < be_nat zs * 256 + unat y"
    using b by arith
  finally show ?case by (simp add: ys)
qed

section \<open>Results\<close>

text \<open>
  \<open>Result<T, E>\<close> is \<open>'e + 'a\<close> with the error on the left; \<open>?\<close> is
  \<open>res_bind\<close>. \<open>ok_flatten\<close> is \<open>.ok().flatten()\<close>.
\<close>

fun res_bind :: "'e + 'a \<Rightarrow> ('a \<Rightarrow> 'e + 'b) \<Rightarrow> 'e + 'b" where
  "res_bind (Inl e) f = Inl e"
| "res_bind (Inr x) f = f x"

fun res_is_ok :: "'e + 'a \<Rightarrow> bool" where
  "res_is_ok (Inl e) = False"
| "res_is_ok (Inr x) = True"

fun ok_flatten :: "'e + 'a option \<Rightarrow> 'a option" where
  "ok_flatten (Inl e) = None"
| "ok_flatten (Inr x) = x"

lemma res_bind_Inr_iff [res_simps]:
  "res_bind r f = Inr y \<longleftrightarrow> (\<exists>x. r = Inr x \<and> f x = Inr y)"
  by (cases r) auto

lemma res_bind_Inl_iff [res_simps]:
  "res_bind r f = Inl e \<longleftrightarrow> r = Inl e \<or> (\<exists>x. r = Inr x \<and> f x = Inl e)"
  by (cases r) auto

lemma res_is_ok_iff: "res_is_ok r \<longleftrightarrow> (\<exists>x. r = Inr x)"
  by (cases r) auto

lemma ok_flatten_Some [res_simps]: "ok_flatten r = Some x \<longleftrightarrow> r = Inr (Some x)"
  by (cases r) auto

text \<open>A loop that passes a state along and stops at the first error.\<close>

fun res_fold :: "('s \<Rightarrow> 'x \<Rightarrow> 'e + 's) \<Rightarrow> 's \<Rightarrow> 'x list \<Rightarrow> 'e + 's" where
  "res_fold f s [] = Inr s"
| "res_fold f s (x # xs) = res_bind (f s x) (\<lambda>s. res_fold f s xs)"

lemma res_fold_ok:
  assumes "\<And>s x. x \<in> set xs \<Longrightarrow> \<exists>s'. f s x = Inr s'"
  shows "\<exists>s'. res_fold f s xs = Inr s'"
  using assms
proof (induction xs arbitrary: s)
  case Nil
  then show ?case by simp
next
  case (Cons x xs)
  obtain s1 where "f s x = Inr s1"
    using Cons.prems [of x s] by auto
  with Cons.IH [of s1] Cons.prems show ?case by simp
qed

section \<open>Association lists\<close>

text \<open>
  A hash map or an ordered table is a list of entries with distinct keys, read with
  \<open>map_of\<close> and written with \<open>AList.update\<close> and \<open>AList.delete\<close>.
\<close>

definition keys_distinct :: "('k \<times> 'v) list \<Rightarrow> bool" where
  "keys_distinct xs \<longleftrightarrow> distinct (map fst xs)"

definition tbl_iter :: "('k::linorder \<times> 'v) list \<Rightarrow> ('k \<times> 'v) list" where
  "tbl_iter xs = sort_key fst xs"

declare update_conv' [simp] delete_conv' [simp]

lemma keys_distinct_Nil [simp]: "keys_distinct []"
  by (simp add: keys_distinct_def)

lemma keys_distinct_update [simp]: "keys_distinct xs \<Longrightarrow> keys_distinct (AList.update k v xs)"
  by (simp add: keys_distinct_def distinct_update)

lemma keys_distinct_delete [simp]: "keys_distinct xs \<Longrightarrow> keys_distinct (AList.delete k xs)"
  by (simp add: keys_distinct_def distinct_delete)

lemma update_fresh: "map_of xs k = None \<Longrightarrow> AList.update k v xs = xs @ [(k, v)]"
  by (induction xs) (auto split: if_splits)

lemma length_update_fresh: "map_of xs k = None \<Longrightarrow> length (AList.update k v xs) = Suc (length xs)"
  by (simp add: update_fresh)

lemma map_of_keys_distinct:
  "keys_distinct xs \<Longrightarrow> map_of xs k = Some v \<longleftrightarrow> (k, v) \<in> set xs"
  by (auto simp: keys_distinct_def dest: map_of_SomeD)

lemma set_delete_eq: "set (AList.delete k xs) = {(a, b) \<in> set xs. a \<noteq> k}"
  by (induction xs) (auto simp: delete_simps)

lemma update_present_map:
  "keys_distinct xs \<Longrightarrow> map_of xs k = Some u \<Longrightarrow>
    AList.update k v xs = map (\<lambda>(a, b). if a = k then (a, v) else (a, b)) xs"
proof (induction xs)
  case Nil
  then show ?case by simp
next
  case (Cons x xs)
  obtain a b where x: "x = (a, b)" by (cases x)
  have same: "k \<notin> fst ` set xs \<Longrightarrow> map (\<lambda>(a, b). if a = k then (a, v) else (a, b)) xs = xs"
    by (induction xs) (auto split: if_splits)
  show ?case
    using Cons same by (auto simp: x keys_distinct_def split: if_splits)
qed

lemma sum_list_delete:
  fixes f :: "'k \<times> 'v \<Rightarrow> nat"
  assumes "keys_distinct xs" and "map_of xs k = Some v"
  shows "sum_list (map f xs) = f (k, v) + sum_list (map f (AList.delete k xs))"
  using assms
proof (induction xs)
  case Nil
  then show ?case by simp
next
  case (Cons x xs)
  obtain a b where x: "x = (a, b)" by (cases x)
  show ?case
  proof (cases "a = k")
    case True
    with Cons.prems have "k \<notin> fst ` set xs" and "b = v"
      by (auto simp: x keys_distinct_def)
    then have "AList.delete k xs = xs"
      by (simp add: delete_id)
    with True \<open>b = v\<close> show ?thesis by (simp add: x)
  next
    case False
    with Cons show ?thesis by (auto simp: x keys_distinct_def)
  qed
qed

lemma length_delete_present:
  assumes "keys_distinct xs" and "map_of xs k = Some v"
  shows "length xs = Suc (length (AList.delete k xs))"
  using sum_list_delete [OF assms, of "\<lambda>_. 1"] by (simp add: sum_list_triv)

section \<open>Sorting by a comparison\<close>

text \<open>
  \<open>slice::sort_by\<close> is a stable sort; \<open>Vec::sort_by_key\<close> is the same with the
  comparison of the keys.
\<close>

datatype ordering = Less | Equal | Greater

definition cmp_of :: "'a::linorder \<Rightarrow> 'a \<Rightarrow> ordering" where
  "cmp_of x y = (if x < y then Less else if y < x then Greater else Equal)"

fun insert_by :: "('a \<Rightarrow> 'a \<Rightarrow> ordering) \<Rightarrow> 'a \<Rightarrow> 'a list \<Rightarrow> 'a list" where
  "insert_by c x [] = [x]"
| "insert_by c x (y # ys) = (if c x y = Greater then y # insert_by c x ys else x # y # ys)"

definition sort_by :: "('a \<Rightarrow> 'a \<Rightarrow> ordering) \<Rightarrow> 'a list \<Rightarrow> 'a list" where
  "sort_by c xs = foldr (insert_by c) xs []"

lemma mset_insert_by [simp]: "mset (insert_by c x ys) = add_mset x (mset ys)"
  by (induction ys) auto

lemma mset_sort_by [simp]: "mset (sort_by c xs) = mset xs"
  by (induction xs) (auto simp: sort_by_def)

lemma set_sort_by [simp]: "set (sort_by c xs) = set xs"
  by (metis mset_sort_by set_mset_mset)

lemma length_sort_by [simp]: "length (sort_by c xs) = length xs"
  by (metis mset_sort_by size_mset)

lemma set_insert_by [simp]: "set (insert_by c x ys) = insert x (set ys)"
  by (induction ys) auto

text \<open>The comparison need only be a total preorder on the elements that are sorted.\<close>

definition preorder_on :: "'a set \<Rightarrow> ('a \<Rightarrow> 'a \<Rightarrow> ordering) \<Rightarrow> bool" where
  "preorder_on A c \<longleftrightarrow>
    (\<forall>a\<in>A. \<forall>b\<in>A. c a b = Greater \<longrightarrow> c b a \<noteq> Greater) \<and>
    (\<forall>a\<in>A. \<forall>b\<in>A. \<forall>d\<in>A. c a b \<noteq> Greater \<longrightarrow> c b d \<noteq> Greater \<longrightarrow> c a d \<noteq> Greater)"

lemma sorted_insert_by:
  assumes "preorder_on A c" and "x \<in> A" and "set ys \<subseteq> A"
    and "sorted_wrt (\<lambda>a b. c a b \<noteq> Greater) ys"
  shows "sorted_wrt (\<lambda>a b. c a b \<noteq> Greater) (insert_by c x ys)"
  using assms(3,4)
proof (induction ys)
  case Nil
  then show ?case by simp
next
  case (Cons y ys)
  show ?case
  proof (cases "c x y = Greater")
    case True
    moreover have "y \<in> A"
      using Cons.prems(1) by simp
    ultimately have "c y x \<noteq> Greater"
      using assms(1,2) unfolding preorder_on_def by blast
    moreover have "sorted_wrt (\<lambda>a b. c a b \<noteq> Greater) (insert_by c x ys)"
      using Cons.prems by (intro Cons.IH) simp_all
    moreover have "\<forall>z \<in> set ys. c y z \<noteq> Greater"
      using Cons.prems(2) by simp
    ultimately show ?thesis
      by (simp only: insert_by.simps True if_True sorted_wrt.simps set_insert_by ball_simps refl simp_thms)
  next
    case False
    have "\<forall>z \<in> set ys. c x z \<noteq> Greater"
    proof
      fix z assume z: "z \<in> set ys"
      then have "c y z \<noteq> Greater"
        using Cons.prems(2) by simp
      with False show "c x z \<noteq> Greater"
        using assms(1,2) Cons.prems(1) z unfolding preorder_on_def by (metis insert_subset list.simps(15) subsetD)
    qed
    then show ?thesis
      using False Cons.prems(2) by (simp only: insert_by.simps if_False sorted_wrt.simps list.set ball_simps) blast
  qed
qed

lemma sorted_sort_by:
  assumes "preorder_on A c" and "set xs \<subseteq> A"
  shows "sorted_wrt (\<lambda>a b. c a b \<noteq> Greater) (sort_by c xs)"
  using assms(2)
proof (induction xs)
  case Nil
  then show ?case by (simp add: sort_by_def)
next
  case (Cons x xs)
  then have "sorted_wrt (\<lambda>a b. c a b \<noteq> Greater) (insert_by c x (sort_by c xs))"
    by (intro sorted_insert_by [OF assms(1)]) simp_all
  then show ?case by (simp add: sort_by_def)
qed

section \<open>Decimal rendering\<close>

fun show_nat :: "nat \<Rightarrow> string" where
  "show_nat n =
    (if n < 10 then [char_of (48 + n)] else show_nat (n div 10) @ [char_of (48 + n mod 10)])"

declare show_nat.simps [simp del]

section \<open>State machines\<close>

text \<open>
  The contract of a component whose operations all keep an invariant; what holds after
  every sequence of operations is proved once here.
\<close>

locale machine =
  fixes step :: "'s \<Rightarrow> 'o \<Rightarrow> 's"
    and inv :: "'s \<Rightarrow> bool"
  assumes step_inv: "inv s \<Longrightarrow> inv (step s x)"
begin

lemma run_inv: "inv s \<Longrightarrow> inv (foldl step s xs)"
  by (induction xs arbitrary: s) (auto intro: step_inv)

lemma every_prefix_inv: "inv s \<Longrightarrow> inv (foldl step s (take n xs))"
  by (rule run_inv)

end

end
