(* ===== verification/Float64.thy ===== *)
theory Float64
  imports Wolfe_Prelude "HOL-Library.Log_Nat"
begin

text \<open>
  The part of IEEE 754 binary64 arithmetic that the program uses: comparisons, conversion
  of a \<open>u64\<close> and division. A finite value is the rational number it denotes, and every
  operation rounds to nearest, ties to even, at 53 significant bits. The two zeros are one
  value (no operation of the program tells them apart). The rounding is that of normal
  numbers: a quotient of two \<open>u64\<close> values is either zero or between \<open>2 ^ -64\<close> and
  \<open>2 ^ 64\<close>, far from the subnormal and overflow ranges.
\<close>

section \<open>Rounding to 53 bits\<close>

text \<open>Round a non-negative rational to the nearest natural number, ties to even.\<close>

definition round_half_even :: "rat \<Rightarrow> nat" where
  "round_half_even q =
    (let f = nat \<lfloor>q\<rfloor>; r = q - of_nat f in
     if r < 1 / 2 then f else if r > 1 / 2 then Suc f
     else if even f then f else Suc f)"

text \<open>\<open>two_pow e\<close> is \<open>2 ^ e\<close> for an integer exponent.\<close>

definition two_pow :: "int \<Rightarrow> rat" where
  "two_pow e = (if 0 \<le> e then 2 ^ nat e else 1 / 2 ^ nat (- e))"

text \<open>The exponent of the leading bit of \<open>n / d\<close>, for positive \<open>n\<close> and \<open>d\<close>.\<close>

definition ratio_exp :: "nat \<Rightarrow> nat \<Rightarrow> int" where
  "ratio_exp n d =
    (let e = int (floorlog 2 n) - int (floorlog 2 d) in
     if two_pow e * of_nat d \<le> of_nat n then e else e - 1)"

definition fl_ratio :: "nat \<Rightarrow> nat \<Rightarrow> rat" where
  "fl_ratio n d =
    (if n = 0 then 0
     else let s = ratio_exp n d - 52 in
       of_nat (round_half_even (of_nat n / of_nat d / two_pow s)) * two_pow s)"

lemma two_pow_pos [simp]: "0 < two_pow e"
  by (simp add: two_pow_def)

lemma two_pow_nonzero [simp]: "two_pow e \<noteq> 0"
  by (simp add: two_pow_def)

lemma two_pow_powi: "two_pow e = power_int 2 e"
  by (simp add: two_pow_def power_int_def divide_simps)

lemma two_pow_add: "two_pow (a + b) = two_pow a * two_pow b"
  by (simp add: two_pow_powi power_int_add)

lemma two_pow_mono: "a \<le> b \<Longrightarrow> two_pow a \<le> two_pow b"
  by (simp add: two_pow_powi power_int_increasing)

lemma two_pow_less_iff: "two_pow a < two_pow b \<longleftrightarrow> a < b"
  by (metis linorder_not_less order_le_less two_pow_mono two_pow_powi power_int_strict_increasing
      one_less_numeral_iff semiring_norm(76))

lemma two_pow_of_nat: "two_pow (int k) = 2 ^ k"
  by (simp add: two_pow_def)

lemma two_pow_0 [simp]: "two_pow 0 = 1"
  by (simp add: two_pow_def)

section \<open>Properties of the rounding\<close>

lemma round_half_even_of_nat [simp]: "round_half_even (of_nat n) = n"
  by (simp add: round_half_even_def)

lemma nat_floor_bounds:
  fixes q :: rat
  assumes "0 \<le> q"
  shows "of_nat (nat \<lfloor>q\<rfloor>) \<le> q" and "q < of_nat (nat \<lfloor>q\<rfloor>) + 1"
proof -
  have "(of_nat (nat \<lfloor>q\<rfloor>) :: rat) = of_int \<lfloor>q\<rfloor>"
    using assms by simp
  then show "of_nat (nat \<lfloor>q\<rfloor>) \<le> q" and "q < of_nat (nat \<lfloor>q\<rfloor>) + 1"
    using floor_correct [of q] by linarith+
qed

lemma round_half_even_between:
  fixes q :: rat
  assumes "0 \<le> q"
  shows "nat \<lfloor>q\<rfloor> \<le> round_half_even q" and "round_half_even q \<le> Suc (nat \<lfloor>q\<rfloor>)"
  by (auto simp: round_half_even_def Let_def)

lemma round_half_even_mono:
  fixes p q :: rat
  assumes "0 \<le> p" and "p \<le> q"
  shows "round_half_even p \<le> round_half_even q"
proof (cases "nat \<lfloor>p\<rfloor> = nat \<lfloor>q\<rfloor>")
  case True
  then show ?thesis
    using assms by (auto simp: round_half_even_def Let_def)
next
  case False
  moreover have "nat \<lfloor>p\<rfloor> \<le> nat \<lfloor>q\<rfloor>"
    using assms by (simp add: floor_mono nat_mono)
  ultimately have "Suc (nat \<lfloor>p\<rfloor>) \<le> nat \<lfloor>q\<rfloor>"
    by simp
  then show ?thesis
    using round_half_even_between [of p] round_half_even_between [of q] assms by simp
qed

lemma floorlog_two_bounds:
  assumes "0 < n"
  shows "(2::rat) ^ (floorlog 2 n - 1) \<le> of_nat n" and "(of_nat n :: rat) < 2 ^ floorlog 2 n"
    and "0 < floorlog 2 n"
proof -
  have b: "2 ^ (floorlog 2 n - 1) \<le> n \<and> n < 2 ^ floorlog 2 n"
    using Log_Nat.floorlog_bounds [of n 2] assms by simp
  then show "(2::rat) ^ (floorlog 2 n - 1) \<le> of_nat n"
    by (metis of_nat_le_iff of_nat_numeral of_nat_power)
  from b show "(of_nat n :: rat) < 2 ^ floorlog 2 n"
    by (metis of_nat_less_iff of_nat_numeral of_nat_power)
  show "0 < floorlog 2 n"
    using assms by (subst compute_floorlog) simp
qed

lemma ratio_exp_bounds:
  assumes n: "0 < n" and d: "0 < d"
  shows "two_pow (ratio_exp n d) \<le> of_nat n / of_nat d"
    and "of_nat n / of_nat d < two_pow (ratio_exp n d + 1)"
proof -
  define a b where "a = floorlog 2 n" and "b = floorlog 2 d"
  define e where "e = int a - int b"
  have a: "two_pow (int a - 1) \<le> of_nat n" "of_nat n < two_pow (int a)"
    using floorlog_two_bounds [OF n] unfolding a_def
    by (simp_all add: two_pow_def nat_diff_distrib')
  have b: "two_pow (int b - 1) \<le> of_nat d" "of_nat d < two_pow (int b)"
    using floorlog_two_bounds [OF d] unfolding b_def
    by (simp_all add: two_pow_def nat_diff_distrib')
  have d': "(0::rat) < of_nat d"
    using d by simp
  have up: "of_nat n < two_pow (e + 1) * of_nat d"
  proof -
    have "two_pow (int a) = two_pow (e + 1) * two_pow (int b - 1)"
      by (simp add: e_def flip: two_pow_add)
    also have "\<dots> \<le> two_pow (e + 1) * of_nat d"
      using b(1) by (simp add: mult_left_mono)
    finally show ?thesis using a(2) by simp
  qed
  have low: "two_pow (e - 1) * of_nat d \<le> of_nat n"
  proof -
    have "two_pow (e - 1) * of_nat d \<le> two_pow (e - 1) * two_pow (int b)"
      using b(2) by (simp add: mult_left_mono order_less_imp_le)
    also have "\<dots> = two_pow (int a - 1)"
      by (simp add: e_def flip: two_pow_add)
    finally show ?thesis using a(1) by simp
  qed
  have r: "ratio_exp n d = (if two_pow e * of_nat d \<le> of_nat n then e else e - 1)"
    by (simp add: ratio_exp_def e_def a_def b_def)
  show "two_pow (ratio_exp n d) \<le> of_nat n / of_nat d"
    using low d' by (simp add: r pos_le_divide_eq)
  show "of_nat n / of_nat d < two_pow (ratio_exp n d + 1)"
    using up d' by (auto simp: r pos_divide_less_eq)
qed

section \<open>The rounded quotient\<close>

abbreviation quot :: "nat \<Rightarrow> nat \<Rightarrow> rat" where
  "quot n d \<equiv> of_nat n / of_nat d"

lemma round_half_even_error:
  fixes q :: rat
  assumes "0 \<le> q"
  shows "\<bar>of_nat (round_half_even q) - q\<bar> \<le> 1 / 2"
  using nat_floor_bounds [OF assms] by (auto simp: round_half_even_def Let_def)

lemma scaled_bounds:
  assumes "0 < n" and "0 < d"
  shows "2 ^ 52 \<le> quot n d / two_pow (ratio_exp n d - 52)"
    and "quot n d / two_pow (ratio_exp n d - 52) < 2 ^ 53"
proof -
  let ?e = "ratio_exp n d"
  have "two_pow ?e = 2 ^ 52 * two_pow (?e - 52)"
    using two_pow_add [of 52 "?e - 52"] two_pow_of_nat [of 52] by simp
  moreover have "two_pow (?e + 1) = 2 ^ 53 * two_pow (?e - 52)"
    using two_pow_add [of 53 "?e - 52"] two_pow_of_nat [of 53] by (simp add: add.commute)
  ultimately have "2 ^ 52 * two_pow (?e - 52) \<le> quot n d" "quot n d < 2 ^ 53 * two_pow (?e - 52)"
    using ratio_exp_bounds [OF assms] by (simp_all only:)
  then show "2 ^ 52 \<le> quot n d / two_pow (?e - 52)"
    and "quot n d / two_pow (?e - 52) < 2 ^ 53"
    by (simp_all only: pos_le_divide_eq [OF two_pow_pos] pos_divide_less_eq [OF two_pow_pos])
qed

lemma fl_ratio_0 [simp]: "fl_ratio 0 d = 0"
  by (simp add: fl_ratio_def)

lemma fl_ratio_bounds:
  assumes "0 < n" and "0 < d"
  shows "two_pow (ratio_exp n d) \<le> fl_ratio n d" and "fl_ratio n d \<le> two_pow (ratio_exp n d + 1)"
proof -
  let ?e = "ratio_exp n d" and ?m = "quot n d / two_pow (ratio_exp n d - 52)"
  have lo: "round_half_even (of_nat (2 ^ 52)) \<le> round_half_even ?m"
    using scaled_bounds [OF assms] by (intro round_half_even_mono) simp_all
  have hi: "round_half_even ?m \<le> round_half_even (of_nat (2 ^ 53))"
    using scaled_bounds [OF assms] by (intro round_half_even_mono) simp_all
  have p: "two_pow ?e = of_nat (2 ^ 52) * two_pow (?e - 52)"
    using two_pow_add [of 52 "?e - 52"] two_pow_of_nat [of 52] by simp
  have p': "two_pow (?e + 1) = of_nat (2 ^ 53) * two_pow (?e - 52)"
    using two_pow_add [of 53 "?e - 52"] two_pow_of_nat [of 53] by (simp add: add.commute)
  have f: "fl_ratio n d = of_nat (round_half_even ?m) * two_pow (?e - 52)"
    using assms by (simp add: fl_ratio_def Let_def)
  show "two_pow ?e \<le> fl_ratio n d"
    using lo unfolding round_half_even_of_nat f p by (intro mult_right_mono) (simp_all only: of_nat_le_iff, simp add: order_less_imp_le)
  show "fl_ratio n d \<le> two_pow (?e + 1)"
    using hi unfolding round_half_even_of_nat f p' by (intro mult_right_mono) (simp_all only: of_nat_le_iff, simp add: order_less_imp_le)
qed

lemma fl_ratio_nonneg [simp]: "0 \<le> fl_ratio n d"
  by (simp add: fl_ratio_def Let_def order_less_imp_le)

text \<open>Rounding is monotone in the exact quotient.\<close>

lemma fl_ratio_mono:
  assumes d: "0 < d" "0 < d'" and le: "quot n d \<le> quot n' d'"
  shows "fl_ratio n d \<le> fl_ratio n' d'"
proof (cases "n = 0")
  case True
  then show ?thesis by simp
next
  case False
  then have n: "0 < n" by simp
  then have "0 < quot n d"
    using d by simp
  with le have "0 < quot n' d'"
    by linarith
  then have n': "0 < n'"
    by (cases "n' = 0") simp_all
  let ?e = "ratio_exp n d" and ?e' = "ratio_exp n' d'"
  have "two_pow ?e < two_pow (?e' + 1)"
    using ratio_exp_bounds [OF n d(1)] ratio_exp_bounds [OF n' d(2)] le by linarith
  then have ee: "?e \<le> ?e'"
    by (simp add: two_pow_less_iff)
  show ?thesis
  proof (cases "?e = ?e'")
    case True
    have "round_half_even (quot n d / two_pow (?e - 52)) \<le> round_half_even (quot n' d' / two_pow (?e - 52))"
      by (intro round_half_even_mono divide_right_mono [OF le]) (simp_all add: order_less_imp_le)
    then show ?thesis
      using n n' True by (simp add: fl_ratio_def Let_def)
  next
    case False
    then have "two_pow (?e + 1) \<le> two_pow ?e'"
      using ee by (intro two_pow_mono) simp
    then show ?thesis
      using fl_ratio_bounds [OF n d(1)] fl_ratio_bounds [OF n' d(2)] by linarith
  qed
qed

lemma fl_ratio_cong:
  "0 < d \<Longrightarrow> 0 < d' \<Longrightarrow> quot n d = quot n' d' \<Longrightarrow> fl_ratio n d = fl_ratio n' d'"
  by (intro order_antisym fl_ratio_mono) simp_all

text \<open>The relative error of one rounding is at most \<open>2 ^ -53\<close>.\<close>

lemma fl_ratio_error:
  assumes d: "0 < d"
  shows "\<bar>fl_ratio n d - quot n d\<bar> \<le> quot n d / 2 ^ 53"
proof (cases "n = 0")
  case False
  then have n: "0 < n" by simp
  let ?s = "two_pow (ratio_exp n d - 52)"
  let ?m = "quot n d / ?s"
  have m: "2 ^ 52 \<le> ?m"
    using scaled_bounds [OF n d] by simp
  have "\<bar>of_nat (round_half_even ?m) - ?m\<bar> \<le> 1 / 2"
    using m by (intro round_half_even_error) simp
  also have "1 / 2 = (2 ^ 52 :: rat) / 2 ^ 53"
    by simp
  also have "\<dots> \<le> ?m / 2 ^ 53"
    by (rule divide_right_mono [OF m]) simp
  finally have "\<bar>of_nat (round_half_even ?m) - ?m\<bar> * ?s \<le> ?m / 2 ^ 53 * ?s"
    by (intro mult_right_mono) (simp_all add: order_less_imp_le)
  moreover have "\<bar>of_nat (round_half_even ?m) - ?m\<bar> * ?s = \<bar>fl_ratio n d - quot n d\<bar>"
  proof -
    have "\<bar>of_nat (round_half_even ?m) - ?m\<bar> * ?s = \<bar>(of_nat (round_half_even ?m) - ?m) * ?s\<bar>"
      by (simp only: abs_mult abs_of_pos [OF two_pow_pos])
    also have "\<dots> = \<bar>of_nat (round_half_even ?m) * ?s - ?m * ?s\<bar>"
      by (simp only: left_diff_distrib)
    finally show ?thesis
      using n by (simp add: fl_ratio_def Let_def)
  qed
  ultimately show ?thesis
    by simp
qed simp

text \<open>Integers of at most 53 bits are exact.\<close>

lemma fl_ratio_exact:
  assumes "n < 2 ^ 53"
  shows "fl_ratio n 1 = of_nat n"
proof (cases "n = 0")
  case False
  then have n: "0 < n" by simp
  let ?e = "ratio_exp n 1"
  have b: "two_pow ?e \<le> of_nat n" "of_nat n < two_pow (?e + 1)"
    using ratio_exp_bounds [OF n, of 1] by simp_all
  have "(of_nat n :: rat) < of_nat (2 ^ 53)"
    using assms by (simp only: of_nat_less_iff)
  then have "two_pow ?e < two_pow 53"
    using b(1) two_pow_of_nat [of 53] by simp
  then have le: "?e \<le> 52"
    by (simp add: two_pow_less_iff)
  have "two_pow (?e - 52) * of_nat (2 ^ nat (52 - ?e)) = 1"
  proof -
    have "two_pow (52 - ?e) = of_nat (2 ^ nat (52 - ?e))"
      using le by (simp add: two_pow_def)
    then show ?thesis
      using two_pow_add [of "?e - 52" "52 - ?e"] by simp
  qed
  then have pw: "of_nat (2 ^ nat (52 - ?e)) * two_pow (?e - 52) = 1"
    by (simp only: mult.commute)
  then have "of_nat n / of_nat 1 / two_pow (?e - 52) = of_nat (n * 2 ^ nat (52 - ?e))"
    by (simp add: divide_eq_eq mult.assoc)
  then have "fl_ratio n 1 = of_nat (n * 2 ^ nat (52 - ?e)) * two_pow (?e - 52)"
    using n unfolding fl_ratio_def Let_def by (simp only: round_half_even_of_nat) simp
  then show ?thesis
    using pw by (simp add: mult.assoc)
qed simp

section \<open>Floating-point values\<close>

datatype f64 = NaN | PInf | NInf | Fin rat

text \<open>The comparisons: every one with a \<open>NaN\<close> is false, and \<open>partial_cmp\<close> is then \<open>None\<close>.\<close>

fun f64_less :: "f64 \<Rightarrow> f64 \<Rightarrow> bool" where
  "f64_less NaN y = False"
| "f64_less x NaN = False"
| "f64_less (Fin a) (Fin b) = (a < b)"
| "f64_less NInf y = (y \<noteq> NInf)"
| "f64_less x PInf = (x \<noteq> PInf)"
| "f64_less x y = False"

fun f64_eq :: "f64 \<Rightarrow> f64 \<Rightarrow> bool" where
  "f64_eq NaN y = False"
| "f64_eq x y = (x = y)"

definition f64_ge :: "f64 \<Rightarrow> f64 \<Rightarrow> bool" where
  "f64_ge x y = (f64_less y x \<or> f64_eq x y)"

definition f64_partial_cmp :: "f64 \<Rightarrow> f64 \<Rightarrow> ordering option" where
  "f64_partial_cmp x y =
    (if f64_less x y then Some Less else if f64_less y x then Some Greater
     else if f64_eq x y then Some Equal else None)"

text \<open>\<open>n as f64\<close> and the quotient of two such values.\<close>

definition f64_of_u64 :: "nat \<Rightarrow> f64" where
  "f64_of_u64 n = Fin (fl_ratio n 1)"

definition fl_rat :: "rat \<Rightarrow> rat" where
  "fl_rat q = (case quotient_of \<bar>q\<bar> of (n, d) \<Rightarrow>
     if q < 0 then - fl_ratio (nat n) (nat d) else fl_ratio (nat n) (nat d))"

fun f64_div :: "f64 \<Rightarrow> f64 \<Rightarrow> f64" where
  "f64_div (Fin a) (Fin b) =
    (if b \<noteq> 0 then Fin (fl_rat (a / b))
     else if a = 0 then NaN else if 0 < a then PInf else NInf)"
| "f64_div (Fin a) PInf = Fin 0"
| "f64_div (Fin a) NInf = Fin 0"
| "f64_div PInf (Fin b) = (if b < 0 then NInf else PInf)"
| "f64_div NInf (Fin b) = (if b < 0 then PInf else NInf)"
| "f64_div x y = NaN"

lemma fl_rat_quot:
  assumes "0 < d"
  shows "fl_rat (quot n d) = fl_ratio n d"
proof -
  obtain p q where pq: "quotient_of (quot n d) = (p, q)"
    by (cases "quotient_of (quot n d)")
  have q: "0 < q"
    using pq by (rule quotient_of_denom_pos)
  have e: "quot n d = of_int p / of_int q"
    using pq by (rule quotient_of_div)
  have "0 \<le> (of_int p / of_int q :: rat)"
    unfolding e [symmetric] by simp
  then have p: "0 \<le> p"
    using q by (simp add: zero_le_divide_iff)
  have "quot (nat p) (nat q) = quot n d"
    using e p q by simp
  then have "fl_ratio (nat p) (nat q) = fl_ratio n d"
    using q assms by (intro fl_ratio_cong) simp_all
  moreover have "\<not> quot n d < 0"
    by (simp add: not_less)
  moreover have "\<bar>quot n d\<bar> = quot n d"
    by simp
  ultimately show ?thesis
    unfolding fl_rat_def by (simp only: pq prod.case if_False)
qed

text \<open>The quotient of two integers of at most 53 bits is the exact quotient rounded once.\<close>

lemma f64_div_exact_args:
  assumes "n < 2 ^ 53" and "0 < d" and "d < 2 ^ 53"
  shows "f64_div (f64_of_u64 n) (f64_of_u64 d) = Fin (fl_ratio n d)"
  using assms by (simp add: f64_of_u64_def fl_ratio_exact [unfolded One_nat_def] fl_rat_quot)

text \<open>
  Comparing a rounded quotient with a whole number loses nothing while the product of the
  number and the denominator stays below 53 bits.
\<close>

lemma fl_ratio_threshold:
  assumes d: "0 < d" and r: "r * d < 2 ^ 53"
  shows "of_nat r \<le> fl_ratio n d \<longleftrightarrow> r * d \<le> n"
proof
  assume "r * d \<le> n"
  moreover have "r \<le> r * d"
    using d by simp
  ultimately have "fl_ratio r 1 \<le> fl_ratio n d"
    using d by (intro fl_ratio_mono) (simp_all add: pos_le_divide_eq flip: of_nat_mult)
  moreover have "fl_ratio r 1 = of_nat r"
    using r \<open>r \<le> r * d\<close> by (intro fl_ratio_exact) linarith
  ultimately show "of_nat r \<le> fl_ratio n d"
    by simp
next
  assume ge: "of_nat r \<le> fl_ratio n d"
  show "r * d \<le> n"
  proof (rule ccontr)
    assume "\<not> r * d \<le> n"
    then have n: "n + 1 \<le> r * d"
      by simp
    have d': "(0::rat) < of_nat d"
      using d by simp
    let ?q = "quot n d"
    have "?q + 1 / of_nat d \<le> of_nat r"
      using n d' by (simp add: pos_divide_le_eq flip: add_divide_distrib of_nat_mult of_nat_Suc)
    moreover have "fl_ratio n d \<le> ?q + ?q / 2 ^ 53"
      using fl_ratio_error [OF d, of n] by linarith
    ultimately have "1 / of_nat d \<le> ?q / 2 ^ 53"
      using ge by linarith
    then have "1 / of_nat d * of_nat d \<le> ?q / 2 ^ 53 * (of_nat d :: rat)"
      using d' by (intro mult_right_mono) simp_all
    then have "2 ^ 53 \<le> (of_nat n :: rat)"
      using d' by simp
    then have "2 ^ 53 \<le> n"
      by (metis of_nat_le_iff of_nat_numeral of_nat_power)
    with n r show False by linarith
  qed
qed

section \<open>Products and casts\<close>

text \<open>
  A product that leaves the range of doubles is infinite. The casts \<open>as u32\<close>, \<open>as u64\<close> and
  \<open>as usize\<close> drop the fraction, saturate, and send \<open>NaN\<close> to zero. A decimal literal is the
  nearest double.
\<close>

definition f64_round :: "rat \<Rightarrow> f64" where
  "f64_round q =
    (let r = fl_rat q in if 2 ^ 1024 \<le> r then PInf else if r \<le> - (2 ^ 1024) then NInf else Fin r)"

fun f64_neg_p :: "f64 \<Rightarrow> bool" where
  "f64_neg_p (Fin a) = (a < 0)"
| "f64_neg_p NInf = True"
| "f64_neg_p x = False"

fun f64_mul :: "f64 \<Rightarrow> f64 \<Rightarrow> f64" where
  "f64_mul NaN y = NaN"
| "f64_mul x NaN = NaN"
| "f64_mul (Fin a) (Fin b) = f64_round (a * b)"
| "f64_mul x y =
    (if x = Fin 0 \<or> y = Fin 0 then NaN else if f64_neg_p x = f64_neg_p y then PInf else NInf)"

definition f64_lit :: "nat \<Rightarrow> nat \<Rightarrow> f64" where
  "f64_lit n d = Fin (fl_ratio n d)"

fun f64_ceil :: "f64 \<Rightarrow> f64" where
  "f64_ceil (Fin a) = Fin (of_int \<lceil>a\<rceil>)"
| "f64_ceil x = x"

fun f64_as_uint :: "nat \<Rightarrow> f64 \<Rightarrow> nat" where
  "f64_as_uint w NaN = 0"
| "f64_as_uint w NInf = 0"
| "f64_as_uint w PInf = 2 ^ w - 1"
| "f64_as_uint w (Fin a) = min (nat \<lfloor>a\<rfloor>) (2 ^ w - 1)"

lemma fl_rat_nonneg: "0 \<le> q \<Longrightarrow> 0 \<le> fl_rat q"
  by (simp add: fl_rat_def split: prod.split)

lemma nonneg_quot:
  assumes "0 \<le> (q :: rat)"
  obtains n d where "0 < d" and "q = quot n d"
proof -
  obtain a b where "quotient_of q = (a, b)"
    by (cases "quotient_of q")
  then have "q = of_int a / of_int b" and "0 < b"
    by (auto dest: quotient_of_div quotient_of_denom_pos)
  moreover from this assms have "0 \<le> a"
    by (simp add: zero_le_divide_iff)
  ultimately have "0 < nat b" and "q = quot (nat a) (nat b)"
    by simp_all
  then show ?thesis by (rule that)
qed

lemma fl_rat_mono_nonneg:
  assumes "0 \<le> p" and "p \<le> q"
  shows "fl_rat p \<le> fl_rat q"
proof -
  obtain n d where p: "0 < d" "p = quot n d"
    by (rule nonneg_quot [OF assms(1)])
  obtain n' d' where q: "0 < d'" "q = quot n' d'"
    by (rule nonneg_quot [OF order_trans [OF assms]])
  show ?thesis
    using assms(2) unfolding p(2) q(2) fl_rat_quot [OF p(1)] fl_rat_quot [OF q(1)]
    by (intro fl_ratio_mono p(1) q(1))
qed

lemma f64_as_uint_le: "f64_as_uint w x \<le> 2 ^ w - 1"
  by (cases x) auto

text \<open>The order of values that are not \<open>NaN\<close>, and what is monotone for it.\<close>

definition f64_le :: "f64 \<Rightarrow> f64 \<Rightarrow> bool" where
  "f64_le x y \<longleftrightarrow> f64_less x y \<or> f64_eq x y"

lemma f64_le_Fin [simp]: "f64_le (Fin a) (Fin b) \<longleftrightarrow> a \<le> b"
  by (auto simp: f64_le_def)

lemma f64_le_PInf [simp]: "f64_le (Fin a) PInf" "f64_le PInf PInf"
  by (simp_all add: f64_le_def)

lemma f64_round_nonneg:
  "0 \<le> q \<Longrightarrow> f64_round q = (if 2 ^ 1024 \<le> fl_rat q then PInf else Fin (fl_rat q))"
  using fl_rat_nonneg [of q] by (simp add: f64_round_def Let_def)

lemma f64_round_mono: "0 \<le> p \<Longrightarrow> p \<le> q \<Longrightarrow> f64_le (f64_round p) (f64_round q)"
  using fl_rat_mono_nonneg [of p q] by (simp add: f64_round_nonneg)

lemma f64_as_uint_mono: "f64_le x y \<Longrightarrow> f64_as_uint w x \<le> f64_as_uint w y"
proof (cases x; cases y)
  fix a b assume "f64_le x y" "x = Fin a" "y = Fin b"
  then show ?thesis
    by (simp add: floor_mono min.coboundedI1 nat_mono)
qed (auto simp: f64_le_def)

lemma f64_ceil_mono: "f64_le x y \<Longrightarrow> f64_le (f64_ceil x) (f64_ceil y)"
proof (cases x; cases y)
  fix a b assume "f64_le x y" "x = Fin a" "y = Fin b"
  then show ?thesis
    by (simp add: ceiling_mono)
qed (auto simp: f64_le_def)

end
