(* ===== verification/Bitcoin_Types.thy ===== *)
theory Bitcoin_Types
  imports Float64
begin

text \<open>
  The data of the \<open>bitcoin\<close> crate that the program handles, and that crate's
  functions as a record of parameters. A hash is a 256-bit word, read as its 32 internal
  bytes by \<open>hash_bytes\<close>; a public field of
  a crate's struct is a field here. What the crate computes (hashing, proof of work, size,
  script classification, serialisation) is a field of \<open>btc\<close>, an argument of every
  definition that uses it.
\<close>

section \<open>Data\<close>

type_synonym hash = "256 word"

definition hash_bytes :: "hash \<Rightarrow> bytes" where
  "hash_bytes h = be_bytes 32 (unat h)"

definition hash_of_bytes :: "bytes \<Rightarrow> hash" where
  "hash_of_bytes bs = of_nat (be_nat bs)"

lemma length_hash_bytes [simp]: "length (hash_bytes h) = 32"
  by (simp add: hash_bytes_def)

lemma unat_hash_less: "unat (h :: hash) < 256 ^ 32"
  using unsigned_less [of h] by simp

lemma hash_of_hash_bytes [simp]: "hash_of_bytes (hash_bytes h) = h"
  using unat_hash_less [of h] by (simp add: hash_of_bytes_def hash_bytes_def be_nat_be_bytes)

lemma hash_bytes_of_bytes: "length bs = 32 \<Longrightarrow> hash_bytes (hash_of_bytes bs) = bs"
  using be_nat_bound [of bs] be_bytes_be_nat [of bs]
  by (simp add: hash_of_bytes_def hash_bytes_def unat_of_nat)

lemma hash_bytes_inject [simp]: "hash_bytes a = hash_bytes b \<longleftrightarrow> a = b"
  by (metis hash_of_hash_bytes)

text \<open>\<open>bitcoin::Network\<close> is a non-exhaustive enum: the last constructor stands for its future variants.\<close>

datatype network = Bitcoin | Testnet | Testnet4 | Signet | Regtest | FutureNetwork nat

record outpoint =
  txid :: hash
  vout :: nat

record txin =
  previous_output :: outpoint
  script_sig :: bytes
  sequence_no :: nat
  witness :: "bytes list"

record txout =
  tx_value :: nat
  script_pubkey :: bytes

record transaction =
  tx_version :: int
  lock_time :: nat
  tx_input :: "txin list"
  tx_output :: "txout list"

record header =
  hdr_version :: "32 word"
  prev_blockhash :: hash
  merkle_root :: hash
  hdr_time :: "32 word"
  hdr_bits :: "32 word"
  hdr_nonce :: "32 word"

record block =
  blk_header :: header
  txdata :: "transaction list"

section \<open>Functions of the crate\<close>

record btc =
  block_hash :: "header \<Rightarrow> hash"
  ser_header :: "header \<Rightarrow> bytes"
  de_header :: "bytes \<Rightarrow> header option"
  pow_ok :: "header \<Rightarrow> bool"
  ser_block :: "block \<Rightarrow> bytes option"
  compute_txid :: "transaction \<Rightarrow> hash"
  tx_weight :: "transaction \<Rightarrow> nat"
  vbytes_ceil :: "nat \<Rightarrow> nat"
  is_coinbase :: "transaction \<Rightarrow> bool"
  is_op_return :: "bytes \<Rightarrow> bool"
  genesis_header :: "network \<Rightarrow> header"
  hash_str :: "hash \<Rightarrow> string"

definition blk_hash :: "btc \<Rightarrow> block \<Rightarrow> hash" where
  "blk_hash L b = block_hash L (blk_header b)"

text \<open>
  What the store relies on: a header that was serialised is read back. What the mempool
  relies on: the virtual size is a quarter of the weight, rounded up.
\<close>

definition hdr_codec_ok :: "btc \<Rightarrow> bool" where
  "hdr_codec_ok L \<longleftrightarrow> (\<forall>h. de_header L (ser_header L h) = Some h)"

definition vbytes_ok :: "btc \<Rightarrow> bool" where
  "vbytes_ok L \<longleftrightarrow> (\<forall>w. vbytes_ceil L w = (w + 3) div 4)"

lemma de_ser_header [simp]: "hdr_codec_ok L \<Longrightarrow> de_header L (ser_header L h) = Some h"
  by (simp add: hdr_codec_ok_def)

end
