(* ===== verification/Config.thy ===== *)
theory Config
  imports Bitcoin_Types
begin

text \<open>
  \<open>wolfe-types\<close>: the configuration records with their defaults
  (\<open>config.rs\<close>), the network names, and the error type of the workspace
  (\<open>error.rs\<close>). The TOML parser and the file system are parameters of
  \<open>config_load\<close>.
\<close>

section \<open>Errors\<close>

datatype wolfe_error =
    ConfigError string
  | ConsensusErr string
  | P2pErr string
  | StorageErr string
  | RpcErr string
  | WalletErr string
  | MempoolErr string
  | IoErr string
  | TomlErr string
  | BitcoinEncodeErr string

section \<open>Configuration records\<close>

record p2p_config =
  p2p_listen :: string
  max_inbound :: nat
  max_outbound :: nat
  prefer_v2_transport :: bool
  dns_seeds :: "string list"
  p2p_connect :: "string list"
  ban_duration_secs :: nat
  p2p_user_agent :: string

definition p2p_config_default :: p2p_config where
  "p2p_config_default =
    \<lparr>p2p_listen = ''0.0.0.0:8333'', max_inbound = 125, max_outbound = 10,
     prefer_v2_transport = True, dns_seeds = [], p2p_connect = [],
     ban_duration_secs = 86400, p2p_user_agent = ''''\<rparr>"

record rpc_config =
  rpc_enabled :: bool
  rpc_listen :: string
  rpc_user :: "string option"
  rpc_password :: "string option"
  rest_enabled :: bool
  cors_origins :: "string list"

definition rpc_config_default :: rpc_config where
  "rpc_config_default =
    \<lparr>rpc_enabled = True, rpc_listen = ''127.0.0.1:8332'', rpc_user = None,
     rpc_password = None, rest_enabled = True, cors_origins = []\<rparr>"

record mempool_config =
  max_size_mb :: nat
  min_fee_rate :: f64
  max_datacarrier_bytes :: nat
  datacarrier :: bool
  full_rbf :: bool
  max_ancestors :: nat
  max_descendants :: nat
  expiry_hours :: nat

definition mempool_config_default :: mempool_config where
  "mempool_config_default =
    \<lparr>max_size_mb = 300, min_fee_rate = Fin 1, max_datacarrier_bytes = 80,
     datacarrier = True, full_rbf = True, max_ancestors = 25, max_descendants = 25,
     expiry_hours = 336\<rparr>"

record wallet_config =
  wallet_enabled :: bool
  db_path :: string
  external_descriptor :: string
  internal_descriptor :: string
  encryption_key :: "string option"

definition wallet_config_default :: wallet_config where
  "wallet_config_default =
    \<lparr>wallet_enabled = False, db_path = ''wallet.sqlite3'', external_descriptor = '''',
     internal_descriptor = '''', encryption_key = None\<rparr>"

record storage_config =
  storage_data_dir :: string
  prune_target_mb :: nat
  db_cache_mb :: nat

text \<open>\<open>dirs_home\<close> reads the environment: its value is the argument.\<close>

definition path_join :: "string \<Rightarrow> string \<Rightarrow> string" where
  "path_join d x =
    (if d = [] then x else if last d = CHR ''/'' then d @ x else d @ ''/'' @ x)"

definition dirs_or_default :: "string option \<Rightarrow> string" where
  "dirs_or_default home =
    (case home of Some d \<Rightarrow> path_join d ''.bitcoinwolfe'' | None \<Rightarrow> ''.bitcoinwolfe'')"

definition storage_config_default :: "string option \<Rightarrow> storage_config" where
  "storage_config_default home =
    \<lparr>storage_data_dir = dirs_or_default home, prune_target_mb = 0, db_cache_mb = 450\<rparr>"

record logging_config =
  log_level :: string
  log_format :: string
  log_file :: "string option"

definition logging_config_default :: logging_config where
  "logging_config_default = \<lparr>log_level = ''info'', log_format = ''text'', log_file = None\<rparr>"

record metrics_config =
  metrics_enabled :: bool
  metrics_listen :: string

definition metrics_config_default :: metrics_config where
  "metrics_config_default = \<lparr>metrics_enabled = True, metrics_listen = ''127.0.0.1:9332''\<rparr>"

record nostr_config =
  nostr_enabled :: bool
  secret_key :: "string option"
  nostr_name :: "string option"
  nostr_about :: "string option"
  nostr_picture :: "string option"
  relays :: "string list"
  block_announcements :: bool
  fee_oracle :: bool
  fee_oracle_interval_secs :: nat
  nip98_auth :: bool
  allowed_pubkeys :: "string list"

definition nostr_config_default :: nostr_config where
  "nostr_config_default =
    \<lparr>nostr_enabled = False, secret_key = None, nostr_name = None, nostr_about = None,
     nostr_picture = None, relays = [''wss://relay.damus.io'', ''wss://nos.lol''],
     block_announcements = True, fee_oracle = True, fee_oracle_interval_secs = 60,
     nip98_auth = False, allowed_pubkeys = []\<rparr>"

record lightning_config =
  ln_enabled :: bool
  ln_listen_port :: nat
  ln_alias :: string
  ln_color :: string
  announced_listen_addrs :: "string list"
  accept_inbound_channels :: bool
  min_channel_size_sat :: nat
  max_channel_size_sat :: nat
  rapid_gossip_sync_url :: "string option"
  persistent_peers :: "string list"

definition lightning_config_default :: lightning_config where
  "lightning_config_default =
    \<lparr>ln_enabled = False, ln_listen_port = 9735, ln_alias = ''BitcoinWolfe'',
     ln_color = ''ff9900'', announced_listen_addrs = [], accept_inbound_channels = True,
     min_channel_size_sat = 20000, max_channel_size_sat = 16777215,
     rapid_gossip_sync_url = None, persistent_peers = []\<rparr>"

record l402_config =
  l402_enabled :: bool
  price_sats :: nat
  token_expiry_secs :: nat
  invoice_expiry_secs :: nat
  invoice_description :: string

definition l402_config_default :: l402_config where
  "l402_config_default =
    \<lparr>l402_enabled = False, price_sats = 10, token_expiry_secs = 3600,
     invoice_expiry_secs = 600, invoice_description = ''BitcoinWolfe API access''\<rparr>"

record network_config =
  chain_name :: string

definition network_config_default :: network_config where
  "network_config_default = \<lparr>chain_name = ''mainnet''\<rparr>"

record config =
  cfg_network :: network_config
  cfg_p2p :: p2p_config
  cfg_rpc :: rpc_config
  cfg_mempool :: mempool_config
  cfg_wallet :: wallet_config
  cfg_storage :: storage_config
  cfg_logging :: logging_config
  cfg_metrics :: metrics_config
  cfg_nostr :: nostr_config
  cfg_lightning :: lightning_config
  cfg_l402 :: l402_config

definition config_default :: "string option \<Rightarrow> config" where
  "config_default home =
    \<lparr>cfg_network = network_config_default, cfg_p2p = p2p_config_default,
     cfg_rpc = rpc_config_default, cfg_mempool = mempool_config_default,
     cfg_wallet = wallet_config_default, cfg_storage = storage_config_default home,
     cfg_logging = logging_config_default, cfg_metrics = metrics_config_default,
     cfg_nostr = nostr_config_default, cfg_lightning = lightning_config_default,
     cfg_l402 = l402_config_default\<rparr>"

section \<open>Operations\<close>

text \<open>\<open>read_file\<close> is \<open>None\<close> where the path does not exist.\<close>

definition config_load ::
    "(string \<Rightarrow> (string + string) option) \<Rightarrow> (string \<Rightarrow> string + config) \<Rightarrow> string option
      \<Rightarrow> string \<Rightarrow> wolfe_error + config" where
  "config_load read_file parse_toml home path =
    (case read_file path of
       None \<Rightarrow> Inr (config_default home)
     | Some (Inl e) \<Rightarrow> Inl (IoErr e)
     | Some (Inr contents) \<Rightarrow>
         (case parse_toml contents of Inl e \<Rightarrow> Inl (TomlErr e) | Inr c \<Rightarrow> Inr c))"

definition bitcoin_network :: "network_config \<Rightarrow> wolfe_error + network" where
  "bitcoin_network c =
    (let s = chain_name c in
     if s = ''mainnet'' \<or> s = ''main'' then Inr Bitcoin
     else if s = ''testnet'' \<or> s = ''testnet3'' then Inr Testnet
     else if s = ''testnet4'' then Inr Testnet
     else if s = ''signet'' then Inr Signet
     else if s = ''regtest'' then Inr Regtest
     else Inl (ConfigError (''unknown network '' @ [CHR 0x27] @ s @ [CHR 0x27] @
       ''. Valid options: mainnet, testnet, testnet4, signet, regtest'')))"

text \<open>The crate version is fixed by the build: it is an argument.\<close>

definition user_agent :: "string \<Rightarrow> string" where
  "user_agent version = ''/BitcoinWolfe:'' @ version @ ''/''"

definition user_agent_or :: "string \<Rightarrow> string \<Rightarrow> string" where
  "user_agent_or version custom = (if custom = [] then user_agent version else custom)"

end
