(* ===== verification/Policy.thy ===== *)
theory Policy
  imports Config
begin

text \<open>
  \<open>wolfe-mempool/src/policy.rs\<close> and \<open>error.rs\<close>: the relay policy. A check is a
  result whose error is the rejection the code returns, in the order of the code.
\<close>

section \<open>Errors\<close>

datatype mempool_error =
    Rejected string
  | FeeTooLow f64 f64
  | TooLarge nat
  | Full f64 nat
  | DatacarrierTooLarge nat nat
  | DatacarrierDisabled
  | TooManyAncestors nat nat
  | TooManyDescendants nat nat
  | Duplicate hash
  | MissingInputs

section \<open>Checks\<close>

text \<open>The loop that looks for an outpoint spent twice.\<close>

fun scan_duplicates :: "btc \<Rightarrow> outpoint set \<Rightarrow> txin list \<Rightarrow> mempool_error + unit" where
  "scan_duplicates L seen [] = Inr ()"
| "scan_duplicates L seen (i # is) =
    (let op = previous_output i in
     if op \<in> seen
     then Inl (Rejected (''duplicate input: '' @ hash_str L (txid op) @ '':'' @ show_nat (vout op)))
     else scan_duplicates L (insert op seen) is)"

definition check_inputs :: "btc \<Rightarrow> transaction \<Rightarrow> mempool_error + unit" where
  "check_inputs L tx =
    (if tx_input tx = [] then Inl (Rejected ''transaction has no inputs'')
     else if is_coinbase L tx
     then Inl (Rejected ''coinbase transactions cannot be in the mempool'')
     else scan_duplicates L {} (tx_input tx))"

fun check_outputs :: "btc \<Rightarrow> mempool_config \<Rightarrow> txout list \<Rightarrow> mempool_error + unit" where
  "check_outputs L cfg [] = Inr ()"
| "check_outputs L cfg (out # outs) =
    (if is_op_return L (script_pubkey out) then
       if \<not> datacarrier cfg then Inl DatacarrierDisabled
       else
         let data_len = length (script_pubkey out) in
         if max_datacarrier_bytes cfg < data_len
         then Inl (DatacarrierTooLarge data_len (max_datacarrier_bytes cfg))
         else check_outputs L cfg outs
     else check_outputs L cfg outs)"

definition check_datacarrier :: "btc \<Rightarrow> mempool_config \<Rightarrow> transaction \<Rightarrow> mempool_error + unit" where
  "check_datacarrier L cfg tx = check_outputs L cfg (tx_output tx)"

definition max_weight :: nat where
  "max_weight = 400000"

definition check_size :: "btc \<Rightarrow> transaction \<Rightarrow> mempool_error + unit" where
  "check_size L tx =
    (let weight = tx_weight L tx in
     if max_weight < weight then Inl (TooLarge weight) else Inr ())"

definition policy_check :: "btc \<Rightarrow> mempool_config \<Rightarrow> transaction \<Rightarrow> mempool_error + unit" where
  "policy_check L cfg tx =
    res_bind (check_inputs L tx) (\<lambda>_.
    res_bind (check_datacarrier L cfg tx) (\<lambda>_.
    check_size L tx))"

definition fee_rate_sat_per_vb :: "btc \<Rightarrow> transaction \<Rightarrow> nat \<Rightarrow> f64" where
  "fee_rate_sat_per_vb L tx fee_sats =
    (let vsize = f64_of_u64 (vbytes_ceil L (tx_weight L tx)) in
     if f64_eq vsize (Fin 0) then Fin 0 else f64_div (f64_of_u64 fee_sats) vsize)"

definition check_fee_rate :: "mempool_config \<Rightarrow> f64 \<Rightarrow> mempool_error + unit" where
  "check_fee_rate cfg fee_rate =
    (if f64_less fee_rate (min_fee_rate cfg)
     then Inl (FeeTooLow fee_rate (min_fee_rate cfg)) else Inr ())"

section \<open>What the checks accept\<close>

named_theorems policy_simps

lemma scan_duplicates_ok [policy_simps]:
  "scan_duplicates L seen is = Inr u \<longleftrightarrow>
    distinct (map previous_output is) \<and> previous_output ` set is \<inter> seen = {}"
  by (induction "is" arbitrary: seen) (auto simp: Let_def)

lemma check_inputs_ok [policy_simps]:
  "check_inputs L tx = Inr u \<longleftrightarrow>
    tx_input tx \<noteq> [] \<and> \<not> is_coinbase L tx \<and> distinct (map previous_output (tx_input tx))"
  by (simp add: check_inputs_def policy_simps)

lemma check_outputs_ok [policy_simps]:
  "check_outputs L cfg outs = Inr u \<longleftrightarrow>
    (\<forall>out \<in> set outs. is_op_return L (script_pubkey out) \<longrightarrow>
      datacarrier cfg \<and> length (script_pubkey out) \<le> max_datacarrier_bytes cfg)"
  by (induction outs) (auto simp: Let_def)

lemma check_size_ok [policy_simps]: "check_size L tx = Inr u \<longleftrightarrow> tx_weight L tx \<le> max_weight"
  by (auto simp: check_size_def Let_def)

lemma check_fee_rate_ok [policy_simps]:
  "check_fee_rate cfg r = Inr u \<longleftrightarrow> \<not> f64_less r (min_fee_rate cfg)"
  by (simp add: check_fee_rate_def)

text \<open>The standardness rules, stated without the order of the checks.\<close>

definition standard_tx :: "btc \<Rightarrow> mempool_config \<Rightarrow> transaction \<Rightarrow> bool" where
  "standard_tx L cfg tx \<longleftrightarrow>
    tx_input tx \<noteq> [] \<and> \<not> is_coinbase L tx \<and> distinct (map previous_output (tx_input tx)) \<and>
    (\<forall>out \<in> set (tx_output tx). is_op_return L (script_pubkey out) \<longrightarrow>
      datacarrier cfg \<and> length (script_pubkey out) \<le> max_datacarrier_bytes cfg) \<and>
    tx_weight L tx \<le> max_weight"

lemma policy_check_ok [policy_simps]: "policy_check L cfg tx = Inr u \<longleftrightarrow> standard_tx L cfg tx"
  by (auto simp: policy_check_def check_datacarrier_def standard_tx_def res_simps policy_simps)

section \<open>The fee rate\<close>

lemma standard_vsize:
  assumes "vbytes_ok L" and "tx_weight L tx \<le> max_weight"
  shows "vbytes_ceil L (tx_weight L tx) \<le> 100000"
  using assms by (simp add: vbytes_ok_def max_weight_def)

lemma fl_ratio_one_zero: "fl_ratio n (Suc 0) = 0 \<longleftrightarrow> n = 0"
proof
  assume z: "fl_ratio n (Suc 0) = 0"
  show "n = 0"
  proof (rule ccontr)
    assume "n \<noteq> 0"
    then have "two_pow (ratio_exp n (Suc 0)) \<le> 0"
      using fl_ratio_bounds [of n "Suc 0"] z by simp
    then show False
      using two_pow_pos [of "ratio_exp n (Suc 0)"] by linarith
  qed
qed simp

lemma fee_rate_finite: "\<exists>q. fee_rate_sat_per_vb L tx fee = Fin q \<and> 0 \<le> q"
proof (cases "vbytes_ceil L (tx_weight L tx) = 0")
  case True
  then show ?thesis
    by (simp add: fee_rate_sat_per_vb_def f64_of_u64_def)
next
  case False
  let ?v = "vbytes_ceil L (tx_weight L tx)"
  have "fl_ratio ?v (Suc 0) \<noteq> 0"
    using False by (simp add: fl_ratio_one_zero)
  moreover have "0 \<le> fl_rat (fl_ratio fee (Suc 0) / fl_ratio ?v (Suc 0))"
  proof -
    have "\<not> fl_ratio fee (Suc 0) / fl_ratio ?v (Suc 0) < 0"
      by (simp add: not_less)
    then show ?thesis
      by (simp add: fl_rat_def split: prod.splits)
  qed
  ultimately show ?thesis
    by (simp add: fee_rate_sat_per_vb_def f64_of_u64_def Let_def)
qed

lemma fee_rate_quotient:
  assumes "0 < vbytes_ceil L (tx_weight L tx)" and "vbytes_ceil L (tx_weight L tx) < 2 ^ 53"
    and "fee < 2 ^ 53"
  shows "fee_rate_sat_per_vb L tx fee = Fin (fl_ratio fee (vbytes_ceil L (tx_weight L tx)))"
  using assms f64_div_exact_args [of fee "vbytes_ceil L (tx_weight L tx)"]
  by (simp add: fee_rate_sat_per_vb_def Let_def f64_of_u64_def fl_ratio_one_zero)

text \<open>A whole minimum rate is enforced exactly, in spite of the rounding.\<close>

lemma fee_rate_threshold:
  assumes "0 < vbytes_ceil L (tx_weight L tx)"
    and "r * vbytes_ceil L (tx_weight L tx) < 2 ^ 53" and "vbytes_ceil L (tx_weight L tx) < 2 ^ 53"
    and "fee < 2 ^ 53" and "min_fee_rate cfg = Fin (of_nat r)"
  shows "check_fee_rate cfg (fee_rate_sat_per_vb L tx fee) = Inr () \<longleftrightarrow>
    r * vbytes_ceil L (tx_weight L tx) \<le> fee"
  using assms fl_ratio_threshold [of "vbytes_ceil L (tx_weight L tx)" r fee]
  by (simp add: policy_simps fee_rate_quotient not_less)

end
