(* ===== verification/Mempool.thy ===== *)
theory Mempool
  imports Policy
begin

text \<open>
  \<open>wolfe-mempool/src/pool.rs\<close>: the transaction pool. The entries of the hash map are an
  association list with distinct keys; where the code walks over the map, the order it
  meets the entries in is an argument (\<open>it\<close>, a permutation). The atomic byte counter is a
  field, its additions and subtractions wrap at 64 bits, and an instant is the argument
  \<open>now\<close>. A call is one step: interleavings of two calls inside their bodies are not
  modelled.
\<close>

section \<open>State\<close>

record mempool_entry =
  me_tx :: transaction
  me_txid :: hash
  me_fee :: nat
  me_fee_rate :: f64
  me_size_vbytes :: nat
  me_added_at :: nat
  me_ancestor_count :: nat
  me_descendant_count :: nat

type_synonym entries = "(hash \<times> mempool_entry) list"

record mempool =
  mp_entries :: entries
  mp_total_bytes :: nat
  mp_policy :: mempool_config
  mp_max_bytes :: nat

definition mempool_new :: "mempool_config \<Rightarrow> mempool" where
  "mempool_new cfg =
    \<lparr>mp_entries = [], mp_total_bytes = 0, mp_policy = cfg,
     mp_max_bytes = w64 (w64 (max_size_mb cfg * 1024) * 1024)\<rparr>"

section \<open>Adding a transaction\<close>

text \<open>The loop that sums the values of the parents' outputs.\<close>

fun resolve_inputs :: "entries \<Rightarrow> txin list \<Rightarrow> nat \<Rightarrow> bool \<Rightarrow> nat \<times> bool" where
  "resolve_inputs es [] input_sum resolved = (input_sum, resolved)"
| "resolve_inputs es (i # is) input_sum resolved =
    (case map_of es (txid (previous_output i)) of
       Some parent \<Rightarrow>
         (let outs = tx_output (me_tx parent); n = vout (previous_output i) in
          if n < length outs
          then resolve_inputs es is (w64 (input_sum + tx_value (outs ! n))) resolved
          else resolve_inputs es is input_sum False)
     | None \<Rightarrow> resolve_inputs es is input_sum False)"

definition output_sum :: "transaction \<Rightarrow> nat" where
  "output_sum tx = foldl (\<lambda>s out. w64 (s + tx_value out)) 0 (tx_output tx)"

definition effective_fee :: "entries \<Rightarrow> transaction \<Rightarrow> nat \<Rightarrow> nat" where
  "effective_fee es tx fee =
    (if fee = 0 then
       (case resolve_inputs es (tx_input tx) 0 True of
          (input_sum, all_inputs_resolved) \<Rightarrow>
            if all_inputs_resolved \<and> 0 < input_sum then sat_sub input_sum (output_sum tx)
            else fee)
     else fee)"

fun count_ancestors :: "entries \<Rightarrow> txin list \<Rightarrow> nat \<Rightarrow> nat" where
  "count_ancestors es [] n = n"
| "count_ancestors es (i # is) n =
    (case map_of es (txid (previous_output i)) of
       Some parent \<Rightarrow> count_ancestors es is (w64 (w64 (n + 1) + me_ancestor_count parent))
     | None \<Rightarrow> count_ancestors es is n)"

fun check_descendants :: "entries \<Rightarrow> nat \<Rightarrow> txin list \<Rightarrow> mempool_error + unit" where
  "check_descendants es limit [] = Inr ()"
| "check_descendants es limit (i # is) =
    (case map_of es (txid (previous_output i)) of
       Some parent \<Rightarrow>
         (if limit \<le> me_descendant_count parent
          then Inl (TooManyDescendants (w64 (me_descendant_count parent + 1)) limit)
          else check_descendants es limit is)
     | None \<Rightarrow> check_descendants es limit is)"

fun bump_parents :: "entries \<Rightarrow> txin list \<Rightarrow> entries" where
  "bump_parents es [] = es"
| "bump_parents es (i # is) =
    (let k = txid (previous_output i) in
     case map_of es k of
       Some parent \<Rightarrow>
         bump_parents
           (AList.update k (parent\<lparr>me_descendant_count := w64 (me_descendant_count parent + 1)\<rparr>) es) is
     | None \<Rightarrow> bump_parents es is)"

definition size_in_mb :: "nat \<Rightarrow> f64" where
  "size_in_mb n = f64_div (f64_of_u64 n) (Fin (1024 * 1024))"

definition mempool_add ::
    "btc \<Rightarrow> nat \<Rightarrow> mempool \<Rightarrow> transaction \<Rightarrow> nat \<Rightarrow> mempool_error + mempool \<times> hash" where
  "mempool_add L now m tx fee =
    (let k = compute_txid L tx; es = mp_entries m; cfg = mp_policy m in
     if map_of es k \<noteq> None then Inl (Duplicate k)
     else
       res_bind (policy_check L cfg tx) (\<lambda>_.
       let eff = effective_fee es tx fee;
           fee_rate = fee_rate_sat_per_vb L tx eff in
       res_bind (if 0 < fee \<or> 0 < eff then check_fee_rate cfg fee_rate else Inr ()) (\<lambda>_.
       let size_vbytes = vbytes_ceil L (tx_weight L tx); current_bytes = mp_total_bytes m in
       if mp_max_bytes m < w64 (current_bytes + size_vbytes)
       then Inl (Full (size_in_mb current_bytes) (mp_max_bytes m div (1024 * 1024)))
       else
         let ancestors = count_ancestors es (tx_input tx) 0 in
         if max_ancestors cfg < ancestors
         then Inl (TooManyAncestors ancestors (max_ancestors cfg))
         else
           res_bind (check_descendants es (max_descendants cfg) (tx_input tx)) (\<lambda>_.
           let entry =
             \<lparr>me_tx = tx, me_txid = k, me_fee = eff, me_fee_rate = fee_rate,
              me_size_vbytes = size_vbytes, me_added_at = now,
              me_ancestor_count = ancestors, me_descendant_count = 0\<rparr>
           in Inr (m\<lparr>mp_entries := bump_parents (AList.update k entry es) (tx_input tx),
                     mp_total_bytes := w64 (current_bytes + size_vbytes)\<rparr>, k)))))"

section \<open>Removing transactions\<close>

definition mempool_remove :: "mempool \<Rightarrow> hash \<Rightarrow> mempool \<times> mempool_entry option" where
  "mempool_remove m k =
    (case map_of (mp_entries m) k of
       Some entry \<Rightarrow>
         (m\<lparr>mp_entries := AList.delete k (mp_entries m),
            mp_total_bytes := sub64 (mp_total_bytes m) (me_size_vbytes entry)\<rparr>, Some entry)
     | None \<Rightarrow> (m, None))"

fun remove_all :: "mempool \<Rightarrow> hash list \<Rightarrow> mempool" where
  "remove_all m [] = m"
| "remove_all m (k # ks) = remove_all (fst (mempool_remove m k)) ks"

definition remove_for_block :: "mempool \<Rightarrow> hash list \<Rightarrow> mempool" where
  "remove_for_block m txids = remove_all m txids"

section \<open>Queries\<close>

definition mempool_get :: "mempool \<Rightarrow> hash \<Rightarrow> mempool_entry option" where
  "mempool_get m k = map_of (mp_entries m) k"

definition mempool_contains :: "mempool \<Rightarrow> hash \<Rightarrow> bool" where
  "mempool_contains m k \<longleftrightarrow> map_of (mp_entries m) k \<noteq> None"

definition mempool_len :: "mempool \<Rightarrow> nat" where
  "mempool_len m = length (mp_entries m)"

definition mempool_is_empty :: "mempool \<Rightarrow> bool" where
  "mempool_is_empty m \<longleftrightarrow> mp_entries m = []"

definition mempool_size_bytes :: "mempool \<Rightarrow> nat" where
  "mempool_size_bytes m = mp_total_bytes m"

definition mempool_total_bytes :: "mempool \<Rightarrow> nat" where
  "mempool_total_bytes m = mp_total_bytes m"

definition mempool_min_fee_rate :: "mempool \<Rightarrow> f64" where
  "mempool_min_fee_rate m = min_fee_rate (mp_policy m)"

type_synonym order = "entries \<Rightarrow> entries"

text \<open>\<open>b.fee_rate.partial_cmp(&a.fee_rate).unwrap_or(Equal)\<close>: highest rate first.\<close>

definition cmp_fee_rate :: "mempool_entry \<Rightarrow> mempool_entry \<Rightarrow> ordering" where
  "cmp_fee_rate a b =
    (case f64_partial_cmp (me_fee_rate b) (me_fee_rate a) of Some o1 \<Rightarrow> o1 | None \<Rightarrow> Equal)"

definition get_sorted_by_fee_rate :: "order \<Rightarrow> mempool \<Rightarrow> mempool_entry list" where
  "get_sorted_by_fee_rate it m = sort_by cmp_fee_rate (map snd (it (mp_entries m)))"

section \<open>Eviction and expiry\<close>

text \<open>The loop pops the vector from its tail: the list is that vector reversed.\<close>

fun trim_loop :: "mempool \<Rightarrow> mempool_entry list \<Rightarrow> mempool" where
  "trim_loop m [] = m"
| "trim_loop m (e # es) =
    (if mp_max_bytes m < mp_total_bytes m
     then trim_loop (fst (mempool_remove m (me_txid e))) es else m)"

definition mempool_trim :: "order \<Rightarrow> mempool \<Rightarrow> mempool" where
  "mempool_trim it m =
    (if mp_total_bytes m \<le> mp_max_bytes m then m
     else trim_loop m (rev (get_sorted_by_fee_rate it m)))"

definition mempool_expire :: "order \<Rightarrow> nat \<Rightarrow> mempool \<Rightarrow> nat \<Rightarrow> mempool" where
  "mempool_expire it now m max_age =
    (let expired = map (me_txid \<circ> snd) (filter (\<lambda>(k, e). max_age < now - me_added_at e)
                     (it (mp_entries m)))
     in remove_all m expired)"

section \<open>The fee histogram\<close>

definition boundaries :: "f64 list" where
  "boundaries = map Fin [500, 200, 100, 50, 20, 10, 5, 2, 1]"

fun bump_bucket :: "f64 \<Rightarrow> (f64 \<times> nat) list \<Rightarrow> (f64 \<times> nat) list" where
  "bump_bucket r [] = []"
| "bump_bucket r ((b, n) # bs) = (if f64_ge r b then (b, n + 1) # bs else (b, n) # bump_bucket r bs)"

definition fee_histogram :: "order \<Rightarrow> mempool \<Rightarrow> (f64 \<times> nat) list" where
  "fee_histogram it m =
    filter (\<lambda>b. 0 < snd b)
      (foldl (\<lambda>bs e. bump_bucket (me_fee_rate (snd e)) bs) (map (\<lambda>b. (b, 0)) boundaries)
        (it (mp_entries m)))"

end
