(* ===== verification/Mempool_Facts.thy ===== *)
theory Mempool_Facts
  imports Mempool
begin

text \<open>
  The facts about the pool: what one call changes, the accounting invariant (the byte
  counter is the sum of the sizes of the entries, every entry passed the policy) and the
  capacity that every sequence of calls keeps.
\<close>

section \<open>Entries up to their descendant count\<close>

definition me_core :: "mempool_entry \<Rightarrow> mempool_entry" where
  "me_core e = e\<lparr>me_descendant_count := 0\<rparr>"

definition core :: "entries \<Rightarrow> entries" where
  "core es = map (\<lambda>(k, e). (k, me_core e)) es"

lemma me_core_simps [simp]:
  "me_tx (me_core e) = me_tx e" "me_txid (me_core e) = me_txid e" "me_fee (me_core e) = me_fee e"
  "me_fee_rate (me_core e) = me_fee_rate e" "me_size_vbytes (me_core e) = me_size_vbytes e"
  "me_added_at (me_core e) = me_added_at e"
  "me_ancestor_count (me_core e) = me_ancestor_count e"
  "me_core (e\<lparr>me_descendant_count := n\<rparr>) = me_core e"
  by (simp_all add: me_core_def)

lemma core_update_same:
  "map_of es k = Some p \<Longrightarrow> me_core p' = me_core p \<Longrightarrow> core (AList.update k p' es) = core es"
  by (induction es) (auto simp: core_def split: if_splits)

lemma core_bump_parents [simp]: "core (bump_parents es is) = core es"
proof (induction es "is" rule: bump_parents.induct)
  case (2 es i "is")
  then show ?case
    by (auto simp: Let_def core_update_same split: option.splits)
qed simp

lemma map_fst_core [simp]: "map fst (core es) = map fst es"
  by (simp add: core_def comp_def case_prod_beta)

lemma core_sizes:
  "map (\<lambda>x. me_size_vbytes (snd x)) (core es) = map (\<lambda>x. me_size_vbytes (snd x)) es"
  by (simp add: core_def comp_def case_prod_beta)

text \<open>How often an input list spends from one parent.\<close>

definition spends :: "hash \<Rightarrow> txin list \<Rightarrow> nat" where
  "spends k is = length (filter (\<lambda>i. txid (previous_output i) = k) is)"

lemma spends_Nil [simp]: "spends k [] = 0"
  by (simp add: spends_def)

lemma spends_Cons [simp]:
  "spends k (i # is) = (if txid (previous_output i) = k then Suc (spends k is) else spends k is)"
  by (simp add: spends_def)

lemma w64_w64_add [simp]: "w64 (w64 a + b) = w64 (a + b)"
  by (simp add: w64_def mod_simps)

text \<open>
  Every input adds one to its parent's count: a parent that is spent twice gains two.
\<close>

lemma map_of_bump_parents:
  "map_of (bump_parents es is) k =
    map_option (\<lambda>e. if spends k is = 0 then e
      else e\<lparr>me_descendant_count := w64 (me_descendant_count e + spends k is)\<rparr>) (map_of es k)"
proof (induction es "is" rule: bump_parents.induct)
  case (1 es)
  then show ?case by (cases "map_of es k") simp_all
next
  case (2 es i "is")
  let ?p = "txid (previous_output i)"
  show ?case
  proof (cases "map_of es ?p")
    case None
    then have "bump_parents es (i # is) = bump_parents es is"
      by (simp add: Let_def)
    moreover have "map_of (bump_parents es is) k = map_option (\<lambda>e. if spends k is = 0 then e
      else e\<lparr>me_descendant_count := w64 (me_descendant_count e + spends k is)\<rparr>) (map_of es k)"
      using 2(1) [OF refl None] .
    ultimately show ?thesis
      using None by (cases "?p = k") (simp_all cong: if_cong)
  next
    case (Some p)
    let ?es = "AList.update ?p (p\<lparr>me_descendant_count := w64 (me_descendant_count p + 1)\<rparr>) es"
    have "bump_parents es (i # is) = bump_parents ?es is"
      using Some by (simp add: Let_def)
    moreover have "map_of (bump_parents ?es is) k = map_option (\<lambda>e. if spends k is = 0 then e
      else e\<lparr>me_descendant_count := w64 (me_descendant_count e + spends k is)\<rparr>) (map_of ?es k)"
      using 2(2) [OF refl Some] .
    ultimately show ?thesis
      using Some by (cases "?p = k") (simp_all cong: if_cong)
  qed
qed

section \<open>The accounting invariant\<close>

definition entry_ok :: "btc \<Rightarrow> mempool_config \<Rightarrow> hash \<Rightarrow> mempool_entry \<Rightarrow> bool" where
  "entry_ok L cfg k e \<longleftrightarrow>
    me_txid e = k \<and> compute_txid L (me_tx e) = k \<and>
    me_size_vbytes e = vbytes_ceil L (tx_weight L (me_tx e)) \<and>
    standard_tx L cfg (me_tx e) \<and>
    me_fee_rate e = fee_rate_sat_per_vb L (me_tx e) (me_fee e) \<and>
    me_ancestor_count e \<le> max_ancestors cfg"

definition entries_ok :: "btc \<Rightarrow> mempool_config \<Rightarrow> entries \<Rightarrow> bool" where
  "entries_ok L cfg es \<longleftrightarrow> keys_distinct es \<and> (\<forall>(k, e) \<in> set es. entry_ok L cfg k e)"

definition pool_bytes :: "entries \<Rightarrow> nat" where
  "pool_bytes es = sum_list (map (\<lambda>x. me_size_vbytes (snd x)) es)"

definition acct_inv :: "btc \<Rightarrow> mempool \<Rightarrow> bool" where
  "acct_inv L m \<longleftrightarrow>
    entries_ok L (mp_policy m) (mp_entries m) \<and>
    mp_total_bytes m = pool_bytes (mp_entries m)"

definition mempool_inv :: "btc \<Rightarrow> mempool \<Rightarrow> bool" where
  "mempool_inv L m \<longleftrightarrow>
    vbytes_ok L \<and> acct_inv L m \<and> mp_total_bytes m \<le> mp_max_bytes m \<and>
    mp_max_bytes m + 100000 < 2 ^ 64"

lemma entry_ok_core [simp]: "entry_ok L cfg k (me_core e) = entry_ok L cfg k e"
  by (simp add: entry_ok_def)

lemma entries_ok_core: "entries_ok L cfg (core es) = entries_ok L cfg es"
  by (simp add: entries_ok_def keys_distinct_def) (auto simp: core_def)

lemma pool_bytes_core: "pool_bytes (core es) = pool_bytes es"
  by (simp add: pool_bytes_def core_sizes)

lemma entries_ok_bump [simp]: "entries_ok L cfg (bump_parents es is) = entries_ok L cfg es"
  by (metis core_bump_parents entries_ok_core)

lemma pool_bytes_bump [simp]: "pool_bytes (bump_parents es is) = pool_bytes es"
  by (metis core_bump_parents pool_bytes_core)

lemma length_bump [simp]: "length (bump_parents es is) = length es"
  by (metis core_bump_parents core_def length_map)

lemma pool_bytes_fresh:
  "map_of es k = None \<Longrightarrow> pool_bytes (AList.update k e es) = pool_bytes es + me_size_vbytes e"
  by (simp add: pool_bytes_def update_fresh)

lemma entries_ok_fresh:
  "entries_ok L cfg es \<Longrightarrow> map_of es k = None \<Longrightarrow> entry_ok L cfg k e \<Longrightarrow>
    entries_ok L cfg (AList.update k e es)"
  by (auto simp: entries_ok_def update_fresh keys_distinct_def map_of_eq_None_iff)

lemma entries_ok_delete: "entries_ok L cfg es \<Longrightarrow> entries_ok L cfg (AList.delete k es)"
  by (auto simp: entries_ok_def set_delete_eq)

lemma pool_bytes_delete:
  "keys_distinct es \<Longrightarrow> map_of es k = Some e \<Longrightarrow>
    pool_bytes es = me_size_vbytes e + pool_bytes (AList.delete k es)"
  unfolding pool_bytes_def by (subst sum_list_delete) simp_all

lemma entries_ok_lookup: "entries_ok L cfg es \<Longrightarrow> map_of es k = Some e \<Longrightarrow> entry_ok L cfg k e"
  by (auto simp: entries_ok_def dest!: map_of_SomeD)

section \<open>One call\<close>

text \<open>What the descendant check accepts.\<close>

lemma check_descendants_ok:
  "check_descendants es limit is = Inr u \<longleftrightarrow>
    (\<forall>i \<in> set is. \<forall>p. map_of es (txid (previous_output i)) = Some p \<longrightarrow> me_descendant_count p < limit)"
  by (induction es limit "is" rule: check_descendants.induct) (auto split: option.splits)

text \<open>The transaction's fee as the pool sees it and whether its rate is enforced.\<close>

definition fee_enforced :: "mempool \<Rightarrow> transaction \<Rightarrow> nat \<Rightarrow> bool" where
  "fee_enforced m tx fee \<longleftrightarrow> 0 < fee \<or> 0 < effective_fee (mp_entries m) tx fee"

definition admissible :: "btc \<Rightarrow> mempool \<Rightarrow> transaction \<Rightarrow> nat \<Rightarrow> bool" where
  "admissible L m tx fee \<longleftrightarrow>
    map_of (mp_entries m) (compute_txid L tx) = None \<and>
    standard_tx L (mp_policy m) tx \<and>
    (fee_enforced m tx fee \<longrightarrow>
      \<not> f64_less (fee_rate_sat_per_vb L tx (effective_fee (mp_entries m) tx fee))
          (min_fee_rate (mp_policy m))) \<and>
    w64 (mp_total_bytes m + vbytes_ceil L (tx_weight L tx)) \<le> mp_max_bytes m \<and>
    count_ancestors (mp_entries m) (tx_input tx) 0 \<le> max_ancestors (mp_policy m) \<and>
    (\<forall>i \<in> set (tx_input tx). \<forall>p. map_of (mp_entries m) (txid (previous_output i)) = Some p \<longrightarrow>
      me_descendant_count p < max_descendants (mp_policy m))"

definition new_entry :: "btc \<Rightarrow> nat \<Rightarrow> mempool \<Rightarrow> transaction \<Rightarrow> nat \<Rightarrow> mempool_entry" where
  "new_entry L now m tx fee =
    (let eff = effective_fee (mp_entries m) tx fee in
     \<lparr>me_tx = tx, me_txid = compute_txid L tx, me_fee = eff,
      me_fee_rate = fee_rate_sat_per_vb L tx eff,
      me_size_vbytes = vbytes_ceil L (tx_weight L tx), me_added_at = now,
      me_ancestor_count = count_ancestors (mp_entries m) (tx_input tx) 0,
      me_descendant_count = 0\<rparr>)"

text \<open>A call accepts exactly the admissible transactions, with this new state.\<close>

lemma mempool_add_iff:
  "mempool_add L now m tx fee = Inr (m', k) \<longleftrightarrow>
    admissible L m tx fee \<and> k = compute_txid L tx \<and>
    m' = m\<lparr>mp_entries :=
             bump_parents (AList.update k (new_entry L now m tx fee) (mp_entries m)) (tx_input tx),
           mp_total_bytes := w64 (mp_total_bytes m + vbytes_ceil L (tx_weight L tx))\<rparr>"
  by (auto simp: mempool_add_def Let_def res_simps policy_simps check_descendants_ok admissible_def
      fee_enforced_def new_entry_def not_less)

text \<open>A refused transaction leaves no trace: the error carries no state.\<close>

lemma mempool_add_Inl:
  "\<not> admissible L m tx fee \<Longrightarrow> \<exists>e. mempool_add L now m tx fee = Inl e"
proof (cases "mempool_add L now m tx fee")
  case (Inr r)
  moreover assume "\<not> admissible L m tx fee"
  ultimately show ?thesis
    by (cases r) (simp add: mempool_add_iff)
qed simp

lemma mempool_add_inv:
  assumes inv: "mempool_inv L m" and add: "mempool_add L now m tx fee = Inr (m', k)"
  shows "mempool_inv L m'"
proof -
  let ?v = "vbytes_ceil L (tx_weight L tx)" and ?e = "new_entry L now m tx fee"
  have adm: "admissible L m tx fee"
    and k: "k = compute_txid L tx"
    and m': "m' = m\<lparr>mp_entries := bump_parents (AList.update k ?e (mp_entries m)) (tx_input tx),
                     mp_total_bytes := w64 (mp_total_bytes m + ?v)\<rparr>"
    using add by (simp_all add: mempool_add_iff)
  have std: "standard_tx L (mp_policy m) tx" and fresh: "map_of (mp_entries m) k = None"
    and cap: "w64 (mp_total_bytes m + ?v) \<le> mp_max_bytes m"
    using adm by (simp_all add: admissible_def k)
  have "?v \<le> 100000"
    using inv std by (intro standard_vsize) (simp_all add: mempool_inv_def standard_tx_def)
  then have sum: "w64 (mp_total_bytes m + ?v) = mp_total_bytes m + ?v"
    using inv by (intro w64_id) (simp add: mempool_inv_def)
  have "entry_ok L (mp_policy m) k ?e"
    using adm std by (simp add: entry_ok_def new_entry_def Let_def k admissible_def)
  then have "entries_ok L (mp_policy m) (AList.update k ?e (mp_entries m))"
    using inv fresh by (intro entries_ok_fresh) (simp_all add: mempool_inv_def acct_inv_def)
  moreover have "me_size_vbytes ?e = ?v"
    by (simp add: new_entry_def Let_def)
  ultimately show ?thesis
    using inv cap fresh sum by (auto simp: m' mempool_inv_def acct_inv_def pool_bytes_fresh)
qed

lemma mempool_remove_acct:
  assumes "acct_inv L m"
  shows "acct_inv L (fst (mempool_remove m k))"
    and "mp_total_bytes (fst (mempool_remove m k)) \<le> mp_total_bytes m"
proof -
  have "keys_distinct (mp_entries m)"
    using assms by (simp add: acct_inv_def entries_ok_def)
  then have "map_of (mp_entries m) k = Some e \<Longrightarrow>
      mp_total_bytes m = me_size_vbytes e + pool_bytes (AList.delete k (mp_entries m))" for e
    using assms pool_bytes_delete [of "mp_entries m" k e] by (simp add: acct_inv_def)
  then show "acct_inv L (fst (mempool_remove m k))"
    and "mp_total_bytes (fst (mempool_remove m k)) \<le> mp_total_bytes m"
    using assms
    by (auto simp: mempool_remove_def acct_inv_def entries_ok_delete sub64_def split: option.splits)
qed

lemma mempool_remove_frame [simp]:
  "mp_policy (fst (mempool_remove m k)) = mp_policy m"
  "mp_max_bytes (fst (mempool_remove m k)) = mp_max_bytes m"
  "mp_entries (fst (mempool_remove m k)) = AList.delete k (mp_entries m)"
  by (auto simp: mempool_remove_def delete_id map_of_eq_None_iff split: option.splits)

lemma mempool_remove_inv: "mempool_inv L m \<Longrightarrow> mempool_inv L (fst (mempool_remove m k))"
  using mempool_remove_acct [of L m k] by (simp add: mempool_inv_def)

lemma remove_all_inv: "mempool_inv L m \<Longrightarrow> mempool_inv L (remove_all m ks)"
  by (induction m ks rule: remove_all.induct) (auto intro: mempool_remove_inv)

lemma remove_all_lookup:
  "map_of (mp_entries (remove_all m ks)) k = (if k \<in> set ks then None else map_of (mp_entries m) k)"
  by (induction m ks rule: remove_all.induct) auto

lemma mempool_trim_noop: "mempool_inv L m \<Longrightarrow> mempool_trim it m = m"
  by (simp add: mempool_trim_def mempool_inv_def)

end
