(* ===== verification/Samples.thy ===== *)
theory Samples
  imports Mempool_Facts
begin

text \<open>
  A concrete instance of the crate's functions, for the witnesses: headers are encoded in
  80 bytes as on the wire, hashes are short numbers taken from the nonce, and the size of
  a transaction is a fixed weight per input and output.
\<close>

definition word_bytes :: "32 word \<Rightarrow> bytes" where
  "word_bytes w = be_bytes 4 (unat w)"

definition bytes_word :: "bytes \<Rightarrow> 32 word" where
  "bytes_word bs = of_nat (be_nat bs)"

definition sample_ser :: "header \<Rightarrow> bytes" where
  "sample_ser h = word_bytes (hdr_version h) @ hash_bytes (prev_blockhash h) @
    hash_bytes (merkle_root h) @ word_bytes (hdr_time h) @ word_bytes (hdr_bits h) @
    word_bytes (hdr_nonce h)"

definition sample_de :: "bytes \<Rightarrow> header option" where
  "sample_de bs =
    (if length bs = 80 then
       Some \<lparr>hdr_version = bytes_word (take 4 bs),
             prev_blockhash = hash_of_bytes (take 32 (drop 4 bs)),
             merkle_root = hash_of_bytes (take 32 (drop 36 bs)),
             hdr_time = bytes_word (take 4 (drop 68 bs)),
             hdr_bits = bytes_word (take 4 (drop 72 bs)),
             hdr_nonce = bytes_word (take 4 (drop 76 bs))\<rparr>
     else None)"

lemma length_word_bytes [simp]: "length (word_bytes w) = 4"
  by (simp add: word_bytes_def)

lemma bytes_word_bytes [simp]: "bytes_word (word_bytes w) = w"
proof -
  have "unat w < 2 ^ 32"
    using unsigned_less [of w] by simp
  then show ?thesis by (simp add: bytes_word_def word_bytes_def)
qed

lemma sample_de_ser: "sample_de (sample_ser h) = Some h"
  by (simp add: sample_de_def sample_ser_def)

definition sample_btc :: btc where
  "sample_btc =
    \<lparr>block_hash = (\<lambda>h. ucast (hdr_nonce h)),
     ser_header = sample_ser, de_header = sample_de,
     pow_ok = (\<lambda>h. hdr_bits h = 0),
     ser_block = (\<lambda>b. Some (sample_ser (blk_header b))),
     compute_txid = (\<lambda>tx. of_nat (lock_time tx)),
     tx_weight = (\<lambda>tx. 400 * (length (tx_input tx) + length (tx_output tx))),
     vbytes_ceil = (\<lambda>w. (w + 3) div 4),
     is_coinbase = (\<lambda>tx. map previous_output (tx_input tx) = [\<lparr>txid = 0, vout = 2 ^ 32 - 1\<rparr>]),
     is_op_return = (\<lambda>s. take 1 s = [0x6a]),
     genesis_header = (\<lambda>n. \<lparr>hdr_version = 1, prev_blockhash = 0, merkle_root = 0, hdr_time = 0,
       hdr_bits = 0, hdr_nonce = 0\<rparr>),
     hash_str = (\<lambda>h. show_nat (unat h))\<rparr>"

lemma sample_btc_simps [simp]:
  "block_hash sample_btc h = ucast (hdr_nonce h)"
  "pow_ok sample_btc h = (hdr_bits h = 0)"
  "ser_block sample_btc b = Some (sample_ser (blk_header b))"
  "compute_txid sample_btc tx = of_nat (lock_time tx)"
  "tx_weight sample_btc tx = 400 * (length (tx_input tx) + length (tx_output tx))"
  "vbytes_ceil sample_btc w = (w + 3) div 4"
  "is_coinbase sample_btc tx =
    (map previous_output (tx_input tx) = [\<lparr>txid = 0, vout = 2 ^ 32 - 1\<rparr>])"
  "is_op_return sample_btc s = (take 1 s = [0x6a])"
  "ser_header sample_btc h = sample_ser h" "de_header sample_btc bs = sample_de bs"
  "hash_str sample_btc k = show_nat (unat k)"
  by (simp_all add: sample_btc_def)

lemma sample_codec_ok [simp]: "hdr_codec_ok sample_btc"
  by (simp add: hdr_codec_ok_def sample_de_ser)

lemma sample_vbytes_ok [simp]: "vbytes_ok sample_btc"
  by (simp add: vbytes_ok_def)

text \<open>Transactions with one output, named by their number, that spend the given outpoints.\<close>

definition sample_tx :: "nat \<Rightarrow> (hash \<times> nat) list \<Rightarrow> nat list \<Rightarrow> transaction" where
  "sample_tx n spent values =
    \<lparr>tx_version = 2, lock_time = n,
     tx_input = map (\<lambda>(k, i). \<lparr>previous_output = \<lparr>txid = k, vout = i\<rparr>, script_sig = [],
       sequence_no = 0, witness = []\<rparr>) spent,
     tx_output = map (\<lambda>v. \<lparr>tx_value = v, script_pubkey = [0x51]\<rparr>) values\<rparr>"

text \<open>What evaluates a call of the pool on these values.\<close>

lemmas pool_eval =
  mempool_add_def mempool_new_def mempool_config_default_def mempool_get_def mempool_len_def
  mempool_remove_def mempool_contains_def policy_simps standard_tx_def sample_tx_def effective_fee_def
  w64_def Let_def max_weight_def policy_check_def check_inputs_def check_datacarrier_def
  check_size_def output_sum_def sat_sub_def sub64_def

text \<open>A pool of two unrelated transactions that pay 1 and 5 satoshi per virtual byte.\<close>

definition sample_entry :: "nat \<Rightarrow> nat \<Rightarrow> mempool_entry" where
  "sample_entry n fee =
    new_entry sample_btc n (mempool_new mempool_config_default) (sample_tx n [(9, n)] [50]) fee"

definition sample_pool :: "nat \<Rightarrow> mempool" where
  "sample_pool limit =
    \<lparr>mp_entries = [(1, sample_entry 1 200), (2, sample_entry 2 1000)], mp_total_bytes = 400,
     mp_policy = mempool_config_default, mp_max_bytes = limit\<rparr>"

lemma sample_entry_ok:
  "0 < fee \<Longrightarrow> entry_ok sample_btc mempool_config_default (of_nat n) (sample_entry n fee)"
  by (simp add: entry_ok_def sample_entry_def new_entry_def pool_eval)

lemma sample_pool_acct [simp]: "acct_inv sample_btc (sample_pool limit)"
  using sample_entry_ok [of 200 1] sample_entry_ok [of 1000 2]
  by (simp add: acct_inv_def entries_ok_def keys_distinct_def pool_bytes_def sample_pool_def)
    (simp add: sample_entry_def new_entry_def pool_eval)

end
