(* ===== verification/Mempool_Props.thy ===== *)
theory Mempool_Props
  imports Mempool_Facts Samples
begin

text \<open>
  The properties of the pool: admission, capacity over every sequence of calls, eviction,
  ordering, expiry, the histogram and the limits the code does not enforce.
\<close>

section \<open>The order by fee rate\<close>

definition finite_rate :: "mempool_entry \<Rightarrow> bool" where
  "finite_rate e \<longleftrightarrow> (\<exists>q. me_fee_rate e = Fin q)"

lemma entry_ok_finite: "entry_ok L cfg k e \<Longrightarrow> finite_rate e"
  using fee_rate_finite [of L "me_tx e" "me_fee e"] by (auto simp: entry_ok_def finite_rate_def)

lemma f64_ge_Fin [simp]: "f64_ge (Fin p) (Fin q) \<longleftrightarrow> q \<le> p"
  by (auto simp: f64_ge_def)

lemma cmp_fee_rate_Greater:
  "finite_rate a \<Longrightarrow> finite_rate b \<Longrightarrow>
    cmp_fee_rate a b \<noteq> Greater \<longleftrightarrow> f64_ge (me_fee_rate a) (me_fee_rate b)"
  by (auto simp: finite_rate_def cmp_fee_rate_def f64_partial_cmp_def)

lemma preorder_fee_rate: "preorder_on {e. finite_rate e} cmp_fee_rate"
proof -
  have "finite_rate a \<Longrightarrow> finite_rate b \<Longrightarrow> cmp_fee_rate a b = Greater \<Longrightarrow> cmp_fee_rate b a \<noteq> Greater"
    for a b
    by (auto simp: finite_rate_def cmp_fee_rate_def f64_partial_cmp_def split: if_splits)
  moreover have "finite_rate a \<Longrightarrow> finite_rate b \<Longrightarrow> finite_rate d \<Longrightarrow> cmp_fee_rate a b \<noteq> Greater \<Longrightarrow>
      cmp_fee_rate b d \<noteq> Greater \<Longrightarrow> cmp_fee_rate a d \<noteq> Greater" for a b d
    by (simp add: cmp_fee_rate_Greater) (auto simp: finite_rate_def)
  ultimately show ?thesis
    unfolding preorder_on_def by blast
qed

text \<open>An iteration order of a map is any permutation of its entries.\<close>

definition is_order :: "order \<Rightarrow> bool" where
  "is_order it \<longleftrightarrow> (\<forall>es. mset (it es) = mset es)"

lemma set_order [simp]: "is_order it \<Longrightarrow> set (it es) = set es"
  by (metis is_order_def set_mset_mset)

lemma length_order [simp]: "is_order it \<Longrightarrow> length (it es) = length es"
  by (metis is_order_def size_mset)

lemma sorted_get_sorted:
  assumes "entries_ok L cfg (mp_entries m)" and "is_order it"
  shows "sorted_wrt (\<lambda>a b. f64_ge (me_fee_rate a) (me_fee_rate b)) (get_sorted_by_fee_rate it m)"
    and "set (get_sorted_by_fee_rate it m) = snd ` set (mp_entries m)"
proof -
  have fin: "\<forall>e \<in> snd ` set (mp_entries m). finite_rate e"
    using assms(1) entry_ok_finite by (fastforce simp: entries_ok_def)
  have "sorted_wrt (\<lambda>a b. cmp_fee_rate a b \<noteq> Greater) (get_sorted_by_fee_rate it m)"
    unfolding get_sorted_by_fee_rate_def using fin assms(2)
    by (intro sorted_sort_by [OF preorder_fee_rate]) auto
  moreover show s: "set (get_sorted_by_fee_rate it m) = snd ` set (mp_entries m)"
    using assms(2) by (simp add: get_sorted_by_fee_rate_def)
  ultimately show "sorted_wrt (\<lambda>a b. f64_ge (me_fee_rate a) (me_fee_rate b)) (get_sorted_by_fee_rate it m)"
    using fin by (elim sorted_wrt_mono_rel [rotated]) (metis cmp_fee_rate_Greater)
qed

section \<open>Eviction\<close>

lemma remove_all_frame [simp]:
  "mp_max_bytes (remove_all m ks) = mp_max_bytes m" "mp_policy (remove_all m ks) = mp_policy m"
  by (induction m ks rule: remove_all.induct) auto

lemma remove_all_acct: "acct_inv L m \<Longrightarrow> acct_inv L (remove_all m ks)"
  by (induction m ks rule: remove_all.induct) (auto intro: mempool_remove_acct)

lemma trim_loop_prefix: "\<exists>n. trim_loop m es = remove_all m (map me_txid (take n es))"
proof (induction m es rule: trim_loop.induct)
  case (1 m)
  show ?case by simp
next
  case (2 m e es)
  show ?case
  proof (cases "mp_max_bytes m < mp_total_bytes m")
    case True
    with 2 obtain n where
      "trim_loop (fst (mempool_remove m (me_txid e))) es =
        remove_all (fst (mempool_remove m (me_txid e))) (map me_txid (take n es))"
      by blast
    with True have "trim_loop m (e # es) = remove_all m (map me_txid (take (Suc n) (e # es)))"
      by simp
    then show ?thesis ..
  next
    case False
    then have "trim_loop m (e # es) = remove_all m (map me_txid (take 0 (e # es)))"
      by simp
    then show ?thesis ..
  qed
qed

lemma trim_loop_fits:
  assumes "acct_inv L m" and "snd ` set (mp_entries m) \<subseteq> set es"
  shows "mp_total_bytes (trim_loop m es) \<le> mp_max_bytes m"
  using assms
proof (induction m es rule: trim_loop.induct)
  case (1 m)
  then show ?case by (simp add: acct_inv_def pool_bytes_def)
next
  case (2 m e es)
  let ?m = "fst (mempool_remove m (me_txid e))"
  have "snd ` set (mp_entries ?m) \<subseteq> set es"
  proof
    fix x assume "x \<in> snd ` set (mp_entries ?m)"
    then obtain k where k: "(k, x) \<in> set (mp_entries m)" "k \<noteq> me_txid e"
      by (auto simp: set_delete_eq)
    then have "me_txid x = k"
      using 2(2) by (auto simp: acct_inv_def entries_ok_def entry_ok_def)
    with k 2(3) show "x \<in> set es" by force
  qed
  then show ?case
    using 2(1) mempool_remove_acct(1) [OF 2(2)] by simp
qed

section \<open>Sequences of calls\<close>

datatype mempool_op =
    AddTx nat transaction nat
  | RemoveTx hash
  | RemoveForBlock "hash list"
  | TrimPool
  | ExpirePool nat nat

fun mempool_step :: "btc \<Rightarrow> order \<Rightarrow> mempool \<Rightarrow> mempool_op \<Rightarrow> mempool" where
  "mempool_step L it m (AddTx now tx fee) =
    (case mempool_add L now m tx fee of Inl e \<Rightarrow> m | Inr (m', k) \<Rightarrow> m')"
| "mempool_step L it m (RemoveTx k) = fst (mempool_remove m k)"
| "mempool_step L it m (RemoveForBlock ks) = remove_for_block m ks"
| "mempool_step L it m TrimPool = mempool_trim it m"
| "mempool_step L it m (ExpirePool now age) = mempool_expire it now m age"

lemma mempool_step_inv: "mempool_inv L m \<Longrightarrow> mempool_inv L (mempool_step L it m x)"
proof (cases x)
  case (AddTx now tx fee)
  moreover assume "mempool_inv L m"
  ultimately show ?thesis
    by (auto split: sum.splits intro: mempool_add_inv)
qed (simp_all add: mempool_remove_inv remove_all_inv remove_for_block_def mempool_trim_noop
      mempool_expire_def Let_def)

lemma mempool_step_frame [simp]:
  "mp_policy (mempool_step L it m x) = mp_policy m"
  "mp_max_bytes (mempool_step L it m x) = mp_max_bytes m"
proof -
  have "mp_policy (trim_loop m es) = mp_policy m \<and> mp_max_bytes (trim_loop m es) = mp_max_bytes m" for m es
    by (induction m es rule: trim_loop.induct) auto
  then show "mp_policy (mempool_step L it m x) = mp_policy m"
    and "mp_max_bytes (mempool_step L it m x) = mp_max_bytes m"
    by (cases x; auto simp: mempool_add_iff remove_for_block_def mempool_trim_def mempool_expire_def
        Let_def split: sum.splits)+
qed

text \<open>The configuration and the limit never change, so the invariant carries them along.\<close>

definition pool_inv :: "btc \<Rightarrow> mempool_config \<Rightarrow> nat \<Rightarrow> mempool \<Rightarrow> bool" where
  "pool_inv L cfg limit m \<longleftrightarrow> mempool_inv L m \<and> mp_policy m = cfg \<and> mp_max_bytes m = limit"

interpretation pool: machine "mempool_step L it" "pool_inv L cfg limit" for L it cfg limit
  by unfold_locales (simp add: pool_inv_def mempool_step_inv)

lemma mempool_new_inv:
  assumes "vbytes_ok L" and "max_size_mb cfg < 2 ^ 43"
  shows "mempool_inv L (mempool_new cfg)"
proof -
  have "max_size_mb cfg * 1024 < 2 ^ 64" "max_size_mb cfg * 1024 * 1024 + 100000 < 2 ^ 64"
    using assms(2) by simp_all
  then show ?thesis
    using assms(1)
    by (simp add: mempool_inv_def acct_inv_def mempool_new_def entries_ok_def pool_bytes_def u64_simps)
qed

lemma pool_run_inv:
  assumes "vbytes_ok L" and "max_size_mb cfg < 2 ^ 43"
  shows "pool_inv L cfg (max_size_mb cfg * 1024 * 1024)
    (foldl (mempool_step L it) (mempool_new cfg) ops)"
proof (rule pool.run_inv)
  have "w64 (w64 (max_size_mb cfg * 1024) * 1024) = max_size_mb cfg * 1024 * 1024"
    using assms(2) by (simp add: u64_simps)
  then show "pool_inv L cfg (max_size_mb cfg * 1024 * 1024) (mempool_new cfg)"
    using mempool_new_inv [OF assms] by (simp add: pool_inv_def mempool_new_def)
qed

section \<open>The histogram\<close>

text \<open>The bucket of a rate is the first boundary it reaches.\<close>

definition bucket :: "f64 list \<Rightarrow> f64 \<Rightarrow> f64 option" where
  "bucket bs r = find (\<lambda>b. f64_ge r b) bs"

lemma bucket_Cons: "bucket (b # bs) r = (if f64_ge r b then Some b else bucket bs r)"
  by (simp add: bucket_def)

lemma bucket_in: "bucket bs r = Some b \<Longrightarrow> b \<in> set bs"
  by (induction bs) (auto simp: bucket_def split: if_splits)

lemma bump_bucket_map:
  "distinct bs \<Longrightarrow>
    bump_bucket r (map (\<lambda>b. (b, c b)) bs) =
    map (\<lambda>b. (b, if bucket bs r = Some b then c b + 1 else c b)) bs"
proof (induction bs)
  case Nil
  then show ?case by simp
next
  case (Cons x xs)
  then have "bucket xs r \<noteq> Some x"
    by (auto dest: bucket_in)
  with Cons show ?case
    by (auto simp: bucket_Cons)
qed

lemma foldl_bump_bucket:
  assumes "distinct bs"
  shows "foldl (\<lambda>hs e. bump_bucket (f e) hs) (map (\<lambda>b. (b, c b)) bs) es =
    map (\<lambda>b. (b, c b + length (filter (\<lambda>e. bucket bs (f e) = Some b) es))) bs"
proof (induction es arbitrary: c)
  case Nil
  then show ?case by simp
next
  case (Cons e es)
  show ?case
    using Cons.IH [of "\<lambda>b. if bucket bs (f e) = Some b then c b + 1 else c b"]
    by (simp add: bump_bucket_map [OF assms])
qed

lemma distinct_boundaries: "distinct boundaries"
  by (simp add: boundaries_def)

lemma fee_histogram_eq:
  "fee_histogram it m =
    filter (\<lambda>b. 0 < snd b)
      (map (\<lambda>b. (b, length (filter (\<lambda>e. bucket boundaries (me_fee_rate (snd e)) = Some b)
        (it (mp_entries m))))) boundaries)"
  using foldl_bump_bucket [OF distinct_boundaries, of "\<lambda>e. me_fee_rate (snd e)" "\<lambda>_. 0"
      "it (mp_entries m)"]
  by (simp add: fee_histogram_def)

section \<open>Properties\<close>

text \<open>
  C3: After any sequence of additions, removals, block confirmations, trims and expiries
  on a fresh pool, the byte counter is exactly the sum of the virtual sizes of the
  entries, it never passes the configured limit, and every entry sits under its own
  transaction id and satisfies the standardness rules and the ancestor limit.
\<close>

theorem mempool_capacity:
  assumes "vbytes_ok L" and "max_size_mb cfg < 2 ^ 43"
    and m: "m = foldl (mempool_step L it) (mempool_new cfg) ops"
  shows "mp_total_bytes m = pool_bytes (mp_entries m) \<and>
    mp_total_bytes m \<le> max_size_mb cfg * 1024 * 1024 \<and>
    (\<forall>k e. mempool_get m k = Some e \<longrightarrow>
      compute_txid L (me_tx e) = k \<and> standard_tx L cfg (me_tx e) \<and>
      me_ancestor_count e \<le> max_ancestors cfg)"
proof -
  have inv: "pool_inv L cfg (max_size_mb cfg * 1024 * 1024) m"
    unfolding m by (rule pool_run_inv [OF assms(1,2)])
  then have "entry_ok L cfg k e" if "mempool_get m k = Some e" for k e
    using that entries_ok_lookup [of L cfg "mp_entries m" k e]
    by (auto simp: pool_inv_def mempool_inv_def acct_inv_def mempool_get_def)
  with inv show ?thesis
    by (auto simp: pool_inv_def mempool_inv_def acct_inv_def entry_ok_def)
qed

text \<open>
  C?: A call of \<open>add\<close> accepts exactly the admissible transactions: not yet in the pool,
  standard, paying the minimum rate where the fee is known, fitting the capacity, within the
  ancestor limit and with every in-pool parent below its descendant limit.
\<close>

theorem mempool_add_accepts:
  "(\<exists>m'. mempool_add L now m tx fee = Inr (m', k)) \<longleftrightarrow>
    k = compute_txid L tx \<and>
    \<not> mempool_contains m k \<and> standard_tx L (mp_policy m) tx \<and>
    (fee_enforced m tx fee \<longrightarrow>
      \<not> f64_less (fee_rate_sat_per_vb L tx (effective_fee (mp_entries m) tx fee))
          (min_fee_rate (mp_policy m))) \<and>
    w64 (mp_total_bytes m + vbytes_ceil L (tx_weight L tx)) \<le> mp_max_bytes m \<and>
    count_ancestors (mp_entries m) (tx_input tx) 0 \<le> max_ancestors (mp_policy m) \<and>
    (\<forall>i \<in> set (tx_input tx). \<forall>p. mempool_get m (txid (previous_output i)) = Some p \<longrightarrow>
      me_descendant_count p < max_descendants (mp_policy m))"
  by (auto simp: mempool_add_iff admissible_def mempool_contains_def mempool_get_def)

text \<open>
  What an accepted transaction changes: its entry appears with no descendants of its
  own, each parent's descendant count grows by the number of inputs that spend it, every
  other entry stays as it was and the pool grows by one entry.
\<close>

theorem mempool_add_effect:
  assumes "mempool_add L now m tx fee = Inr (m', k)" and "spends k (tx_input tx) = 0"
  shows "mempool_get m' k = Some (new_entry L now m tx fee) \<and>
    (\<forall>q. q \<noteq> k \<longrightarrow> mempool_get m' q =
      (if spends q (tx_input tx) = 0 then mempool_get m q
       else map_option (\<lambda>e. e\<lparr>me_descendant_count :=
         w64 (me_descendant_count e + spends q (tx_input tx))\<rparr>) (mempool_get m q))) \<and>
    mempool_len m' = Suc (mempool_len m)"
  using assms
  by (auto simp: mempool_add_iff mempool_get_def mempool_len_def map_of_bump_parents admissible_def
      length_update_fresh option.map_ident cong: if_cong)

text \<open>
  C?: With a whole minimum fee rate, \<open>add\<close> refuses a standard new transaction for its fee
  exactly when the fee it is told is below the rate times the virtual size: the rounding
  of the floating-point quotient never lets a cheaper transaction in nor keeps a paying
  one out.
\<close>

theorem mempool_fee_floor:
  assumes "vbytes_ok L" and "min_fee_rate (mp_policy m) = Fin (of_nat r)" and "r < 2 ^ 36"
    and "0 < fee" and "fee < 2 ^ 53" and "0 < tx_weight L tx"
    and "\<not> mempool_contains m (compute_txid L tx)" and "standard_tx L (mp_policy m) tx"
  shows "(\<exists>rate. mempool_add L now m tx fee = Inl (FeeTooLow rate (Fin (of_nat r)))) \<longleftrightarrow>
    fee < r * vbytes_ceil L (tx_weight L tx)"
proof -
  let ?v = "vbytes_ceil L (tx_weight L tx)"
  have v: "0 < ?v" "?v \<le> 100000"
    using assms(1,6,8) standard_vsize [of L tx]
    by (simp_all add: vbytes_ok_def standard_tx_def)
  have "r * ?v \<le> 2 ^ 36 * 100000"
    using v(2) assms(3) by (intro mult_le_mono) simp_all
  then have rv: "r * ?v < 2 ^ 53"
    by simp
  have "effective_fee (mp_entries m) tx fee = fee"
    using assms(4) by (simp add: effective_fee_def)
  moreover have "check_fee_rate (mp_policy m) (fee_rate_sat_per_vb L tx fee) = Inr () \<longleftrightarrow> r * ?v \<le> fee"
    using assms v rv by (intro fee_rate_threshold) simp_all
  moreover have "check_descendants es n is \<noteq> Inl (FeeTooLow x y)" for es n "is" x y
    by (induction es n "is" rule: check_descendants.induct) (auto split: option.splits)
  moreover have "policy_check L (mp_policy m) tx = Inr ()"
    using assms(8) by (simp add: policy_simps)
  ultimately show ?thesis
    using assms(2,4,7)
    by (auto simp: mempool_add_def mempool_contains_def Let_def res_simps check_fee_rate_def
        split: if_splits)
qed

text \<open>
  When the pool cannot work out the fee itself and the caller gives none, the minimum
  fee rate plays no part in the decision.
\<close>

theorem mempool_unknown_fee_unchecked:
  assumes "i \<in> set (tx_input tx)" and "\<not> mempool_contains m (txid (previous_output i))"
  shows "res_is_ok (mempool_add L now (m\<lparr>mp_policy := (mp_policy m)\<lparr>min_fee_rate := r\<rparr>\<rparr>) tx 0) \<longleftrightarrow>
    res_is_ok (mempool_add L now m tx 0)"
proof -
  have keep: "\<not> snd (resolve_inputs es is s False)" for es "is" s
    by (induction es "is" s False rule: resolve_inputs.induct) (auto simp: Let_def split: option.splits)
  have "i \<in> set is \<Longrightarrow> map_of es (txid (previous_output i)) = None \<Longrightarrow>
      \<not> snd (resolve_inputs es is s b)" for es "is" s b
  proof (induction es "is" s b rule: resolve_inputs.induct)
    case (2 es j "is" s b)
    then show ?case
      by (cases "map_of es (txid (previous_output j))") (auto simp: Let_def keep)
  qed simp
  then have "effective_fee (mp_entries m) tx 0 = 0"
    using assms by (auto simp: effective_fee_def mempool_contains_def split: prod.splits)
      (metis snd_conv)
  then show ?thesis
    by (simp add: res_is_ok_iff mempool_add_iff admissible_def fee_enforced_def standard_tx_def)
qed

text \<open>
  Trimming an over-full pool (accounting intact, any iteration order of the map) brings
  it within its limit, keeps the accounting, and evicts only transactions that pay no more
  per virtual byte than every transaction it keeps.
\<close>

theorem mempool_trim_evicts_cheapest:
  assumes acct: "acct_inv L m" and it: "is_order it"
  shows "mp_total_bytes (mempool_trim it m) \<le> mp_max_bytes m \<and> acct_inv L (mempool_trim it m) \<and>
    (\<forall>k e k' e'. mempool_get (mempool_trim it m) k = Some e \<longrightarrow>
      mempool_get m k' = Some e' \<longrightarrow> mempool_get (mempool_trim it m) k' = None \<longrightarrow>
      f64_ge (me_fee_rate e) (me_fee_rate e'))"
proof (cases "mp_total_bytes m \<le> mp_max_bytes m")
  case True
  then show ?thesis
    using acct by (simp add: mempool_trim_def)
next
  case False
  define es where "es = rev (get_sorted_by_fee_rate it m)"
  have ok: "entries_ok L (mp_policy m) (mp_entries m)"
    using acct by (simp add: acct_inv_def)
  note sorted = sorted_get_sorted [OF ok it]
  have set: "set es = snd ` set (mp_entries m)"
    using sorted(2) by (simp add: es_def)
  have asc: "sorted_wrt (\<lambda>a b. f64_ge (me_fee_rate b) (me_fee_rate a)) es"
    using sorted(1) by (simp add: es_def sorted_wrt_rev)
  have trim: "mempool_trim it m = trim_loop m es"
    using False by (simp add: mempool_trim_def es_def)
  obtain n where n: "trim_loop m es = remove_all m (map me_txid (take n es))"
    using trim_loop_prefix by blast
  have look: "mempool_get (mempool_trim it m) k =
      (if k \<in> me_txid ` set (take n es) then None else mempool_get m k)" for k
    by (simp add: trim n mempool_get_def remove_all_lookup)
  have "f64_ge (me_fee_rate e) (me_fee_rate e')"
    if keep: "mempool_get (mempool_trim it m) k = Some e" and old: "mempool_get m k' = Some e'"
      and gone: "mempool_get (mempool_trim it m) k' = None" for k e k' e'
  proof -
    have k: "mempool_get m k = Some e" "k \<notin> me_txid ` set (take n es)"
      using keep by (auto simp: look split: if_splits)
    have e: "e \<in> set es" "me_txid e = k"
      using k(1) entries_ok_lookup [OF ok, of k e]
      by (force simp: set mempool_get_def entry_ok_def dest: map_of_SomeD)+
    then have "e \<in> set (drop n es)"
      using k(2) by (metis append_take_drop_id image_eqI set_append Un_iff)
    moreover obtain x where x: "x \<in> set (take n es)" "me_txid x = k'"
      using gone old by (auto simp: look split: if_splits)
    have "x = e'"
    proof -
      obtain kx where kx: "(kx, x) \<in> set (mp_entries m)"
        using x(1) in_set_takeD [OF x(1)] by (auto simp: set)
      then have "kx = k'"
        using ok x(2) by (auto simp: entries_ok_def entry_ok_def)
      then show ?thesis
        using kx old ok map_of_keys_distinct [of "mp_entries m" k' x]
        by (simp add: mempool_get_def entries_ok_def)
    qed
    ultimately show ?thesis
      using asc x(1) by (metis append_take_drop_id sorted_wrt_append)
  qed
  moreover have "acct_inv L (mempool_trim it m)"
    using acct by (simp add: trim n remove_all_acct)
  moreover have "mp_total_bytes (mempool_trim it m) \<le> mp_max_bytes m"
    unfolding trim by (rule trim_loop_fits [OF acct]) (simp add: set)
  ultimately show ?thesis by blast
qed

text \<open>
  In every state that calls on a fresh pool can reach, trimming changes nothing: a full
  pool refuses a newcomer instead of evicting a cheaper transaction for it.
\<close>

theorem mempool_trim_idle:
  assumes "vbytes_ok L" and "max_size_mb cfg < 2 ^ 43"
  shows "mempool_trim it (foldl (mempool_step L it) (mempool_new cfg) ops) =
    foldl (mempool_step L it) (mempool_new cfg) ops"
  using pool_run_inv [OF assms, of it ops] by (intro mempool_trim_noop) (auto simp: pool_inv_def)

text \<open>
  The listing by fee rate holds every entry of the pool once, from the highest rate to
  the lowest, whatever order the map is walked in.
\<close>

theorem mempool_sorted_listing:
  assumes "acct_inv L m" and "is_order it"
  shows "mset (get_sorted_by_fee_rate it m) = image_mset snd (mset (mp_entries m)) \<and>
    sorted_wrt (\<lambda>a b. f64_ge (me_fee_rate a) (me_fee_rate b)) (get_sorted_by_fee_rate it m)"
  using assms sorted_get_sorted(1) [of L "mp_policy m" m it]
  by (simp add: get_sorted_by_fee_rate_def acct_inv_def is_order_def)

text \<open>
  Expiry removes exactly the entries older than the given age, and a block removes
  exactly the transactions it confirms; both leave the other entries as they were.
\<close>

theorem mempool_removals_exact:
  assumes "acct_inv L m" and "is_order it"
  shows "mempool_get (mempool_expire it now m age) k =
      (case mempool_get m k of
         Some e \<Rightarrow> if age < now - me_added_at e then None else Some e
       | None \<Rightarrow> None) \<and>
    mempool_get (remove_for_block m ks) k = (if k \<in> set ks then None else mempool_get m k)"
proof -
  have ok: "entries_ok L (mp_policy m) (mp_entries m)"
    using assms(1) by (simp add: acct_inv_def)
  have in_iff: "(k, e) \<in> set (mp_entries m) \<longleftrightarrow> mempool_get m k = Some e" for k e
    using ok map_of_keys_distinct by (fastforce simp: entries_ok_def mempool_get_def)
  have "k \<in> (me_txid \<circ> snd) ` {x \<in> set (mp_entries m). age < now - me_added_at (snd x)} \<longleftrightarrow>
      (\<exists>e. mempool_get m k = Some e \<and> age < now - me_added_at e)"
    using ok in_iff by (force simp: entries_ok_def entry_ok_def)
  then show ?thesis
    using assms(2)
    by (auto simp: mempool_expire_def Let_def remove_for_block_def mempool_get_def remove_all_lookup
        case_prod_unfold split: option.splits)
qed

text \<open>
  The histogram has one bucket per boundary that some entry reaches first, in falling
  order of rate, and counts in it the entries whose rate is at least that boundary and
  below every higher one.
\<close>

theorem fee_histogram_counts:
  assumes "is_order it"
  shows "((b, n) \<in> set (fee_histogram it m) \<longleftrightarrow>
      b \<in> set boundaries \<and> 0 < n \<and>
      n = size (filter_mset (\<lambda>e. bucket boundaries (me_fee_rate (snd e)) = Some b) (mset (mp_entries m))))
    \<and> sorted_wrt (\<lambda>x y. f64_less (fst y) (fst x)) (fee_histogram it m)"
proof -
  have "length (filter P (it es)) = size (filter_mset P (mset es))" for P es
    using assms by (metis is_order_def mset_filter size_mset)
  moreover have "sorted_wrt (\<lambda>x y. f64_less (fst y) (fst x)) (map (\<lambda>b. (b, f b)) boundaries)"
    for f :: "f64 \<Rightarrow> nat"
    by (simp add: boundaries_def)
  ultimately show ?thesis
    by (auto simp: fee_histogram_eq sorted_wrt_filter)
qed

text \<open>
  The descendant limit is not a limit on the counts: a transaction that spends one
  parent through two outputs is admitted while the parent is below the limit and lifts it
  above.
\<close>

theorem descendant_limit_overshoot:
  "\<exists>cfg ops k e.
     mempool_get (foldl (mempool_step sample_btc id) (mempool_new cfg) ops) k = Some e \<and>
     max_descendants cfg < me_descendant_count e"
proof -
  let ?cfg = "mempool_config_default\<lparr>max_descendants := 1\<rparr>"
  let ?parent = "sample_tx 1 [(9, 0)] [50, 50]"
  let ?child = "sample_tx 2 [(1, 0), (1, 1), (9, 5)] [90]"
  let ?ops = "[AddTx 0 ?parent 0, AddTx 0 ?child 0]"
  let ?m = "foldl (mempool_step sample_btc id) (mempool_new ?cfg) ?ops"
  have "\<exists>e. mempool_get ?m 1 = Some e \<and> me_descendant_count e = 2"
    by (simp add: pool_eval)
  then obtain e where "mempool_get ?m 1 = Some e" "me_descendant_count e = 2"
    by blast
  then have "mempool_get ?m 1 = Some e \<and> max_descendants ?cfg < me_descendant_count e"
    by simp
  then show ?thesis by blast
qed

text \<open>
  Removing a transaction does not give its parents their descendant slots back: after a
  child is removed the parent, alone in the pool, still refuses the next child.
\<close>

theorem descendant_slot_leak:
  "\<exists>cfg m tx k. m = foldl (mempool_step sample_btc id) (mempool_new cfg)
       [AddTx 0 (sample_tx 1 [(9, 0)] [50, 50]) 0, AddTx 0 (sample_tx 2 [(1, 0), (9, 5)] [90]) 0,
        RemoveTx 2] \<and>
     map fst (mp_entries m) = [1] \<and> max_descendants cfg = 1 \<and>
     mempool_add sample_btc 0 m (sample_tx 3 [(1, 1), (9, 6)] [90]) 0 =
       Inl (TooManyDescendants 2 1)"
  by (rule exI [where x = "mempool_config_default\<lparr>max_descendants := 1\<rparr>"])
    (simp add: pool_eval)

text \<open>
  C?: The sum of the outputs wraps at 64 bits: a transaction that spends 100 satoshi of a
  pool parent and creates outputs of \<open>2 ^ 64\<close> satoshi is credited with the whole 100 as fee.
\<close>

theorem output_sum_wraps:
  "effective_fee (mp_entries (mempool_step sample_btc id (mempool_new mempool_config_default)
       (AddTx 0 (sample_tx 1 [(9, 0)] [100]) 0))) (sample_tx 2 [(1, 0)] [2 ^ 63, 2 ^ 63]) 0 = 100 \<and>
   sum_list (map tx_value (tx_output (sample_tx 2 [(1, 0)] [2 ^ 63, 2 ^ 63]))) = 2 ^ 64"
  by (simp add: pool_eval)

section \<open>Witnesses\<close>

theorem mempool_capacity_witness:
  "mempool_len (foldl (mempool_step sample_btc id) (mempool_new mempool_config_default)
      [AddTx 0 (sample_tx 1 [(9, 0)] [100]) 0]) = 1 \<and>
   mp_total_bytes (foldl (mempool_step sample_btc id) (mempool_new mempool_config_default)
      [AddTx 0 (sample_tx 1 [(9, 0)] [100]) 0]) \<le> 300 * 1024 * 1024"
  using mempool_capacity [OF sample_vbytes_ok _ refl, of mempool_config_default id
      "[AddTx 0 (sample_tx 1 [(9, 0)] [100]) 0]"]
  by (simp add: pool_eval)

theorem mempool_add_accepts_witness:
  "\<exists>m'. mempool_add sample_btc 0 (sample_pool 1000) (sample_tx 3 [(1, 0), (9, 7)] [45]) 0 = Inr (m', 3)"
  using mempool_add_accepts [of sample_btc 0 "sample_pool 1000" "sample_tx 3 [(1, 0), (9, 7)] [45]" 0 3]
  by (simp add: pool_eval sample_pool_def sample_entry_def new_entry_def fee_enforced_def)

theorem mempool_add_effect_witness:
  "\<exists>m' k. mempool_add sample_btc 0 (sample_pool 1000) (sample_tx 3 [(1, 0), (9, 7)] [45]) 0 = Inr (m', k) \<and>
    mempool_len m' = 3 \<and> map_option me_descendant_count (mempool_get m' 1) = Some 1"
proof -
  let ?tx = "sample_tx 3 [(1, 0), (9, 7)] [45]"
  obtain m' where m': "mempool_add sample_btc 0 (sample_pool 1000) ?tx 0 = Inr (m', 3)"
    by (simp add: pool_eval sample_pool_def sample_entry_def new_entry_def)
  have "spends 3 (tx_input ?tx) = 0" "spends 1 (tx_input ?tx) = 1"
    by (simp_all add: sample_tx_def)
  with mempool_add_effect [OF m'] have "mempool_len m' = 3"
    and "mempool_get m' 1 = map_option (\<lambda>e. e\<lparr>me_descendant_count := w64 (me_descendant_count e + 1)\<rparr>)
      (mempool_get (sample_pool 1000) 1)"
    by (simp_all add: mempool_len_def sample_pool_def)
  then show ?thesis
    using m' by (intro exI [of _ m'] exI [of _ 3])
      (simp add: mempool_get_def sample_pool_def sample_entry_def new_entry_def Let_def w64_def)
qed

theorem mempool_fee_floor_witness:
  "\<exists>rate. mempool_add sample_btc 0 (sample_pool 1000) (sample_tx 3 [(9, 7)] [45]) 199
    = Inl (FeeTooLow rate (Fin 1))"
  using mempool_fee_floor [of sample_btc "sample_pool 1000" 1 199 "sample_tx 3 [(9, 7)] [45]" 0]
  by (simp add: pool_eval sample_pool_def)

theorem mempool_unknown_fee_unchecked_witness:
  "res_is_ok (mempool_add sample_btc 0
      ((sample_pool 1000)\<lparr>mp_policy := (mp_policy (sample_pool 1000))\<lparr>min_fee_rate := Fin 100\<rparr>\<rparr>)
      (sample_tx 3 [(9, 7)] [45]) 0)"
  using mempool_unknown_fee_unchecked
    [where i = "hd (tx_input (sample_tx 3 [(9, 7)] [45]))" and m = "sample_pool 1000"
      and tx = "sample_tx 3 [(9, 7)] [45]" and L = sample_btc and r = "Fin 100" and now = 0]
  by (simp add: pool_eval sample_pool_def)

theorem mempool_trim_evicts_cheapest_witness:
  "mp_total_bytes (mempool_trim id (sample_pool 200)) \<le> 200 \<and>
   acct_inv sample_btc (mempool_trim id (sample_pool 200))"
  using mempool_trim_evicts_cheapest [OF sample_pool_acct, of id 200]
  by (simp add: is_order_def) (simp add: sample_pool_def)

theorem mempool_trim_idle_witness:
  "mempool_trim id (foldl (mempool_step sample_btc id) (mempool_new mempool_config_default)
      [AddTx 0 (sample_tx 1 [(9, 0)] [100]) 0]) =
    foldl (mempool_step sample_btc id) (mempool_new mempool_config_default)
      [AddTx 0 (sample_tx 1 [(9, 0)] [100]) 0]"
  by (rule mempool_trim_idle) (simp_all add: mempool_config_default_def)

theorem mempool_sorted_listing_witness:
  "length (get_sorted_by_fee_rate id (sample_pool 1000)) = 2 \<and>
   sorted_wrt (\<lambda>a b. f64_ge (me_fee_rate a) (me_fee_rate b)) (get_sorted_by_fee_rate id (sample_pool 1000))"
proof -
  have "is_order id" and "length (mp_entries (sample_pool 1000)) = 2"
    by (simp_all add: is_order_def sample_pool_def)
  with mempool_sorted_listing [OF sample_pool_acct, of id 1000] show ?thesis
    by (metis size_mset size_image_mset)
qed

theorem mempool_removals_exact_witness:
  "mempool_get (mempool_expire id 100 (sample_pool 1000) 98) 1 = None \<and>
   mempool_get (mempool_expire id 100 (sample_pool 1000) 98) 2 = Some (sample_entry 2 1000) \<and>
   mempool_get (remove_for_block (sample_pool 1000) [2]) 2 = None"
proof -
  have "is_order id" and "me_added_at (sample_entry 1 200) = 1" "me_added_at (sample_entry 2 1000) = 2"
    by (simp_all add: is_order_def sample_entry_def new_entry_def Let_def)
  then show ?thesis
    using mempool_removals_exact [OF sample_pool_acct, of id 100 1000 98 1 "[2]"]
      mempool_removals_exact [OF sample_pool_acct, of id 100 1000 98 2 "[2]"]
    by (simp add: sample_pool_def mempool_get_def)
qed

theorem fee_histogram_counts_witness:
  "\<forall>n. (Fin 5, n) \<in> set (fee_histogram id (sample_pool 1000)) \<longleftrightarrow>
    0 < n \<and> n = size (filter_mset (\<lambda>e. bucket boundaries (me_fee_rate (snd e)) = Some (Fin 5))
      (mset (mp_entries (sample_pool 1000))))"
  using fee_histogram_counts [of id "Fin 5" _ "sample_pool 1000"]
  by (simp add: is_order_def boundaries_def)

end
