(* ===== verification/Redb.thy ===== *)
theory Redb
  imports Bitcoin_Types
begin

text \<open>
  \<open>wolfe-store/src/error.rs\<close> and the embedded database. The crate \<open>redb\<close> is a record of
  parameters on an abstract database state: each call may fail with an error of its own.
  \<open>rd_rows\<close> and \<open>rd_has\<close> name the documented contents of a table (its rows in the order of
  their keys, and whether it was ever created); \<open>redb_ok\<close> states how a call that succeeds
  changes them, and \<open>redb_up\<close> adds that calls do not fail.
\<close>

section \<open>Errors\<close>

datatype store_error =
    Database string
  | Storage string
  | Table string
  | Transaction string
  | Commit string
  | BitcoinEncode string
  | Json string
  | HeaderNotFound string
  | HeaderNotFoundAtHeight nat
  | PeerNotFound string
  | MetaKeyNotFound string
  | Corruption string

text \<open>A call that does not return a value ends in an error or in a panic.\<close>

datatype store_fail = StoreErr store_error | Panic

section \<open>The database\<close>

record 'd redb =
  rd_create :: "string \<Rightarrow> store_error + 'd"
  rd_begin_read :: "'d \<Rightarrow> store_error + 'd"
  rd_begin_write :: "'d \<Rightarrow> store_error + 'd"
  rd_commit :: "'d \<Rightarrow> store_error + 'd"
  rd_open_read :: "'d \<Rightarrow> string \<Rightarrow> store_error + unit"
  rd_open_write :: "'d \<Rightarrow> string \<Rightarrow> store_error + 'd"
  rd_get :: "'d \<Rightarrow> string \<Rightarrow> bytes \<Rightarrow> store_error + bytes option"
  rd_insert :: "'d \<Rightarrow> string \<Rightarrow> bytes \<Rightarrow> bytes \<Rightarrow> store_error + 'd"
  rd_remove :: "'d \<Rightarrow> string \<Rightarrow> bytes \<Rightarrow> store_error + 'd"
  rd_iter :: "'d \<Rightarrow> string \<Rightarrow> store_error + (store_error + bytes \<times> bytes) list"
  rd_len :: "'d \<Rightarrow> string \<Rightarrow> store_error + nat"
  rd_has :: "'d \<Rightarrow> string \<Rightarrow> bool"
  rd_rows :: "'d \<Rightarrow> string \<Rightarrow> (bytes \<times> bytes) list"

definition look :: "'d redb \<Rightarrow> 'd \<Rightarrow> string \<Rightarrow> bytes \<Rightarrow> bytes option" where
  "look R d t = map_of (rd_rows R d t)"

definition same_rows :: "'d redb \<Rightarrow> 'd \<Rightarrow> 'd \<Rightarrow> bool" where
  "same_rows R d d' \<longleftrightarrow> look R d' = look R d \<and> rd_has R d' = rd_has R d"

definition redb_ok :: "'d redb \<Rightarrow> bool" where
  "redb_ok R \<longleftrightarrow>
    (\<forall>d d'. rd_begin_read R d = Inr d' \<longrightarrow> same_rows R d d') \<and>
    (\<forall>d d'. rd_begin_write R d = Inr d' \<longrightarrow> same_rows R d d') \<and>
    (\<forall>d d'. rd_commit R d = Inr d' \<longrightarrow> same_rows R d d') \<and>
    (\<forall>d t. rd_open_read R d t = Inr () \<longrightarrow> rd_has R d t) \<and>
    (\<forall>d d' t. rd_open_write R d t = Inr d' \<longrightarrow>
      look R d' = look R d \<and> rd_has R d' = (rd_has R d)(t := True)) \<and>
    (\<forall>d t k v. rd_get R d t k = Inr v \<longrightarrow> v = look R d t k) \<and>
    (\<forall>d d' t k v. rd_insert R d t k v = Inr d' \<longrightarrow>
      look R d' = (look R d)(t := (look R d t)(k \<mapsto> v)) \<and> rd_has R d' = rd_has R d) \<and>
    (\<forall>d d' t k. rd_remove R d t k = Inr d' \<longrightarrow>
      look R d' = (look R d)(t := (look R d t)(k := None)) \<and> rd_has R d' = rd_has R d) \<and>
    (\<forall>d t. sorted_wrt (<) (map fst (rd_rows R d t))) \<and>
    (\<forall>d t es. rd_iter R d t = Inr es \<longrightarrow>
      list_all2 (\<lambda>r x. r = Inr x \<or> (\<exists>e. r = Inl e)) es (rd_rows R d t)) \<and>
    (\<forall>d t n. rd_len R d t = Inr n \<longrightarrow> n = length (rd_rows R d t))"

definition redb_up :: "'d redb \<Rightarrow> bool" where
  "redb_up R \<longleftrightarrow>
    (\<forall>d. res_is_ok (rd_begin_read R d) \<and> res_is_ok (rd_begin_write R d) \<and> res_is_ok (rd_commit R d)) \<and>
    (\<forall>d t. res_is_ok (rd_open_write R d t)) \<and>
    (\<forall>d t. rd_has R d t \<longrightarrow>
      rd_open_read R d t = Inr () \<and> (\<forall>k. res_is_ok (rd_get R d t k)) \<and>
      (\<forall>k v. res_is_ok (rd_insert R d t k v)) \<and> (\<forall>k. res_is_ok (rd_remove R d t k)) \<and>
      rd_iter R d t = Inr (map Inr (rd_rows R d t)) \<and> res_is_ok (rd_len R d t))"

section \<open>Steps of a transaction\<close>

text \<open>\<open>?\<close> on a call of the database, and \<open>copy_from_slice\<close> into an array of \<open>n\<close> bytes.\<close>

fun io :: "store_error + 'a \<Rightarrow> store_fail + 'a" where
  "io (Inl e) = Inl (StoreErr e)"
| "io (Inr x) = Inr x"

definition array_of :: "nat \<Rightarrow> bytes \<Rightarrow> store_fail + bytes" where
  "array_of n bs = (if length bs = n then Inr bs else Inl Panic)"

text \<open>Opening a table and one call on it, inside a write transaction.\<close>

definition put :: "'d redb \<Rightarrow> 'd \<Rightarrow> string \<Rightarrow> bytes \<Rightarrow> bytes \<Rightarrow> store_fail + 'd" where
  "put R d t k v = res_bind (io (rd_open_write R d t)) (\<lambda>d. io (rd_insert R d t k v))"

definition del :: "'d redb \<Rightarrow> 'd \<Rightarrow> string \<Rightarrow> bytes \<Rightarrow> store_fail + 'd" where
  "del R d t k = res_bind (io (rd_open_write R d t)) (\<lambda>d. io (rd_remove R d t k))"

text \<open>Opening a table and reading one key, in a read transaction and in a write transaction.\<close>

definition fetch :: "'d redb \<Rightarrow> 'd \<Rightarrow> string \<Rightarrow> bytes \<Rightarrow> store_fail + bytes option" where
  "fetch R d t k = res_bind (io (rd_open_read R d t)) (\<lambda>_. io (rd_get R d t k))"

definition fetch_w :: "'d redb \<Rightarrow> 'd \<Rightarrow> string \<Rightarrow> bytes \<Rightarrow> store_fail + 'd \<times> bytes option" where
  "fetch_w R d t k =
    res_bind (io (rd_open_write R d t)) (\<lambda>d. res_bind (io (rd_get R d t k)) (\<lambda>v. Inr (d, v)))"

lemma io_Inr [res_simps]: "io r = Inr x \<longleftrightarrow> r = Inr x"
  by (cases r) auto

lemma io_Inl [res_simps]: "io r = Inl e \<longleftrightarrow> (\<exists>x. r = Inl x \<and> e = StoreErr x)"
  by (cases r) auto

lemma array_of_Inr [res_simps]: "array_of n bs = Inr cs \<longleftrightarrow> cs = bs \<and> length bs = n"
  by (auto simp: array_of_def)

text \<open>The laws one by one.\<close>

lemma redb_begin:
  "redb_ok R \<Longrightarrow> rd_begin_read R d = Inr d' \<Longrightarrow> same_rows R d d'"
  "redb_ok R \<Longrightarrow> rd_begin_write R d = Inr d' \<Longrightarrow> same_rows R d d'"
  "redb_ok R \<Longrightarrow> rd_commit R d = Inr d' \<Longrightarrow> same_rows R d d'"
  by (simp_all add: redb_ok_def)

lemma redb_open:
  "redb_ok R \<Longrightarrow> rd_open_write R d t = Inr d' \<Longrightarrow>
    look R d' = look R d \<and> rd_has R d' = (rd_has R d)(t := True)"
  "redb_ok R \<Longrightarrow> rd_open_read R d t = Inr () \<Longrightarrow> rd_has R d t"
  by (simp_all add: redb_ok_def)

lemma redb_get: "redb_ok R \<Longrightarrow> rd_get R d t k = Inr v \<Longrightarrow> v = look R d t k"
  by (simp add: redb_ok_def)

lemma redb_insert:
  "redb_ok R \<Longrightarrow> rd_insert R d t k v = Inr d' \<Longrightarrow>
    look R d' = (look R d)(t := (look R d t)(k \<mapsto> v)) \<and> rd_has R d' = rd_has R d"
  by (simp add: redb_ok_def)

lemma redb_remove:
  "redb_ok R \<Longrightarrow> rd_remove R d t k = Inr d' \<Longrightarrow>
    look R d' = (look R d)(t := (look R d t)(k := None)) \<and> rd_has R d' = rd_has R d"
  by (simp add: redb_ok_def)

lemma redb_iter:
  "redb_ok R \<Longrightarrow> rd_iter R d t = Inr es \<Longrightarrow>
    list_all2 (\<lambda>r x. r = Inr x \<or> (\<exists>e. r = Inl e)) es (rd_rows R d t)"
  "redb_ok R \<Longrightarrow> rd_len R d t = Inr n \<Longrightarrow> n = length (rd_rows R d t)"
  by (simp_all add: redb_ok_def)

lemma rows_sorted: "redb_ok R \<Longrightarrow> sorted_wrt (<) (map fst (rd_rows R d t))"
  by (simp add: redb_ok_def)

lemma rows_distinct: "redb_ok R \<Longrightarrow> keys_distinct (rd_rows R d t)"
  using rows_sorted [of R d t] by (simp add: keys_distinct_def strict_sorted_iff)

lemma rows_look: "redb_ok R \<Longrightarrow> (k, v) \<in> set (rd_rows R d t) \<longleftrightarrow> look R d t k = Some v"
  using rows_distinct [of R d t] by (simp add: look_def map_of_keys_distinct)

lemma redb_up:
  "redb_up R \<Longrightarrow> \<exists>d'. rd_begin_read R d = Inr d'" "redb_up R \<Longrightarrow> \<exists>d'. rd_begin_write R d = Inr d'"
  "redb_up R \<Longrightarrow> \<exists>d'. rd_commit R d = Inr d'" "redb_up R \<Longrightarrow> \<exists>d'. rd_open_write R d t = Inr d'"
  "redb_up R \<Longrightarrow> rd_has R d t \<Longrightarrow> rd_open_read R d t = Inr ()"
  "redb_up R \<Longrightarrow> rd_has R d t \<Longrightarrow> \<exists>v. rd_get R d t k = Inr v"
  "redb_up R \<Longrightarrow> rd_has R d t \<Longrightarrow> \<exists>d'. rd_insert R d t k w = Inr d'"
  "redb_up R \<Longrightarrow> rd_has R d t \<Longrightarrow> \<exists>d'. rd_remove R d t k = Inr d'"
  "redb_up R \<Longrightarrow> rd_has R d t \<Longrightarrow> rd_iter R d t = Inr (map Inr (rd_rows R d t))"
  "redb_up R \<Longrightarrow> rd_has R d t \<Longrightarrow> \<exists>n. rd_len R d t = Inr n"
  by (simp_all add: redb_up_def res_is_ok_iff)

text \<open>What a successful step does to the contents.\<close>

lemma put_look:
  "redb_ok R \<Longrightarrow> put R d t k v = Inr d' \<Longrightarrow>
    look R d' = (look R d)(t := (look R d t)(k \<mapsto> v)) \<and> rd_has R d' = (rd_has R d)(t := True)"
  using redb_open(1) [of R d t] redb_insert [of R _ t k v d'] by (auto simp: put_def res_simps)

lemma del_look:
  "redb_ok R \<Longrightarrow> del R d t k = Inr d' \<Longrightarrow>
    look R d' = (look R d)(t := (look R d t)(k := None)) \<and> rd_has R d' = (rd_has R d)(t := True)"
  using redb_open(1) [of R d t] redb_remove [of R _ t k d'] by (auto simp: del_def res_simps)

lemma fetch_look: "redb_ok R \<Longrightarrow> fetch R d t k = Inr v \<Longrightarrow> v = look R d t k \<and> rd_has R d t"
  using redb_open(2) [of R d t] redb_get [of R d t k v] by (auto simp: fetch_def res_simps)

lemma fetch_w_look:
  "redb_ok R \<Longrightarrow> fetch_w R d t k = Inr (d', v) \<Longrightarrow>
    v = look R d t k \<and> look R d' = look R d \<and> rd_has R d' = (rd_has R d)(t := True)"
  using redb_open(1) [of R d t d'] redb_get [of R d' t k v] by (auto simp: fetch_w_def res_simps)

text \<open>On a database without faults the steps succeed.\<close>

lemma open_up:
  assumes "redb_up R" and "redb_ok R"
  obtains d1 where "rd_open_write R d t = Inr d1" and "rd_has R d1 t" and "look R d1 = look R d"
  using redb_up(4) [OF assms(1), of d t] redb_open(1) [OF assms(2)] by fastforce

lemma put_up:
  assumes "redb_up R" and "redb_ok R"
  shows "\<exists>d'. put R d t k v = Inr d'"
proof (rule open_up [OF assms, of d t])
  fix d1 assume "rd_open_write R d t = Inr d1" "rd_has R d1 t"
  then show ?thesis
    using redb_up(7) [OF assms(1), of d1 t k v] by (auto simp: put_def)
qed

lemma del_up:
  assumes "redb_up R" and "redb_ok R"
  shows "\<exists>d'. del R d t k = Inr d'"
proof (rule open_up [OF assms, of d t])
  fix d1 assume "rd_open_write R d t = Inr d1" "rd_has R d1 t"
  then show ?thesis
    using redb_up(8) [OF assms(1), of d1 t k] by (auto simp: del_def)
qed

lemma fetch_up:
  assumes "redb_up R" and "redb_ok R" and "rd_has R d t"
  shows "fetch R d t k = Inr (look R d t k)"
proof -
  obtain v where "rd_get R d t k = Inr v"
    using redb_up(6) [OF assms(1,3)] by blast
  then show ?thesis
    using redb_up(5) [OF assms(1,3)] redb_get [OF assms(2)] by (simp add: fetch_def)
qed

lemma fetch_w_up:
  assumes "redb_up R" and "redb_ok R"
  shows "\<exists>d'. fetch_w R d t k = Inr (d', look R d t k)"
proof (rule open_up [OF assms, of d t])
  fix d1 assume d1: "rd_open_write R d t = Inr d1" "rd_has R d1 t" "look R d1 = look R d"
  then obtain v where "rd_get R d1 t k = Inr v"
    using redb_up(6) [OF assms(1)] by blast
  with d1 show ?thesis
    using redb_get [OF assms(2), of d1 t k] by (simp add: fetch_w_def)
qed

end
