(* ===== verification/Header_Store.thy ===== *)
theory Header_Store
  imports Redb
begin

text \<open>
  \<open>wolfe-store/src/headers.rs\<close>: block headers by hash, and the two tables that index the
  best chain. A write transaction is a working copy of the database that the operations
  pass along; a read transaction is a snapshot.
\<close>

section \<open>Tables\<close>

definition HEADERS :: string where "HEADERS = ''headers''"
definition HEIGHT_TO_HASH :: string where "HEIGHT_TO_HASH = ''height_to_hash''"
definition HASH_TO_HEIGHT :: string where "HASH_TO_HEIGHT = ''hash_to_height''"

record stored_header =
  sh_header :: header
  sh_height :: nat
  sh_hash :: hash

lemma header_tables [simp]:
  "HEADERS \<noteq> HEIGHT_TO_HASH" "HEIGHT_TO_HASH \<noteq> HEADERS" "HEADERS \<noteq> HASH_TO_HEIGHT"
  "HASH_TO_HEIGHT \<noteq> HEADERS" "HEIGHT_TO_HASH \<noteq> HASH_TO_HEIGHT" "HASH_TO_HEIGHT \<noteq> HEIGHT_TO_HASH"
  by (simp_all add: HEADERS_def HEIGHT_TO_HASH_def HASH_TO_HEIGHT_def)

section \<open>Operations\<close>

definition parse_header :: "btc \<Rightarrow> bytes \<Rightarrow> store_fail + header" where
  "parse_header L bs =
    (case de_header L bs of Some h \<Rightarrow> Inr h | None \<Rightarrow> Inl (StoreErr (BitcoinEncode ''header'')))"

definition header_insert :: "'d redb \<Rightarrow> btc \<Rightarrow> 'd \<Rightarrow> header \<Rightarrow> nat \<Rightarrow> store_fail + 'd" where
  "header_insert R L txn header height =
    (let hash = hash_bytes (block_hash L header);
         header_bytes = ser_header L header;
         height_bytes = be_bytes 4 height in
     res_bind (put R txn HEADERS hash header_bytes) (\<lambda>txn.
     res_bind (put R txn HEIGHT_TO_HASH height_bytes hash) (\<lambda>txn.
     put R txn HASH_TO_HEIGHT hash height_bytes)))"

definition header_remove :: "'d redb \<Rightarrow> 'd \<Rightarrow> hash \<Rightarrow> store_fail + 'd" where
  "header_remove R txn hash =
    (let hash_bytes = hash_bytes hash in
     res_bind (fetch_w R txn HASH_TO_HEIGHT hash_bytes) (\<lambda>(txn, found).
     res_bind (case found of
         Some val \<Rightarrow> res_bind (array_of 4 val) (\<lambda>buf. Inr (Some buf))
       | None \<Rightarrow> Inr None) (\<lambda>height_bytes.
     res_bind (del R txn HEADERS hash_bytes) (\<lambda>txn.
     res_bind (del R txn HASH_TO_HEIGHT hash_bytes) (\<lambda>txn.
     case height_bytes of
       Some hb \<Rightarrow> del R txn HEIGHT_TO_HASH hb
     | None \<Rightarrow> Inr txn)))))"

definition get_by_height_write ::
    "'d redb \<Rightarrow> btc \<Rightarrow> 'd \<Rightarrow> nat \<Rightarrow> store_fail + 'd \<times> stored_header option" where
  "get_by_height_write R L txn height =
    (let height_bytes = be_bytes 4 height in
     res_bind (fetch_w R txn HEIGHT_TO_HASH height_bytes) (\<lambda>(txn, found).
     case found of
       None \<Rightarrow> Inr (txn, None)
     | Some val \<Rightarrow>
         res_bind (array_of 32 val) (\<lambda>hash_arr.
         let hash = hash_of_bytes hash_arr in
         res_bind (fetch_w R txn HEADERS hash_arr) (\<lambda>(txn, found).
         case found of
           None \<Rightarrow>
             Inl (StoreErr (Corruption (''height '' @ show_nat height @ '' maps to hash '' @
               hash_str L hash @ '' but header not found'')))
         | Some bs \<Rightarrow>
             res_bind (parse_header L bs) (\<lambda>header.
             Inr (txn, Some \<lparr>sh_header = header, sh_height = height, sh_hash = hash\<rparr>))))))"

text \<open>The loop over the heights, highest first.\<close>

fun disconnect_heights ::
    "'d redb \<Rightarrow> btc \<Rightarrow> 'd \<Rightarrow> nat list \<Rightarrow> hash list \<Rightarrow> store_fail + 'd \<times> hash list" where
  "disconnect_heights R L txn [] removed = Inr (txn, removed)"
| "disconnect_heights R L txn (h # hs) removed =
    res_bind (get_by_height_write R L txn h) (\<lambda>(txn, found).
    case found of
      Some stored \<Rightarrow>
        res_bind (header_remove R txn (sh_hash stored)) (\<lambda>txn.
        disconnect_heights R L txn hs (removed @ [sh_hash stored]))
    | None \<Rightarrow> disconnect_heights R L txn hs removed)"

definition disconnect_range ::
    "'d redb \<Rightarrow> btc \<Rightarrow> 'd \<Rightarrow> nat \<Rightarrow> nat \<Rightarrow> store_fail + 'd \<times> hash list" where
  "disconnect_range R L txn from_height to_height =
    disconnect_heights R L txn (rev [to_height..<Suc from_height]) []"

definition get_by_hash ::
    "'d redb \<Rightarrow> btc \<Rightarrow> 'd \<Rightarrow> hash \<Rightarrow> store_fail + stored_header option" where
  "get_by_hash R L txn hash =
    (let hash_bytes = hash_bytes hash in
     res_bind (fetch R txn HEADERS hash_bytes) (\<lambda>found.
     case found of
       None \<Rightarrow> Inr None
     | Some bs \<Rightarrow>
         res_bind (parse_header L bs) (\<lambda>header.
         res_bind (fetch R txn HASH_TO_HEIGHT hash_bytes) (\<lambda>found.
         case found of
           Some g \<Rightarrow>
             res_bind (array_of 4 g) (\<lambda>buf.
             Inr (Some \<lparr>sh_header = header, sh_height = be_nat buf, sh_hash = hash\<rparr>))
         | None \<Rightarrow>
             Inl (StoreErr (Corruption (''header '' @ hash_str L hash @
               '' exists but height index missing'')))))))"

definition get_by_height ::
    "'d redb \<Rightarrow> btc \<Rightarrow> 'd \<Rightarrow> nat \<Rightarrow> store_fail + stored_header option" where
  "get_by_height R L txn height =
    res_bind (fetch R txn HEIGHT_TO_HASH (be_bytes 4 height)) (\<lambda>found.
    case found of
      None \<Rightarrow> Inr None
    | Some val \<Rightarrow>
        res_bind (array_of 32 val) (\<lambda>hash_arr. get_by_hash R L txn (hash_of_bytes hash_arr)))"

text \<open>\<open>next_back\<close> on the iterator: the last row, or the error of reading it.\<close>

definition header_tip :: "'d redb \<Rightarrow> btc \<Rightarrow> 'd \<Rightarrow> store_fail + stored_header option" where
  "header_tip R L txn =
    res_bind (io (rd_open_read R txn HEIGHT_TO_HASH)) (\<lambda>_.
    res_bind (io (rd_iter R txn HEIGHT_TO_HASH)) (\<lambda>iter.
    case rev iter of
      [] \<Rightarrow> Inr None
    | Inl e # _ \<Rightarrow> Inl (StoreErr e)
    | Inr (key, val) # _ \<Rightarrow>
        res_bind (array_of 4 key) (\<lambda>height_buf.
        res_bind (array_of 32 val) (\<lambda>hash_arr.
        get_by_hash R L txn (hash_of_bytes hash_arr)))))"

definition header_count :: "'d redb \<Rightarrow> 'd \<Rightarrow> store_fail + nat" where
  "header_count R txn =
    res_bind (io (rd_open_read R txn HEADERS)) (\<lambda>_. io (rd_len R txn HEADERS))"

end
