(* ===== verification/Header_Facts.thy ===== *)
theory Header_Facts
  imports Header_Store
begin

text \<open>
  What the header store keeps: the two index tables agree with each other and with the
  stored headers, and the store is a map from hashes to headers together with a best chain,
  a map from heights to headers. \<open>rank\<close> gives the height a block hash has in the block
  tree; a header is only ever stored at that height.
\<close>

section \<open>The abstract store\<close>

definition known :: "'d redb \<Rightarrow> btc \<Rightarrow> 'd \<Rightarrow> hash \<Rightarrow> header option" where
  "known R L d k =
    (case look R d HEADERS (hash_bytes k) of None \<Rightarrow> None | Some bs \<Rightarrow> de_header L bs)"

definition best_at :: "'d redb \<Rightarrow> btc \<Rightarrow> 'd \<Rightarrow> nat \<Rightarrow> header option" where
  "best_at R L d n =
    (case look R d HEIGHT_TO_HASH (be_bytes 4 n) of
       None \<Rightarrow> None | Some v \<Rightarrow> known R L d (hash_of_bytes v))"

definition index_ok :: "'d redb \<Rightarrow> btc \<Rightarrow> (hash \<Rightarrow> nat) \<Rightarrow> 'd \<Rightarrow> bool" where
  "index_ok R L rank d \<longleftrightarrow>
    (\<forall>kb v. look R d HEADERS kb = Some v \<longrightarrow>
      (\<exists>h. v = ser_header L h \<and> kb = hash_bytes (block_hash L h) \<and>
        rank (block_hash L h) < 2 ^ 32 \<and>
        look R d HASH_TO_HEIGHT kb = Some (be_bytes 4 (rank (block_hash L h))))) \<and>
    (\<forall>kb v. look R d HASH_TO_HEIGHT kb = Some v \<longrightarrow> (\<exists>w. look R d HEADERS kb = Some w)) \<and>
    (\<forall>nb v. look R d HEIGHT_TO_HASH nb = Some v \<longrightarrow>
      (\<exists>k. v = hash_bytes k \<and> nb = be_bytes 4 (rank k) \<and> rank k < 2 ^ 32 \<and>
        (\<exists>w. look R d HEADERS v = Some w)))"

definition stored_at :: "'d redb \<Rightarrow> btc \<Rightarrow> 'd \<Rightarrow> nat \<Rightarrow> stored_header option" where
  "stored_at R L d n =
    map_option (\<lambda>h. \<lparr>sh_header = h, sh_height = n, sh_hash = block_hash L h\<rparr>) (best_at R L d n)"

lemma index_okD:
  "index_ok R L rank d \<Longrightarrow> look R d HEADERS kb = Some v \<Longrightarrow>
    \<exists>h. v = ser_header L h \<and> kb = hash_bytes (block_hash L h) \<and> rank (block_hash L h) < 2 ^ 32 \<and>
      look R d HASH_TO_HEIGHT kb = Some (be_bytes 4 (rank (block_hash L h)))"
  "index_ok R L rank d \<Longrightarrow> look R d HASH_TO_HEIGHT kb = Some v \<Longrightarrow> \<exists>w. look R d HEADERS kb = Some w"
  "index_ok R L rank d \<Longrightarrow> look R d HEIGHT_TO_HASH nb = Some v \<Longrightarrow>
    \<exists>k. v = hash_bytes k \<and> nb = be_bytes 4 (rank k) \<and> rank k < 2 ^ 32 \<and>
      (\<exists>w. look R d HEADERS v = Some w)"
  unfolding index_ok_def by blast+

lemma index_okI:
  assumes "\<And>kb v. look R d HEADERS kb = Some v \<Longrightarrow>
      \<exists>h. v = ser_header L h \<and> kb = hash_bytes (block_hash L h) \<and> rank (block_hash L h) < 2 ^ 32 \<and>
        look R d HASH_TO_HEIGHT kb = Some (be_bytes 4 (rank (block_hash L h)))"
    and "\<And>kb v. look R d HASH_TO_HEIGHT kb = Some v \<Longrightarrow> \<exists>w. look R d HEADERS kb = Some w"
    and "\<And>nb v. look R d HEIGHT_TO_HASH nb = Some v \<Longrightarrow>
      \<exists>k. v = hash_bytes k \<and> nb = be_bytes 4 (rank k) \<and> rank k < 2 ^ 32 \<and>
        (\<exists>w. look R d HEADERS v = Some w)"
  shows "index_ok R L rank d"
  unfolding index_ok_def using assms by blast

text \<open>What a header table entry says, under the invariant.\<close>

lemma index_header:
  assumes "index_ok R L rank d" and "hdr_codec_ok L"
  shows "known R L d k = Some h \<longleftrightarrow>
    look R d HEADERS (hash_bytes k) = Some (ser_header L h) \<and> block_hash L h = k"
proof
  assume "known R L d k = Some h"
  then obtain bs where bs: "look R d HEADERS (hash_bytes k) = Some bs" "de_header L bs = Some h"
    by (auto simp: known_def split: option.splits)
  then obtain h' where "bs = ser_header L h'" "hash_bytes k = hash_bytes (block_hash L h')"
    using index_okD(1) [OF assms(1)] by blast
  with bs assms(2) show "look R d HEADERS (hash_bytes k) = Some (ser_header L h) \<and> block_hash L h = k"
    by simp
qed (use assms(2) in \<open>simp add: known_def\<close>)

lemma index_height:
  assumes "index_ok R L rank d" and "known R L d k = Some h" and "hdr_codec_ok L"
  shows "look R d HASH_TO_HEIGHT (hash_bytes k) = Some (be_bytes 4 (rank k))" and "rank k < 2 ^ 32"
proof -
  have "look R d HEADERS (hash_bytes k) = Some (ser_header L h)" and h: "block_hash L h = k"
    using assms by (auto simp: index_header)
  then obtain h' where "hash_bytes k = hash_bytes (block_hash L h')"
    "rank (block_hash L h') < 2 ^ 32"
    "look R d HASH_TO_HEIGHT (hash_bytes k) = Some (be_bytes 4 (rank (block_hash L h')))"
    using index_okD(1) [OF assms(1)] by blast
  then show "look R d HASH_TO_HEIGHT (hash_bytes k) = Some (be_bytes 4 (rank k))" and "rank k < 2 ^ 32"
    by auto
qed

lemma index_best:
  assumes "index_ok R L rank d" and "hdr_codec_ok L" and "n < 2 ^ 32"
  shows "best_at R L d n = Some h \<longleftrightarrow>
    look R d HEIGHT_TO_HASH (be_bytes 4 n) = Some (hash_bytes (block_hash L h)) \<and>
    known R L d (block_hash L h) = Some h \<and> rank (block_hash L h) = n"
    (is "?l \<longleftrightarrow> ?r")
proof
  assume ?l
  then obtain v where v: "look R d HEIGHT_TO_HASH (be_bytes 4 n) = Some v"
    "known R L d (hash_of_bytes v) = Some h"
    by (auto simp: best_at_def split: option.splits)
  then obtain k where "v = hash_bytes k" "be_bytes 4 n = be_bytes 4 (rank k)" "rank k < 2 ^ 32"
    using index_okD(3) [OF assms(1) v(1)] by blast
  with v assms show ?r
    by (auto simp: index_header [OF assms(1,2)])
qed (simp add: best_at_def)

lemma best_none:
  assumes "index_ok R L rank d" and "hdr_codec_ok L"
  shows "best_at R L d n = None \<longleftrightarrow> look R d HEIGHT_TO_HASH (be_bytes 4 n) = None"
proof -
  have "known R L d (hash_of_bytes v) \<noteq> None"
    if v: "look R d HEIGHT_TO_HASH (be_bytes 4 n) = Some v" for v
  proof -
    obtain k w where k: "v = hash_bytes k" "look R d HEADERS v = Some w"
      using index_okD(3) [OF assms(1) v] by blast
    then obtain h where "look R d HEADERS v = Some (ser_header L h)"
      using index_okD(1) [OF assms(1) k(2)] by auto
    with k assms(2) show ?thesis by (simp add: known_def)
  qed
  then show ?thesis
    by (auto simp: best_at_def split: option.splits)
qed

text \<open>The invariant and the abstract store depend on the contents of the three tables only.\<close>

lemma header_frame:
  assumes "look R d' HEADERS = look R d HEADERS" and "look R d' HEIGHT_TO_HASH = look R d HEIGHT_TO_HASH"
    and "look R d' HASH_TO_HEIGHT = look R d HASH_TO_HEIGHT"
  shows "known R L d' = known R L d" and "best_at R L d' = best_at R L d"
    and "index_ok R L rank d' = index_ok R L rank d"
proof -
  show k: "known R L d' = known R L d"
    using assms(1) by (simp add: known_def [abs_def])
  have "best_at R L d' n = best_at R L d n" for n
    unfolding best_at_def assms(2) k by (rule refl)
  then show "best_at R L d' = best_at R L d" ..
  show "index_ok R L rank d' = index_ok R L rank d"
    using assms by (simp add: index_ok_def)
qed

lemma header_frame_look:
  assumes "look R d' = look R d"
  shows "known R L d' = known R L d" and "best_at R L d' = best_at R L d"
    and "index_ok R L rank d' = index_ok R L rank d"
  by (rule header_frame; simp add: assms)+

section \<open>Insertion\<close>

lemma header_insert_look:
  assumes "redb_ok R" and "header_insert R L d h n = Inr d'"
  shows "look R d' = (look R d)
    (HEADERS := (look R d HEADERS)(hash_bytes (block_hash L h) \<mapsto> ser_header L h),
     HEIGHT_TO_HASH := (look R d HEIGHT_TO_HASH)(be_bytes 4 n \<mapsto> hash_bytes (block_hash L h)),
     HASH_TO_HEIGHT := (look R d HASH_TO_HEIGHT)(hash_bytes (block_hash L h) \<mapsto> be_bytes 4 n))"
    and "rd_has R d' = (rd_has R d)(HEADERS := True, HEIGHT_TO_HASH := True, HASH_TO_HEIGHT := True)"
proof -
  let ?k = "hash_bytes (block_hash L h)"
  obtain d1 d2 where d: "put R d HEADERS ?k (ser_header L h) = Inr d1"
    "put R d1 HEIGHT_TO_HASH (be_bytes 4 n) ?k = Inr d2"
    "put R d2 HASH_TO_HEIGHT ?k (be_bytes 4 n) = Inr d'"
    using assms(2) unfolding header_insert_def Let_def res_bind_Inr_iff by blast
  note p = put_look [OF assms(1) d(1)] put_look [OF assms(1) d(2)] put_look [OF assms(1) d(3)]
  note p1 = p [THEN conjunct1] and p2 = p [THEN conjunct2]
  show "look R d' = (look R d)
    (HEADERS := (look R d HEADERS)(?k \<mapsto> ser_header L h),
     HEIGHT_TO_HASH := (look R d HEIGHT_TO_HASH)(be_bytes 4 n \<mapsto> ?k),
     HASH_TO_HEIGHT := (look R d HASH_TO_HEIGHT)(?k \<mapsto> be_bytes 4 n))"
    by (simp only: p1 fun_upd_other fun_upd_same header_tables not_False_eq_True)
  show "rd_has R d' = (rd_has R d)(HEADERS := True, HEIGHT_TO_HASH := True, HASH_TO_HEIGHT := True)"
    by (simp only: p2)
qed

lemma header_insert_abs:
  assumes "redb_ok R" and "hdr_codec_ok L" and inv: "index_ok R L rank d"
    and n: "rank (block_hash L h) = n" "n < 2 ^ 32"
    and ins: "header_insert R L d h n = Inr d'"
  shows "index_ok R L rank d'" and "known R L d' = (known R L d)(block_hash L h \<mapsto> h)"
    and "m < 2 ^ 32 \<Longrightarrow> best_at R L d' m = ((best_at R L d)(n \<mapsto> h)) m"
proof -
  note look = header_insert_look [OF assms(1) ins]
  show inv': "index_ok R L rank d'"
  proof (rule index_okI)
    fix kb v assume "look R d' HEADERS kb = Some v"
    then show "\<exists>h. v = ser_header L h \<and> kb = hash_bytes (block_hash L h) \<and>
        rank (block_hash L h) < 2 ^ 32 \<and>
        look R d' HASH_TO_HEIGHT kb = Some (be_bytes 4 (rank (block_hash L h)))"
      using index_okD(1) [OF inv, of kb v] n by (auto simp: look(1) split: if_splits)
  next
    fix kb v assume "look R d' HASH_TO_HEIGHT kb = Some v"
    then show "\<exists>w. look R d' HEADERS kb = Some w"
      using index_okD(2) [OF inv, of kb v] by (auto simp: look(1) split: if_splits)
  next
    fix nb v assume "look R d' HEIGHT_TO_HASH nb = Some v"
    then show "\<exists>k. v = hash_bytes k \<and> nb = be_bytes 4 (rank k) \<and> rank k < 2 ^ 32 \<and>
        (\<exists>w. look R d' HEADERS v = Some w)"
      using index_okD(3) [OF inv, of nb v] n by (auto simp: look(1) split: if_splits)
  qed
  show known: "known R L d' = (known R L d)(block_hash L h \<mapsto> h)"
    using assms(2) by (auto simp: known_def look(1) fun_eq_iff)
  assume m: "m < 2 ^ 32"
  show "best_at R L d' m = ((best_at R L d)(n \<mapsto> h)) m"
  proof (cases "m = n")
    case True
    then show ?thesis
      using m n known by (simp add: best_at_def look(1))
  next
    case False
    then have l: "look R d' HEIGHT_TO_HASH (be_bytes 4 m) = look R d HEIGHT_TO_HASH (be_bytes 4 m)"
      using m n by (simp add: look(1))
    have "known R L d' (hash_of_bytes v) = known R L d (hash_of_bytes v)"
      if v: "look R d HEIGHT_TO_HASH (be_bytes 4 m) = Some v" for v
    proof -
      obtain k where k: "v = hash_bytes k" "be_bytes 4 m = be_bytes 4 (rank k)" "rank k < 2 ^ 32"
        using index_okD(3) [OF inv v] by blast
      then have "rank k \<noteq> n"
        using m False by auto
      then show ?thesis
        using n k(1) by (auto simp: known)
    qed
    with l False show ?thesis
      by (auto simp: best_at_def split: option.splits)
  qed
qed

section \<open>Removal\<close>

lemma header_remove_look:
  assumes "redb_ok R" and "header_remove R d k = Inr d'"
  shows "look R d' = (look R d)
    (HEADERS := (look R d HEADERS)(hash_bytes k := None),
     HASH_TO_HEIGHT := (look R d HASH_TO_HEIGHT)(hash_bytes k := None),
     HEIGHT_TO_HASH := (case look R d HASH_TO_HEIGHT (hash_bytes k) of
        Some nb \<Rightarrow> (look R d HEIGHT_TO_HASH)(nb := None) | None \<Rightarrow> look R d HEIGHT_TO_HASH))"
proof -
  let ?k = "hash_bytes k"
  obtain d1 found where d1: "fetch_w R d HASH_TO_HEIGHT ?k = Inr (d1, found)"
    using assms(2) by (auto simp: header_remove_def Let_def res_simps)
  note l1 = fetch_w_look [OF assms(1) d1]
  obtain d2 d3 where d: "del R d1 HEADERS ?k = Inr d2" "del R d2 HASH_TO_HEIGHT ?k = Inr d3"
    and fin: "(case found of Some hb \<Rightarrow> del R d3 HEIGHT_TO_HASH hb | None \<Rightarrow> Inr d3) = Inr d'"
    using assms(2) d1 by (auto simp: header_remove_def Let_def res_simps split: option.splits)
  note l = del_look [OF assms(1) d(1)] del_look [OF assms(1) d(2)]
  have l3: "look R d3 = (look R d)(HEADERS := (look R d HEADERS)(?k := None),
      HASH_TO_HEIGHT := (look R d HASH_TO_HEIGHT)(?k := None))"
    by (simp only: l [THEN conjunct1] l1 fun_upd_other fun_upd_same header_tables not_False_eq_True)
  show ?thesis
  proof (cases found)
    case None
    with fin l1 l3 show ?thesis by (auto simp: fun_upd_idem_iff)
  next
    case (Some hb)
    with fin have "del R d3 HEIGHT_TO_HASH hb = Inr d'" by simp
    from del_look [OF assms(1) this] have "look R d' = (look R d3)
      (HEIGHT_TO_HASH := (look R d3 HEIGHT_TO_HASH)(hb := None))" ..
    moreover have "look R d HASH_TO_HEIGHT ?k = Some hb"
      using Some l1 by simp
    ultimately show ?thesis
      by (simp add: l3)
  qed
qed

lemma header_remove_abs:
  assumes "redb_ok R" and "hdr_codec_ok L" and inv: "index_ok R L rank d"
    and k: "known R L d k = Some h" and rem: "header_remove R d k = Inr d'"
  shows "index_ok R L rank d'" and "known R L d' = (known R L d)(k := None)"
    and "m < 2 ^ 32 \<Longrightarrow> best_at R L d' m = ((best_at R L d)(rank k := None)) m"
proof -
  note idx = index_height [OF inv k assms(2)]
  have look: "look R d' = (look R d)
    (HEADERS := (look R d HEADERS)(hash_bytes k := None),
     HASH_TO_HEIGHT := (look R d HASH_TO_HEIGHT)(hash_bytes k := None),
     HEIGHT_TO_HASH := (look R d HEIGHT_TO_HASH)(be_bytes 4 (rank k) := None))"
    using header_remove_look [OF assms(1) rem] idx by simp
  have other: "v \<noteq> hash_bytes k"
    if "look R d HEIGHT_TO_HASH nb = Some v" "nb \<noteq> be_bytes 4 (rank k)" for nb v
    using index_okD(3) [OF inv that(1)] that(2) by auto
  show "index_ok R L rank d'"
  proof (rule index_okI)
    fix kb v assume "look R d' HEADERS kb = Some v"
    then show "\<exists>h. v = ser_header L h \<and> kb = hash_bytes (block_hash L h) \<and>
        rank (block_hash L h) < 2 ^ 32 \<and>
        look R d' HASH_TO_HEIGHT kb = Some (be_bytes 4 (rank (block_hash L h)))"
      using index_okD(1) [OF inv, of kb v] by (auto simp: look split: if_splits)
  next
    fix kb v assume "look R d' HASH_TO_HEIGHT kb = Some v"
    then show "\<exists>w. look R d' HEADERS kb = Some w"
      using index_okD(2) [OF inv, of kb v] by (auto simp: look split: if_splits)
  next
    fix nb v assume "look R d' HEIGHT_TO_HASH nb = Some v"
    then show "\<exists>k. v = hash_bytes k \<and> nb = be_bytes 4 (rank k) \<and> rank k < 2 ^ 32 \<and>
        (\<exists>w. look R d' HEADERS v = Some w)"
      using index_okD(3) [OF inv, of nb v] other [of nb v] by (auto simp: look split: if_splits)
  qed
  show known: "known R L d' = (known R L d)(k := None)"
    by (auto simp: known_def look fun_eq_iff)
  assume m: "m < 2 ^ 32"
  show "best_at R L d' m = ((best_at R L d)(rank k := None)) m"
  proof (cases "m = rank k")
    case True
    then show ?thesis by (simp add: best_at_def look)
  next
    case False
    then have ne: "be_bytes 4 m \<noteq> be_bytes 4 (rank k)"
      using m idx(2) by simp
    have "hash_of_bytes v \<noteq> k" if v: "look R d HEIGHT_TO_HASH (be_bytes 4 m) = Some v" for v
    proof -
      obtain k' where "v = hash_bytes k'"
        using index_okD(3) [OF inv v] by blast
      with other [OF v ne] show ?thesis by auto
    qed
    with False ne show ?thesis
      by (auto simp: best_at_def look known split: option.splits)
  qed
qed

section \<open>Lookups\<close>

lemma header_insert_has:
  "redb_ok R \<Longrightarrow> header_insert R L d h n = Inr d' \<Longrightarrow>
    rd_has R d' = (rd_has R d)(HEADERS := True, HEIGHT_TO_HASH := True, HASH_TO_HEIGHT := True)"
  by (rule header_insert_look(2))

lemma parse_ser [simp]: "hdr_codec_ok L \<Longrightarrow> parse_header L (ser_header L h) = Inr h"
  by (simp add: parse_header_def)

definition entry_of :: "(hash \<Rightarrow> nat) \<Rightarrow> hash \<Rightarrow> header \<Rightarrow> stored_header" where
  "entry_of rank k h = \<lparr>sh_header = h, sh_height = rank k, sh_hash = k\<rparr>"

lemma known_cases:
  assumes "index_ok R L rank d" and "hdr_codec_ok L"
  obtains (none) "look R d HEADERS (hash_bytes k) = None" "known R L d k = None"
  | (some) h where "look R d HEADERS (hash_bytes k) = Some (ser_header L h)" "known R L d k = Some h"
      "block_hash L h = k" "look R d HASH_TO_HEIGHT (hash_bytes k) = Some (be_bytes 4 (rank k))"
      "rank k < 2 ^ 32"
proof (cases "known R L d k")
  case None
  then have "look R d HEADERS (hash_bytes k) = None"
    using index_okD(1) [OF assms(1), of "hash_bytes k"] assms(2)
    by (cases "look R d HEADERS (hash_bytes k)") (auto simp: known_def)
  then show ?thesis using None by (rule none)
next
  case (Some h)
  then show ?thesis
    using index_header [OF assms] index_height [OF assms(1) Some assms(2)] some by blast
qed

lemma get_by_hash_abs:
  assumes "redb_ok R" and "hdr_codec_ok L" and inv: "index_ok R L rank d"
    and get: "get_by_hash R L d k = Inr r"
  shows "r = map_option (entry_of rank k) (known R L d k)"
proof (cases rule: known_cases [OF inv assms(2), of k])
  case 1
  then show ?thesis
    using get fetch_look [OF assms(1), of d HEADERS]
    by (auto simp: get_by_hash_def Let_def res_simps split: option.splits)
next
  case (2 h)
  then show ?thesis
    using get assms(2) fetch_look [OF assms(1), of d HEADERS] fetch_look [OF assms(1), of d HASH_TO_HEIGHT]
    by (auto simp: get_by_hash_def Let_def res_simps entry_of_def split: option.splits)
qed

lemma get_by_hash_up:
  assumes "redb_ok R" and "redb_up R" and "hdr_codec_ok L" and inv: "index_ok R L rank d"
    and "rd_has R d HEADERS" and "rd_has R d HASH_TO_HEIGHT"
  shows "get_by_hash R L d k = Inr (map_option (entry_of rank k) (known R L d k))"
proof (cases rule: known_cases [OF inv assms(3), of k])
  case 1
  then show ?thesis
    using assms by (simp add: get_by_hash_def Let_def fetch_up)
next
  case (2 h)
  then show ?thesis
    using assms by (simp add: get_by_hash_def Let_def fetch_up array_of_def entry_of_def)
qed

text \<open>What the height index says about one height.\<close>

lemma best_cases:
  assumes "index_ok R L rank d" and "hdr_codec_ok L" and "n < 2 ^ 32"
  obtains (none) "look R d HEIGHT_TO_HASH (be_bytes 4 n) = None" "best_at R L d n = None"
  | (some) h where "best_at R L d n = Some h" "known R L d (block_hash L h) = Some h"
      "look R d HEIGHT_TO_HASH (be_bytes 4 n) = Some (hash_bytes (block_hash L h))"
      "rank (block_hash L h) = n"
proof (cases "best_at R L d n")
  case None
  then have "look R d HEIGHT_TO_HASH (be_bytes 4 n) = None"
    using best_none [OF assms(1,2)] by simp
  then show ?thesis
    using None by (rule none)
next
  case (Some h)
  then show ?thesis
    using index_best [OF assms] some by blast
qed

lemma get_by_height_abs:
  assumes "redb_ok R" and "hdr_codec_ok L" and inv: "index_ok R L rank d" and "n < 2 ^ 32"
    and get: "get_by_height R L d n = Inr r"
  shows "r = stored_at R L d n"
proof (cases rule: best_cases [OF inv assms(2,4)])
  case 1
  then show ?thesis
    using get fetch_look [OF assms(1), of d HEIGHT_TO_HASH]
    by (auto simp: get_by_height_def res_simps stored_at_def split: option.splits)
next
  case (2 h)
  then have "get_by_hash R L d (block_hash L h) = Inr r"
    using get fetch_look [OF assms(1), of d HEIGHT_TO_HASH]
    by (auto simp: get_by_height_def res_simps split: option.splits)
  from get_by_hash_abs [OF assms(1-3) this] 2 show ?thesis
    by (simp add: stored_at_def entry_of_def)
qed

lemma get_by_height_up:
  assumes "redb_ok R" and "redb_up R" and "hdr_codec_ok L" and inv: "index_ok R L rank d"
    and "rd_has R d HEADERS" and "rd_has R d HASH_TO_HEIGHT" and "rd_has R d HEIGHT_TO_HASH"
    and "n < 2 ^ 32"
  shows "get_by_height R L d n = Inr (stored_at R L d n)"
proof (cases rule: best_cases [OF inv assms(3,8)])
  case 1
  then show ?thesis
    using assms by (simp add: get_by_height_def fetch_up stored_at_def)
next
  case (2 h)
  then show ?thesis
    using assms by (simp add: get_by_height_def fetch_up array_of_def stored_at_def get_by_hash_up
        entry_of_def)
qed

lemma get_by_height_write_abs:
  assumes "redb_ok R" and "hdr_codec_ok L" and inv: "index_ok R L rank d" and "n < 2 ^ 32"
    and get: "get_by_height_write R L d n = Inr (d', r)"
  shows "r = stored_at R L d n" and "look R d' = look R d"
proof -
  obtain d1 found where f: "fetch_w R d HEIGHT_TO_HASH (be_bytes 4 n) = Inr (d1, found)"
    using get by (auto simp: get_by_height_write_def Let_def res_simps)
  note l1 = fetch_w_look [OF assms(1) f]
  have "r = stored_at R L d n \<and> look R d' = look R d"
  proof (cases rule: best_cases [OF inv assms(2,4)])
    case 1
    then show ?thesis
      using get f l1 by (auto simp: get_by_height_write_def stored_at_def)
  next
    case (2 h)
    then have k: "look R d HEADERS (hash_bytes (block_hash L h)) = Some (ser_header L h)"
      using index_header [OF inv assms(2)] by blast
    obtain d2 found2 where f2: "fetch_w R d1 HEADERS (hash_bytes (block_hash L h)) = Inr (d2, found2)"
      using get f l1 2 by (auto simp: get_by_height_write_def Let_def res_simps array_of_def)
    with fetch_w_look [OF assms(1) f2] get f l1 2 k assms(2) show ?thesis
      by (auto simp: get_by_height_write_def Let_def array_of_def stored_at_def)
  qed
  then show "r = stored_at R L d n" and "look R d' = look R d" by simp_all
qed

text \<open>Rows are sorted by their keys, so the last row has the greatest height.\<close>

lemma header_tip_abs:
  assumes "redb_ok R" and "hdr_codec_ok L" and inv: "index_ok R L rank d"
    and tip: "header_tip R L d = Inr r"
  shows "case r of None \<Rightarrow> (\<forall>n < 2 ^ 32. best_at R L d n = None)
    | Some s \<Rightarrow> stored_at R L d (sh_height s) = Some s \<and> sh_height s < 2 ^ 32 \<and>
        (\<forall>n. sh_height s < n \<longrightarrow> n < 2 ^ 32 \<longrightarrow> best_at R L d n = None)"
proof -
  let ?rows = "rd_rows R d HEIGHT_TO_HASH"
  obtain es where es: "rd_iter R d HEIGHT_TO_HASH = Inr es"
    using tip by (auto simp: header_tip_def res_simps)
  have all: "list_all2 (\<lambda>r x. r = Inr x \<or> (\<exists>e. r = Inl e)) es ?rows"
    using redb_iter(1) [OF assms(1) es] .
  show ?thesis
  proof (cases es rule: rev_cases)
    case Nil
    then have "?rows = []"
      using all by simp
    then have "best_at R L d n = None" for n
      by (simp add: best_at_def look_def)
    with tip es Nil show ?thesis
      by (auto simp: header_tip_def res_simps)
  next
    case (snoc ys y)
    then obtain zs z where rows: "?rows = zs @ [z]" and y: "y = Inr z \<or> (\<exists>e. y = Inl e)"
      using all by (auto simp: list_all2_append1 list_all2_Cons1)
    obtain key val where z: "z = (key, val)"
      by (cases z)
    have "y = Inr (key, val)"
      using tip es snoc y z by (auto simp: header_tip_def res_simps)
    then have get: "get_by_hash R L d (hash_of_bytes val) = Inr r"
      using tip es snoc by (auto simp: header_tip_def res_simps)
    have "look R d HEIGHT_TO_HASH key = Some val"
      using rows z rows_look [OF assms(1), of key val d HEIGHT_TO_HASH] by simp
    then obtain k w where k: "val = hash_bytes k" "key = be_bytes 4 (rank k)" "rank k < 2 ^ 32"
      "look R d HEADERS (hash_bytes k) = Some w"
      using index_okD(3) [OF inv] by blast
    then obtain h where h: "known R L d k = Some h" "block_hash L h = k"
      by (cases rule: known_cases [OF inv assms(2), of k]) auto
    have best: "best_at R L d (rank k) = Some h"
      using h k \<open>look R d HEIGHT_TO_HASH key = Some val\<close> by (simp add: best_at_def)
    have r: "r = Some (entry_of rank k h)"
      using get_by_hash_abs [OF assms(1-3) get] k h by simp
    have top: "best_at R L d n = None" if "rank k < n" "n < 2 ^ 32" for n
    proof (rule ccontr)
      assume "best_at R L d n \<noteq> None"
      then obtain v where "look R d HEIGHT_TO_HASH (be_bytes 4 n) = Some v"
        by (auto simp: best_at_def split: option.splits)
      then have "(be_bytes 4 n, v) \<in> set ?rows"
        by (simp add: rows_look [OF assms(1)])
      moreover have "key < be_bytes 4 n"
        using that k(2,3) by (simp add: be_nat_less_iff)
      moreover have "be_bytes 4 n \<noteq> key"
        using that k(2,3) by simp
      ultimately show False
        using rows_sorted [OF assms(1), of d HEIGHT_TO_HASH] rows z
        by (fastforce simp: sorted_wrt_append dest: order_less_asym)
    qed
    show ?thesis
      using r best top k(3) h(2) by (simp add: stored_at_def entry_of_def)
  qed
qed

lemma header_tip_up:
  assumes "redb_ok R" and "redb_up R" and "hdr_codec_ok L" and inv: "index_ok R L rank d"
    and "rd_has R d HEADERS" and "rd_has R d HASH_TO_HEIGHT" and "rd_has R d HEIGHT_TO_HASH"
  shows "\<exists>r. header_tip R L d = Inr r"
proof (cases "rd_rows R d HEIGHT_TO_HASH" rule: rev_cases)
  case Nil
  then show ?thesis
    using assms redb_up(5,9) [OF assms(2)] by (simp add: header_tip_def)
next
  case (snoc zs z)
  obtain key val where z: "z = (key, val)"
    by (cases z)
  then have "look R d HEIGHT_TO_HASH key = Some val"
    using snoc rows_look [OF assms(1), of key val d HEIGHT_TO_HASH] by simp
  then obtain k where "val = hash_bytes k" "key = be_bytes 4 (rank k)"
    using index_okD(3) [OF inv] by blast
  then show ?thesis
    using assms snoc z redb_up(5,9) [OF assms(2)]
    by (simp add: header_tip_def array_of_def get_by_hash_up)
qed

section \<open>Disconnecting a range\<close>

definition best_hashes :: "'d redb \<Rightarrow> btc \<Rightarrow> 'd \<Rightarrow> nat list \<Rightarrow> hash list" where
  "best_hashes R L d hs = map (block_hash L) (List.map_filter (best_at R L d) hs)"

definition header_tables :: "string set" where
  "header_tables = {HEADERS, HEIGHT_TO_HASH, HASH_TO_HEIGHT}"

lemma header_insert_frame:
  "redb_ok R \<Longrightarrow> header_insert R L d h n = Inr d' \<Longrightarrow> t \<notin> header_tables \<Longrightarrow> look R d' t = look R d t"
  by (simp add: header_insert_look(1) header_tables_def)

lemma header_remove_frame:
  "redb_ok R \<Longrightarrow> header_remove R d k = Inr d' \<Longrightarrow> t \<notin> header_tables \<Longrightarrow> look R d' t = look R d t"
  by (simp add: header_remove_look header_tables_def)

lemma best_hashes_Nil [simp]: "best_hashes R L d [] = []"
  by (simp add: best_hashes_def List.map_filter_def)

lemma best_hashes_Cons:
  "best_hashes R L d (h # hs) =
    (case best_at R L d h of None \<Rightarrow> best_hashes R L d hs | Some x \<Rightarrow> block_hash L x # best_hashes R L d hs)"
  by (simp add: best_hashes_def List.map_filter_def split: option.split)

lemma best_hashes_cong:
  "(\<And>h. h \<in> set hs \<Longrightarrow> best_at R L d' h = best_at R L d h) \<Longrightarrow>
    best_hashes R L d' hs = best_hashes R L d hs"
  by (induction hs) (auto simp: best_hashes_Cons split: option.splits)

lemma disconnect_heights_abs:
  assumes "redb_ok R" and "hdr_codec_ok L" and "index_ok R L rank d"
    and "\<forall>h \<in> set hs. h < 2 ^ 32" and "distinct hs"
    and "disconnect_heights R L d hs acc = Inr (d', removed)"
  shows "index_ok R L rank d' \<and>
    (\<forall>m < 2 ^ 32. best_at R L d' m = (if m \<in> set hs then None else best_at R L d m)) \<and>
    removed = acc @ best_hashes R L d hs \<and>
    (\<forall>k. known R L d' k = (if k \<in> set (best_hashes R L d hs) then None else known R L d k)) \<and>
    (\<forall>t. t \<notin> header_tables \<longrightarrow> look R d' t = look R d t)"
  using assms(3-)
proof (induction hs arbitrary: d acc)
  case Nil
  then show ?case by (simp add: best_hashes_def List.map_filter_def)
next
  case (Cons h hs)
  obtain d1 r where g: "get_by_height_write R L d h = Inr (d1, r)"
    using Cons.prems(4) by (auto simp: res_simps)
  have h: "h < 2 ^ 32" and hs: "\<forall>h \<in> set hs. h < 2 ^ 32" "distinct hs" "h \<notin> set hs"
    using Cons.prems(2,3) by simp_all
  note g' = get_by_height_write_abs [OF assms(1,2) Cons.prems(1) h g]
  note fr = header_frame_look [OF g'(2), of L]
  have inv1: "index_ok R L rank d1"
    using Cons.prems(1) fr(3) by simp
  show ?case
  proof (cases rule: best_cases [OF Cons.prems(1) assms(2) h])
    case 1
    then have "disconnect_heights R L d1 hs acc = Inr (d', removed)"
      using Cons.prems(4) g g' by (simp add: stored_at_def)
    from Cons.IH [OF inv1 hs(1,2) this] 1 show ?thesis
      by (auto simp: fr(1,2) g'(2) best_hashes_Cons best_hashes_cong [of hs R L d1 d])
  next
    case (2 x)
    let ?k = "block_hash L x"
    obtain d2 where rem: "header_remove R d1 ?k = Inr d2"
      and rest: "disconnect_heights R L d2 hs (acc @ [?k]) = Inr (d', removed)"
      using Cons.prems(4) g g' 2 by (auto simp: stored_at_def res_simps)
    have "known R L d1 ?k = Some x"
      using 2 fr by simp
    note rm = header_remove_abs [OF assms(1,2) inv1 this rem, unfolded fr 2(4)]
    have "best_hashes R L d2 hs = best_hashes R L d hs"
      using hs rm(3) by (intro best_hashes_cong) auto
    moreover have "look R d2 t = look R d t" if "t \<notin> header_tables" for t
      using header_remove_frame [OF assms(1) rem that] g'(2) by simp
    ultimately show ?thesis
      using Cons.IH [OF rm(1) hs(1,2) rest] 2 h rm(2,3) by (auto simp: best_hashes_Cons)
  qed
qed

lemma disconnect_range_abs:
  assumes "redb_ok R" and "hdr_codec_ok L" and "index_ok R L rank d" and "hi < 2 ^ 32"
    and "disconnect_range R L d hi lo = Inr (d', removed)"
  shows "index_ok R L rank d'"
    and "m < 2 ^ 32 \<Longrightarrow> best_at R L d' m = (if lo \<le> m \<and> m \<le> hi then None else best_at R L d m)"
    and "removed = best_hashes R L d (rev [lo..<Suc hi])"
    and "known R L d' k = (if k \<in> set removed then None else known R L d k)"
    and "t \<notin> header_tables \<Longrightarrow> look R d' t = look R d t"
proof -
  have "\<forall>h \<in> set (rev [lo..<Suc hi]). h < 2 ^ 32" and "distinct (rev [lo..<Suc hi])"
    using assms(4) by auto
  note * = disconnect_heights_abs [OF assms(1-3) this assms(5) [unfolded disconnect_range_def]]
  then show "index_ok R L rank d'" and "removed = best_hashes R L d (rev [lo..<Suc hi])"
    and "m < 2 ^ 32 \<Longrightarrow> best_at R L d' m = (if lo \<le> m \<and> m \<le> hi then None else best_at R L d m)"
    and "known R L d' k = (if k \<in> set removed then None else known R L d k)"
    and "t \<notin> header_tables \<Longrightarrow> look R d' t = look R d t"
    by (simp_all add: less_Suc_eq_le del: upt_Suc)
qed

section \<open>On a database without faults\<close>

lemma header_insert_up:
  "redb_ok R \<Longrightarrow> redb_up R \<Longrightarrow> \<exists>d'. header_insert R L d h n = Inr d'"
  by (simp add: header_insert_def Let_def) (metis put_up res_bind.simps(2))

lemma header_remove_up:
  assumes "redb_ok R" and "redb_up R" and "hdr_codec_ok L" and "index_ok R L rank d"
  shows "\<exists>d'. header_remove R d k = Inr d'"
proof -
  obtain d1 where d1: "fetch_w R d HASH_TO_HEIGHT (hash_bytes k) =
      Inr (d1, look R d HASH_TO_HEIGHT (hash_bytes k))"
    using fetch_w_up [OF assms(2,1)] by blast
  obtain d2 where d2: "del R d1 HEADERS (hash_bytes k) = Inr d2"
    using del_up [OF assms(2,1)] by blast
  obtain d3 where d3: "del R d2 HASH_TO_HEIGHT (hash_bytes k) = Inr d3"
    using del_up [OF assms(2,1)] by blast
  show ?thesis
  proof (cases "look R d HASH_TO_HEIGHT (hash_bytes k)")
    case None
    with d1 d2 d3 show ?thesis by (simp add: header_remove_def)
  next
    case (Some v)
    then obtain w where "look R d HEADERS (hash_bytes k) = Some w"
      using index_okD(2) [OF assms(4)] by blast
    then have "v = be_bytes 4 (rank k)"
      using Some by (cases rule: known_cases [OF assms(4,3), of k]) auto
    then show ?thesis
      using Some d1 d2 d3 del_up [OF assms(2,1), of d3] by (simp add: header_remove_def array_of_def)
  qed
qed

lemma get_by_height_write_up:
  assumes "redb_ok R" and "redb_up R" and "hdr_codec_ok L" and inv: "index_ok R L rank d"
    and "n < 2 ^ 32"
  shows "\<exists>d'. get_by_height_write R L d n = Inr (d', stored_at R L d n)"
proof -
  obtain d1 where d1: "fetch_w R d HEIGHT_TO_HASH (be_bytes 4 n) =
      Inr (d1, look R d HEIGHT_TO_HASH (be_bytes 4 n))"
    using fetch_w_up [OF assms(2,1)] by blast
  show ?thesis
  proof (cases rule: best_cases [OF inv assms(3,5)])
    case 1
    with d1 show ?thesis by (simp add: get_by_height_write_def stored_at_def)
  next
    case (2 h)
    obtain d2 where d2: "fetch_w R d1 HEADERS (hash_bytes (block_hash L h)) =
        Inr (d2, look R d1 HEADERS (hash_bytes (block_hash L h)))"
      using fetch_w_up [OF assms(2,1)] by blast
    moreover have "look R d1 = look R d"
      using fetch_w_look [OF assms(1) d1] by simp
    ultimately show ?thesis
      using d1 2 index_header [OF inv assms(3), of "block_hash L h" h] assms(3)
      by (simp add: get_by_height_write_def array_of_def stored_at_def)
  qed
qed

lemma disconnect_heights_up:
  assumes "redb_ok R" and "redb_up R" and "hdr_codec_ok L" and "index_ok R L rank d"
    and "\<forall>h \<in> set hs. h < 2 ^ 32"
  shows "\<exists>r. disconnect_heights R L d hs acc = Inr r"
  using assms(4,5)
proof (induction hs arbitrary: d acc)
  case Nil
  then show ?case by simp
next
  case (Cons h hs)
  have h: "h < 2 ^ 32" and hs: "\<forall>h \<in> set hs. h < 2 ^ 32"
    using Cons.prems(2) by simp_all
  obtain d1 where g: "get_by_height_write R L d h = Inr (d1, stored_at R L d h)"
    using get_by_height_write_up [OF assms(1-3) Cons.prems(1) h] by blast
  note fr = header_frame_look [OF get_by_height_write_abs(2) [OF assms(1,3) Cons.prems(1) h g], of L]
  have inv1: "index_ok R L rank d1"
    using Cons.prems(1) fr(3) by simp
  show ?case
  proof (cases rule: best_cases [OF Cons.prems(1) assms(3) h])
    case 1
    with g Cons.IH [OF inv1 hs] show ?thesis by (simp add: stored_at_def)
  next
    case (2 x)
    obtain d2 where d2: "header_remove R d1 (block_hash L x) = Inr d2"
      using header_remove_up [OF assms(1-3) inv1] by blast
    moreover have "known R L d1 (block_hash L x) = Some x"
      using 2 fr by simp
    ultimately have "index_ok R L rank d2"
      using header_remove_abs(1) [OF assms(1,3) inv1] by blast
    with g d2 2 Cons.IH [OF _ hs] show ?thesis by (simp add: stored_at_def)
  qed
qed

end
