(* ===== verification/Node_Store.thy ===== *)
theory Node_Store
  imports Header_Facts
begin

text \<open>
  \<open>wolfe-store/src/meta.rs\<close> and \<open>wolfe-store/src/lib.rs\<close>: metadata and sync progress, and
  the operations of \<open>NodeStore\<close> that run in one write transaction. A string is the list of
  its UTF-8 bytes as characters. A call of \<open>NodeStore\<close> maps the committed database to the
  next one and a result; a transaction that is not committed leaves the database alone.
\<close>

section \<open>Strings as keys and values\<close>

definition as_bytes :: "string \<Rightarrow> bytes" where
  "as_bytes s = map (\<lambda>c. of_nat (of_char c)) s"

definition from_bytes :: "bytes \<Rightarrow> string" where
  "from_bytes bs = map (\<lambda>b. char_of (unat b)) bs"

definition cont_byte :: "byte \<Rightarrow> bool" where
  "cont_byte b \<longleftrightarrow> 0x80 \<le> b \<and> b \<le> 0xBF"

text \<open>
  \<open>String::from_utf8\<close> of the standard library: the first fault is told by its index and the number
  of bytes that are wrong, or that the input ends within a character.
\<close>

definition utf8_width :: "byte \<Rightarrow> nat" where
  "utf8_width a =
    (if a < 0x80 then 1 else if 0xC2 \<le> a \<and> a \<le> 0xDF then 2
     else if 0xE0 \<le> a \<and> a \<le> 0xEF then 3 else if 0xF0 \<le> a \<and> a \<le> 0xF4 then 4 else 0)"

definition second_byte :: "byte \<Rightarrow> byte \<Rightarrow> bool" where
  "second_byte a b \<longleftrightarrow>
    cont_byte b \<and> (a = 0xE0 \<longrightarrow> 0xA0 \<le> b) \<and> (a = 0xED \<longrightarrow> b \<le> 0x9F) \<and>
    (a = 0xF0 \<longrightarrow> 0x90 \<le> b) \<and> (a = 0xF4 \<longrightarrow> b \<le> 0x8F)"

fun cont_fault :: "nat \<Rightarrow> nat \<Rightarrow> bytes \<Rightarrow> nat option option" where
  "cont_fault 0 k bs = None"
| "cont_fault (Suc n) k [] = Some None"
| "cont_fault (Suc n) k (b # bs) = (if cont_byte b then cont_fault n (k + 1) bs else Some (Some k))"

definition char_fault :: "byte \<Rightarrow> bytes \<Rightarrow> nat option option" where
  "char_fault a bs =
    (if utf8_width a = 0 then Some (Some 1)
     else if utf8_width a = 1 then None
     else case bs of
            [] \<Rightarrow> Some None
          | b # bs \<Rightarrow> if second_byte a b then cont_fault (utf8_width a - 2) 2 bs else Some (Some 1))"

fun utf8_fault :: "nat \<Rightarrow> bytes \<Rightarrow> (nat \<times> nat option) option" where
  "utf8_fault i [] = None"
| "utf8_fault i (a # bs) =
    (case char_fault a bs of
       Some n \<Rightarrow> Some (i, n)
     | None \<Rightarrow> utf8_fault (i + utf8_width a) (drop (utf8_width a - 1) bs))"

definition from_utf8 :: "bytes \<Rightarrow> string + string" where
  "from_utf8 bs =
    (case utf8_fault 0 bs of
       None \<Rightarrow> Inr (from_bytes bs)
     | Some (i, None) \<Rightarrow> Inl (''incomplete utf-8 byte sequence from index '' @ show_nat i)
     | Some (i, Some n) \<Rightarrow>
         Inl (''invalid utf-8 sequence of '' @ show_nat n @ '' bytes from index '' @ show_nat i))"

lemma from_as_bytes [simp]: "from_bytes (as_bytes s) = s"
  by (simp add: from_bytes_def as_bytes_def comp_def unat_byte)

lemma as_bytes_inject [simp]: "as_bytes s = as_bytes t \<longleftrightarrow> s = t"
  by (metis from_as_bytes)

section \<open>Metadata\<close>

definition META :: string where "META = ''meta''"
definition KEY_SYNC_HEIGHT :: string where "KEY_SYNC_HEIGHT = ''sync_height''"
definition KEY_SYNC_HASH :: string where "KEY_SYNC_HASH = ''sync_hash''"
definition KEY_NODE_ID :: string where "KEY_NODE_ID = ''node_id''"
definition KEY_USER_AGENT :: string where "KEY_USER_AGENT = ''user_agent''"
definition KEY_NETWORK :: string where "KEY_NETWORK = ''network''"
definition KEY_DB_VERSION :: string where "KEY_DB_VERSION = ''db_version''"
definition CURRENT_DB_VERSION :: nat where "CURRENT_DB_VERSION = 1"

definition meta_set :: "'d redb \<Rightarrow> 'd \<Rightarrow> string \<Rightarrow> bytes \<Rightarrow> store_fail + 'd" where
  "meta_set R txn key val = put R txn META (as_bytes key) val"

definition meta_get :: "'d redb \<Rightarrow> 'd \<Rightarrow> string \<Rightarrow> store_fail + bytes option" where
  "meta_get R txn key = fetch R txn META (as_bytes key)"

definition meta_get_required :: "'d redb \<Rightarrow> 'd \<Rightarrow> string \<Rightarrow> store_fail + bytes" where
  "meta_get_required R txn key =
    res_bind (meta_get R txn key) (\<lambda>v.
    case v of Some bs \<Rightarrow> Inr bs | None \<Rightarrow> Inl (StoreErr (MetaKeyNotFound key)))"

definition meta_remove :: "'d redb \<Rightarrow> 'd \<Rightarrow> string \<Rightarrow> store_fail + 'd" where
  "meta_remove R txn key = del R txn META (as_bytes key)"

definition set_sync_progress :: "'d redb \<Rightarrow> 'd \<Rightarrow> nat \<Rightarrow> bytes \<Rightarrow> store_fail + 'd" where
  "set_sync_progress R txn height hash =
    res_bind (meta_set R txn KEY_SYNC_HEIGHT (be_bytes 4 height)) (\<lambda>txn.
    meta_set R txn KEY_SYNC_HASH hash)"

definition sync_height :: "'d redb \<Rightarrow> 'd \<Rightarrow> store_fail + nat option" where
  "sync_height R txn =
    res_bind (meta_get R txn KEY_SYNC_HEIGHT) (\<lambda>v.
    Inr (case v of Some bs \<Rightarrow> if length bs = 4 then Some (be_nat bs) else None | None \<Rightarrow> None))"

definition sync_hash :: "'d redb \<Rightarrow> 'd \<Rightarrow> store_fail + bytes option" where
  "sync_hash R txn =
    res_bind (meta_get R txn KEY_SYNC_HASH) (\<lambda>v.
    Inr (case v of Some bs \<Rightarrow> if length bs = 32 then Some bs else None | None \<Rightarrow> None))"

definition set_node_id :: "'d redb \<Rightarrow> 'd \<Rightarrow> bytes \<Rightarrow> store_fail + 'd" where
  "set_node_id R txn k = meta_set R txn KEY_NODE_ID k"

definition node_id :: "'d redb \<Rightarrow> 'd \<Rightarrow> store_fail + bytes option" where
  "node_id R txn = meta_get R txn KEY_NODE_ID"

definition set_user_agent :: "'d redb \<Rightarrow> 'd \<Rightarrow> string \<Rightarrow> store_fail + 'd" where
  "set_user_agent R txn ua = meta_set R txn KEY_USER_AGENT (as_bytes ua)"

definition meta_user_agent :: "'d redb \<Rightarrow> 'd \<Rightarrow> store_fail + string option" where
  "meta_user_agent R txn =
    res_bind (meta_get R txn KEY_USER_AGENT) (\<lambda>v.
    case v of
      Some bs \<Rightarrow>
        (case from_utf8 bs of
           Inr text \<Rightarrow> Inr (Some text)
         | Inl e \<Rightarrow> Inl (StoreErr (Corruption (''user_agent is not valid UTF-8: '' @ e))))
    | None \<Rightarrow> Inr None)"

definition set_network :: "'d redb \<Rightarrow> 'd \<Rightarrow> string \<Rightarrow> store_fail + 'd" where
  "set_network R txn net = meta_set R txn KEY_NETWORK (as_bytes net)"

definition meta_network :: "'d redb \<Rightarrow> 'd \<Rightarrow> store_fail + string option" where
  "meta_network R txn =
    res_bind (meta_get R txn KEY_NETWORK) (\<lambda>v.
    case v of
      Some bs \<Rightarrow>
        (case from_utf8 bs of
           Inr text \<Rightarrow> Inr (Some text)
         | Inl e \<Rightarrow> Inl (StoreErr (Corruption (''network is not valid UTF-8: '' @ e))))
    | None \<Rightarrow> Inr None)"

definition set_db_version :: "'d redb \<Rightarrow> 'd \<Rightarrow> nat \<Rightarrow> store_fail + 'd" where
  "set_db_version R txn version = meta_set R txn KEY_DB_VERSION (be_bytes 4 version)"

definition db_version :: "'d redb \<Rightarrow> 'd \<Rightarrow> store_fail + nat option" where
  "db_version R txn =
    res_bind (meta_get R txn KEY_DB_VERSION) (\<lambda>v.
    Inr (case v of Some bs \<Rightarrow> if length bs = 4 then Some (be_nat bs) else None | None \<Rightarrow> None))"

definition init_if_needed :: "'d redb \<Rightarrow> 'd \<Rightarrow> store_fail + 'd \<times> bool" where
  "init_if_needed R txn =
    res_bind (fetch_w R txn META (as_bytes KEY_DB_VERSION)) (\<lambda>(txn, v).
    if v \<noteq> None then Inr (txn, False)
    else res_bind (set_db_version R txn CURRENT_DB_VERSION) (\<lambda>txn. Inr (txn, True)))"

section \<open>The node store\<close>

text \<open>
  A body between \<open>begin_write\<close> and \<open>commit\<close>: an error or a panic drops the transaction
  uncommitted. Readers run on a snapshot.
\<close>

definition in_write ::
    "'d redb \<Rightarrow> 'd \<Rightarrow> ('d \<Rightarrow> store_fail + 'd \<times> 'a) \<Rightarrow> 'd \<times> (store_fail + 'a)" where
  "in_write R db body =
    (case res_bind (io (rd_begin_write R db)) (\<lambda>txn.
          res_bind (body txn) (\<lambda>(txn, x).
          res_bind (io (rd_commit R txn)) (\<lambda>db'. Inr (db', x)))) of
       Inl e \<Rightarrow> (db, Inl e)
     | Inr (db', x) \<Rightarrow> (db', Inr x))"

definition in_read :: "'d redb \<Rightarrow> 'd \<Rightarrow> ('d \<Rightarrow> store_fail + 'a) \<Rightarrow> store_fail + 'a" where
  "in_read R db body = res_bind (io (rd_begin_read R db)) body"

definition node_open :: "'d redb \<Rightarrow> string \<Rightarrow> store_fail + 'd" where
  "node_open R path =
    res_bind (io (rd_create R path)) (\<lambda>db.
    case in_write R db (init_if_needed R) of (db', r) \<Rightarrow> res_bind r (\<lambda>_. Inr db'))"

definition insert_header_and_update_sync ::
    "'d redb \<Rightarrow> btc \<Rightarrow> 'd \<Rightarrow> header \<Rightarrow> nat \<Rightarrow> 'd \<times> (store_fail + unit)" where
  "insert_header_and_update_sync R L db header height =
    in_write R db (\<lambda>txn.
      res_bind (header_insert R L txn header height) (\<lambda>txn.
      res_bind (set_sync_progress R txn height (hash_bytes (block_hash L header))) (\<lambda>txn.
      Inr (txn, ()))))"

definition insert_headers_batch ::
    "'d redb \<Rightarrow> btc \<Rightarrow> 'd \<Rightarrow> (header \<times> nat) list \<Rightarrow> 'd \<times> (store_fail + unit)" where
  "insert_headers_batch R L db headers =
    (if headers = [] then (db, Inr ())
     else
       in_write R db (\<lambda>txn.
         res_bind (res_fold (\<lambda>txn (header, height). header_insert R L txn header height) txn headers) (\<lambda>txn.
         case last headers of (last_header, last_height) \<Rightarrow>
           res_bind (set_sync_progress R txn last_height (hash_bytes (block_hash L last_header))) (\<lambda>txn.
           Inr (txn, ())))))"

definition reorganize ::
    "'d redb \<Rightarrow> btc \<Rightarrow> 'd \<Rightarrow> nat \<Rightarrow> nat \<Rightarrow> (header \<times> nat) list \<Rightarrow> 'd \<times> (store_fail + hash list)" where
  "reorganize R L db current_height fork_height new_headers =
    in_write R db (\<lambda>txn.
      res_bind (disconnect_range R L txn current_height (as_u32 (fork_height + 1))) (\<lambda>(txn, disconnected).
      res_bind
        (res_fold (\<lambda>(txn, new_tip_height, new_tip_hash) (header, height).
            res_bind (header_insert R L txn header height) (\<lambda>txn.
            Inr (txn, height, hash_bytes (block_hash L header))))
          (txn, fork_height, replicate 32 0) new_headers)
        (\<lambda>(txn, new_tip_height, new_tip_hash).
      res_bind (set_sync_progress R txn new_tip_height new_tip_hash) (\<lambda>txn.
      Inr (txn, disconnected)))))"

section \<open>The header chain as an interface\<close>

text \<open>
  What the operations on a chain of headers promise to those that build on them: \<open>known\<close> is
  the map of stored headers, \<open>best\<close> the chain by height, both observed under the invariant.
\<close>

locale header_index =
  fixes inv :: "'d \<Rightarrow> bool"
    and known :: "'d \<Rightarrow> hash \<Rightarrow> header option"
    and best :: "'d \<Rightarrow> nat \<Rightarrow> header option"
    and hash_of :: "header \<Rightarrow> hash"
    and rank :: "hash \<Rightarrow> nat"
    and insert_at :: "'d \<Rightarrow> header \<Rightarrow> nat \<Rightarrow> store_fail + 'd"
    and disconnect :: "'d \<Rightarrow> nat \<Rightarrow> nat \<Rightarrow> store_fail + 'd \<times> hash list"
  assumes insert_law: "inv d \<Longrightarrow> rank (hash_of h) = n \<Longrightarrow> n < 2 ^ 32 \<Longrightarrow> insert_at d h n = Inr d' \<Longrightarrow>
      inv d' \<and> known d' = (known d)(hash_of h \<mapsto> h) \<and>
      (\<forall>m < 2 ^ 32. best d' m = ((best d)(n \<mapsto> h)) m)"
    and disconnect_law: "inv d \<Longrightarrow> hi < 2 ^ 32 \<Longrightarrow> disconnect d hi lo = Inr (d', gone) \<Longrightarrow>
      inv d' \<and> (\<forall>m < 2 ^ 32. best d' m = (if lo \<le> m \<and> m \<le> hi then None else best d m)) \<and>
      (\<forall>k. known d' k = (if k \<in> set gone then None else known d k)) \<and>
      gone = map hash_of (List.map_filter (best d) (rev [lo..<Suc hi]))"
begin

text \<open>Headers stored one after the other at their ranks: the later entry of a height wins.\<close>

definition ranked :: "(header \<times> nat) list \<Rightarrow> bool" where
  "ranked hs \<longleftrightarrow> (\<forall>(h, n) \<in> set hs. rank (hash_of h) = n \<and> n < 2 ^ 32)"

lemma insert_all:
  assumes "inv d" and "ranked hs"
    and "res_fold (\<lambda>d (h, n). insert_at d h n) d hs = Inr d'"
  shows "inv d' \<and>
    (\<forall>m < 2 ^ 32. best d' m = (best d ++ map_of (rev (map prod.swap hs))) m) \<and>
    known d' = known d ++ map_of (rev (map (\<lambda>(h, n). (hash_of h, h)) hs))"
  using assms
proof (induction hs arbitrary: d)
  case Nil
  then show ?case by simp
next
  case (Cons x hs)
  obtain h n where x: "x = (h, n)"
    by (cases x)
  obtain d1 where d1: "insert_at d h n = Inr d1"
    and rest: "res_fold (\<lambda>d (h, n). insert_at d h n) d1 hs = Inr d'"
    using Cons.prems(3) by (auto simp: x res_simps)
  have "ranked hs" "rank (hash_of h) = n" "n < 2 ^ 32"
    using Cons.prems(2) by (auto simp: x ranked_def)
  with insert_law [OF Cons.prems(1) _ _ d1] Cons.IH [OF _ _ rest]
  show ?case
    by (auto simp: x map_add_def split: option.splits)
qed

text \<open>A reorganisation: the old segment goes, the new headers come.\<close>

lemma reorganized:
  assumes "inv d" and "hi < 2 ^ 32" and "ranked hs"
    and "disconnect d hi lo = Inr (d1, gone)"
    and "res_fold (\<lambda>d (h, n). insert_at d h n) d1 hs = Inr d'"
  shows "inv d'" and "gone = map hash_of (List.map_filter (best d) (rev [lo..<Suc hi]))"
    and "m < 2 ^ 32 \<Longrightarrow> best d' m =
      (case map_of (rev (map prod.swap hs)) m of
         Some h \<Rightarrow> Some h | None \<Rightarrow> if lo \<le> m \<and> m \<le> hi then None else best d m)"
  using disconnect_law [OF assms(1,2,4)] insert_all [OF _ assms(3,5)]
  by (auto simp: map_add_def split: option.splits)

end

definition header_inv :: "'d redb \<Rightarrow> btc \<Rightarrow> (hash \<Rightarrow> nat) \<Rightarrow> 'd \<Rightarrow> bool" where
  "header_inv R L rank d \<longleftrightarrow> redb_ok R \<and> hdr_codec_ok L \<and> index_ok R L rank d"

interpretation headers: header_index "header_inv R L rank" "known R L" "best_at R L" "block_hash L"
    rank "header_insert R L" "disconnect_range R L" for R L rank
proof
  fix d h n d'
  assume "header_inv R L rank d" "rank (block_hash L h) = n" "n < 2 ^ 32" "header_insert R L d h n = Inr d'"
  then show "header_inv R L rank d' \<and> known R L d' = (known R L d)(block_hash L h \<mapsto> h) \<and>
      (\<forall>m < 2 ^ 32. best_at R L d' m = ((best_at R L d)(n \<mapsto> h)) m)"
    using header_insert_abs [of R L rank d h n d'] by (simp add: header_inv_def)
next
  fix d hi lo d' gone
  assume "header_inv R L rank d" "hi < 2 ^ 32" "disconnect_range R L d hi lo = Inr (d', gone)"
  then show "header_inv R L rank d' \<and>
      (\<forall>m < 2 ^ 32. best_at R L d' m = (if lo \<le> m \<and> m \<le> hi then None else best_at R L d m)) \<and>
      (\<forall>k. known R L d' k = (if k \<in> set gone then None else known R L d k)) \<and>
      gone = map (block_hash L) (List.map_filter (best_at R L d) (rev [lo..<Suc hi]))"
    using disconnect_range_abs [of R L rank d hi lo d' gone]
    by (simp add: header_inv_def best_hashes_def)
qed

end
