(* ===== verification/Node_Facts.thy ===== *)
theory Node_Facts
  imports Node_Store
begin

text \<open>
  What the metadata and the transactions of \<open>NodeStore\<close> do to the abstract store: effects on
  the tables, success without faults, and the outcomes of a batch and of a reorganisation.
\<close>

section \<open>Metadata\<close>

lemma META_headers [simp]: "META \<notin> header_tables" "t \<in> header_tables \<Longrightarrow> t \<noteq> META"
  by (auto simp: META_def header_tables_def HEADERS_def HEIGHT_TO_HASH_def HASH_TO_HEIGHT_def)

lemmas meta_keys = KEY_SYNC_HEIGHT_def KEY_SYNC_HASH_def KEY_NODE_ID_def KEY_USER_AGENT_def
  KEY_NETWORK_def KEY_DB_VERSION_def

lemma meta_set_look:
  "redb_ok R \<Longrightarrow> meta_set R d key v = Inr d' \<Longrightarrow>
    look R d' = (look R d)(META := (look R d META)(as_bytes key \<mapsto> v)) \<and>
    rd_has R d' = (rd_has R d)(META := True)"
  unfolding meta_set_def by (rule put_look)

lemma set_sync_progress_look:
  assumes "redb_ok R" and "set_sync_progress R d n hb = Inr d'"
  shows "look R d' = (look R d)(META := (look R d META)
    (as_bytes KEY_SYNC_HEIGHT \<mapsto> be_bytes 4 n, as_bytes KEY_SYNC_HASH \<mapsto> hb))"
    and "rd_has R d' = (rd_has R d)(META := True)"
proof -
  obtain d1 where "meta_set R d KEY_SYNC_HEIGHT (be_bytes 4 n) = Inr d1"
    "meta_set R d1 KEY_SYNC_HASH hb = Inr d'"
    using assms(2) by (auto simp: set_sync_progress_def res_simps)
  note * = meta_set_look [OF assms(1) this(1)] meta_set_look [OF assms(1) this(2)]
  then show "look R d' = (look R d)(META := (look R d META)
    (as_bytes KEY_SYNC_HEIGHT \<mapsto> be_bytes 4 n, as_bytes KEY_SYNC_HASH \<mapsto> hb))"
    and "rd_has R d' = (rd_has R d)(META := True)"
    by simp_all
qed

lemma meta_get_up:
  "redb_ok R \<Longrightarrow> redb_up R \<Longrightarrow> rd_has R d META \<Longrightarrow> meta_get R d key = Inr (look R d META (as_bytes key))"
  by (simp add: meta_get_def fetch_up)

lemma set_sync_progress_up: "redb_ok R \<Longrightarrow> redb_up R \<Longrightarrow> \<exists>d'. set_sync_progress R d n hb = Inr d'"
  unfolding set_sync_progress_def meta_set_def by (metis put_up res_bind.simps(2))

text \<open>The sync progress a database records.\<close>

definition progress :: "'d redb \<Rightarrow> 'd \<Rightarrow> nat \<Rightarrow> bytes \<Rightarrow> bool" where
  "progress R d n hb \<longleftrightarrow> sync_height R d = Inr (Some n) \<and> sync_hash R d = Inr (Some hb)"

definition recorded :: "'d redb \<Rightarrow> 'd \<Rightarrow> nat \<Rightarrow> bytes \<Rightarrow> bool" where
  "recorded R d n hb \<longleftrightarrow> rd_has R d META \<and>
    look R d META (as_bytes KEY_SYNC_HEIGHT) = Some (be_bytes 4 n) \<and>
    look R d META (as_bytes KEY_SYNC_HASH) = Some hb"

lemma recorded_progress:
  "redb_ok R \<Longrightarrow> redb_up R \<Longrightarrow> recorded R d n hb \<Longrightarrow> n < 2 ^ 32 \<Longrightarrow> length hb = 32 \<Longrightarrow>
    progress R d n hb"
  by (simp add: progress_def recorded_def sync_height_def sync_hash_def meta_get_up)

section \<open>Transactions\<close>

lemma in_write_cases:
  assumes "in_write R db body = (db', r)"
  obtains (failed) e where "r = Inl e" "db' = db"
  | (committed) txn txn' x where "rd_begin_write R db = Inr txn" "body txn = Inr (txn', x)"
      "rd_commit R txn' = Inr db'" "r = Inr x"
  using assms by (auto simp: in_write_def res_simps split: sum.splits)

lemma in_write_up:
  assumes "redb_up R" and "\<And>txn. rd_begin_write R db = Inr txn \<Longrightarrow> \<exists>r. body txn = Inr r"
  shows "\<exists>db' x. in_write R db body = (db', Inr x)"
proof -
  obtain txn where txn: "rd_begin_write R db = Inr txn"
    using redb_up(2) [OF assms(1)] by blast
  then obtain txn' x where "body txn = Inr (txn', x)"
    using assms(2) by fastforce
  moreover obtain db' where "rd_commit R txn' = Inr db'"
    using redb_up(3) [OF assms(1)] by blast
  ultimately show ?thesis
    using txn by (simp add: in_write_def)
qed

lemma header_inv_frame:
  assumes "\<And>t. t \<in> header_tables \<Longrightarrow> look R d' t = look R d t"
  shows "header_inv R L rank d' = header_inv R L rank d" and "known R L d' = known R L d"
    and "best_at R L d' = best_at R L d"
  using header_frame [of R d' d] assms by (simp_all add: header_inv_def header_tables_def)

lemma same_rows_look: "same_rows R d d' \<Longrightarrow> look R d' t = look R d t"
  by (simp add: same_rows_def)

lemma insert_fold_frame:
  assumes "redb_ok R" and "res_fold (\<lambda>d (h, n). header_insert R L d h n) d hs = Inr d'"
    and "t \<notin> header_tables"
  shows "look R d' t = look R d t"
  using assms(2)
proof (induction hs arbitrary: d)
  case Nil
  then show ?case by simp
next
  case (Cons x hs)
  obtain h n where x: "x = (h, n)"
    by (cases x)
  obtain d1 where d1: "header_insert R L d h n = Inr d1"
    and "res_fold (\<lambda>d (h, n). header_insert R L d h n) d1 hs = Inr d'"
    using Cons.prems by (auto simp: x res_simps)
  with Cons.IH header_insert_frame [OF assms(1) d1 assms(3)] show ?case by simp
qed

lemma insert_fold_up:
  "redb_ok R \<Longrightarrow> redb_up R \<Longrightarrow> \<exists>d'. res_fold (\<lambda>d (h, n). header_insert R L d h n) d hs = Inr d'"
  by (rule res_fold_ok) (auto intro: header_insert_up)

text \<open>The loop that also remembers the tip.\<close>

lemma res_fold_tip:
  "res_fold (\<lambda>(txn, th, tk) (h, n). res_bind (f txn h n) (\<lambda>txn. Inr (txn, n, g h))) (txn, a, b) hs =
    res_bind (res_fold (\<lambda>txn (h, n). f txn h n) txn hs) (\<lambda>txn.
      Inr (txn, if hs = [] then (a, b) else (snd (last hs), g (fst (last hs)))))"
proof (induction hs arbitrary: txn a b)
  case Nil
  then show ?case by simp
next
  case (Cons x hs)
  obtain h n where x: "x = (h, n)"
    by (cases x)
  show ?case
    using Cons.IH [of _ n "g h"] by (cases "f txn h n") (simp_all add: x)
qed

text \<open>Where \<open>header_index.ranked\<close> is read on the header store.\<close>

definition ranked_headers :: "btc \<Rightarrow> (hash \<Rightarrow> nat) \<Rightarrow> (header \<times> nat) list \<Rightarrow> bool" where
  "ranked_headers L rank hs \<longleftrightarrow> (\<forall>(h, n) \<in> set hs. rank (block_hash L h) = n \<and> n < 2 ^ 32)"

lemma ranked_headers_iff: "header_index.ranked (block_hash L) rank hs = ranked_headers L rank hs"
  by (simp add: ranked_headers_def headers.ranked_def)

text \<open>The chain after a list of headers was connected to it.\<close>

definition connect :: "(header \<times> nat) list \<Rightarrow> (nat \<Rightarrow> header option) \<Rightarrow> nat \<Rightarrow> header option" where
  "connect hs chain m = (case map_of (rev (map prod.swap hs)) m of Some h \<Rightarrow> Some h | None \<Rightarrow> chain m)"

definition cut_range :: "nat \<Rightarrow> nat \<Rightarrow> (nat \<Rightarrow> header option) \<Rightarrow> nat \<Rightarrow> header option" where
  "cut_range lo hi chain m = (if lo \<le> m \<and> m \<le> hi then None else chain m)"

text \<open>One body for both: disconnect a range, connect headers, record the progress.\<close>

lemma reorg_commit:
  assumes inv: "header_inv R L rank db" and hs: "ranked_headers L rank hs" and hi: "hi < 2 ^ 32"
    and b: "rd_begin_write R db = Inr t0"
    and dis: "disconnect_range R L t0 hi lo = Inr (t1, gone)"
    and ins: "res_fold (\<lambda>d (h, n). header_insert R L d h n) t1 hs = Inr t2"
    and prog: "set_sync_progress R t2 n hb = Inr t3" and c: "rd_commit R t3 = Inr db'"
  shows "header_inv R L rank db'" and "gone = best_hashes R L db (rev [lo..<Suc hi])"
    and "m < 2 ^ 32 \<Longrightarrow> best_at R L db' m = connect hs (cut_range lo hi (best_at R L db)) m"
    and "recorded R db' n hb"
proof -
  have ok: "redb_ok R"
    using inv by (simp add: header_inv_def)
  note l0 = same_rows_look [OF redb_begin(2) [OF ok b]] and lc = redb_begin(3) [OF ok c]
  note f0 = header_inv_frame [OF l0]
  note l3 = set_sync_progress_look [OF ok prog]
  have "look R db' t = look R t2 t" if "t \<in> header_tables" for t
    using that l3 same_rows_look [OF lc] by simp
  note f3 = header_inv_frame [OF this]
  have inv0: "header_inv R L rank t0"
    using inv f0(1) by simp
  note r = headers.reorganized [OF inv0 hi hs [folded ranked_headers_iff] dis ins]
  show "header_inv R L rank db'"
    using r(1) f3(1) by simp
  show "gone = best_hashes R L db (rev [lo..<Suc hi])"
    using r(2) f0(3) by (simp add: best_hashes_def)
  show "m < 2 ^ 32 \<Longrightarrow> best_at R L db' m = connect hs (cut_range lo hi (best_at R L db)) m"
    using r(3) [of m] f0(3) f3(3) by (simp add: connect_def cut_range_def split: option.split)
  show "recorded R db' n hb"
    using l3 lc by (simp add: recorded_def same_rows_def meta_keys)
qed

lemma reorganize_up:
  assumes inv: "header_inv R L rank db" and up: "redb_up R" and cur: "cur < 2 ^ 32"

  shows "\<exists>db' gone. reorganize R L db cur fork hs = (db', Inr gone)"
proof -
  have ok: "redb_ok R" and codec: "hdr_codec_ok L"
    using inv by (simp_all add: header_inv_def)
  show ?thesis
    unfolding reorganize_def
  proof (rule in_write_up [OF up])
    fix t0 assume "rd_begin_write R db = Inr t0"
    from header_inv_frame(1) [OF same_rows_look [OF redb_begin(2) [OF ok this]]] inv
    have "header_inv R L rank t0" by blast
    then have idx: "index_ok R L rank t0"
      by (simp add: header_inv_def)
    have "\<forall>h \<in> set (rev [as_u32 (fork + 1)..<Suc cur]). h < 2 ^ 32"
      using cur by auto
    then obtain t1 gone where d: "disconnect_range R L t0 cur (as_u32 (fork + 1)) = Inr (t1, gone)"
      using disconnect_heights_up [OF ok up codec idx] unfolding disconnect_range_def by (metis prod.exhaust)
    obtain t2 where i: "res_fold (\<lambda>d (h, n). header_insert R L d h n) t1 hs = Inr t2"
      using insert_fold_up [OF ok up] by blast
    have p: "\<exists>r. res_bind (set_sync_progress R t2 n hb) (\<lambda>txn. Inr (txn, gone)) = Inr r" for n hb
      using set_sync_progress_up [OF ok up, of t2 n hb] by (metis res_bind.simps(2))
    show "\<exists>r. res_bind (disconnect_range R L t0 cur (as_u32 (fork + 1))) (\<lambda>(txn, disconnected).
      res_bind
        (res_fold (\<lambda>(txn, new_tip_height, new_tip_hash) (header, height).
            res_bind (header_insert R L txn header height) (\<lambda>txn.
            Inr (txn, height, hash_bytes (block_hash L header))))
          (txn, fork, replicate 32 0) hs)
        (\<lambda>(txn, new_tip_height, new_tip_hash).
      res_bind (set_sync_progress R txn new_tip_height new_tip_hash) (\<lambda>txn.
      Inr (txn, disconnected)))) = Inr r"
      using d i p by (simp add: res_fold_tip)
  qed
qed

lemma insert_headers_batch_up:
  assumes ok: "redb_ok R" and up: "redb_up R"
  shows "\<exists>db'. insert_headers_batch R L db hs = (db', Inr ())"
proof (cases "hs = []")
  case False
  have "\<exists>db' x. in_write R db (\<lambda>txn.
      res_bind (res_fold (\<lambda>txn (header, height). header_insert R L txn header height) txn hs) (\<lambda>txn.
      case last hs of (last_header, last_height) \<Rightarrow>
        res_bind (set_sync_progress R txn last_height (hash_bytes (block_hash L last_header))) (\<lambda>txn.
        Inr (txn, ())))) = (db', Inr x)"
  proof (rule in_write_up [OF up])
    fix t0
    obtain t2 where "res_fold (\<lambda>d (h, n). header_insert R L d h n) t0 hs = Inr t2"
      using insert_fold_up [OF ok up] by blast
    moreover obtain t3 where
      "set_sync_progress R t2 (snd (last hs)) (hash_bytes (block_hash L (fst (last hs)))) = Inr t3"
      using set_sync_progress_up [OF ok up] by blast
    ultimately show "\<exists>r. res_bind (res_fold (\<lambda>txn (header, height). header_insert R L txn header height) t0 hs)
      (\<lambda>txn. case last hs of (last_header, last_height) \<Rightarrow>
        res_bind (set_sync_progress R txn last_height (hash_bytes (block_hash L last_header))) (\<lambda>txn.
        Inr (txn, ()))) = Inr r"
      by (simp add: split_beta)
  qed
  with False show ?thesis
    by (simp add: insert_headers_batch_def)
qed (simp add: insert_headers_batch_def)

section \<open>Outcomes of the two transactions\<close>

text \<open>The tip a list of new headers leaves: its last header, or the fork with a zero hash.\<close>

definition new_tip :: "btc \<Rightarrow> nat \<Rightarrow> (header \<times> nat) list \<Rightarrow> nat \<times> bytes" where
  "new_tip L fork hs =
    (if hs = [] then (fork, replicate 32 0) else (snd (last hs), hash_bytes (block_hash L (fst (last hs)))))"

lemma reorganize_outcome:
  assumes inv: "header_inv R L rank db" and hs: "ranked_headers L rank hs"
    and cur: "cur < 2 ^ 32" and fork: "fork \<le> cur" "Suc fork < 2 ^ 32"
    and run: "reorganize R L db cur fork hs = (db', r)"
  shows "(\<exists>e. r = Inl e \<and> db' = db) \<or>
    (r = Inr (best_hashes R L db (rev [Suc fork..<Suc cur])) \<and> header_inv R L rank db' \<and>
     (\<forall>m < 2 ^ 32. best_at R L db' m = connect hs (cut_range (Suc fork) cur (best_at R L db)) m) \<and>
     recorded R db' (fst (new_tip L fork hs)) (snd (new_tip L fork hs)))"
    (is ?outcome)
proof -
  have lo: "as_u32 (fork + 1) = Suc fork"
    using fork by (simp add: u64_simps)
  show ?outcome
    using in_write_cases [OF run [unfolded reorganize_def lo res_fold_tip]]
  proof cases
    case 1
    then show ?outcome by blast
  next
    case committed: (2 t0 t3 gone)
    then obtain t1 t2 where
      "disconnect_range R L t0 cur (Suc fork) = Inr (t1, gone)"
      "res_fold (\<lambda>d (h, n). header_insert R L d h n) t1 hs = Inr t2"
      "set_sync_progress R t2 (fst (new_tip L fork hs)) (snd (new_tip L fork hs)) = Inr t3"
      by (auto simp: res_simps new_tip_def split: if_splits)
    note * = reorg_commit [OF inv hs cur committed(1) this committed(3)]
    then show ?outcome
      using committed(4) by blast
  qed
qed

lemma insert_headers_batch_outcome:
  assumes inv: "header_inv R L rank db" and hs: "ranked_headers L rank hs" and ne: "hs \<noteq> []"
    and run: "insert_headers_batch R L db hs = (db', r)"
  shows "(\<exists>e. r = Inl e \<and> db' = db) \<or>
    (r = Inr () \<and> header_inv R L rank db' \<and>
     (\<forall>m < 2 ^ 32. best_at R L db' m = connect hs (best_at R L db) m) \<and>
     known R L db' = known R L db ++ map_of (rev (map (\<lambda>(h, n). (block_hash L h, h)) hs)) \<and>
     recorded R db' (snd (last hs)) (hash_bytes (block_hash L (fst (last hs)))))"
proof -
  have ok: "redb_ok R"
    using inv by (simp add: header_inv_def)
  from run ne have "in_write R db (\<lambda>txn.
      res_bind (res_fold (\<lambda>txn (header, height). header_insert R L txn header height) txn hs) (\<lambda>txn.
      case last hs of (last_header, last_height) \<Rightarrow>
        res_bind (set_sync_progress R txn last_height (hash_bytes (block_hash L last_header))) (\<lambda>txn.
        Inr (txn, ())))) = (db', r)"
    by (simp add: insert_headers_batch_def)
  then show "(\<exists>e. r = Inl e \<and> db' = db) \<or>
    (r = Inr () \<and> header_inv R L rank db' \<and>
     (\<forall>m < 2 ^ 32. best_at R L db' m = connect hs (best_at R L db) m) \<and>
     known R L db' = known R L db ++ map_of (rev (map (\<lambda>(h, n). (block_hash L h, h)) hs)) \<and>
     recorded R db' (snd (last hs)) (hash_bytes (block_hash L (fst (last hs)))))" (is ?outcome)
  proof (cases rule: in_write_cases)
    case failed
    then show ?outcome by blast
  next
    case (committed t0 t3 x)
    obtain lh ln where last: "last hs = (lh, ln)"
      by (cases "last hs")
    with committed(2) obtain t2 where i: "res_fold (\<lambda>d (h, n). header_insert R L d h n) t0 hs = Inr t2"
      and p: "set_sync_progress R t2 (snd (last hs)) (hash_bytes (block_hash L (fst (last hs)))) = Inr t3"
      by (auto simp: res_simps)
    note l0 = same_rows_look [OF redb_begin(2) [OF ok committed(1)]]
    note lc = redb_begin(3) [OF ok committed(3)] and l3 = set_sync_progress_look [OF ok p]
    note f0 = header_inv_frame [OF l0]
    have "look R db' t = look R t2 t" if "t \<in> header_tables" for t
      using that l3 same_rows_look [OF lc] by simp
    note f3 = header_inv_frame [OF this]
    have "header_inv R L rank t0"
      using inv f0(1) by simp
    note a = headers.insert_all [OF this hs [folded ranked_headers_iff] i]
    have "recorded R db' (snd (last hs)) (hash_bytes (block_hash L (fst (last hs))))"
      using l3 lc by (simp add: recorded_def same_rows_def meta_keys)
    moreover have "r = Inr ()"
      using committed(4) by simp
    ultimately show ?outcome
      using a f0 f3 by (simp add: connect_def map_add_def)
  qed
qed

end
