(* ===== verification/Sample_Db.thy ===== *)
theory Sample_Db
  imports Redb
begin

text \<open>
  A database kept as a list of tables: an instance of the parameter \<open>redb\<close> for which its
  laws are proved, so that they are known to be satisfiable and the witnesses can compute.
\<close>

type_synonym sample_db = "(string \<times> (bytes \<times> bytes) list) list"

definition sample_rows :: "sample_db \<Rightarrow> string \<Rightarrow> (bytes \<times> bytes) list" where
  "sample_rows d t =
    (case map_of d t of Some rows \<Rightarrow> sort_key fst (AList.clearjunk rows) | None \<Rightarrow> [])"

definition no_table :: "store_error + 'a" where
  "no_table = Inl (Table ''TableDoesNotExist'')"

definition sample_redb :: "sample_db redb" where
  "sample_redb =
    \<lparr>rd_create = (\<lambda>path. Inr []), rd_begin_read = Inr, rd_begin_write = Inr, rd_commit = Inr,
     rd_open_read = (\<lambda>d t. if map_of d t = None then no_table else Inr ()),
     rd_open_write = (\<lambda>d t. Inr (if map_of d t = None then AList.update t [] d else d)),
     rd_get = (\<lambda>d t k. case map_of d t of Some rows \<Rightarrow> Inr (map_of rows k) | None \<Rightarrow> no_table),
     rd_insert = (\<lambda>d t k v. case map_of d t of
        Some rows \<Rightarrow> Inr (AList.update t (AList.update k v rows) d) | None \<Rightarrow> no_table),
     rd_remove = (\<lambda>d t k. case map_of d t of
        Some rows \<Rightarrow> Inr (AList.update t (AList.delete k rows) d) | None \<Rightarrow> no_table),
     rd_iter = (\<lambda>d t. if map_of d t = None then no_table else Inr (map Inr (sample_rows d t))),
     rd_len = (\<lambda>d t. if map_of d t = None then no_table else Inr (length (sample_rows d t))),
     rd_has = (\<lambda>d t. map_of d t \<noteq> None),
     rd_rows = sample_rows\<rparr>"

lemma sort_key_distinct: "distinct (map fst xs) \<Longrightarrow> distinct (map fst (sort_key fst xs))"
  by (rule mset_eq_imp_distinct_iff [THEN iffD2]) simp_all

lemma map_of_sort_key: "distinct (map fst xs) \<Longrightarrow> map_of (sort_key fst xs) = map_of xs"
  using sort_key_distinct by (subst map_of_inject_set) auto

lemma sample_rows_map:
  "map_of (sample_rows d t) = (case map_of d t of Some rows \<Rightarrow> map_of rows | None \<Rightarrow> Map.empty)"
  by (simp add: sample_rows_def map_of_sort_key distinct_clearjunk map_of_clearjunk split: option.split)

lemma sample_sorted: "sorted_wrt (<) (map fst (sample_rows d t))"
  by (simp add: sample_rows_def strict_sorted_iff sort_key_distinct distinct_clearjunk
      split: option.split)

lemma sample_redb_simps [simp]:
  "rd_create sample_redb path = Inr []" "rd_begin_read sample_redb d = Inr d"
  "rd_begin_write sample_redb d = Inr d" "rd_commit sample_redb d = Inr d"
  "rd_open_read sample_redb d t = (if map_of d t = None then no_table else Inr ())"
  "rd_open_write sample_redb d t = Inr (if map_of d t = None then AList.update t [] d else d)"
  "rd_get sample_redb d t k =
    (case map_of d t of Some rows \<Rightarrow> Inr (map_of rows k) | None \<Rightarrow> no_table)"
  "rd_insert sample_redb d t k v = (case map_of d t of
      Some rows \<Rightarrow> Inr (AList.update t (AList.update k v rows) d) | None \<Rightarrow> no_table)"
  "rd_remove sample_redb d t k = (case map_of d t of
      Some rows \<Rightarrow> Inr (AList.update t (AList.delete k rows) d) | None \<Rightarrow> no_table)"
  "rd_iter sample_redb d t =
    (if map_of d t = None then no_table else Inr (map Inr (sample_rows d t)))"
  "rd_len sample_redb d t =
    (if map_of d t = None then no_table else Inr (length (sample_rows d t)))"
  "rd_has sample_redb = (\<lambda>d t. map_of d t \<noteq> None)" "rd_rows sample_redb = sample_rows"
  "no_table \<noteq> Inr x"
  by (simp_all add: sample_redb_def no_table_def)

lemma sample_look:
  "look sample_redb d t k = (case map_of d t of Some rows \<Rightarrow> map_of rows k | None \<Rightarrow> None)"
  by (simp add: look_def sample_rows_map split: option.split)

lemma sample_redb_ok [simp]: "redb_ok sample_redb"
  unfolding redb_ok_def
  by (auto simp: same_rows_def sample_look sample_sorted list_all2_map1 list.rel_refl fun_eq_iff
      split: option.splits if_splits)

lemma sample_redb_up [simp]: "redb_up sample_redb"
  by (auto simp: redb_up_def split: option.splits)

end
