(* ===== verification/Sample_Chain.thy ===== *)
theory Sample_Chain
  imports Node_Facts Samples Sample_Db
begin

text \<open>A store with three headers, for the witnesses.\<close>

definition sample_hdr :: "nat \<Rightarrow> header" where
  "sample_hdr n =
    \<lparr>hdr_version = 1, prev_blockhash = of_nat (n - 1), merkle_root = 0, hdr_time = 0,
     hdr_bits = 0, hdr_nonce = of_nat n\<rparr>"

text \<open>Headers 1, 2 and 3 at the heights of their numbers, on an empty database.\<close>

definition sample_headers :: "(header \<times> nat) list" where
  "sample_headers = [(sample_hdr 1, 1), (sample_hdr 2, 2), (sample_hdr 3, 3)]"

definition sample_chain :: sample_db where
  "sample_chain =
    (case res_fold (\<lambda>d (h, n). header_insert sample_redb sample_btc d h n) [] sample_headers of
       Inr d \<Rightarrow> d | Inl e \<Rightarrow> [])"

lemma sample_block_hash [simp]: "n < 2 ^ 32 \<Longrightarrow> unat (ucast (of_nat n :: 32 word) :: hash) = n"
  by (simp add: unsigned_ucast_eq unat_of_nat take_bit_eq_mod)

lemma sample_ranked [simp]:
  "(\<And>h n. (h, n) \<in> set hs \<Longrightarrow> n < 2 ^ 32 \<and> hdr_nonce h = of_nat n) \<Longrightarrow>
    ranked_headers sample_btc unat hs"
  by (auto simp: ranked_headers_def)

lemma sample_empty_inv [simp]: "header_inv sample_redb sample_btc rank []"
  by (auto simp: header_inv_def sample_look intro: index_okI)

lemma sample_chain_facts:
  shows "header_inv sample_redb sample_btc unat sample_chain"
    and "m < 2 ^ 32 \<Longrightarrow> best_at sample_redb sample_btc sample_chain m =
      connect sample_headers (\<lambda>_. None) m"
    and "known sample_redb sample_btc sample_chain 3 = Some (sample_hdr 3)"
proof -
  obtain d where "res_fold (\<lambda>d (h, n). header_insert sample_redb sample_btc d h n) [] sample_headers = Inr d"
    using insert_fold_up [OF sample_redb_ok sample_redb_up] by blast
  moreover from this have "sample_chain = d"
    by (simp add: sample_chain_def)
  ultimately have run:
    "res_fold (\<lambda>d (h, n). header_insert sample_redb sample_btc d h n) [] sample_headers = Inr sample_chain"
    by simp
  have "ranked_headers sample_btc unat sample_headers"
    by (rule sample_ranked) (auto simp: sample_headers_def sample_hdr_def)
  note * = headers.insert_all [OF sample_empty_inv this [folded ranked_headers_iff] run]
  have "best_at sample_redb sample_btc [] = (\<lambda>_. None)"
    by (simp add: best_at_def sample_look fun_eq_iff)
  with * show "header_inv sample_redb sample_btc unat sample_chain"
    and "m < 2 ^ 32 \<Longrightarrow> best_at sample_redb sample_btc sample_chain m =
      connect sample_headers (\<lambda>_. None) m"
    by (simp_all add: connect_def map_add_def split: option.split)
  show "known sample_redb sample_btc sample_chain 3 = Some (sample_hdr 3)"
    using * by (simp add: sample_headers_def sample_hdr_def)
qed

lemma sample_best:
  "best_at sample_redb sample_btc sample_chain 1 = Some (sample_hdr 1)"
  "best_at sample_redb sample_btc sample_chain 2 = Some (sample_hdr 2)"
  "best_at sample_redb sample_btc sample_chain 3 = Some (sample_hdr 3)"
  by (simp_all add: sample_chain_facts(2) connect_def sample_headers_def)

lemma sample_has [simp]:
  "rd_has sample_redb sample_chain HEADERS" "rd_has sample_redb sample_chain HEIGHT_TO_HASH"
  "rd_has sample_redb sample_chain HASH_TO_HEIGHT"
proof -
  have "map_of sample_chain t \<noteq> None" if "look sample_redb sample_chain t k = Some v" for t k v
    using that by (auto simp: sample_look split: option.splits)
  moreover have "index_ok sample_redb sample_btc unat sample_chain" "hdr_codec_ok sample_btc"
    using sample_chain_facts(1) by (simp_all add: header_inv_def)
  note best = index_best [OF this, of 3 "sample_hdr 3"] and k = index_header [OF this, of 3 "sample_hdr 3"]
    and h = index_height(1) [OF this(1) sample_chain_facts(3) this(2)]
  ultimately show "rd_has sample_redb sample_chain HEADERS" "rd_has sample_redb sample_chain HEIGHT_TO_HASH"
    "rd_has sample_redb sample_chain HASH_TO_HEIGHT"
    using best k h sample_best(3) sample_chain_facts(3) by (simp_all del: sample_btc_simps) blast+
qed

lemma sample_stored_at:
  "stored_at sample_redb sample_btc sample_chain 3 =
    Some \<lparr>sh_header = sample_hdr 3, sh_height = 3, sh_hash = 3\<rparr>"
  by (simp add: stored_at_def sample_best) (simp add: sample_hdr_def)

end
