(* ===== verification/Node_Props.thy ===== *)
theory Node_Props
  imports Sample_Chain
begin

text \<open>The properties of the header store, the metadata and the transactions of \<open>NodeStore\<close>.\<close>

section \<open>Properties\<close>

text \<open>
  C4: A reorganisation is atomic: it fails and leaves the database alone, or the stored chain
  is the old one below the fork with the new headers on top, the hashes it reports are those
  of the old segment from the highest down, the index stays consistent and the last new
  header is recorded as the sync progress. On a database without faults it does not fail.
\<close>

theorem reorganize_atomic:
  assumes inv: "header_inv R L rank db" and hs: "ranked_headers L rank hs" and ne: "hs \<noteq> []"
    and cur: "cur < 2 ^ 32" and fork: "fork < cur"
    and run: "reorganize R L db cur fork hs = (db', r)"
  shows "((\<exists>e. r = Inl e \<and> db' = db) \<or>
    (r = Inr (best_hashes R L db (rev [Suc fork..<Suc cur])) \<and> header_inv R L rank db' \<and>
     (\<forall>m < 2 ^ 32. best_at R L db' m = connect hs (cut_range (Suc fork) cur (best_at R L db)) m) \<and>
     recorded R db' (snd (last hs)) (hash_bytes (block_hash L (fst (last hs)))))) \<and>
    (redb_up R \<longrightarrow> res_is_ok r)"
  using reorganize_outcome [OF inv hs cur _ _ run] reorganize_up [OF inv _ cur, of fork hs]
    ne cur fork run
  by (auto simp: new_tip_def res_is_ok_iff)

text \<open>
  C15: Storing a batch of headers is atomic: it fails and leaves the database alone, or every
  header of the batch is stored at its height and found by its hash, the rest of the chain
  stays, and the last header of the batch is the sync progress. On a database without
  faults it does not fail.
\<close>

theorem insert_headers_batch_atomic:
  assumes inv: "header_inv R L rank db" and hs: "ranked_headers L rank hs" and ne: "hs \<noteq> []"
    and run: "insert_headers_batch R L db hs = (db', r)"
  shows "((\<exists>e. r = Inl e \<and> db' = db) \<or>
    (r = Inr () \<and> header_inv R L rank db' \<and>
     (\<forall>m < 2 ^ 32. best_at R L db' m = connect hs (best_at R L db) m) \<and>
     known R L db' = known R L db ++ map_of (rev (map (\<lambda>(h, n). (block_hash L h, h)) hs)) \<and>
     recorded R db' (snd (last hs)) (hash_bytes (block_hash L (fst (last hs)))))) \<and>
    (redb_up R \<longrightarrow> r = Inr ())"
  using insert_headers_batch_outcome [OF inv hs ne run] insert_headers_batch_up [of R L db hs] inv run
  by (auto simp: header_inv_def)

text \<open>
  On a consistent store whose tables exist and whose database has no faults, a lookup by
  height returns the header of the chain at that height and a lookup by its hash returns the
  same record; a height off the chain returns nothing.
\<close>

theorem lookups_agree:
  assumes "header_inv R L rank d" and "redb_up R"
    and "rd_has R d HEADERS" and "rd_has R d HASH_TO_HEIGHT" and "rd_has R d HEIGHT_TO_HASH"
    and "n < 2 ^ 32"
  shows "get_by_height R L d n = Inr (stored_at R L d n) \<and>
    (\<forall>s. stored_at R L d n = Some s \<longrightarrow>
      get_by_hash R L d (sh_hash s) = Inr (Some s) \<and> sh_hash s = block_hash L (sh_header s))"
proof -
  have inv: "redb_ok R" "hdr_codec_ok L" "index_ok R L rank d"
    using assms(1) by (simp_all add: header_inv_def)
  note up = get_by_height_up [OF inv(1) assms(2) inv(2,3) assms(3-6)]
    get_by_hash_up [OF inv(1) assms(2) inv(2,3) assms(3,4)]
  have "known R L d (block_hash L h) = Some h \<and> rank (block_hash L h) = n"
    if "best_at R L d n = Some h" for h
    using index_best [OF inv(3,2) assms(6)] that by blast
  with up show ?thesis
    by (auto simp: stored_at_def entry_of_def)
qed

text \<open>
  The tip of a consistent store is found without an error and is the header of greatest
  height of the chain, or nothing when the chain is empty.
\<close>

theorem tip_is_highest:
  assumes "header_inv R L rank d" and "redb_up R"
    and "rd_has R d HEADERS" and "rd_has R d HASH_TO_HEIGHT" and "rd_has R d HEIGHT_TO_HASH"
  shows "\<exists>r. header_tip R L d = Inr r \<and>
    (case r of
       None \<Rightarrow> \<forall>n < 2 ^ 32. best_at R L d n = None
     | Some s \<Rightarrow> stored_at R L d (sh_height s) = Some s \<and>
         (\<forall>n < 2 ^ 32. best_at R L d n \<noteq> None \<longrightarrow> n \<le> sh_height s))"
proof -
  obtain r where r: "header_tip R L d = Inr r"
    using assms header_tip_up [of R L rank d] by (auto simp: header_inv_def)
  with assms(1) header_tip_abs [of R L rank d r] show ?thesis
    by (intro exI [of _ r]) (auto simp: header_inv_def not_le [symmetric] split: option.splits)
qed

text \<open>
  A store that never held a header answers every query for headers with an error, since
  its tables do not exist yet: the absence of headers is not reported as such.
\<close>

theorem fresh_store_reads_fail:
  assumes "redb_ok R" and "\<not> rd_has R d HEADERS" and "\<not> rd_has R d HEIGHT_TO_HASH"
  shows "(\<exists>e. header_tip R L d = Inl e) \<and> (\<exists>e. get_by_height R L d n = Inl e) \<and>
    (\<exists>e. get_by_hash R L d k = Inl e) \<and> (\<exists>e. header_count R d = Inl e)"
proof -
  have "\<exists>e. rd_open_read R d t = Inl e" if "\<not> rd_has R d t" for t
    using redb_open(2) [OF assms(1)] that by (cases "rd_open_read R d t") auto
  then obtain e1 e2 where "rd_open_read R d HEADERS = Inl e1" "rd_open_read R d HEIGHT_TO_HASH = Inl e2"
    using assms(2,3) by blast
  then show ?thesis
    by (simp add: header_tip_def get_by_height_def get_by_hash_def header_count_def fetch_def Let_def)
qed

text \<open>
  Opening a store on a database without faults succeeds, records the schema version
  exactly when none is recorded, and keeps every other entry.
\<close>

theorem init_keeps_version:
  assumes "redb_ok R" and "redb_up R"
  shows "\<exists>d'. init_if_needed R d = Inr (d', look R d META (as_bytes KEY_DB_VERSION) = None) \<and>
    look R d' META (as_bytes KEY_DB_VERSION) =
      (case look R d META (as_bytes KEY_DB_VERSION) of
         None \<Rightarrow> Some (be_bytes 4 CURRENT_DB_VERSION) | Some v \<Rightarrow> Some v) \<and>
    (\<forall>t k. (t, k) \<noteq> (META, as_bytes KEY_DB_VERSION) \<longrightarrow> look R d' t k = look R d t k)"
proof -
  obtain d1 where d1: "fetch_w R d META (as_bytes KEY_DB_VERSION) =
      Inr (d1, look R d META (as_bytes KEY_DB_VERSION))"
    using fetch_w_up [OF assms(2,1)] by blast
  note l1 = fetch_w_look [OF assms(1) d1]
  obtain d2 where d2: "meta_set R d1 KEY_DB_VERSION (be_bytes 4 CURRENT_DB_VERSION) = Inr d2"
    unfolding meta_set_def using put_up [OF assms(2,1)] by blast
  note l2 = meta_set_look [OF assms(1) d2]
  show ?thesis
    using d1 d2 l1 l2
    by (cases "look R d META (as_bytes KEY_DB_VERSION)")
      (auto simp: init_if_needed_def set_db_version_def)
qed

text \<open>
  The removal of a header that a later insertion had replaced at its height deletes the
  height index of the replacement: the chain then has a gap where the store still holds the
  new header.
\<close>

theorem stale_removal_breaks_chain:
  assumes inv: "header_inv R L rank d" and up: "redb_up R"
    and old: "known R L d (block_hash L a) = Some a" and ne: "block_hash L a \<noteq> block_hash L b"
    and rank: "rank (block_hash L b) = rank (block_hash L a)"
    and ins: "header_insert R L d b (rank (block_hash L a)) = Inr d1"
    and rem: "header_remove R d1 (block_hash L a) = Inr d2"
  shows "best_at R L d1 (rank (block_hash L a)) = Some b \<and>
    best_at R L d2 (rank (block_hash L a)) = None \<and> known R L d2 (block_hash L b) = Some b"
proof -
  let ?n = "rank (block_hash L a)"
  have ok: "redb_ok R" "hdr_codec_ok L" and idx: "index_ok R L rank d"
    using inv by (simp_all add: header_inv_def)
  have n: "?n < 2 ^ 32"
    using index_height(2) [OF idx old ok(2)] .
  note i = header_insert_abs [OF ok idx rank n ins]
  have "known R L d1 (block_hash L a) = Some a"
    using i(2) old ne by simp
  note r = header_remove_abs [OF ok i(1) this rem]
  show ?thesis
    using i(2,3) r(2,3) n ne by simp
qed

text \<open>
  A reorganisation that connects nothing records 32 zero bytes as the hash of the fork
  height instead of the hash of the header there.
\<close>

theorem reorganize_empty_zero_hash:
  assumes inv: "header_inv R L rank db" and cur: "cur < 2 ^ 32" and fork: "fork < cur"
    and run: "reorganize R L db cur fork [] = (db', Inr gone)"
  shows "recorded R db' fork (replicate 32 0) \<and>
    (\<forall>m \<le> fork. best_at R L db' m = best_at R L db m)"
  using reorganize_outcome [OF inv _ cur _ _ run] cur fork
  by (auto simp: ranked_headers_def new_tip_def connect_def cut_range_def)

section \<open>Witnesses\<close>

theorem reorganize_atomic_witness:
  "\<exists>db'. reorganize sample_redb sample_btc sample_chain 3 1 [(sample_hdr 2, 2)] = (db', Inr [3, 2]) \<and>
    best_at sample_redb sample_btc db' 2 = Some (sample_hdr 2) \<and>
    best_at sample_redb sample_btc db' 3 = None"
proof -
  obtain db' r where run:
    "reorganize sample_redb sample_btc sample_chain 3 1 [(sample_hdr 2, 2)] = (db', r)"
    by (cases "reorganize sample_redb sample_btc sample_chain 3 1 [(sample_hdr 2, 2)]")
  have "ranked_headers sample_btc unat [(sample_hdr 2, 2)]"
    by (rule sample_ranked) (auto simp: sample_hdr_def)
  note * = reorganize_atomic [OF sample_chain_facts(1) this _ _ _ run]
  have "best_hashes sample_redb sample_btc sample_chain (rev [Suc 1..<Suc 3]) = [3, 2]"
    by (simp add: upt_rec best_hashes_Cons sample_best numeral_2_eq_2 [symmetric]
        numeral_3_eq_3 [symmetric]) (simp add: sample_hdr_def)
  with * show ?thesis
    using run by (auto simp: connect_def cut_range_def res_is_ok_iff)
qed

theorem insert_headers_batch_atomic_witness:
  "best_at sample_redb sample_btc
    (fst (insert_headers_batch sample_redb sample_btc sample_chain [(sample_hdr 4, 4), (sample_hdr 5, 5)])) 5
    = Some (sample_hdr 5)"
proof -
  let ?hs = "[(sample_hdr 4, 4), (sample_hdr 5, 5)]"
  obtain db' r where run: "insert_headers_batch sample_redb sample_btc sample_chain ?hs = (db', r)"
    by (cases "insert_headers_batch sample_redb sample_btc sample_chain ?hs")
  have "ranked_headers sample_btc unat ?hs"
    by (rule sample_ranked) (auto simp: sample_hdr_def)
  from insert_headers_batch_atomic [OF sample_chain_facts(1) this _ run] show ?thesis
    using run by (auto simp: connect_def)
qed

theorem lookups_agree_witness:
  "get_by_height sample_redb sample_btc sample_chain 3 =
      Inr (Some \<lparr>sh_header = sample_hdr 3, sh_height = 3, sh_hash = 3\<rparr>) \<and>
   get_by_hash sample_redb sample_btc sample_chain 3 =
      Inr (Some \<lparr>sh_header = sample_hdr 3, sh_height = 3, sh_hash = 3\<rparr>)"
  using lookups_agree [OF sample_chain_facts(1) sample_redb_up sample_has(1,3,2), of 3]
  by (simp add: sample_stored_at)

theorem tip_is_highest_witness:
  "\<exists>s. header_tip sample_redb sample_btc sample_chain = Inr (Some s) \<and> 3 \<le> sh_height s"
proof -
  obtain r where r: "header_tip sample_redb sample_btc sample_chain = Inr r"
    "case r of None \<Rightarrow> \<forall>n < 2 ^ 32. best_at sample_redb sample_btc sample_chain n = None
     | Some s \<Rightarrow> stored_at sample_redb sample_btc sample_chain (sh_height s) = Some s \<and>
         (\<forall>n < 2 ^ 32. best_at sample_redb sample_btc sample_chain n \<noteq> None \<longrightarrow> n \<le> sh_height s)"
    using tip_is_highest [OF sample_chain_facts(1) sample_redb_up sample_has(1,3,2)] by blast
  with sample_best(3) show ?thesis
    by (cases r) auto
qed

theorem fresh_store_reads_fail_witness:
  "\<exists>e. header_tip sample_redb sample_btc [(META, [])] = Inl e"
  using fresh_store_reads_fail [of sample_redb "[(META, [])]" sample_btc]
  by (simp add: META_def HEADERS_def HEIGHT_TO_HASH_def)

theorem init_keeps_version_witness:
  "\<exists>d'. init_if_needed sample_redb [] = Inr (d', True) \<and>
    look sample_redb d' META (as_bytes KEY_DB_VERSION) = Some (be_bytes 4 1)"
proof -
  have "look sample_redb [] META (as_bytes KEY_DB_VERSION) = None"
    by (simp add: sample_look)
  with init_keeps_version [OF sample_redb_ok sample_redb_up, of "[]"] show ?thesis
    by (auto simp: CURRENT_DB_VERSION_def)
qed

theorem stale_removal_breaks_chain_witness:
  "\<exists>d1 d2. header_insert sample_redb sample_btc [] (sample_hdr 1) 1 = Inr d1 \<and>
    (\<exists>d. header_insert sample_redb sample_btc d1 (sample_hdr 2) 1 = Inr d \<and>
      header_remove sample_redb d 1 = Inr d2) \<and>
    best_at sample_redb sample_btc d2 1 = None \<and>
    known sample_redb sample_btc d2 2 = Some (sample_hdr 2)"
proof -
  let ?r = "\<lambda>_ :: hash. 1 :: nat"
  have k: "block_hash sample_btc (sample_hdr 1) = 1" "block_hash sample_btc (sample_hdr 2) = 2"
    by (simp_all add: sample_hdr_def)
  obtain d1 where d1: "header_insert sample_redb sample_btc [] (sample_hdr 1) 1 = Inr d1"
    using header_insert_up [OF sample_redb_ok sample_redb_up] by blast
  note l1 = headers.insert_law [OF sample_empty_inv [of ?r] refl _ d1]
  obtain d where d: "header_insert sample_redb sample_btc d1 (sample_hdr 2) 1 = Inr d"
    using header_insert_up [OF sample_redb_ok sample_redb_up] by blast
  have l2: "header_inv sample_redb sample_btc ?r d"
    using headers.insert_law [of sample_redb sample_btc ?r d1 _ _ d, OF _ refl _ d] l1 by simp
  obtain d2 where d2: "header_remove sample_redb d (block_hash sample_btc (sample_hdr 1)) = Inr d2"
    using header_remove_up [OF sample_redb_ok sample_redb_up, of sample_btc ?r d] l2
    by (auto simp: header_inv_def)
  have "known sample_redb sample_btc d1 (block_hash sample_btc (sample_hdr 1)) = Some (sample_hdr 1)"
    "header_inv sample_redb sample_btc ?r d1"
    using l1 by simp_all
  note known = this(1) and inv = this(2)
  have "block_hash sample_btc (sample_hdr 1) \<noteq> block_hash sample_btc (sample_hdr 2)"
    unfolding k by simp
  note stale_removal_breaks_chain [OF inv sample_redb_up known this refl d d2, unfolded k]
  then show ?thesis
    using d1 d d2 [unfolded k] by blast
qed

theorem reorganize_empty_zero_hash_witness:
  "\<exists>db' gone. reorganize sample_redb sample_btc sample_chain 3 1 [] = (db', Inr gone) \<and>
    recorded sample_redb db' 1 (replicate 32 0)"
proof -
  obtain db' gone where run: "reorganize sample_redb sample_btc sample_chain 3 1 [] = (db', Inr gone)"
    using reorganize_up [OF sample_chain_facts(1) sample_redb_up, of 3 1 "[]"] by auto
  with reorganize_empty_zero_hash [OF sample_chain_facts(1) _ _ run] show ?thesis
    by auto
qed

end
