(* ===== verification/Peer_Store.thy ===== *)
theory Peer_Store
  imports Node_Store
begin

text \<open>
  \<open>wolfe-store/src/peers.rs\<close>: known peer addresses and bans. The JSON codec of a record
  (\<open>serde_json\<close>) is a pair of parameters. Seconds since the epoch are natural numbers below
  \<open>2 ^ 64\<close>.
\<close>

section \<open>Data\<close>

definition PEERS :: string where "PEERS = ''peers''"
definition BANNED_PEERS :: string where "BANNED_PEERS = ''banned_peers''"

record peer_record =
  pr_addr :: string
  pr_services :: nat
  pr_last_seen :: nat
  pr_first_seen :: nat
  pr_connection_count :: nat
  pr_fail_count :: nat
  pr_user_agent :: string

record peer_codec =
  peer_to_vec :: "peer_record \<Rightarrow> store_error + bytes"
  peer_from_slice :: "bytes \<Rightarrow> store_error + peer_record"

definition peer_codec_ok :: "peer_codec \<Rightarrow> bool" where
  "peer_codec_ok J \<longleftrightarrow> (\<forall>r bs. peer_to_vec J r = Inr bs \<longrightarrow> peer_from_slice J bs = Inr r)"

section \<open>Writes\<close>

definition peer_upsert :: "'d redb \<Rightarrow> peer_codec \<Rightarrow> 'd \<Rightarrow> peer_record \<Rightarrow> store_fail + 'd" where
  "peer_upsert R J txn rec =
    res_bind (io (peer_to_vec J rec)) (\<lambda>json. put R txn PEERS (as_bytes (pr_addr rec)) json)"

definition peer_remove :: "'d redb \<Rightarrow> 'd \<Rightarrow> string \<Rightarrow> store_fail + 'd" where
  "peer_remove R txn addr = del R txn PEERS (as_bytes addr)"

definition peer_ban :: "'d redb \<Rightarrow> 'd \<Rightarrow> string \<Rightarrow> nat \<Rightarrow> store_fail + 'd" where
  "peer_ban R txn addr until_unix = put R txn BANNED_PEERS (as_bytes addr) (be_bytes 8 until_unix)"

definition peer_unban :: "'d redb \<Rightarrow> 'd \<Rightarrow> string \<Rightarrow> store_fail + 'd" where
  "peer_unban R txn addr = del R txn BANNED_PEERS (as_bytes addr)"

text \<open>One step of the scan of the bans: the rows that can be read and have expired.\<close>

definition scan_ban ::
    "nat \<Rightarrow> bytes list \<Rightarrow> store_error + bytes \<times> bytes \<Rightarrow> store_fail + bytes list" where
  "scan_ban now_unix expired entry =
    res_bind (io entry) (\<lambda>(addr, val).
    res_bind (array_of 8 val) (\<lambda>buf.
    Inr (if be_nat buf \<le> now_unix then expired @ [addr] else expired)))"

definition purge_expired_bans :: "'d redb \<Rightarrow> 'd \<Rightarrow> nat \<Rightarrow> store_fail + 'd \<times> nat" where
  "purge_expired_bans R txn now_unix =
    res_bind (io (rd_open_write R txn BANNED_PEERS)) (\<lambda>txn.
    res_bind (io (rd_iter R txn BANNED_PEERS)) (\<lambda>iter.
    res_bind (res_fold (scan_ban now_unix) [] iter) (\<lambda>expired.
    res_bind (io (rd_open_write R txn BANNED_PEERS)) (\<lambda>txn.
    res_bind (res_fold (\<lambda>txn addr. io (rd_remove R txn BANNED_PEERS addr)) txn expired) (\<lambda>txn.
    Inr (txn, length expired))))))"

section \<open>Reads\<close>

definition peer_get :: "'d redb \<Rightarrow> peer_codec \<Rightarrow> 'd \<Rightarrow> string \<Rightarrow> store_fail + peer_record option" where
  "peer_get R J txn addr =
    res_bind (fetch R txn PEERS (as_bytes addr)) (\<lambda>v.
    case v of
      Some bs \<Rightarrow> res_bind (io (peer_from_slice J bs)) (\<lambda>rec. Inr (Some rec))
    | None \<Rightarrow> Inr None)"

definition read_peer ::
    "peer_codec \<Rightarrow> peer_record list \<Rightarrow> store_error + bytes \<times> bytes \<Rightarrow> store_fail + peer_record list" where
  "read_peer J records entry =
    res_bind (io entry) (\<lambda>(k, val).
    res_bind (io (peer_from_slice J val)) (\<lambda>rec. Inr (records @ [rec])))"

definition last_seen_first :: "peer_record \<Rightarrow> peer_record \<Rightarrow> ordering" where
  "last_seen_first a b = cmp_of (pr_last_seen b) (pr_last_seen a)"

definition peer_list_all :: "'d redb \<Rightarrow> peer_codec \<Rightarrow> 'd \<Rightarrow> store_fail + peer_record list" where
  "peer_list_all R J txn =
    res_bind (io (rd_open_read R txn PEERS)) (\<lambda>_.
    res_bind (io (rd_iter R txn PEERS)) (\<lambda>iter.
    res_bind (res_fold (read_peer J) [] iter) (\<lambda>records.
    Inr (sort_by last_seen_first records))))"

definition is_banned :: "'d redb \<Rightarrow> 'd \<Rightarrow> string \<Rightarrow> nat \<Rightarrow> store_fail + nat option" where
  "is_banned R txn addr now_unix =
    res_bind (fetch R txn BANNED_PEERS (as_bytes addr)) (\<lambda>v.
    case v of
      Some g \<Rightarrow>
        res_bind (array_of 8 g) (\<lambda>buf.
        let until = be_nat buf in Inr (if now_unix < until then Some until else None))
    | None \<Rightarrow> Inr None)"

definition simple_hash :: "bytes \<Rightarrow> 64 word \<Rightarrow> 64 word" where
  "simple_hash data salt = foldl (\<lambda>h b. h * 6364136223846793005 + ucast b) salt data"

definition shuffle_order :: "nat \<Rightarrow> peer_record \<Rightarrow> peer_record \<Rightarrow> ordering" where
  "shuffle_order now_unix a b =
    (let ha = simple_hash (as_bytes (pr_addr a)) (of_nat now_unix);
         hb = simple_hash (as_bytes (pr_addr b)) (of_nat now_unix) in cmp_of ha hb)"

text \<open>One step of the filter: the ban table is open for the whole loop.\<close>

definition keep_unbanned ::
    "'d redb \<Rightarrow> 'd \<Rightarrow> nat \<Rightarrow> peer_record list \<Rightarrow> peer_record \<Rightarrow> store_fail + peer_record list" where
  "keep_unbanned R txn now_unix candidates rec =
    res_bind (io (rd_get R txn BANNED_PEERS (as_bytes (pr_addr rec)))) (\<lambda>v.
    res_bind
      (case v of
         Some g \<Rightarrow> res_bind (array_of 8 g) (\<lambda>buf. Inr (now_unix < be_nat buf))
       | None \<Rightarrow> Inr False)
      (\<lambda>banned. Inr (if banned then candidates else candidates @ [rec])))"

definition get_random :: "'d redb \<Rightarrow> peer_codec \<Rightarrow> 'd \<Rightarrow> nat \<Rightarrow> nat \<Rightarrow> store_fail + peer_record list" where
  "get_random R J txn max_count now_unix =
    res_bind (peer_list_all R J txn) (\<lambda>all.
    res_bind (io (rd_open_read R txn BANNED_PEERS)) (\<lambda>_.
    res_bind (res_fold (keep_unbanned R txn now_unix) [] all) (\<lambda>candidates.
    Inr (take max_count (sort_by (shuffle_order now_unix) candidates)))))"

definition peer_count :: "'d redb \<Rightarrow> 'd \<Rightarrow> store_fail + nat" where
  "peer_count R txn = res_bind (io (rd_open_read R txn PEERS)) (\<lambda>_. io (rd_len R txn PEERS))"

definition banned_count :: "'d redb \<Rightarrow> 'd \<Rightarrow> store_fail + nat" where
  "banned_count R txn =
    res_bind (io (rd_open_read R txn BANNED_PEERS)) (\<lambda>_. io (rd_len R txn BANNED_PEERS))"

section \<open>Facts\<close>

text \<open>What the two tables hold, read as maps on addresses.\<close>

definition ban_until :: "'d redb \<Rightarrow> 'd \<Rightarrow> string \<Rightarrow> nat option" where
  "ban_until R d addr = map_option be_nat (look R d BANNED_PEERS (as_bytes addr))"

definition bans_ok :: "'d redb \<Rightarrow> 'd \<Rightarrow> bool" where
  "bans_ok R d \<longleftrightarrow> (\<forall>k v. look R d BANNED_PEERS k = Some v \<longrightarrow> length v = 8)"

definition peers_ok :: "'d redb \<Rightarrow> peer_codec \<Rightarrow> 'd \<Rightarrow> bool" where
  "peers_ok R J d \<longleftrightarrow> (\<forall>k v. look R d PEERS k = Some v \<longrightarrow>
    (\<exists>r. peer_from_slice J v = Inr r \<and> k = as_bytes (pr_addr r)))"

definition active_ban :: "'d redb \<Rightarrow> 'd \<Rightarrow> nat \<Rightarrow> string \<Rightarrow> bool" where
  "active_ban R d now addr \<longleftrightarrow> (\<exists>u. ban_until R d addr = Some u \<and> now < u)"

lemma scan_bans:
  assumes "\<forall>x \<in> set rows. length (snd x) = 8"
  shows "res_fold (scan_ban now) acc (map Inr rows) =
    Inr (acc @ map fst (filter (\<lambda>x. be_nat (snd x) \<le> now) rows))"
  using assms
  by (induction rows arbitrary: acc) (auto simp: scan_ban_def array_of_def)

lemma scan_bans_ok:
  assumes "list_all2 (\<lambda>r x. r = Inr x \<or> (\<exists>e. r = Inl e)) es rows"
    and "res_fold f acc es = Inr res" and "\<And>acc e. \<exists>x. f acc (Inl e) = Inl x"
  shows "es = map Inr rows"
  using assms(1,2)
proof (induction es rows arbitrary: acc rule: list_all2_induct)
  case Nil
  then show ?case by simp
next
  case (Cons e es x rows)
  then obtain acc1 where "f acc e = Inr acc1" "res_fold f acc1 es = Inr res"
    by (auto simp: res_simps)
  moreover have "e = Inr x"
    using Cons.hyps(1) assms(3) [of acc] calculation(1) by (metis Inl_Inr_False)
  ultimately show ?case
    using Cons.IH by simp
qed

lemma remove_keys_look:
  assumes "redb_ok R" and "res_fold (\<lambda>txn k. io (rd_remove R txn t k)) d ks = Inr d'"
  shows "look R d' = (look R d)(t := (\<lambda>k. if k \<in> set ks then None else look R d t k)) \<and>
    rd_has R d' = rd_has R d"
  using assms(2)
proof (induction ks arbitrary: d)
  case Nil
  then show ?case by simp
next
  case (Cons k ks)
  obtain d1 where d1: "rd_remove R d t k = Inr d1"
    and rest: "res_fold (\<lambda>txn k. io (rd_remove R txn t k)) d1 ks = Inr d'"
    using Cons.prems by (auto simp: res_simps)
  from Cons.IH [OF rest] redb_remove [OF assms(1) d1] show ?case
    by (auto simp: fun_eq_iff)
qed

lemma purge_look:
  assumes ok: "redb_ok R" and bans: "bans_ok R d"
    and purge: "purge_expired_bans R d now = Inr (d', n)"
  shows "look R d' = (look R d)(BANNED_PEERS := (\<lambda>k. case look R d BANNED_PEERS k of
      Some v \<Rightarrow> if be_nat v \<le> now then None else Some v | None \<Rightarrow> None))"
    and "n = card {k. \<exists>v. look R d BANNED_PEERS k = Some v \<and> be_nat v \<le> now}"
proof -
  obtain d1 es ks d2 where d1: "rd_open_write R d BANNED_PEERS = Inr d1"
    and es: "rd_iter R d1 BANNED_PEERS = Inr es" and ks: "res_fold (scan_ban now) [] es = Inr ks"
    and d2: "rd_open_write R d1 BANNED_PEERS = Inr d2"
    and fin: "res_fold (\<lambda>txn k. io (rd_remove R txn BANNED_PEERS k)) d2 ks = Inr d'" "n = length ks"
    using purge by (auto simp: purge_expired_bans_def res_simps)
  let ?rows = "rd_rows R d1 BANNED_PEERS"
  note l1 = redb_open(1) [OF ok d1] and l2 = redb_open(1) [OF ok d2]
  have in_rows: "(k, v) \<in> set ?rows \<longleftrightarrow> look R d BANNED_PEERS k = Some v" for k v
    using l1 rows_look [OF ok, of k v d1] by simp
  have "es = map Inr ?rows"
    by (rule scan_bans_ok [OF redb_iter(1) [OF ok es] ks]) (simp add: scan_ban_def)
  moreover have "\<forall>x \<in> set ?rows. length (snd x) = 8"
    using bans in_rows by (auto simp: bans_ok_def)
  ultimately have k: "ks = map fst (filter (\<lambda>x. be_nat (snd x) \<le> now) ?rows)"
    using ks scan_bans [of ?rows now "[]"] by simp
  have set_ks: "set ks = {k. \<exists>v. look R d BANNED_PEERS k = Some v \<and> be_nat v \<le> now}"
    using in_rows by (force simp: k)
  from remove_keys_look [OF ok fin(1)] l1 l2 set_ks
  show "look R d' = (look R d)(BANNED_PEERS := (\<lambda>k. case look R d BANNED_PEERS k of
      Some v \<Rightarrow> if be_nat v \<le> now then None else Some v | None \<Rightarrow> None))"
    by (auto simp: fun_eq_iff split: option.splits)
  have "distinct ks"
    using rows_distinct [OF ok, of d1 BANNED_PEERS]
    by (simp add: k keys_distinct_def distinct_map distinct_filter inj_on_def)
  then show "n = card {k. \<exists>v. look R d BANNED_PEERS k = Some v \<and> be_nat v \<le> now}"
    using fin(2) set_ks by (metis distinct_card)
qed

lemma keep_unbanned_fold:
  assumes "redb_ok R" and "bans_ok R d" and "res_fold (keep_unbanned R d now) acc rs = Inr res"
  shows "res = acc @ filter (\<lambda>r. \<not> active_ban R d now (pr_addr r)) rs"
  using assms(3)
proof (induction rs arbitrary: acc)
  case Nil
  then show ?case by simp
next
  case (Cons r rs)
  obtain acc1 where s: "keep_unbanned R d now acc r = Inr acc1"
    and rest: "res_fold (keep_unbanned R d now) acc1 rs = Inr res"
    using Cons.prems by (auto simp: res_simps)
  obtain v where v: "rd_get R d BANNED_PEERS (as_bytes (pr_addr r)) = Inr v"
    using s by (auto simp: keep_unbanned_def res_simps)
  have "v = look R d BANNED_PEERS (as_bytes (pr_addr r))"
    using redb_get [OF assms(1) v] .
  with s v assms(2) have "acc1 = (if active_ban R d now (pr_addr r) then acc else acc @ [r])"
    by (auto simp: keep_unbanned_def active_ban_def ban_until_def array_of_def bans_ok_def
        split: option.splits if_splits)
  with Cons.IH [OF rest] show ?case by simp
qed

lemma read_peers:
  assumes "res_fold (read_peer J) acc (map Inr rows) = Inr res"
  shows "\<exists>rs. res = acc @ rs \<and> list_all2 (\<lambda>r x. peer_from_slice J (snd x) = Inr r) rs rows"
  using assms
proof (induction rows arbitrary: acc)
  case Nil
  then show ?case by simp
next
  case (Cons x rows)
  then obtain acc1 where s: "read_peer J acc (Inr x) = Inr acc1"
    and rest: "res_fold (read_peer J) acc1 (map Inr rows) = Inr res"
    by (auto simp: res_simps)
  obtain r where "peer_from_slice J (snd x) = Inr r" and "acc1 = acc @ [r]"
    using s by (auto simp: read_peer_def res_simps split_beta)
  with Cons.IH [OF rest] show ?case
    by fastforce
qed

end
