(* ===== verification/Peer_Props.thy ===== *)
theory Peer_Props
  imports Peer_Store Sample_Db
begin

text \<open>The properties of the peer and ban tables.\<close>

section \<open>Listing\<close>

lemma preorder_last_seen: "preorder_on UNIV last_seen_first"
  by (auto simp: preorder_on_def last_seen_first_def cmp_of_def split: if_splits)

text \<open>A peer is stored under its own address.\<close>

definition stored_peer :: "'d redb \<Rightarrow> peer_codec \<Rightarrow> 'd \<Rightarrow> peer_record \<Rightarrow> bool" where
  "stored_peer R J d r \<longleftrightarrow>
    (\<exists>v. look R d PEERS (as_bytes (pr_addr r)) = Some v \<and> peer_from_slice J v = Inr r)"

lemma list_all_cases:
  assumes ok: "redb_ok R" and peers: "peers_ok R J d" and run: "peer_list_all R J d = Inr rs"
  shows "sorted_wrt (\<lambda>a b. pr_last_seen b \<le> pr_last_seen a) rs"
    and "set rs = {r. stored_peer R J d r}" and "distinct (map pr_addr rs)"
proof -
  obtain es recs where es: "rd_iter R d PEERS = Inr es" and recs: "res_fold (read_peer J) [] es = Inr recs"
    and rs: "rs = sort_by last_seen_first recs"
    using run by (auto simp: peer_list_all_def res_simps)
  let ?rows = "rd_rows R d PEERS"
  have "es = map Inr ?rows"
    by (rule scan_bans_ok [OF redb_iter(1) [OF ok es] recs]) (simp add: read_peer_def)
  with recs have all: "list_all2 (\<lambda>r x. peer_from_slice J (snd x) = Inr r) recs ?rows"
    using read_peers [of J "[]" ?rows recs] by auto
  have key: "peer_from_slice J v = Inr r \<Longrightarrow> k = as_bytes (pr_addr r)" if "(k, v) \<in> set ?rows" for k v r
    using that peers by (fastforce simp: rows_look [OF ok] peers_ok_def)
  have keys: "map as_bytes (map pr_addr recs) = map fst ?rows"
  proof (rule nth_equalityI)
    show "length (map as_bytes (map pr_addr recs)) = length (map fst ?rows)"
      using all by (simp add: list_all2_lengthD)
    fix i assume "i < length (map as_bytes (map pr_addr recs))"
    with all have "i < length ?rows" "i < length recs" "peer_from_slice J (snd (?rows ! i)) = Inr (recs ! i)"
      by (auto simp: list_all2_conv_all_nth)
    then show "map as_bytes (map pr_addr recs) ! i = map fst ?rows ! i"
      using key [of "fst (?rows ! i)" "snd (?rows ! i)"] by simp
  qed
  show "sorted_wrt (\<lambda>a b. pr_last_seen b \<le> pr_last_seen a) rs"
    using sorted_sort_by [OF preorder_last_seen, of recs]
    by (auto simp: rs last_seen_first_def cmp_of_def elim!: sorted_wrt_mono_rel [rotated] split: if_splits)
  have "distinct (map as_bytes (map pr_addr recs))"
    unfolding keys using rows_distinct [OF ok, of d PEERS] by (simp add: keys_distinct_def)
  then have "distinct (map pr_addr recs)"
    by (rule distinct_map [THEN iffD1, THEN conjunct1])
  then show "distinct (map pr_addr rs)"
    using mset_sort_by [of last_seen_first recs] by (metis rs mset_map mset_eq_imp_distinct_iff)
  have "r \<in> set recs \<longleftrightarrow> stored_peer R J d r" for r
  proof
    assume "r \<in> set recs"
    then obtain i where "i < length recs" "recs ! i = r"
      by (auto simp: in_set_conv_nth)
    with all have x: "?rows ! i \<in> set ?rows" "peer_from_slice J (snd (?rows ! i)) = Inr r"
      by (auto simp: list_all2_conv_all_nth)
    obtain k v where kv: "?rows ! i = (k, v)"
      by (cases "?rows ! i")
    with x key [of k v r] have "(as_bytes (pr_addr r), v) \<in> set ?rows" "peer_from_slice J v = Inr r"
      by simp_all
    then show "stored_peer R J d r"
      by (auto simp: stored_peer_def rows_look [OF ok])
  next
    assume "stored_peer R J d r"
    then obtain v where "(as_bytes (pr_addr r), v) \<in> set ?rows" "peer_from_slice J v = Inr r"
      by (auto simp: stored_peer_def rows_look [OF ok])
    then obtain i where i: "i < length ?rows" "?rows ! i = (as_bytes (pr_addr r), v)"
      by (auto simp: in_set_conv_nth)
    with all have "peer_from_slice J v = Inr (recs ! i)" "i < length recs"
      by (auto simp: list_all2_conv_all_nth)
    with \<open>peer_from_slice J v = Inr r\<close> show "r \<in> set recs"
      by auto
  qed
  then show "set rs = {r. stored_peer R J d r}"
    by (auto simp: rs)
qed

section \<open>Properties\<close>

text \<open>
  C?: A ban is read back: after \<open>ban\<close> the address is banned until the given time, exactly
  while that time lies ahead, and every other address is as it was.
\<close>

theorem ban_roundtrip:
  assumes "redb_ok R" and "redb_up R" and "until_unix < 2 ^ 64" and "peer_ban R d addr until_unix = Inr d'"
  shows "is_banned R d' addr now = Inr (if now < until_unix then Some until_unix else None) \<and>
    (\<forall>a. a \<noteq> addr \<longrightarrow> ban_until R d' a = ban_until R d a)"
proof -
  note l = put_look [OF assms(1) assms(4) [unfolded peer_ban_def]]
  then have "rd_has R d' BANNED_PEERS"
    by simp
  with l show ?thesis
    using assms(3) by (simp add: is_banned_def ban_until_def fetch_up [OF assms(2,1)] array_of_def Let_def)
qed

text \<open>
  Purging removes exactly the bans whose time has come, reports how many they were,
  touches no other table, and changes no answer about who is banned from then on.
\<close>

theorem purge_removes_expired:
  assumes ok: "redb_ok R" and bans: "bans_ok R d"
    and purge: "purge_expired_bans R d now = Inr (d', n)"
  shows "ban_until R d' addr =
      (case ban_until R d addr of Some u \<Rightarrow> if u \<le> now then None else Some u | None \<Rightarrow> None) \<and>
    n = card {k. \<exists>v. look R d BANNED_PEERS k = Some v \<and> be_nat v \<le> now} \<and>
    (\<forall>t. t \<noteq> BANNED_PEERS \<longrightarrow> look R d' t = look R d t) \<and>
    (\<forall>later. now \<le> later \<longrightarrow> active_ban R d' later addr = active_ban R d later addr) \<and>
    bans_ok R d'"
  using purge_look [OF assms] bans
  by (auto simp: ban_until_def active_ban_def bans_ok_def split: option.splits if_splits)

text \<open>
  The listing of the peers holds every stored peer once, most recently seen first. It
  does not look at the bans: a banned peer is listed like any other.
\<close>

theorem list_all_complete:
  assumes "redb_ok R" and "peers_ok R J d" and "peer_list_all R J d = Inr rs"
  shows "set rs = {r. stored_peer R J d r} \<and> distinct (map pr_addr rs) \<and>
    sorted_wrt (\<lambda>a b. pr_last_seen b \<le> pr_last_seen a) rs"
  using list_all_cases [OF assms] by blast

text \<open>
  C35: The peers offered for a connection are at most as many as asked for, distinct, stored
  and not banned at that time; no eligible peer is left out while there is room.
\<close>

theorem get_random_eligible:
  assumes ok: "redb_ok R" and peers: "peers_ok R J d" and bans: "bans_ok R d"
    and run: "get_random R J d max_count now = Inr rs"
  shows "length rs \<le> max_count \<and> distinct (map pr_addr rs) \<and>
    set rs \<subseteq> {r. stored_peer R J d r \<and> \<not> active_ban R d now (pr_addr r)} \<and>
    (length rs < max_count \<longrightarrow>
      set rs = {r. stored_peer R J d r \<and> \<not> active_ban R d now (pr_addr r)})"
proof -
  obtain all cs where l: "peer_list_all R J d = Inr all"
    and f: "res_fold (keep_unbanned R d now) [] all = Inr cs"
    and rs: "rs = take max_count (sort_by (shuffle_order now) cs)"
    using run by (auto simp: get_random_def res_simps)
  note la = list_all_cases [OF ok peers l]
  have cs: "cs = filter (\<lambda>r. \<not> active_ban R d now (pr_addr r)) all"
    using keep_unbanned_fold [OF ok bans f] by simp
  have set_cs: "set cs = {r. stored_peer R J d r \<and> \<not> active_ban R d now (pr_addr r)}"
    using la(2) by (auto simp: cs)
  have "distinct (map pr_addr cs)"
    using la(3) by (simp add: cs distinct_map_filter)
  then have "distinct (map pr_addr (sort_by (shuffle_order now) cs))"
    by (metis mset_sort_by mset_map mset_eq_imp_distinct_iff)
  then have "distinct (map pr_addr rs)"
    by (simp add: rs take_map [symmetric] distinct_take)
  moreover have "set rs \<subseteq> set cs"
    unfolding rs by (metis set_sort_by set_take_subset)
  moreover have "set rs = set cs" if "length rs < max_count"
    using that by (simp add: rs min_def split: if_splits)
  ultimately show ?thesis
    using set_cs by (simp add: rs)
qed

section \<open>Witnesses\<close>

text \<open>A codec that keeps the address and the time a peer was last seen.\<close>

definition sample_peer :: "string \<Rightarrow> nat \<Rightarrow> peer_record" where
  "sample_peer addr seen =
    \<lparr>pr_addr = addr, pr_services = 0, pr_last_seen = seen, pr_first_seen = 0,
     pr_connection_count = 0, pr_fail_count = 0, pr_user_agent = []\<rparr>"

definition sample_codec :: peer_codec where
  "sample_codec =
    \<lparr>peer_to_vec = (\<lambda>r. if r = sample_peer (pr_addr r) (pr_last_seen r)
        then Inr (of_nat (pr_last_seen r) # as_bytes (pr_addr r)) else Inl (Json ''record'')),
     peer_from_slice = (\<lambda>bs. case bs of
        [] \<Rightarrow> Inl (Json ''eof'') | b # bs \<Rightarrow> Inr (sample_peer (from_bytes bs) (unat b)))\<rparr>"

text \<open>Two peers, one of them banned until 50.\<close>

definition sample_peers :: sample_db where
  "sample_peers =
    [(PEERS, [(as_bytes ''a'', 7 # as_bytes ''a''), (as_bytes ''b'', 9 # as_bytes ''b'')]),
     (BANNED_PEERS, [(as_bytes ''b'', be_bytes 8 50)])]"

lemma peer_tables [simp]: "PEERS \<noteq> BANNED_PEERS" "BANNED_PEERS \<noteq> PEERS"
  by (simp_all add: PEERS_def BANNED_PEERS_def)

lemma sample_peers_look:
  "look sample_redb sample_peers PEERS = [as_bytes ''a'' \<mapsto> 7 # as_bytes ''a'', as_bytes ''b'' \<mapsto> 9 # as_bytes ''b'']"
  "look sample_redb sample_peers BANNED_PEERS = [as_bytes ''b'' \<mapsto> be_bytes 8 50]"
  by (simp_all add: fun_eq_iff sample_look sample_peers_def as_bytes_def)

lemma sample_peers_ok [simp]:
  "peers_ok sample_redb sample_codec sample_peers" "bans_ok sample_redb sample_peers"
  by (auto simp: peers_ok_def bans_ok_def sample_peers_look sample_codec_def sample_peer_def split: if_splits)

theorem ban_roundtrip_witness:
  "\<exists>d'. peer_ban sample_redb [] ''a'' 50 = Inr d' \<and> is_banned sample_redb d' ''a'' 20 = Inr (Some 50) \<and>
    is_banned sample_redb d' ''a'' 50 = Inr None"
proof -
  obtain d' where d': "peer_ban sample_redb [] ''a'' 50 = Inr d'"
    unfolding peer_ban_def using put_up [OF sample_redb_up sample_redb_ok] by blast
  then show ?thesis
    using ban_roundtrip [OF sample_redb_ok sample_redb_up _ d', of 20]
      ban_roundtrip [OF sample_redb_ok sample_redb_up _ d', of 50] by simp
qed

theorem purge_removes_expired_witness:
  "\<exists>d' n. purge_expired_bans sample_redb sample_peers 60 = Inr (d', n) \<and>
    ban_until sample_redb d' ''b'' = None"
proof -
  obtain d' n where r: "purge_expired_bans sample_redb sample_peers 60 = Inr (d', n)"
    by (simp add: purge_expired_bans_def sample_peers_def sample_rows_def clearjunk.simps scan_ban_def
        array_of_def)
  have "be_nat (be_bytes 8 50) = 50"
    by simp
  with purge_removes_expired [OF sample_redb_ok sample_peers_ok(2) r, of "''b''"] r show ?thesis
    by (auto simp: ban_until_def sample_peers_look simp del: be_nat_8 split: if_splits)
qed

theorem list_all_complete_witness:
  "\<exists>rs. peer_list_all sample_redb sample_codec sample_peers = Inr rs \<and>
    sample_peer ''b'' 9 \<in> set rs \<and> active_ban sample_redb sample_peers 20 ''b''"
proof -
  obtain rs where r: "peer_list_all sample_redb sample_codec sample_peers = Inr rs"
    by (cases "as_bytes ''a'' \<le> as_bytes ''b''")
      (simp_all add: peer_list_all_def sample_peers_def sample_rows_def clearjunk.simps read_peer_def
        sample_codec_def)
  have "stored_peer sample_redb sample_codec sample_peers (sample_peer ''b'' 9)"
    by (simp add: stored_peer_def sample_peers_look sample_peer_def sample_codec_def)
  moreover have "active_ban sample_redb sample_peers 20 ''b''"
    by (simp add: active_ban_def ban_until_def sample_peers_look)
  ultimately show ?thesis
    using list_all_complete [OF sample_redb_ok sample_peers_ok(1) r] r by blast
qed

theorem get_random_eligible_witness:
  "\<exists>rs. get_random sample_redb sample_codec sample_peers 5 20 = Inr rs \<and>
    sample_peer ''b'' 9 \<notin> set rs"
proof -
  obtain rs where r: "get_random sample_redb sample_codec sample_peers 5 20 = Inr rs"
    by (simp add: get_random_def peer_list_all_def sample_peers_def sample_rows_def clearjunk.simps
        read_peer_def sample_codec_def keep_unbanned_def array_of_def sort_by_def last_seen_first_def
        cmp_of_def sample_peer_def split: option.split)
  have "active_ban sample_redb sample_peers 20 (pr_addr (sample_peer ''b'' 9))"
    by (simp add: active_ban_def ban_until_def sample_peers_look sample_peer_def)
  then show ?thesis
    using get_random_eligible [OF sample_redb_ok sample_peers_ok r] r by blast
qed

end
