(* ===== verification/Net_Messages.thy ===== *)
theory Net_Messages
  imports Bitcoin_Types
begin

text \<open>
  The messages of the peer-to-peer protocol that the program builds or takes apart, as the
  \<open>bitcoin\<close> crate's \<open>NetworkMessage\<close> and \<open>Inventory\<close> have them. Every other message is
  \<open>OtherMsg\<close> with its command and payload.
\<close>

datatype inventory =
    InvTransaction hash
  | InvBlock hash
  | InvCompactBlock hash
  | InvWTx hash
  | WitnessTransaction hash
  | WitnessBlock hash
  | InvOther nat hash

record version_msg =
  vm_version :: nat
  vm_services :: nat
  vm_timestamp :: int
  vm_receiver :: "nat \<times> string"
  vm_sender :: "nat \<times> string"
  vm_nonce :: nat
  vm_user_agent :: string
  vm_start_height :: int
  vm_relay :: bool

datatype net_msg =
    Version version_msg
  | Verack
  | Ping nat
  | Pong nat
  | SendHeaders
  | GetHeaders nat "hash list" hash
  | Headers "header list"
  | GetData "inventory list"
  | Inv "inventory list"
  | BlockMsg block
  | TxMsg transaction
  | GetAddr
  | MemPoolMsg
  | OtherMsg string bytes

end
