(* ===== verification/Consensus.thy ===== *)
theory Consensus
  imports Net_Messages Config
begin

text \<open>
  \<open>wolfe-consensus\<close>: the wrapper around \<open>bitcoinkernel\<close>. The kernel is a record of
  functions on an abstract chain state \<open>'k\<close>; the wrapper adds the flag that the fatal-error
  callback sets and the mapping between network names.
\<close>

section \<open>Data\<close>

datatype consensus_error =
    InitializationFailed string
  | BlockValidationFailed string
  | HeaderValidationFailed string
  | BlockNotFound string
  | BlockReadFailed string
  | ImportFailed string
  | InvalidDataDir string
  | Kernel string
  | FatalError string
  | FlushError string
  | UnknownChainType string
  | ConsensusIo string

datatype chain_type = CtMainnet | CtTestnet | CtTestnet4 | CtSignet | CtRegtest

datatype process_block_result = NewBlock | DuplicateBlock | Rejected

record block_info =
  bi_height :: int
  bi_hash_hex :: string
  bi_hash_bytes :: hash

text \<open>
  The kernel: parsing, processing (the last component says whether the fatal-error
  notification fired during the call), queries on the block tree whose entries are a height
  and a hash, and what start-up calls (where the notification may fire as well).
\<close>

record 'k kernel =
  kn_parse_block :: "bytes \<Rightarrow> string option"
  kn_process_block :: "'k \<Rightarrow> bytes \<Rightarrow> 'k \<times> process_block_result \<times> bool"
  kn_parse_header :: "bytes \<Rightarrow> string option"
  kn_process_header :: "'k \<Rightarrow> bytes \<Rightarrow> 'k \<times> bool \<times> bool"
  kn_height :: "'k \<Rightarrow> int"
  kn_tip :: "'k \<Rightarrow> int \<times> hash"
  kn_at_height :: "'k \<Rightarrow> nat \<Rightarrow> (int \<times> hash) option"
  kn_entry :: "'k \<Rightarrow> hash \<Rightarrow> (int \<times> hash) option"
  kn_best_entry :: "'k \<Rightarrow> (int \<times> hash) option"
  kn_in_chain :: "'k \<Rightarrow> int \<times> hash \<Rightarrow> bool"
  kn_read_block :: "'k \<Rightarrow> int \<times> hash \<Rightarrow> string + bytes"
  kn_hash_hex :: "hash \<Rightarrow> string"
  kn_interrupt :: "'k \<Rightarrow> string option"
  kn_context :: "chain_type \<Rightarrow> string + unit"
  kn_chainman :: "chain_type \<Rightarrow> string \<Rightarrow> string \<Rightarrow> string + 'k \<times> bool"
  kn_import :: "'k \<Rightarrow> string + 'k \<times> bool"

record 'k consensus_engine =
  ce_chainman :: 'k
  ce_fatal :: bool
  ce_chain_type :: chain_type

section \<open>Operations\<close>

text \<open>
  \<open>new\<close>: \<open>mkdir\<close> is the file system's answer to \<open>create_dir_all\<close>; \<open>utf8\<close> says whether a path is
  valid UTF-8.
\<close>

definition dir_error :: "string \<Rightarrow> string \<Rightarrow> string \<Rightarrow> consensus_error" where
  "dir_error what dir e =
    InvalidDataDir (''failed to create '' @ what @ '' directory '' @ [CHR 0x27] @ dir @ [CHR 0x27] @ '': '' @ e)"

definition consensus_new ::
    "'k kernel \<Rightarrow> (string \<Rightarrow> string option) \<Rightarrow> (string \<Rightarrow> bool) \<Rightarrow> string \<Rightarrow> chain_type
      \<Rightarrow> consensus_error + 'k consensus_engine" where
  "consensus_new K mkdir utf8 data_dir chain_type =
    (let blocks_dir = path_join data_dir ''blocks'' in
     case mkdir data_dir of
       Some e \<Rightarrow> Inl (dir_error ''data'' data_dir e)
     | None \<Rightarrow>
     (case mkdir blocks_dir of
       Some e \<Rightarrow> Inl (dir_error ''blocks'' blocks_dir e)
     | None \<Rightarrow>
       if \<not> utf8 data_dir then Inl (InvalidDataDir ''data directory path is not valid UTF-8'')
       else if \<not> utf8 blocks_dir then Inl (InvalidDataDir ''blocks directory path is not valid UTF-8'')
       else
         case kn_context K chain_type of
           Inl e \<Rightarrow> Inl (InitializationFailed (''context creation failed: '' @ e))
         | Inr _ \<Rightarrow>
         (case kn_chainman K chain_type data_dir blocks_dir of
           Inl e \<Rightarrow> Inl (InitializationFailed (''chainstate manager creation failed: '' @ e))
         | Inr (k, fatal) \<Rightarrow>
         (case kn_import K k of
           Inl e \<Rightarrow> Inl (ImportFailed (''import_blocks failed: '' @ e))
         | Inr (k, fatal') \<Rightarrow>
             Inr \<lparr>ce_chainman = k, ce_fatal = (fatal \<or> fatal'), ce_chain_type = chain_type\<rparr>))))"

definition has_fatal_error :: "'k consensus_engine \<Rightarrow> bool" where
  "has_fatal_error e = ce_fatal e"

definition validate_block ::
    "'k kernel \<Rightarrow> 'k consensus_engine \<Rightarrow> bytes
      \<Rightarrow> 'k consensus_engine \<times> (consensus_error + process_block_result)" where
  "validate_block K e block_bytes =
    (if has_fatal_error e
     then (e, Inl (FatalError ''engine is in fatal error state, cannot validate blocks''))
     else
       case kn_parse_block K block_bytes of
         Some err \<Rightarrow> (e, Inl (Kernel err))
       | None \<Rightarrow>
           (case kn_process_block K (ce_chainman e) block_bytes of
              (k, result, fatal) \<Rightarrow>
                (e\<lparr>ce_chainman := k, ce_fatal := ce_fatal e \<or> fatal\<rparr>, Inr result)))"

definition validate_header ::
    "'k kernel \<Rightarrow> 'k consensus_engine \<Rightarrow> bytes \<Rightarrow> 'k consensus_engine \<times> (consensus_error + bool)" where
  "validate_header K e header_bytes =
    (if has_fatal_error e
     then (e, Inl (FatalError ''engine is in fatal error state, cannot validate headers''))
     else
       case kn_parse_header K header_bytes of
         Some err \<Rightarrow> (e, Inl (Kernel err))
       | None \<Rightarrow>
           (case kn_process_header K (ce_chainman e) header_bytes of
              (k, success, fatal) \<Rightarrow>
                (e\<lparr>ce_chainman := k, ce_fatal := ce_fatal e \<or> fatal\<rparr>, Inr success)))"

definition block_tree_entry_to_info :: "'k kernel \<Rightarrow> int \<times> hash \<Rightarrow> block_info" where
  "block_tree_entry_to_info K entry =
    \<lparr>bi_height = fst entry, bi_hash_hex = kn_hash_hex K (snd entry), bi_hash_bytes = snd entry\<rparr>"

definition get_chain_tip :: "'k kernel \<Rightarrow> 'k consensus_engine \<Rightarrow> block_info option" where
  "get_chain_tip K e = Some (block_tree_entry_to_info K (kn_tip K (ce_chainman e)))"

definition chain_height :: "'k kernel \<Rightarrow> 'k consensus_engine \<Rightarrow> int" where
  "chain_height K e = kn_height K (ce_chainman e)"

definition get_block_at_height :: "'k kernel \<Rightarrow> 'k consensus_engine \<Rightarrow> nat \<Rightarrow> block_info option" where
  "get_block_at_height K e height =
    map_option (block_tree_entry_to_info K) (kn_at_height K (ce_chainman e) height)"

definition get_block_by_hash :: "'k kernel \<Rightarrow> 'k consensus_engine \<Rightarrow> hash \<Rightarrow> block_info option" where
  "get_block_by_hash K e hash =
    map_option (block_tree_entry_to_info K) (kn_entry K (ce_chainman e) hash)"

definition get_best_known_block :: "'k kernel \<Rightarrow> 'k consensus_engine \<Rightarrow> block_info option" where
  "get_best_known_block K e =
    map_option (block_tree_entry_to_info K) (kn_best_entry K (ce_chainman e))"

definition is_block_in_active_chain :: "'k kernel \<Rightarrow> 'k consensus_engine \<Rightarrow> hash \<Rightarrow> bool" where
  "is_block_in_active_chain K e hash =
    (case kn_entry K (ce_chainman e) hash of
       None \<Rightarrow> False | Some entry \<Rightarrow> kn_in_chain K (ce_chainman e) entry)"

definition read_block_data_at_height ::
    "'k kernel \<Rightarrow> 'k consensus_engine \<Rightarrow> nat \<Rightarrow> consensus_error + bytes" where
  "read_block_data_at_height K e height =
    (case kn_at_height K (ce_chainman e) height of
       None \<Rightarrow> Inl (BlockNotFound (''no block at height '' @ show_nat height))
     | Some entry \<Rightarrow>
         (case kn_read_block K (ce_chainman e) entry of
            Inl err \<Rightarrow> Inl (BlockReadFailed err) | Inr bs \<Rightarrow> Inr bs))"

definition interrupt :: "'k kernel \<Rightarrow> 'k consensus_engine \<Rightarrow> consensus_error + unit" where
  "interrupt K e =
    (case kn_interrupt K (ce_chainman e) of Some err \<Rightarrow> Inl (Kernel err) | None \<Rightarrow> Inr ())"

section \<open>Networks\<close>

definition chain_type_from_str :: "string \<Rightarrow> consensus_error + chain_type" where
  "chain_type_from_str s =
    (if s = ''mainnet'' \<or> s = ''main'' then Inr CtMainnet
     else if s = ''testnet'' \<or> s = ''testnet3'' then Inr CtTestnet
     else if s = ''testnet4'' then Inr CtTestnet4
     else if s = ''signet'' then Inr CtSignet
     else if s = ''regtest'' then Inr CtRegtest
     else Inl (UnknownChainType s))"

fun chain_type_from_network :: "network \<Rightarrow> chain_type" where
  "chain_type_from_network Bitcoin = CtMainnet"
| "chain_type_from_network Testnet = CtTestnet"
| "chain_type_from_network Signet = CtSignet"
| "chain_type_from_network Regtest = CtRegtest"
| "chain_type_from_network _ = CtMainnet"

fun network_from_chain_type :: "chain_type \<Rightarrow> network" where
  "network_from_chain_type CtMainnet = Bitcoin"
| "network_from_chain_type CtTestnet = Testnet"
| "network_from_chain_type CtTestnet4 = Testnet"
| "network_from_chain_type CtSignet = Signet"
| "network_from_chain_type CtRegtest = Regtest"

section \<open>Sequences of calls\<close>

datatype consensus_op = ValidateBlock bytes | ValidateHeader bytes

fun consensus_step :: "'k kernel \<Rightarrow> 'k consensus_engine \<Rightarrow> consensus_op \<Rightarrow> 'k consensus_engine" where
  "consensus_step K e (ValidateBlock bs) = fst (validate_block K e bs)"
| "consensus_step K e (ValidateHeader bs) = fst (validate_header K e bs)"

text \<open>A fatal engine is a fixed point of every call.\<close>

definition latched :: "'k consensus_engine \<Rightarrow> 'k consensus_engine \<Rightarrow> bool" where
  "latched e0 e \<longleftrightarrow> has_fatal_error e0 \<and> e = e0"

interpretation engine: machine "consensus_step K" "latched e0" for K e0
proof
  fix e x assume "latched e0 e"
  then show "latched e0 (consensus_step K e x)"
    by (cases x) (simp_all add: latched_def validate_block_def validate_header_def)
qed

section \<open>Properties\<close>

text \<open>
  A network name is accepted by the configuration exactly when the consensus engine
  knows it, and both agree on the network, except for testnet4: there the configuration
  yields the network of testnet3, so a node configured for testnet4 starts the consensus
  engine on the testnet3 chain.
\<close>

theorem configured_chain_type:
  "(case (bitcoin_network c, chain_type_from_str (chain_name c)) of
      (Inr net, Inr ct) \<Rightarrow>
        net = network_from_chain_type ct \<and>
        (if chain_name c = ''testnet4'' then chain_type_from_network net = CtTestnet \<and> ct = CtTestnet4
         else chain_type_from_network net = ct)
    | (Inl _, Inl _) \<Rightarrow> True
    | _ \<Rightarrow> False)"
  by (simp add: bitcoin_network_def chain_type_from_str_def Let_def)


section \<open>A kernel for the witnesses\<close>

text \<open>
  Its state is the list of the hashes of its active chain, genesis last; a block is the
  bytes of a hash and is accepted on top of the tip. The empty block is fatal.
\<close>

definition entry_at :: "hash list \<Rightarrow> nat \<Rightarrow> (int \<times> hash) option" where
  "entry_at k n = (if n < length k then Some (int n, rev k ! n) else None)"

definition sample_kernel :: "hash list kernel" where
  "sample_kernel =
    \<lparr>kn_parse_block = (\<lambda>bs. None),
     kn_process_block = (\<lambda>k bs. if bs = [] then (k, Rejected, True)
        else if hash_of_bytes bs \<in> set k then (k, DuplicateBlock, False)
        else (hash_of_bytes bs # k, NewBlock, False)),
     kn_parse_header = (\<lambda>bs. None), kn_process_header = (\<lambda>k bs. (k, True, False)),
     kn_height = (\<lambda>k. int (length k) - 1), kn_tip = (\<lambda>k. (int (length k) - 1, hd k)),
     kn_at_height = entry_at,
     kn_entry = (\<lambda>k h. if h \<in> set k then Some (0, h) else None),
     kn_best_entry = (\<lambda>k. None), kn_in_chain = (\<lambda>k e. snd e \<in> set k),
     kn_read_block = (\<lambda>k e. Inl ''no disk''), kn_hash_hex = (\<lambda>h. show_nat (unat h)),
     kn_interrupt = (\<lambda>k. None), kn_context = (\<lambda>ct. Inr ()),
     kn_chainman = (\<lambda>ct a b. Inr ([0], False)), kn_import = (\<lambda>k. Inr (k, False))\<rparr>"

definition sample_engine :: "hash list \<Rightarrow> hash list consensus_engine" where
  "sample_engine k = \<lparr>ce_chainman = k, ce_fatal = False, ce_chain_type = CtRegtest\<rparr>"


end
