(* ===== verification/Sync.thy ===== *)
theory Sync
  imports Node_Store Consensus
begin

text \<open>
  \<open>wolfe-node/src/sync.rs\<close>: the engine that downloads headers and blocks. Its state holds
  the store and the consensus engine it shares with the node. Instants are milliseconds,
  passed in as \<open>now\<close>; the order a hash map is walked in is the argument \<open>it\<close>. Heights are
  natural numbers, cast to 32 bits where the code casts. A panic of the store would unwind
  the task: lookups on a store of the invariant never panic, so a lookup that does not
  return a header is \<open>None\<close>.
\<close>

section \<open>State\<close>

datatype sync_state = WaitingForPeers | SyncingHeaders | SyncingBlocks | Synced

fun show_sync_state :: "sync_state \<Rightarrow> string" where
  "show_sync_state WaitingForPeers = ''waiting_for_peers''"
| "show_sync_state SyncingHeaders = ''syncing_headers''"
| "show_sync_state SyncingBlocks = ''syncing_blocks''"
| "show_sync_state Synced = ''synced''"

record sync_progress =
  sp_state :: sync_state
  sp_headers_height :: nat
  sp_blocks_height :: nat
  sp_peer_count :: nat

definition sync_progress_new :: sync_progress where
  "sync_progress_new =
    \<lparr>sp_state = WaitingForPeers, sp_headers_height = 0, sp_blocks_height = 0, sp_peer_count = 0\<rparr>"

definition BLOCK_DOWNLOAD_BATCH :: nat where
  "BLOCK_DOWNLOAD_BATCH = 128"

record ('d, 'k) sync_engine =
  se_store :: 'd
  se_progress :: sync_progress
  sync_peer :: "nat option"
  tip_height :: nat
  tip_hash :: hash
  genesis_hash :: hash
  consensus :: "'k consensus_engine option"
  validated_height :: nat
  pending_blocks :: "hash list"
  last_confirmed_txids :: "hash list"
  last_validated_block :: "(block \<times> nat) option"
  known_txids :: "hash set"
  pending_txs :: "transaction list"
  peer_heights :: "(nat \<times> nat) list"
  last_block_time :: nat
  last_reorg_height :: "nat option"

type_synonym reply = "(nat \<times> net_msg) option"

definition set_state :: "sync_state \<Rightarrow> ('d, 'k) sync_engine \<Rightarrow> ('d, 'k) sync_engine" where
  "set_state st s = s\<lparr>se_progress := (se_progress s)\<lparr>sp_state := st\<rparr>\<rparr>"

definition sync_status :: "('d, 'k) sync_engine \<Rightarrow> sync_state" where
  "sync_status s = sp_state (se_progress s)"

section \<open>Lookups in the header store\<close>

definition header_at :: "'d redb \<Rightarrow> btc \<Rightarrow> 'd \<Rightarrow> nat \<Rightarrow> stored_header option" where
  "header_at R L txn height = ok_flatten (get_by_height R L txn (as_u32 height))"

definition genesis_hash_for_network :: "btc \<Rightarrow> network \<Rightarrow> hash" where
  "genesis_hash_for_network L net = block_hash L (genesis_header L net)"

text \<open>
  The loop of \<open>build_locator\<close>: \<open>step\<close> is \<open>2 ^ e\<close>. Heights are below \<open>2 ^ 63\<close>, so the doubling
  does not wrap before the loop reaches height 0.
\<close>

function locator_loop ::
    "'d redb \<Rightarrow> btc \<Rightarrow> 'd \<Rightarrow> nat \<Rightarrow> nat \<Rightarrow> hash list \<Rightarrow> hash list" where
  "locator_loop R L txn height e locator =
    (let locator =
       (case header_at R L txn height of
          Some stored \<Rightarrow> locator @ [sh_hash stored] | None \<Rightarrow> locator) in
     if height = 0 then locator
     else
       let e = (if 10 \<le> length locator then Suc e else e) in
       locator_loop R L txn (if height < 2 ^ e then 0 else height - 2 ^ e) e locator)"
  by auto
termination
  by (relation "measure (\<lambda>(R, L, txn, height, e, locator). height)") (auto simp: Let_def)

declare locator_loop.simps [simp del]

definition build_locator :: "'d redb \<Rightarrow> btc \<Rightarrow> ('d, 'k) sync_engine \<Rightarrow> hash list" where
  "build_locator R L s =
    (case rd_begin_read R (se_store s) of
       Inl _ \<Rightarrow> [genesis_hash s]
     | Inr txn \<Rightarrow>
         (let locator = locator_loop R L txn (tip_height s) 0 [] in
          if locator \<noteq> [] \<and> last locator = genesis_hash s then locator
          else locator @ [genesis_hash s]))"

definition build_getheaders :: "'d redb \<Rightarrow> btc \<Rightarrow> ('d, 'k) sync_engine \<Rightarrow> net_msg" where
  "build_getheaders R L s = GetHeaders 70016 (build_locator R L s) 0"

text \<open>The search for a hash backwards from the tip.\<close>

fun fork_loop :: "'d redb \<Rightarrow> btc \<Rightarrow> 'd \<Rightarrow> nat \<Rightarrow> hash \<Rightarrow> nat \<Rightarrow> nat option" where
  "fork_loop R L txn tip prev_hash height =
    (if (case header_at R L txn height of
           Some stored \<Rightarrow> sh_hash stored = prev_hash | None \<Rightarrow> False)
     then Some height
     else if 2016 < tip - height then None
     else case height of 0 \<Rightarrow> None | Suc h \<Rightarrow> fork_loop R L txn tip prev_hash h)"

declare fork_loop.simps [simp del]

definition find_fork_point :: "'d redb \<Rightarrow> btc \<Rightarrow> ('d, 'k) sync_engine \<Rightarrow> hash \<Rightarrow> nat option" where
  "find_fork_point R L s prev_hash =
    (case rd_begin_read R (se_store s) of
       Inl _ \<Rightarrow> None
     | Inr txn \<Rightarrow> fork_loop R L txn (tip_height s) prev_hash (tip_height s))"

fun ancestor_loop ::
    "'d redb \<Rightarrow> btc \<Rightarrow> 'k kernel \<Rightarrow> 'd \<Rightarrow> 'k consensus_engine \<Rightarrow> nat \<Rightarrow> nat \<Rightarrow> nat" where
  "ancestor_loop R L K txn engine start_height h =
    (if (case (get_block_at_height K engine (as_u32 h), header_at R L txn h) of
           (Some kb, Some sb) \<Rightarrow> bi_hash_hex kb = hash_str L (sh_hash sb)
         | _ \<Rightarrow> False)
     then h
     else if 1000 < start_height - h then 0
     else case h of 0 \<Rightarrow> 0 | Suc h \<Rightarrow> ancestor_loop R L K txn engine start_height h)"

declare ancestor_loop.simps [simp del]

definition find_kernel_store_common_ancestor ::
    "'d redb \<Rightarrow> btc \<Rightarrow> 'k kernel \<Rightarrow> ('d, 'k) sync_engine \<Rightarrow> 'k consensus_engine \<Rightarrow> nat \<Rightarrow> nat" where
  "find_kernel_store_common_ancestor R L K s engine start_height =
    (case rd_begin_read R (se_store s) of
       Inl _ \<Rightarrow> 0
     | Inr txn \<Rightarrow> ancestor_loop R L K txn engine start_height start_height)"

section \<open>Construction\<close>

definition sync_new :: "'d redb \<Rightarrow> btc \<Rightarrow> 'd \<Rightarrow> network \<Rightarrow> nat \<Rightarrow> ('d, 'k) sync_engine" where
  "sync_new R L store net now =
    (let genesis = genesis_hash_for_network L net;
         (height, hash) =
           (case rd_begin_read R store of
              Inl _ \<Rightarrow> (0, genesis)
            | Inr txn \<Rightarrow>
                (let height = (case ok_flatten (sync_height R txn) of Some h \<Rightarrow> h | None \<Rightarrow> 0) in
                 (height,
                  if 0 < height
                  then (case ok_flatten (get_by_height R L txn height) of
                          Some h \<Rightarrow> sh_hash h | None \<Rightarrow> genesis)
                  else genesis)))
     in \<lparr>se_store = store, se_progress = sync_progress_new, sync_peer = None,
         tip_height = height, tip_hash = hash, genesis_hash = genesis, consensus = None,
         validated_height = 0, pending_blocks = [], last_confirmed_txids = [],
         last_validated_block = None, known_txids = {}, pending_txs = [], peer_heights = [],
         last_block_time = now, last_reorg_height = None\<rparr>)"

definition set_consensus ::
    "'k kernel \<Rightarrow> 'k consensus_engine \<Rightarrow> ('d, 'k) sync_engine \<Rightarrow> ('d, 'k) sync_engine" where
  "set_consensus K engine s =
    (let kernel_height = chain_height K engine;
         s = (if 0 < kernel_height then s\<lparr>validated_height := nat kernel_height\<rparr> else s)
     in s\<lparr>consensus := Some engine\<rparr>)"

definition take_confirmed_txids :: "('d, 'k) sync_engine \<Rightarrow> ('d, 'k) sync_engine \<times> hash list" where
  "take_confirmed_txids s = (s\<lparr>last_confirmed_txids := []\<rparr>, last_confirmed_txids s)"

definition take_validated_block ::
    "('d, 'k) sync_engine \<Rightarrow> ('d, 'k) sync_engine \<times> (block \<times> nat) option" where
  "take_validated_block s = (s\<lparr>last_validated_block := None\<rparr>, last_validated_block s)"

definition take_pending_txs :: "('d, 'k) sync_engine \<Rightarrow> ('d, 'k) sync_engine \<times> transaction list" where
  "take_pending_txs s = (s\<lparr>pending_txs := []\<rparr>, pending_txs s)"

definition take_reorg_height :: "('d, 'k) sync_engine \<Rightarrow> ('d, 'k) sync_engine \<times> nat option" where
  "take_reorg_height s = (s\<lparr>last_reorg_height := None\<rparr>, last_reorg_height s)"

section \<open>Requesting blocks\<close>

text \<open>The heights from \<open>start\<close> on, until one has no header.\<close>

fun request_loop :: "'d redb \<Rightarrow> btc \<Rightarrow> 'd \<Rightarrow> nat list \<Rightarrow> hash list" where
  "request_loop R L txn [] = []"
| "request_loop R L txn (h # hs) =
    (case header_at R L txn h of
       Some stored \<Rightarrow> sh_hash stored # request_loop R L txn hs
     | None \<Rightarrow> [])"

definition request_next_blocks ::
    "'d redb \<Rightarrow> btc \<Rightarrow> ('d, 'k) sync_engine \<Rightarrow> nat \<Rightarrow> ('d, 'k) sync_engine \<times> reply" where
  "request_next_blocks R L s peer_id =
    (let start = validated_height s + 1;
         end_height = min (start + BLOCK_DOWNLOAD_BATCH) (tip_height s + 1) in
     if tip_height s < start then (s, None)
     else
       case rd_begin_read R (se_store s) of
         Inl _ \<Rightarrow> (s, None)
       | Inr txn \<Rightarrow>
           (let hashes = request_loop R L txn [start..<end_height];
                s = s\<lparr>pending_blocks := pending_blocks s @ hashes\<rparr> in
            if hashes = [] then (s, None)
            else (s, Some (peer_id, GetData (map WitnessBlock hashes)))))"

section \<open>Headers\<close>

text \<open>
  The loop over the received headers. \<open>Inl\<close> is an early return of the handler, with the
  state it leaves; \<open>Inr\<close> carries the state, the headers to store, the next height and the
  hash of the last header.
\<close>

fun header_loop ::
    "'d redb \<Rightarrow> btc \<Rightarrow> ('d, 'k) sync_engine \<Rightarrow> header list \<Rightarrow> (header \<times> nat) list \<Rightarrow> nat \<Rightarrow> hash
      \<Rightarrow> ('d, 'k) sync_engine + (('d, 'k) sync_engine \<times> (header \<times> nat) list \<times> nat \<times> hash)" where
  "header_loop R L s [] validated next_height prev_hash = Inr (s, validated, next_height, prev_hash)"
| "header_loop R L s (h # hs) validated next_height prev_hash =
    res_bind
      (if prev_blockhash h \<noteq> prev_hash then
         (case find_fork_point R L s (prev_blockhash h) of
            Some fork_h \<Rightarrow>
              (case reorganize R L (se_store s) (as_u32 (tip_height s)) (as_u32 fork_h) [] of
                 (db, Inl _) \<Rightarrow>
                   Inl (set_state WaitingForPeers (s\<lparr>se_store := db, sync_peer := None\<rparr>))
               | (db, Inr _) \<Rightarrow>
                   (let s = s\<lparr>se_store := db, tip_height := fork_h, tip_hash := prev_blockhash h,
                          validated_height := (if fork_h < validated_height s then fork_h
                            else validated_height s),
                          last_reorg_height := Some (as_u32 fork_h)\<rparr>
                    in Inr (s, [], fork_h + 1)))
          | None \<Rightarrow> Inl (set_state WaitingForPeers (s\<lparr>sync_peer := None\<rparr>)))
       else Inr (s, validated, next_height))
      (\<lambda>(s, validated, next_height).
        if \<not> pow_ok L h then Inl (set_state WaitingForPeers (s\<lparr>sync_peer := None\<rparr>))
        else header_loop R L s hs (validated @ [(h, as_u32 next_height)]) (next_height + 1)
               (block_hash L h))"

definition handle_headers ::
    "'d redb \<Rightarrow> btc \<Rightarrow> nat \<Rightarrow> ('d, 'k) sync_engine \<Rightarrow> nat \<Rightarrow> header list
      \<Rightarrow> ('d, 'k) sync_engine \<times> reply" where
  "handle_headers R L now s peer_id headers =
    (if headers = [] then
       (if sync_peer s = Some peer_id then
          (let s = s\<lparr>se_progress := (se_progress s)\<lparr>sp_headers_height := tip_height s\<rparr>\<rparr> in
           if consensus s \<noteq> None \<and> validated_height s < tip_height s
           then request_next_blocks R L (set_state SyncingBlocks s) peer_id
           else (set_state Synced s, None))
        else (s, None))
     else
       (case header_loop R L (s\<lparr>last_block_time := now\<rparr>) headers [] (tip_height s + 1) (tip_hash s) of
          Inl s \<Rightarrow> (s, None)
        | Inr (s, validated, next_height, prev_hash) \<Rightarrow>
            (case insert_headers_batch R L (se_store s) validated of
               (db, Inl _) \<Rightarrow> (s\<lparr>se_store := db\<rparr>, None)
             | (db, Inr _) \<Rightarrow>
                 (let s = s\<lparr>se_store := db, tip_height := next_height - 1, tip_hash := prev_hash,
                        se_progress := (se_progress s)\<lparr>sp_headers_height := next_height - 1\<rparr>\<rparr> in
                  if 2000 \<le> length headers \<and> sync_peer s = Some peer_id
                  then (s, Some (peer_id, build_getheaders R L s))
                  else if sync_peer s = Some peer_id then
                    (if consensus s \<noteq> None \<and> validated_height s < tip_height s
                     then request_next_blocks R L (set_state SyncingBlocks s) peer_id
                     else (set_state Synced s, None))
                  else (s, None)))))"

section \<open>Inventories\<close>

fun inv_loop :: "inventory list \<Rightarrow> hash set \<Rightarrow> inventory list \<Rightarrow> bool \<Rightarrow> hash set \<times> inventory list \<times> bool" where
  "inv_loop [] seen requests announced = (seen, requests, announced)"
| "inv_loop (i # is) seen requests announced =
    (case i of
       InvBlock _ \<Rightarrow> inv_loop is seen requests True
     | InvCompactBlock _ \<Rightarrow> inv_loop is seen requests True
     | InvTransaction k \<Rightarrow>
         if k \<notin> seen
         then inv_loop is (insert k seen) (requests @ [WitnessTransaction k]) announced
         else inv_loop is seen requests announced
     | InvWTx k \<Rightarrow>
         if k \<notin> seen
         then inv_loop is (insert k seen) (requests @ [WitnessTransaction k]) announced
         else inv_loop is seen requests announced
     | _ \<Rightarrow> inv_loop is seen requests announced)"

definition handle_inv ::
    "'d redb \<Rightarrow> btc \<Rightarrow> nat \<Rightarrow> ('d, 'k) sync_engine \<Rightarrow> nat \<Rightarrow> inventory list
      \<Rightarrow> ('d, 'k) sync_engine \<times> reply" where
  "handle_inv R L now s peer_id invs =
    (case inv_loop invs (known_txids s) [] False of
       (seen, tx_requests, has_block_announcement) \<Rightarrow>
         (let s = s\<lparr>known_txids := seen\<rparr> in
          if has_block_announcement \<and> sync_status s = Synced then
            (let s = set_state SyncingHeaders (s\<lparr>sync_peer := Some peer_id, last_block_time := now\<rparr>) in
             (s, Some (peer_id, build_getheaders R L s)))
          else if tx_requests \<noteq> [] then (s, Some (peer_id, GetData tx_requests))
          else (s, None)))"

section \<open>Blocks\<close>

text \<open>
  The end of the handler: progress, then more blocks or the end of the synchronisation.
\<close>

definition after_block ::
    "'d redb \<Rightarrow> btc \<Rightarrow> 'k kernel \<Rightarrow> 'k consensus_engine \<Rightarrow> ('d, 'k) sync_engine \<Rightarrow> nat
      \<Rightarrow> ('d, 'k) sync_engine \<times> reply" where
  "after_block R L K engine s peer_id =
    (let ch = i32_as_u64 (chain_height K engine);
         s = s\<lparr>se_progress := (se_progress s)\<lparr>sp_blocks_height := ch\<rparr>\<rparr> in
     if validated_height s < tip_height s \<and> pending_blocks s = []
     then request_next_blocks R L s peer_id
     else if tip_height s \<le> validated_height s \<and> tip_height s \<le> ch
     then (set_state Synced s, None)
     else (s, None))"

definition on_rejected ::
    "'d redb \<Rightarrow> btc \<Rightarrow> 'k kernel \<Rightarrow> nat \<Rightarrow> 'k consensus_engine \<Rightarrow> ('d, 'k) sync_engine
      \<Rightarrow> ('d, 'k) sync_engine" where
  "on_rejected R L K now engine s =
    (let ch = i32_as_u64 (chain_height K engine);
         s = s\<lparr>pending_blocks := []\<rparr>;
         common = find_kernel_store_common_ancestor R L K s engine ch;
         s = s\<lparr>validated_height := common, last_reorg_height := Some (as_u32 common)\<rparr>;
         s = (case rd_begin_read R (se_store s) of
                Inl _ \<Rightarrow> s
              | Inr txn \<Rightarrow>
                  (case header_at R L txn common of
                     Some stored \<Rightarrow> s\<lparr>tip_height := common, tip_hash := sh_hash stored\<rparr>
                   | None \<Rightarrow> s));
         s = set_state SyncingHeaders s
     in s\<lparr>se_progress := (se_progress s)\<lparr>sp_headers_height := tip_height s\<rparr>, last_block_time := now\<rparr>)"

definition handle_block ::
    "'d redb \<Rightarrow> btc \<Rightarrow> 'k kernel \<Rightarrow> nat \<Rightarrow> ('d, 'k) sync_engine \<Rightarrow> nat \<Rightarrow> block
      \<Rightarrow> ('d, 'k) sync_engine \<times> reply" where
  "handle_block R L K now s peer_id blk =
    (let hash = block_hash L (blk_header blk);
         was_pending = hash \<in> set (pending_blocks s);
         s = s\<lparr>pending_blocks := filter (\<lambda>h. h \<noteq> hash) (pending_blocks s)\<rparr> in
     if \<not> was_pending then (s, None)
     else
       let s = s\<lparr>last_block_time := now\<rparr> in
       case consensus s of
         None \<Rightarrow> (s, None)
       | Some engine \<Rightarrow>
       (case ser_block L blk of
         None \<Rightarrow> (s, None)
       | Some block_bytes \<Rightarrow>
       (case validate_block K engine block_bytes of
          (engine, Inl _) \<Rightarrow> (s\<lparr>consensus := Some engine\<rparr>, None)
        | (engine, Inr NewBlock) \<Rightarrow>
            (let s = s\<lparr>consensus := Some engine, validated_height := validated_height s + 1,
                   last_confirmed_txids := map (compute_txid L) (txdata blk),
                   last_validated_block := Some (blk, as_u32 (validated_height s + 1))\<rparr>
             in after_block R L K engine s peer_id)
        | (engine, Inr DuplicateBlock) \<Rightarrow>
            after_block R L K engine
              (s\<lparr>consensus := Some engine, validated_height := validated_height s + 1\<rparr>) peer_id
        | (engine, Inr Rejected) \<Rightarrow>
            (let s = s\<lparr>consensus := Some engine, validated_height := validated_height s + 1\<rparr> in
             if pending_blocks s \<noteq> [] then
               (let s = on_rejected R L K now engine s in
                case sync_peer s of
                  Some peer \<Rightarrow> (s, Some (peer, build_getheaders R L s))
                | None \<Rightarrow> after_block R L K engine s peer_id)
             else after_block R L K engine s peer_id))))"

section \<open>Messages and peers\<close>

fun handle_message ::
    "'d redb \<Rightarrow> btc \<Rightarrow> 'k kernel \<Rightarrow> nat \<Rightarrow> ('d, 'k) sync_engine \<Rightarrow> nat \<Rightarrow> net_msg
      \<Rightarrow> ('d, 'k) sync_engine \<times> reply" where
  "handle_message R L K now s peer_id (Headers headers) = handle_headers R L now s peer_id headers"
| "handle_message R L K now s peer_id (Inv invs) = handle_inv R L now s peer_id invs"
| "handle_message R L K now s peer_id (BlockMsg blk) = handle_block R L K now s peer_id blk"
| "handle_message R L K now s peer_id (TxMsg tx) =
    (s\<lparr>known_txids := insert (compute_txid L tx) (known_txids s),
       pending_txs := pending_txs s @ [tx]\<rparr>, None)"
| "handle_message R L K now s peer_id _ = (s, None)"

definition on_peer_connected ::
    "'d redb \<Rightarrow> btc \<Rightarrow> ('d, 'k) sync_engine \<Rightarrow> nat \<Rightarrow> int \<Rightarrow> ('d, 'k) sync_engine \<times> net_msg option" where
  "on_peer_connected R L s peer_id start_height =
    (let s = s\<lparr>se_progress := (se_progress s)\<lparr>sp_peer_count := w64 (sp_peer_count (se_progress s) + 1)\<rparr>\<rparr>;
         peer_height = (if start_height < 0 then 0 else nat start_height) in
     if 2000000 < peer_height then (s, None)
     else
       let s = s\<lparr>peer_heights := AList.update peer_id peer_height (peer_heights s)\<rparr> in
       if sync_peer s = None \<and> tip_height s < peer_height then
         (let s = set_state SyncingHeaders (s\<lparr>sync_peer := Some peer_id\<rparr>) in
          (s, Some (build_getheaders R L s)))
       else if sync_peer s = None \<and> validated_height s < peer_height \<and> consensus s \<noteq> None \<and>
         validated_height s < tip_height s then
         (case request_next_blocks R L (set_state SyncingBlocks (s\<lparr>sync_peer := Some peer_id\<rparr>)) peer_id of
            (s, r) \<Rightarrow> (s, map_option snd r))
       else (s, None))"

definition on_peer_disconnected :: "('d, 'k) sync_engine \<Rightarrow> nat \<Rightarrow> ('d, 'k) sync_engine" where
  "on_peer_disconnected s peer_id =
    (let s = s\<lparr>se_progress := (se_progress s)\<lparr>sp_peer_count := sub64 (sp_peer_count (se_progress s)) 1\<rparr>,
           peer_heights := AList.delete peer_id (peer_heights s)\<rparr> in
     if sync_peer s = Some peer_id then s\<lparr>sync_peer := None\<rparr> else s)"

text \<open>\<open>max_by_key\<close>: the last of the greatest elements.\<close>

fun max_by_height :: "(nat \<times> nat) list \<Rightarrow> (nat \<times> nat) option" where
  "max_by_height [] = None"
| "max_by_height (x # xs) =
    (case max_by_height xs of None \<Rightarrow> Some x | Some y \<Rightarrow> if snd x \<le> snd y then Some y else Some x)"

definition try_select_sync_peer ::
    "'d redb \<Rightarrow> btc \<Rightarrow> ((nat \<times> nat) list \<Rightarrow> (nat \<times> nat) list) \<Rightarrow> ('d, 'k) sync_engine
      \<Rightarrow> ('d, 'k) sync_engine \<times> reply" where
  "try_select_sync_peer R L it s =
    (if sync_peer s \<noteq> None then (s, None)
     else
       case max_by_height (filter (\<lambda>(p, h). tip_height s < h) (it (peer_heights s))) of
         Some (peer_id, height) \<Rightarrow>
           (let s = set_state SyncingHeaders (s\<lparr>sync_peer := Some peer_id\<rparr>) in
            (s, Some (peer_id, build_getheaders R L s)))
       | None \<Rightarrow>
           (if consensus s \<noteq> None \<and> validated_height s < tip_height s then
              (case max_by_height (filter (\<lambda>(p, h). validated_height s < h) (it (peer_heights s))) of
                 Some (peer_id, height) \<Rightarrow>
                   request_next_blocks R L (set_state SyncingBlocks (s\<lparr>sync_peer := Some peer_id\<rparr>)) peer_id
               | None \<Rightarrow> (s, None))
            else (s, None)))"

definition check_stall ::
    "'d redb \<Rightarrow> btc \<Rightarrow> nat \<Rightarrow> ('d, 'k) sync_engine \<Rightarrow> ('d, 'k) sync_engine \<times> reply" where
  "check_stall R L now s =
    (if now - last_block_time s < 60000 then (s, None)
     else
       case sync_peer s of
         None \<Rightarrow> (s, None)
       | Some peer_id \<Rightarrow>
           (if sync_status s = SyncingBlocks \<and> pending_blocks s \<noteq> [] then
              request_next_blocks R L (s\<lparr>pending_blocks := [], last_block_time := now\<rparr>) peer_id
            else if sync_status s = SyncingHeaders then
              (let s = s\<lparr>last_block_time := now\<rparr> in (s, Some (peer_id, build_getheaders R L s)))
            else (s, None)))"

end
