(* ===== verification/Sync_Facts.thy ===== *)
theory Sync_Facts
  imports Sync Node_Facts
begin

text \<open>
  The invariant of header synchronisation: below the tip the stored chain is complete,
  linked by the previous-block hashes down to genesis, and every header on it has a valid
  proof of work.
\<close>

section \<open>Lookups\<close>

lemma header_at_Some:
  assumes inv: "header_inv R L rank d" and txn: "same_rows R d txn" and h: "h < 2 ^ 32"
    and at: "header_at R L txn h = Some st"
  shows "best_at R L d h = Some (sh_header st) \<and> sh_hash st = block_hash L (sh_header st) \<and>
    sh_height st = h"
proof -
  have "header_inv R L rank txn" and best: "best_at R L txn = best_at R L d"
    using header_inv_frame [of R txn d] inv same_rows_look [OF txn] by blast+
  then have "redb_ok R" "hdr_codec_ok L" "index_ok R L rank txn"
    by (simp_all add: header_inv_def)
  moreover have "get_by_height R L txn h = Inr (Some st)"
    using at h by (simp add: header_at_def res_simps u64_simps)
  ultimately have "stored_at R L txn h = Some st"
    using get_by_height_abs [of R L rank txn h "Some st"] h by simp
  then show ?thesis
    by (auto simp: stored_at_def best)
qed

definition tables_ok :: "'d redb \<Rightarrow> 'd \<Rightarrow> bool" where
  "tables_ok R d \<longleftrightarrow> rd_has R d HEADERS \<and> rd_has R d HEIGHT_TO_HASH \<and> rd_has R d HASH_TO_HEIGHT"

lemma header_at_up:
  assumes inv: "header_inv R L rank d" and up: "redb_up R" and t: "tables_ok R d"
    and txn: "same_rows R d txn" and h: "h < 2 ^ 32"
  shows "header_at R L txn h = stored_at R L d h"
proof -
  have "header_inv R L rank txn" and best: "best_at R L txn = best_at R L d"
    using header_inv_frame [of R txn d] inv same_rows_look [OF txn] by blast+
  then have "redb_ok R" "hdr_codec_ok L" "index_ok R L rank txn"
    by (simp_all add: header_inv_def)
  then have "get_by_height R L txn h = Inr (stored_at R L txn h)"
    using t txn h up by (intro get_by_height_up) (auto simp: tables_ok_def same_rows_def)
  then show ?thesis
    using h by (simp add: header_at_def u64_simps stored_at_def best)
qed

section \<open>The invariant\<close>

definition hash_at :: "'d redb \<Rightarrow> btc \<Rightarrow> hash \<Rightarrow> 'd \<Rightarrow> nat \<Rightarrow> hash" where
  "hash_at R L genesis d n =
    (if n = 0 then genesis else case best_at R L d n of Some h \<Rightarrow> block_hash L h | None \<Rightarrow> 0)"

definition chain_to :: "'d redb \<Rightarrow> btc \<Rightarrow> hash \<Rightarrow> 'd \<Rightarrow> nat \<Rightarrow> bool" where
  "chain_to R L genesis d tip \<longleftrightarrow>
    (\<forall>n < tip. \<exists>h. best_at R L d (Suc n) = Some h \<and> pow_ok L h \<and>
      prev_blockhash h = hash_at R L genesis d n)"

definition sync_ok :: "'d redb \<Rightarrow> btc \<Rightarrow> (hash \<Rightarrow> nat) \<Rightarrow> ('d, 'k) sync_engine \<Rightarrow> bool" where
  "sync_ok R L rank s \<longleftrightarrow>
    header_inv R L rank (se_store s) \<and> Suc (tip_height s) < 2 ^ 32 \<and> rank (genesis_hash s) = 0 \<and>
    best_at R L (se_store s) 0 = None \<and>
    tip_hash s = hash_at R L (genesis_hash s) (se_store s) (tip_height s) \<and>
    chain_to R L (genesis_hash s) (se_store s) (tip_height s)"

text \<open>The parts of the state the invariant speaks of.\<close>

definition core_of :: "('d, 'k) sync_engine \<Rightarrow> 'd \<times> nat \<times> hash \<times> hash" where
  "core_of s = (se_store s, tip_height s, tip_hash s, genesis_hash s)"

lemma sync_ok_core: "core_of s' = core_of s \<Longrightarrow> sync_ok R L rank s' = sync_ok R L rank s"
  by (simp add: core_of_def sync_ok_def)

lemma set_state_fields [simp]:
  "se_store (set_state st s) = se_store s" "tip_height (set_state st s) = tip_height s"
  "tip_hash (set_state st s) = tip_hash s" "genesis_hash (set_state st s) = genesis_hash s"
  "sync_peer (set_state st s) = sync_peer s" "consensus (set_state st s) = consensus s"
  "validated_height (set_state st s) = validated_height s"
  "pending_blocks (set_state st s) = pending_blocks s" "sync_status (set_state st s) = st"
  "peer_heights (set_state st s) = peer_heights s"
  "last_reorg_height (set_state st s) = last_reorg_height s"
  by (simp_all add: set_state_def sync_status_def)

lemma request_core [simp]:
  "core_of (fst (request_next_blocks R L s p)) = core_of s"
  by (auto simp: request_next_blocks_def core_of_def Let_def split: sum.split)

lemma rank_best:
  assumes "header_inv R L rank d" and "n < 2 ^ 32" and "best_at R L d n = Some h"
  shows "rank (block_hash L h) = n"
  using assms index_best [of R L rank d n h] by (simp add: header_inv_def)

lemma sync_ok_rank:
  assumes "sync_ok R L rank s"
  shows "rank (tip_hash s) = tip_height s"
proof (cases "tip_height s")
  case 0
  then show ?thesis
    using assms by (simp add: sync_ok_def hash_at_def)
next
  case (Suc n)
  then obtain h where "best_at R L (se_store s) (tip_height s) = Some h"
    using assms by (auto simp: sync_ok_def chain_to_def)
  with assms Suc show ?thesis
    using rank_best [of R L rank "se_store s" "tip_height s" h] by (simp add: sync_ok_def hash_at_def)
qed

section \<open>The fork point\<close>

lemma fork_loop_Some:
  assumes inv: "header_inv R L rank d" and txn: "same_rows R d txn"
  shows "fork_loop R L txn tip k h = Some f \<Longrightarrow> h < 2 ^ 32 \<Longrightarrow>
    f \<le> h \<and> (\<exists>g. best_at R L d f = Some g \<and> block_hash L g = k)"
proof (induction h)
  case 0
  then show ?case
    using header_at_Some [OF inv txn, of 0]
    by (fastforce simp: fork_loop.simps [where height = 0] split: option.splits if_splits)
next
  case (Suc h)
  show ?case
  proof (cases "f = Suc h")
    case True
    with Suc.prems obtain st where "header_at R L txn (Suc h) = Some st" "sh_hash st = k"
      using Suc.IH
      by (fastforce simp: fork_loop.simps [where height = "Suc h"] split: option.splits if_splits)
    with True Suc.prems header_at_Some [OF inv txn, of "Suc h" st] show ?thesis
      by auto
  next
    case False
    with Suc show ?thesis
      by (fastforce simp: fork_loop.simps [where height = "Suc h"] split: option.splits if_splits)
  qed
qed

text \<open>Within the search depth a stored hash is found, and at the greatest height it has.\<close>

lemma fork_loop_finds:
  assumes inv: "header_inv R L rank d" and up: "redb_up R" and t: "tables_ok R d"
    and txn: "same_rows R d txn"
  shows "h < 2 ^ 32 \<Longrightarrow> h \<le> tip \<Longrightarrow> f \<le> h \<Longrightarrow> tip - f \<le> 2017 \<Longrightarrow>
    best_at R L d f = Some g \<Longrightarrow> block_hash L g = k \<Longrightarrow> fork_loop R L txn tip k h = Some f"
proof (induction h)
  case 0
  then show ?case
    using header_at_up [OF inv up t txn, of 0]
    by (simp add: fork_loop.simps [where height = 0] stored_at_def)
next
  case (Suc h)
  show ?case
  proof (cases "f = Suc h")
    case True
    then show ?thesis
      using Suc.prems header_at_up [OF inv up t txn, of "Suc h"]
      by (simp add: fork_loop.simps [where height = "Suc h"] stored_at_def)
  next
    case False
    then have "fork_loop R L txn tip k h = Some f"
      using Suc by simp
    moreover have "sh_hash st \<noteq> k" if "header_at R L txn (Suc h) = Some st" for st
    proof
      assume "sh_hash st = k"
      then have "rank k = Suc h"
        using header_at_Some [OF inv txn _ that] Suc.prems(1) rank_best [OF inv, of "Suc h" "sh_header st"]
        by auto
      moreover have "rank k = f"
        using rank_best [OF inv, of f g] Suc.prems by auto
      ultimately show False
        using False by simp
    qed
    moreover have "\<not> 2016 < tip - Suc h"
      using False Suc.prems by simp
    ultimately show ?thesis
      by (simp add: fork_loop.simps [where height = "Suc h"] split: option.split)
  qed
qed

lemma find_fork_Some:
  assumes ok: "sync_ok R L rank s" and f: "find_fork_point R L s k = Some f"
  shows "0 < f" and "f \<le> tip_height s" and "hash_at R L (genesis_hash s) (se_store s) f = k"
proof -
  have inv: "header_inv R L rank (se_store s)"
    using ok by (simp add: sync_ok_def)
  obtain txn where b: "rd_begin_read R (se_store s) = Inr txn"
    and l: "fork_loop R L txn (tip_height s) k (tip_height s) = Some f"
    using f by (auto simp: find_fork_point_def split: sum.splits)
  have "same_rows R (se_store s) txn"
    using redb_begin(1) [OF _ b] inv by (simp add: header_inv_def)
  from fork_loop_Some [OF inv this l] ok
  obtain g where g: "best_at R L (se_store s) f = Some g" "block_hash L g = k" and "f \<le> tip_height s"
    by (auto simp: sync_ok_def)
  then show "f \<le> tip_height s" by simp
  show "0 < f"
    using g ok by (cases "f = 0") (auto simp: sync_ok_def)
  then show "hash_at R L (genesis_hash s) (se_store s) f = k"
    using g by (simp add: hash_at_def)
qed

section \<open>Rewinding\<close>

lemma chain_to_cong:
  assumes "\<And>n. n \<le> tip \<Longrightarrow> best_at R L d' n = best_at R L d n"
  shows "n \<le> tip \<Longrightarrow> hash_at R L g d' n = hash_at R L g d n"
    and "chain_to R L g d' tip = chain_to R L g d tip"
  using assms by (simp_all add: hash_at_def chain_to_def)

lemma chain_to_le: "chain_to R L g d tip \<Longrightarrow> tip' \<le> tip \<Longrightarrow> chain_to R L g d tip'"
  by (simp add: chain_to_def)

lemma rewind_ok:
  assumes ok: "sync_ok R L rank s" and f: "find_fork_point R L s k = Some f"
    and re: "reorganize R L (se_store s) (as_u32 (tip_height s)) (as_u32 f) [] = (db, Inr gone)"
  shows "sync_ok R L rank (s\<lparr>se_store := db, tip_height := f, tip_hash := k, validated_height := v,
      last_reorg_height := x\<rparr>)"
proof -
  note fk = find_fork_Some [OF ok f]
  have inv: "header_inv R L rank (se_store s)" and tip: "Suc (tip_height s) < 2 ^ 32"
    using ok by (simp_all add: sync_ok_def)
  have re': "reorganize R L (se_store s) (tip_height s) f [] = (db, Inr gone)"
    using re tip fk by (simp add: u64_simps)
  have r: "header_inv R L rank db"
    "m < 2 ^ 32 \<Longrightarrow> best_at R L db m = cut_range (Suc f) (tip_height s) (best_at R L (se_store s)) m" for m
    using reorganize_outcome [OF inv _ _ _ _ re'] tip fk
    by (auto simp: ranked_headers_def connect_def)
  have same: "best_at R L db n = best_at R L (se_store s) n" if "n \<le> f" for n
    using r(2) [of n] that tip fk(2) by (simp add: cut_range_def)
  note c = chain_to_cong [OF same]
  show ?thesis
    using ok r(1) fk same [of 0] c(1) [of f] c(2) chain_to_le [of R L _ "se_store s"]
    by (auto simp: sync_ok_def)
qed

section \<open>The loop over the headers\<close>

definition child_rank :: "btc \<Rightarrow> (hash \<Rightarrow> nat) \<Rightarrow> header \<Rightarrow> bool" where
  "child_rank L rank h \<longleftrightarrow> rank (block_hash L h) = Suc (rank (prev_blockhash h))"

definition end_hash :: "btc \<Rightarrow> hash \<Rightarrow> (header \<times> nat) list \<Rightarrow> hash" where
  "end_hash L k v = (if v = [] then k else block_hash L (fst (last v)))"

definition links :: "btc \<Rightarrow> hash \<Rightarrow> nat \<Rightarrow> (header \<times> nat) list \<Rightarrow> bool" where
  "links L k tip v \<longleftrightarrow>
    (\<forall>i < length v. snd (v ! i) = Suc (tip + i) \<and> pow_ok L (fst (v ! i)) \<and>
      prev_blockhash (fst (v ! i)) = end_hash L k (take i v))"

definition loop_ok ::
    "'d redb \<Rightarrow> btc \<Rightarrow> (hash \<Rightarrow> nat) \<Rightarrow> ('d, 'k) sync_engine \<Rightarrow> (header \<times> nat) list \<Rightarrow> nat \<Rightarrow> hash \<Rightarrow> bool" where
  "loop_ok R L rank s v n k \<longleftrightarrow>
    sync_ok R L rank s \<and> n = Suc (tip_height s + length v) \<and> links L (tip_hash s) (tip_height s) v \<and>
    k = end_hash L (tip_hash s) v \<and> (\<forall>(h, m) \<in> set v. child_rank L rank h)"

lemma links_snoc:
  "links L k tip (v @ [(h, n)]) \<longleftrightarrow>
    links L k tip v \<and> n = Suc (tip + length v) \<and> pow_ok L h \<and> prev_blockhash h = end_hash L k v"
  by (auto simp: links_def nth_append less_Suc_eq)

lemma header_loop_ok:
  assumes "\<forall>h \<in> set hs. child_rank L rank h" and "loop_ok R L rank s v n k"
    and "n + length hs < 2 ^ 32"
  shows "(\<forall>s'. header_loop R L s hs v n k = Inl s' \<longrightarrow> sync_ok R L rank s') \<and>
    (\<forall>s' v' n' k'. header_loop R L s hs v n k = Inr (s', v', n', k') \<longrightarrow>
      loop_ok R L rank s' v' n' k' \<and> n' \<le> n + length hs \<and> (hs \<noteq> [] \<longrightarrow> v' \<noteq> []) \<and>
      sync_peer s' = sync_peer s \<and> consensus s' = consensus s)"
  using assms
proof (induction hs arbitrary: s v n k)
  case Nil
  then show ?case by simp
next
  case (Cons h hs)
  have ok: "sync_ok R L rank s"
    using Cons.prems(2) by (simp add: loop_ok_def)
  have stop: "sync_ok R L rank (set_state st (t\<lparr>sync_peer := p\<rparr>))" if "sync_ok R L rank t" for st p t
    using that sync_ok_core [of "set_state st (t\<lparr>sync_peer := p\<rparr>)" t] by (simp add: core_of_def)
  have stop': "sync_ok R L rank (set_state st (s\<lparr>se_store := db, sync_peer := p\<rparr>))" if "db = se_store s" for st p db
    using ok that sync_ok_core [of "set_state st (s\<lparr>se_store := db, sync_peer := p\<rparr>)" s] by (simp add: core_of_def)
  have step: "(\<forall>s'. header_loop R L t hs (w @ [(h, as_u32 m)]) (m + 1) (block_hash L h) = Inl s' \<longrightarrow>
        sync_ok R L rank s') \<and>
    (\<forall>s' v' n' k'. header_loop R L t hs (w @ [(h, as_u32 m)]) (m + 1) (block_hash L h) = Inr (s', v', n', k') \<longrightarrow>
      loop_ok R L rank s' v' n' k' \<and> n' \<le> n + length (h # hs) \<and> v' \<noteq> [] \<and>
      sync_peer s' = sync_peer s \<and> consensus s' = consensus s)"
    if pow: "pow_ok L h" and t: "loop_ok R L rank t w m (prev_blockhash h)" and m: "m \<le> n"
      and same: "sync_peer t = sync_peer s" "consensus t = consensus s" for t w m
  proof -
    have u: "as_u32 m = m"
      using m Cons.prems(3) by (simp add: u64_simps)
    have "loop_ok R L rank t (w @ [(h, m)]) (m + 1) (block_hash L h)"
      using t pow Cons.prems(1) by (auto simp: loop_ok_def links_snoc end_hash_def)
    from Cons.IH [OF _ this] Cons.prems(1,3) m same u show ?thesis
      by (cases "hs = []") auto
  qed
  show ?case
  proof (cases "prev_blockhash h = k")
    case True
    then show ?thesis
      using step [of s v n] stop [OF ok] Cons.prems(2) by auto
  next
    case False
    show ?thesis
    proof (cases "find_fork_point R L s (prev_blockhash h)")
      case None
      with False show ?thesis
        using stop [OF ok] by auto
    next
      case (Some f)
      note fk = find_fork_Some [OF ok Some]
      obtain db r where re: "reorganize R L (se_store s) (as_u32 (tip_height s)) (as_u32 f) [] = (db, r)"
        by (cases "reorganize R L (se_store s) (as_u32 (tip_height s)) (as_u32 f) []")
      show ?thesis
      proof (cases r)
        case (Inl e)
        have "db = se_store s"
          using re Inl by (auto simp: reorganize_def in_write_def split: sum.splits prod.splits)
        with False Some re Inl stop' show ?thesis by auto
      next
        case (Inr gone)
        let ?s = "s\<lparr>se_store := db, tip_height := f, tip_hash := prev_blockhash h,
          validated_height := (if f < validated_height s then f else validated_height s),
          last_reorg_height := Some (as_u32 f)\<rparr>"
        have ok': "sync_ok R L rank ?s"
          by (rule rewind_ok [OF ok Some]) (use re Inr in simp)
        then have "loop_ok R L rank ?s [] (f + 1) (prev_blockhash h)"
          by (simp add: loop_ok_def links_def end_hash_def)
        moreover have "f + 1 \<le> n"
          using fk(2) Cons.prems(2) by (simp add: loop_ok_def)
        ultimately have "pow_ok L h \<Longrightarrow> ?thesis"
          using step [of ?s "[]" "f + 1"] False Some re Inr by (simp add: Let_def)
        then show ?thesis
          using False Some re Inr stop [OF ok'] by (cases "pow_ok L h") (auto simp: Let_def)
      qed
    qed
  qed
qed

section \<open>Storing the batch\<close>

lemma links_ranked:
  assumes "links L k tip v" and "rank k = tip" and "\<forall>(h, m) \<in> set v. child_rank L rank h"
    and "tip + length v < 2 ^ 32"
  shows "ranked_headers L rank v"
proof -
  have at: "rank (block_hash L (fst (v ! i))) = Suc (tip + i)" if "i < length v" for i
    using that
  proof (induction i)
    case 0
    then have "child_rank L rank (fst (v ! 0))"
      using assms(3) by (auto simp: split_beta dest!: nth_mem)
    then show ?case
      using 0 assms(1,2) by (simp add: links_def child_rank_def end_hash_def)
  next
    case (Suc i)
    then have "child_rank L rank (fst (v ! Suc i))"
      using assms(3) by (auto simp: split_beta dest!: nth_mem)
    moreover have "end_hash L k (take (Suc i) v) = block_hash L (fst (v ! i))"
      using Suc.prems by (simp add: end_hash_def take_Suc_conv_app_nth)
    ultimately show ?case
      using Suc assms(1) by (simp add: links_def child_rank_def)
  qed
  show ?thesis
    unfolding ranked_headers_def
  proof (clarify)
    fix h n assume "(h, n) \<in> set v"
    then obtain i where i: "i < length v" "v ! i = (h, n)"
      by (auto simp: in_set_conv_nth)
    then have "n = Suc (tip + i)"
      using assms(1) by (fastforce simp: links_def)
    then show "rank (block_hash L h) = n \<and> n < 2 ^ 32"
      using at [OF i(1)] i assms(4) by simp
  qed
qed

lemma map_of_links:
  assumes "links L k tip v"
  shows "map_of (rev (map prod.swap v)) m =
    (if tip < m \<and> m \<le> tip + length v then Some (fst (v ! (m - Suc tip))) else None)"
  using assms
proof (induction v rule: rev_induct)
  case Nil
  then show ?case by simp
next
  case (snoc x v)
  obtain h n where x: "x = (h, n)"
    by (cases x)
  have l: "links L k tip v" and n: "n = Suc (tip + length v)"
    using snoc.prems by (simp_all add: x links_snoc)
  show ?case
    using snoc.IH [OF l] n by (auto simp: x nth_append)
qed

lemma end_hash_take:
  "i \<le> length v \<Longrightarrow> end_hash L k (take i v) = (if i = 0 then k else block_hash L (fst (v ! (i - 1))))"
  by (cases i) (simp_all add: end_hash_def take_Suc_conv_app_nth)

lemma store_batch_ok:
  assumes loop: "loop_ok R L rank s v n k" and n: "n < 2 ^ 32" and ne: "v \<noteq> []"
    and ins: "insert_headers_batch R L (se_store s) v = (db, Inr u)"
  shows "sync_ok R L rank (s\<lparr>se_store := db, tip_height := n - 1, tip_hash := k, se_progress := pr\<rparr>)"
    and "\<forall>i < length v. best_at R L db (Suc (tip_height s + i)) = Some (fst (v ! i))"
proof -
  let ?t = "tip_height s" and ?g = "genesis_hash s" and ?d = "se_store s"
  have ok: "sync_ok R L rank s" and n': "n = Suc (?t + length v)" and l: "links L (tip_hash s) ?t v"
    and k: "k = end_hash L (tip_hash s) v" and c: "\<forall>(h, m) \<in> set v. child_rank L rank h"
    using loop by (simp_all add: loop_ok_def)
  have inv: "header_inv R L rank ?d"
    using ok by (simp add: sync_ok_def)
  have "ranked_headers L rank v"
    by (rule links_ranked [OF l sync_ok_rank [OF ok] c]) (use n n' in simp)
  from insert_headers_batch_outcome [OF inv this ne ins]
  have inv': "header_inv R L rank db"
    and best: "m < 2 ^ 32 \<Longrightarrow> best_at R L db m = connect v (best_at R L ?d) m" for m
    by auto
  have old: "best_at R L db m = best_at R L ?d m" if "m \<le> ?t" for m
    using that best [of m] ok by (simp add: connect_def map_of_links [OF l] sync_ok_def)
  show new: "\<forall>i < length v. best_at R L db (Suc (?t + i)) = Some (fst (v ! i))"
    using best n n' by (simp add: connect_def map_of_links [OF l])
  note oldc = chain_to_cong [OF old]
  have hash: "hash_at R L ?g db (?t + i) = end_hash L (tip_hash s) (take i v)" if "i \<le> length v" for i
  proof (cases i)
    case 0
    then show ?thesis
      using oldc(1) [of ?t] ok by (simp add: sync_ok_def end_hash_def)
  next
    case (Suc j)
    then show ?thesis
      using new that by (simp add: hash_at_def end_hash_take)
  qed
  have "chain_to R L ?g db (?t + length v)"
    unfolding chain_to_def
  proof (intro allI impI)
    fix m assume m: "m < ?t + length v"
    show "\<exists>h. best_at R L db (Suc m) = Some h \<and> pow_ok L h \<and> prev_blockhash h = hash_at R L ?g db m"
    proof (cases "m < ?t")
      case True
      then obtain h where "best_at R L ?d (Suc m) = Some h" "pow_ok L h"
        "prev_blockhash h = hash_at R L ?g ?d m"
        using ok by (auto simp: sync_ok_def chain_to_def)
      then show ?thesis
        using True old [of "Suc m"] oldc(1) [of ?t m] by simp
    next
      case False
      define i where "i = m - ?t"
      then have "m = ?t + i" "i < length v"
        using False m by simp_all
      then show ?thesis
        using new hash [of i] l by (simp add: links_def)
    qed
  qed
  then show "sync_ok R L rank (s\<lparr>se_store := db, tip_height := n - 1, tip_hash := k, se_progress := pr\<rparr>)"
    using ok inv' old [of 0] hash [of "length v"] n n' k by (simp add: sync_ok_def)
qed

lemma insert_headers_batch_Inl:
  "insert_headers_batch R L db hs = (db', Inl e) \<Longrightarrow> db' = db"
  by (auto simp: insert_headers_batch_def in_write_def split: if_splits sum.splits prod.splits)

text \<open>The handler of a headers message keeps the invariant.\<close>

lemma handle_headers_ok:
  assumes ok: "sync_ok R L rank s" and rank: "\<forall>h \<in> set hs. child_rank L rank h"
    and bound: "Suc (tip_height s) + length hs < 2 ^ 32"
  shows "sync_ok R L rank (fst (handle_headers R L now s peer_id hs))"
proof (cases "hs = []")
  case True
  have "core_of (fst (handle_headers R L now s peer_id [])) = core_of s"
    by (simp add: handle_headers_def Let_def) (simp add: core_of_def set_state_def)
  with True ok show ?thesis
    using sync_ok_core by blast
next
  case False
  let ?s = "s\<lparr>last_block_time := now\<rparr>"
  have "loop_ok R L rank ?s [] (tip_height s + 1) (tip_hash s)"
    using ok sync_ok_core [of ?s s] by (simp add: loop_ok_def links_def end_hash_def core_of_def)
  note loop = header_loop_ok [OF rank this]
  have bound': "tip_height s + 1 + length hs < 2 ^ 32"
    using bound by simp
  show ?thesis
  proof (cases "header_loop R L ?s hs [] (tip_height s + 1) (tip_hash s)")
    case (Inl t)
    with loop [OF bound'] False show ?thesis
      by (simp add: handle_headers_def)
  next
    case (Inr res)
    obtain t v n k where res: "res = (t, v, n, k)"
      by (cases res)
    have lo: "loop_ok R L rank t v n k" "n \<le> tip_height s + 1 + length hs" "v \<noteq> []"
      using loop [OF bound'] Inr res False by auto
    obtain db r where ins: "insert_headers_batch R L (se_store t) v = (db, r)"
      by (cases "insert_headers_batch R L (se_store t) v")
    show ?thesis
    proof (cases r)
      case (Inl e)
      then have "db = se_store t"
        using ins insert_headers_batch_Inl [of R L "se_store t" v db e] by simp
      then show ?thesis
        using False Inr res ins Inl lo(1) by (simp add: handle_headers_def loop_ok_def)
    next
      case r: (Inr u)
      let ?t = "t\<lparr>se_store := db, tip_height := n - 1, tip_hash := k,
        se_progress := (se_progress t)\<lparr>sp_headers_height := n - 1\<rparr>\<rparr>"
      have "sync_ok R L rank ?t"
        using store_batch_ok(1) [OF lo(1) _ lo(3)] lo(2) bound' ins r by simp
      moreover have "core_of (fst (handle_headers R L now s peer_id hs)) = core_of ?t"
        using False Inr res ins r
        by (simp add: handle_headers_def Let_def) (simp add: core_of_def set_state_def)
      ultimately show ?thesis
        using sync_ok_core by blast
    qed
  qed
qed

section \<open>The tip never grows by more than the message\<close>

lemma fork_loop_le: "fork_loop R L txn tip k h = Some f \<Longrightarrow> f \<le> h"
proof (induction h)
  case 0
  then show ?case
    by (auto simp: fork_loop.simps [where height = 0] split: option.splits if_splits)
next
  case (Suc h)
  then show ?case
    by (fastforce simp: fork_loop.simps [where height = "Suc h"] split: option.splits if_splits)
qed

lemma find_fork_le: "find_fork_point R L s k = Some f \<Longrightarrow> f \<le> tip_height s"
  by (auto simp: find_fork_point_def dest: fork_loop_le split: sum.splits)

lemma header_loop_tip:
  fixes s :: "('d, 'k) sync_engine"
  assumes "n \<le> Suc (tip_height s + m)"
  shows "(\<forall>s'. header_loop R L s hs v n k = Inl s' \<longrightarrow> tip_height s' \<le> tip_height s) \<and>
    (\<forall>s' v' n' k'. header_loop R L s hs v n k = Inr (s', v', n', k') \<longrightarrow>
      tip_height s' \<le> tip_height s \<and> n' \<le> Suc (tip_height s + m + length hs))"
  using assms
proof (induction hs arbitrary: s v n k m)
  case Nil
  then show ?case by simp
next
  case (Cons h hs)
  have step: "(\<forall>s'. header_loop R L t hs w (Suc n') k' = Inl s' \<longrightarrow> tip_height s' \<le> tip_height s) \<and>
    (\<forall>s' v' n'' k''. header_loop R L t hs w (Suc n') k' = Inr (s', v', n'', k'') \<longrightarrow>
      tip_height s' \<le> tip_height s \<and> n'' \<le> Suc (tip_height s + m + length (h # hs)))"
    if "tip_height t \<le> tip_height s" "n' \<le> Suc (tip_height s + m)" for t :: "('d, 'k) sync_engine" and w n' k'
    using Cons.IH [of "Suc n'" t "Suc (tip_height s + m - tip_height t)" w k'] that by fastforce
  show ?case
  proof (cases "prev_blockhash h = k")
    case True
    then show ?thesis
      using step [of s n] Cons.prems by simp
  next
    case False
    show ?thesis
    proof (cases "find_fork_point R L s (prev_blockhash h)")
      case None
      with False show ?thesis by simp
    next
      case (Some f)
      obtain db r where re: "reorganize R L (se_store s) (as_u32 (tip_height s)) (as_u32 f) [] = (db, r)"
        by (cases "reorganize R L (se_store s) (as_u32 (tip_height s)) (as_u32 f) []")
      have "f \<le> tip_height s"
        using find_fork_le [OF Some] .
      with False Some re show ?thesis
        using step [of "s\<lparr>se_store := db, tip_height := f, tip_hash := prev_blockhash h,
          validated_height := (if f < validated_height s then f else validated_height s),
          last_reorg_height := Some (as_u32 f)\<rparr>" "f + 1"]
        by (cases r) (simp_all add: Let_def)
    qed
  qed
qed

lemma handle_headers_tip:
  "tip_height (fst (handle_headers R L now s peer_id hs)) \<le> tip_height s + length hs"
proof (cases "hs = []")
  case True
  have "core_of (fst (handle_headers R L now s peer_id [])) = core_of s"
    by (simp add: handle_headers_def Let_def) (simp add: core_of_def set_state_def)
  with True show ?thesis
    by (simp add: core_of_def)
next
  case False
  let ?s = "s\<lparr>last_block_time := now\<rparr>"
  have "tip_height s + 1 \<le> Suc (tip_height ?s + 0)"
    by simp
  note loop = header_loop_tip [OF this, of R L hs "[]" "tip_hash s"]
  show ?thesis
  proof (cases "header_loop R L ?s hs [] (tip_height s + 1) (tip_hash s)")
    case (Inl t)
    with loop False show ?thesis
      by (simp add: handle_headers_def trans_le_add1)
  next
    case (Inr res)
    obtain t v n k where res: "res = (t, v, n, k)"
      by (cases res)
    obtain db r where ins: "insert_headers_batch R L (se_store t) v = (db, r)"
      by (cases "insert_headers_batch R L (se_store t) v")
    have "tip_height t \<le> tip_height s" "n \<le> Suc (tip_height s + length hs)"
      using loop Inr res by auto
    moreover have "core_of (fst (handle_headers R L now s peer_id hs)) =
        (db, if r = Inr () then n - 1 else tip_height t, if r = Inr () then k else tip_hash t, genesis_hash t)"
      using False Inr res ins
      by (cases r; simp add: handle_headers_def Let_def) (simp_all add: core_of_def set_state_def)
    ultimately show ?thesis
      by (auto simp: core_of_def)
  qed
qed

section \<open>One header on a fork point\<close>

lemma rewind_step:
  assumes ok: "sync_ok R L rank s" and up: "redb_up R" and t: "tables_ok R (se_store s)"
    and g: "best_at R L (se_store s) f = Some g" "f < tip_height s" "tip_height s - f \<le> 2017"
  obtains db gone where "find_fork_point R L s (block_hash L g) = Some f"
    and "reorganize R L (se_store s) (as_u32 (tip_height s)) (as_u32 f) [] = (db, Inr gone)"
    and "\<And>m. m < 2 ^ 32 \<Longrightarrow> best_at R L db m =
      cut_range (Suc f) (tip_height s) (best_at R L (se_store s)) m"
    and "block_hash L g \<noteq> tip_hash s" and "header_inv R L rank db"
    and "gone = best_hashes R L (se_store s) (rev [Suc f..<Suc (tip_height s)])"
proof -
  have inv: "header_inv R L rank (se_store s)" and tip: "Suc (tip_height s) < 2 ^ 32"
    using ok by (simp_all add: sync_ok_def)
  obtain txn where b: "rd_begin_read R (se_store s) = Inr txn"
    using redb_up(1) [OF up] by blast
  have same: "same_rows R (se_store s) txn"
    using redb_begin(1) [OF _ b] inv by (simp add: header_inv_def)
  have "fork_loop R L txn (tip_height s) (block_hash L g) (tip_height s) = Some f"
    using fork_loop_finds [OF inv up t same _ order_refl _ _ g(1) refl] g tip by simp
  with b have f: "find_fork_point R L s (block_hash L g) = Some f"
    by (simp add: find_fork_point_def)
  obtain db gone where re: "reorganize R L (se_store s) (tip_height s) f [] = (db, Inr gone)"
    using reorganize_up [OF inv up, of "tip_height s" f "[]"] g(2) tip by auto
  have "rank (block_hash L g) = f"
    using rank_best [OF inv _ g(1)] g(2) tip by simp
  then have "block_hash L g \<noteq> tip_hash s"
    using sync_ok_rank [OF ok] g(2) by auto
  moreover have "reorganize R L (se_store s) (as_u32 (tip_height s)) (as_u32 f) [] = (db, Inr gone)"
    using re tip g(2) by (simp add: u64_simps)
  moreover have "header_inv R L rank db"
    "gone = best_hashes R L (se_store s) (rev [Suc f..<Suc (tip_height s)])"
    "m < 2 ^ 32 \<Longrightarrow> best_at R L db m = cut_range (Suc f) (tip_height s) (best_at R L (se_store s)) m" for m
    using reorganize_outcome [OF inv _ _ _ _ re] tip g(2)
    by (auto simp: ranked_headers_def connect_def simp del: upt_Suc)
  ultimately show thesis
    using that f by blast
qed

section \<open>The locator\<close>

lemma locator_loop_length:
  "h < 2 ^ n \<Longrightarrow>
    length (locator_loop R L txn h e loc) \<le> max (length loc) 10 + (n - e) + 2"
proof (induction R L txn h e loc rule: locator_loop.induct)
  case (1 R L txn h e loc)
  define loc' where "loc' = (case header_at R L txn h of
    Some stored \<Rightarrow> loc @ [sh_hash stored] | None \<Rightarrow> loc)"
  define e' where "e' = (if 10 \<le> length loc' then Suc e else e)"
  define h' where "h' = (if h < 2 ^ e' then 0 else h - 2 ^ e')"
  have len: "length loc' \<le> Suc (length loc)"
    by (simp add: loc'_def split: option.split)
  show ?case
  proof (cases "h = 0")
    case True
    then show ?thesis
      by (subst locator_loop.simps) (auto simp: max_def split: option.split)
  next
    case False
    have eq: "locator_loop R L txn h e loc = locator_loop R L txn h' e' loc'"
      using False by (subst locator_loop.simps) (simp add: loc'_def [symmetric] e'_def h'_def Let_def)
    have IH: "length (locator_loop R L txn h' e' loc') \<le> max (length loc') 10 + (n - e') + 2"
      if "h' < 2 ^ n"
      using 1(1) [OF loc'_def False e'_def, folded h'_def] that by simp
    have "h < 2 ^ n" by (rule 1(2))
    then have lt: "h' < 2 ^ n" by (simp add: h'_def less_imp_diff_less)
    show ?thesis
    proof (cases "10 \<le> length loc'")
      case small: False
      then have "e' = e" by (simp add: e'_def)
      with IH [OF lt] small eq show ?thesis
        by simp
    next
      case big: True
      show ?thesis
      proof (cases "h < 2 ^ e'")
        case True
        then have "h' = 0" by (simp add: h'_def)
        then have "length (locator_loop R L txn h' e' loc') \<le> Suc (length loc')"
          by (subst locator_loop.simps) (simp split: option.split)
        with eq len big show ?thesis by simp
      next
        case ge: False
        then have "e' < n"
          using 1(2) by (metis leI le_less_trans nat_power_less_imp_less not_less pos2)
        then show ?thesis
          using IH [OF lt] eq len big by (simp add: e'_def)
      qed
    qed
  qed
qed

definition push_header :: "'d redb \<Rightarrow> btc \<Rightarrow> 'd \<Rightarrow> nat \<Rightarrow> hash list \<Rightarrow> hash list" where
  "push_header R L txn h locator =
    (case header_at R L txn h of Some stored \<Rightarrow> locator @ [sh_hash stored] | None \<Rightarrow> locator)"

lemma locator_loop_unfold:
  "locator_loop R L txn 0 e loc = push_header R L txn 0 loc"
  "0 < h \<Longrightarrow> \<exists>h' e'. h' < h \<and>
    locator_loop R L txn h e loc = locator_loop R L txn h' e' (push_header R L txn h loc)"
proof -
  show "locator_loop R L txn 0 e loc = push_header R L txn 0 loc"
    by (subst locator_loop.simps) (simp add: push_header_def)
next
  assume h: "0 < h"
  define e' where "e' = (if 10 \<le> length (push_header R L txn h loc) then Suc e else e)"
  have "locator_loop R L txn h e loc =
      locator_loop R L txn (if h < 2 ^ e' then 0 else h - 2 ^ e') e' (push_header R L txn h loc)"
    using h by (subst locator_loop.simps) (simp add: push_header_def [symmetric] Let_def e'_def)
  with h show "\<exists>h' e'. h' < h \<and>
    locator_loop R L txn h e loc = locator_loop R L txn h' e' (push_header R L txn h loc)"
    by (intro exI [of _ "if h < 2 ^ e' then 0 else h - 2 ^ e'"] exI [of _ e']) simp
qed

definition hashes_below :: "'d redb \<Rightarrow> btc \<Rightarrow> 'd \<Rightarrow> nat \<Rightarrow> hash set" where
  "hashes_below R L txn h = {k. \<exists>n \<le> h. \<exists>st. header_at R L txn n = Some st \<and> k = sh_hash st}"

lemma hashes_below_mono: "h' \<le> h \<Longrightarrow> hashes_below R L txn h' \<subseteq> hashes_below R L txn h"
  unfolding hashes_below_def by (blast intro: order_trans)

lemma push_header_entries:
  "\<exists>ys. push_header R L txn h zs = zs @ ys \<and> set ys \<subseteq> hashes_below R L txn h"
  by (auto simp: push_header_def hashes_below_def split: option.split)

lemma locator_loop_entries:
  "\<exists>xs. locator_loop R L txn h e loc = push_header R L txn h loc @ xs \<and>
    set xs \<subseteq> hashes_below R L txn h"
proof (induction h arbitrary: e loc rule: less_induct)
  case (less h)
  show ?case
  proof (cases "h = 0")
    case True
    then show ?thesis
      by (simp add: locator_loop_unfold(1))
  next
    case False
    then obtain h' e' where h': "h' < h" and eq: "locator_loop R L txn h e loc =
        locator_loop R L txn h' e' (push_header R L txn h loc)"
      using locator_loop_unfold(2) [of h R L txn e loc] by blast
    obtain xs where xs: "locator_loop R L txn h' e' (push_header R L txn h loc) =
        push_header R L txn h' (push_header R L txn h loc) @ xs" "set xs \<subseteq> hashes_below R L txn h'"
      using less [OF h'] by blast
    obtain ys where ys: "push_header R L txn h' (push_header R L txn h loc) =
        push_header R L txn h loc @ ys" "set ys \<subseteq> hashes_below R L txn h'"
      using push_header_entries [of R L txn h' "push_header R L txn h loc"] by blast
    have "locator_loop R L txn h e loc = push_header R L txn h loc @ (ys @ xs)"
      using eq xs(1) ys(1) by (metis append.assoc)
    moreover have "set (ys @ xs) \<subseteq> hashes_below R L txn h"
      using xs(2) ys(2) hashes_below_mono [of h' h R L txn] h' by auto
    ultimately show ?thesis by blast
  qed
qed

section \<open>A store without faults\<close>

text \<open>Such a store answers every lookup of the engine with the chain's hash.\<close>

definition sync_up :: "'d redb \<Rightarrow> btc \<Rightarrow> (hash \<Rightarrow> nat) \<Rightarrow> ('d, 'k) sync_engine \<Rightarrow> bool" where
  "sync_up R L rank s \<longleftrightarrow> sync_ok R L rank s \<and> redb_up R \<and> tables_ok R (se_store s)"

definition our_hash :: "'d redb \<Rightarrow> btc \<Rightarrow> ('d, 'k) sync_engine \<Rightarrow> nat \<Rightarrow> hash" where
  "our_hash R L s n = hash_at R L (genesis_hash s) (se_store s) n"

lemma sync_up_begin:
  assumes "sync_up R L rank s"
  obtains txn where "rd_begin_read R (se_store s) = Inr txn" and "same_rows R (se_store s) txn"
proof -
  obtain txn where b: "rd_begin_read R (se_store s) = Inr txn"
    using assms redb_up(1) [of R] by (auto simp: sync_up_def)
  moreover have "same_rows R (se_store s) txn"
    using redb_begin(1) [OF _ b] assms by (simp add: sync_up_def sync_ok_def header_inv_def)
  ultimately show thesis by (rule that)
qed

lemma chain_to_best: "chain_to R L g d tip \<Longrightarrow> 0 < n \<Longrightarrow> n \<le> tip \<Longrightarrow> \<exists>h. best_at R L d n = Some h"
  by (cases n) (auto simp: chain_to_def Suc_le_eq)

lemma header_at_chain:
  assumes "sync_up R L rank s" and txn: "same_rows R (se_store s) txn" and n: "n \<le> tip_height s"
  shows "n = 0 \<Longrightarrow> header_at R L txn n = None"
    and "0 < n \<Longrightarrow> \<exists>st. header_at R L txn n = Some st \<and> sh_hash st = our_hash R L s n"
proof -
  have up: "header_inv R L rank (se_store s)" "redb_up R" "tables_ok R (se_store s)" and lt: "n < 2 ^ 32"
    and ch: "chain_to R L (genesis_hash s) (se_store s) (tip_height s)" "best_at R L (se_store s) 0 = None"
    using assms by (simp_all add: sync_up_def sync_ok_def)
  note at = header_at_up [OF up txn lt]
  show "n = 0 \<Longrightarrow> header_at R L txn n = None"
    using at ch by (simp add: stored_at_def)
  assume "0 < n"
  then obtain h where "best_at R L (se_store s) n = Some h"
    using chain_to_best [OF ch(1) _ n] by blast
  with at \<open>0 < n\<close> show "\<exists>st. header_at R L txn n = Some st \<and> sh_hash st = our_hash R L s n"
    by (simp add: stored_at_def our_hash_def hash_at_def)
qed

lemma our_hash_rank:
  assumes ok: "sync_ok R L rank s" and n: "n \<le> tip_height s"
  shows "rank (our_hash R L s n) = n"
proof (cases n)
  case 0
  then show ?thesis
    using ok by (simp add: sync_ok_def our_hash_def hash_at_def)
next
  case (Suc m)
  then obtain h where "best_at R L (se_store s) n = Some h"
    using ok n chain_to_best [of R L _ "se_store s" "tip_height s" n] by (auto simp: sync_ok_def)
  with ok n Suc rank_best [of R L rank "se_store s" n h] show ?thesis
    by (simp add: sync_ok_def our_hash_def hash_at_def)
qed

lemma our_hashes_distinct: "sync_ok R L rank s \<Longrightarrow> b \<le> Suc (tip_height s) \<Longrightarrow>
    distinct (map (our_hash R L s) [a..<b])"
  by (auto simp: distinct_map inj_on_def dest!: arg_cong [where f = rank] simp: our_hash_rank)

end
