(* ===== verification/Sync_Props.thy ===== *)
theory Sync_Props
  imports Sync_Facts Sample_Chain
begin

text \<open>The properties of the synchronisation engine.\<close>

section \<open>Sequences of headers messages\<close>

type_synonym headers_event = "nat \<times> nat \<times> header list"

fun headers_step :: "'d redb \<Rightarrow> btc \<Rightarrow> ('d, 'k) sync_engine \<Rightarrow> headers_event \<Rightarrow> ('d, 'k) sync_engine" where
  "headers_step R L s (now, peer_id, hs) = fst (handle_headers R L now s peer_id hs)"

definition total_headers :: "headers_event list \<Rightarrow> nat" where
  "total_headers es = sum_list (map (\<lambda>(now, peer_id, hs). length hs) es)"

definition ranked_event :: "btc \<Rightarrow> (hash \<Rightarrow> nat) \<Rightarrow> headers_event \<Rightarrow> bool" where
  "ranked_event L rank e \<longleftrightarrow> (case e of (now, peer_id, hs) \<Rightarrow> \<forall>h \<in> set hs. child_rank L rank h)"

section \<open>Inventories\<close>

definition inv_result ::
    "inventory list \<Rightarrow> hash set \<Rightarrow> inventory list \<Rightarrow> bool \<Rightarrow> hash set \<times> inventory list \<times> bool \<Rightarrow> bool" where
  "inv_result is seen reqs ann res \<longleftrightarrow>
    (\<exists>ks. distinct ks \<and> set ks = {k. (InvTransaction k \<in> set is \<or> InvWTx k \<in> set is) \<and> k \<notin> seen} \<and>
      res = (seen \<union> set ks, reqs @ map WitnessTransaction ks,
        ann \<or> (\<exists>k. InvBlock k \<in> set is \<or> InvCompactBlock k \<in> set is)))"

lemma inv_result_skip:
  assumes "inv_result is seen reqs ann2 res"
    and "\<And>k. i = InvTransaction k \<or> i = InvWTx k \<Longrightarrow> k \<in> seen"
    and "ann2 \<longleftrightarrow> ann \<or> (\<exists>k. i = InvBlock k \<or> i = InvCompactBlock k)"
  shows "inv_result (i # is) seen reqs ann res"
proof -
  obtain ks where ks: "distinct ks"
    "set ks = {k. (InvTransaction k \<in> set is \<or> InvWTx k \<in> set is) \<and> k \<notin> seen}"
    "res = (seen \<union> set ks, reqs @ map WitnessTransaction ks,
      ann2 \<or> (\<exists>k. InvBlock k \<in> set is \<or> InvCompactBlock k \<in> set is))"
    using assms(1) unfolding inv_result_def by blast
  have "set ks = {k. (InvTransaction k \<in> set (i # is) \<or> InvWTx k \<in> set (i # is)) \<and> k \<notin> seen}"
    using ks(2) assms(2) by auto
  moreover have "res = (seen \<union> set ks, reqs @ map WitnessTransaction ks,
      ann \<or> (\<exists>k. InvBlock k \<in> set (i # is) \<or> InvCompactBlock k \<in> set (i # is)))"
    using ks(3) assms(3) by auto
  ultimately show ?thesis
    using ks(1) unfolding inv_result_def by blast
qed

lemma inv_result_take:
  assumes "inv_result is (insert k seen) (reqs @ [WitnessTransaction k]) ann res"
    and "i = InvTransaction k \<or> i = InvWTx k" and "k \<notin> seen"
  shows "inv_result (i # is) seen reqs ann res"
proof -
  obtain ks where ks: "distinct ks"
    "set ks = {j. (InvTransaction j \<in> set is \<or> InvWTx j \<in> set is) \<and> j \<notin> insert k seen}"
    "res = (insert k seen \<union> set ks, (reqs @ [WitnessTransaction k]) @ map WitnessTransaction ks,
      ann \<or> (\<exists>k. InvBlock k \<in> set is \<or> InvCompactBlock k \<in> set is))"
    using assms(1) unfolding inv_result_def by blast
  have "distinct (k # ks)"
    using ks(1,2) by simp
  moreover have "set (k # ks) = {j. (InvTransaction j \<in> set (i # is) \<or> InvWTx j \<in> set (i # is)) \<and> j \<notin> seen}"
    using ks(2) assms(2,3) by auto
  moreover have "res = (seen \<union> set (k # ks), reqs @ map WitnessTransaction (k # ks),
      ann \<or> (\<exists>k. InvBlock k \<in> set (i # is) \<or> InvCompactBlock k \<in> set (i # is)))"
    using ks(3) assms(2) by auto
  ultimately show ?thesis
    unfolding inv_result_def by blast
qed

lemma inv_loop_result: "inv_result is seen reqs ann (inv_loop is seen reqs ann)"
proof (induction "is" seen reqs ann rule: inv_loop.induct)
  case (1 seen reqs ann)
  then show ?case by (simp add: inv_result_def)
next
  case (2 i "is" seen reqs ann)
  then show ?case
    by (cases i) (auto intro: inv_result_skip inv_result_take)
qed

section \<open>Requesting blocks\<close>

lemma request_loop_all:
  assumes "\<And>h. h \<in> set hs \<Longrightarrow> header_at R L txn h = Some (st h)"
  shows "request_loop R L txn hs = map (\<lambda>h. sh_hash (st h)) hs"
  using assms by (induction hs) auto

section \<open>Choosing a peer\<close>

lemma max_by_height_max:
  "max_by_height xs = Some x \<Longrightarrow> x \<in> set xs \<and> (\<forall>y \<in> set xs. snd y \<le> snd x)"
proof (induction xs arbitrary: x)
  case Nil
  then show ?case by simp
next
  case (Cons a xs)
  have "xs = []" if "max_by_height xs = None"
    using that by (cases xs) (auto split: option.splits if_splits)
  with Cons show ?case
    by (cases "max_by_height xs") (fastforce split: if_splits)+
qed

section \<open>Linked headers\<close>

text \<open>The plain case of the loop: every header hangs on the one before and has valid work.\<close>

fun linked :: "btc \<Rightarrow> hash \<Rightarrow> header list \<Rightarrow> bool" where
  "linked L k [] \<longleftrightarrow> True"
| "linked L k (h # hs) \<longleftrightarrow> prev_blockhash h = k \<and> pow_ok L h \<and> linked L (block_hash L h) hs"

definition last_hash :: "btc \<Rightarrow> hash \<Rightarrow> header list \<Rightarrow> hash" where
  "last_hash L k hs = (if hs = [] then k else block_hash L (last hs))"

fun numbered :: "header list \<Rightarrow> nat \<Rightarrow> (header \<times> nat) list" where
  "numbered [] n = []"
| "numbered (h # hs) n = (h, as_u32 n) # numbered hs (n + 1)"

lemma numbered_length [simp]: "length (numbered hs n) = length hs"
  by (induction hs n rule: numbered.induct) simp_all

lemma numbered_nth [simp]: "i < length hs \<Longrightarrow> numbered hs n ! i = (hs ! i, as_u32 (n + i))"
  by (induction hs n arbitrary: i rule: numbered.induct) (auto simp: nth_Cons split: nat.split)

lemma header_loop_linked:
  "linked L k hs \<Longrightarrow> header_loop R L s hs v n k =
    Inr (s, v @ numbered hs n, n + length hs, last_hash L k hs)"
  by (induction hs arbitrary: v n k) (simp_all add: last_hash_def)

section \<open>The blocks to ask for\<close>

lemma request_loop_chain:
  assumes "sync_up R L rank s" and "same_rows R (se_store s) txn"
    and "0 < a" and "b \<le> Suc (tip_height s)"
  shows "request_loop R L txn [a..<b] = map (our_hash R L s) [a..<b]"
proof -
  have "header_at R L txn h = Some (the (header_at R L txn h)) \<and>
      sh_hash (the (header_at R L txn h)) = our_hash R L s h" if "h \<in> set [a..<b]" for h
    using header_at_chain(2) [OF assms(1,2), of h] that assms(3,4) by auto
  then show ?thesis
    using request_loop_all [of "[a..<b]" R L txn "\<lambda>h. the (header_at R L txn h)"] by simp
qed

text \<open>The blocks to ask for: the next 128 above the cursor, or those up to the tip.\<close>

definition wanted :: "'d redb \<Rightarrow> btc \<Rightarrow> ('d, 'k) sync_engine \<Rightarrow> hash list" where
  "wanted R L s = map (our_hash R L s)
    [validated_height s + 1..<min (validated_height s + 1 + BLOCK_DOWNLOAD_BATCH) (tip_height s + 1)]"

lemma wanted_cong:
  "core_of s' = core_of s \<Longrightarrow> validated_height s' = validated_height s \<Longrightarrow> wanted R L s' = wanted R L s"
  by (simp add: wanted_def our_hash_def [abs_def] core_of_def)

lemma sync_up_cong: "core_of s' = core_of s \<Longrightarrow> sync_up R L rank s' = sync_up R L rank s"
  using sync_ok_core [of s' s] by (simp add: sync_up_def core_of_def)

lemma request_wanted:
  assumes "sync_up R L rank s" and "validated_height s < tip_height s"
  shows "request_next_blocks R L s p =
    (s\<lparr>pending_blocks := pending_blocks s @ wanted R L s\<rparr>,
     Some (p, GetData (map WitnessBlock (wanted R L s))))"
proof -
  obtain txn where b: "rd_begin_read R (se_store s) = Inr txn" "same_rows R (se_store s) txn"
    using sync_up_begin [OF assms(1)] .
  let ?hs = "[validated_height s + 1..<
    min (validated_height s + 1 + BLOCK_DOWNLOAD_BATCH) (tip_height s + 1)]"
  have "request_loop R L txn ?hs = wanted R L s"
    unfolding wanted_def by (rule request_loop_chain [OF assms(1) b(2)]) simp_all
  moreover have "wanted R L s \<noteq> []"
    using assms(2) by (simp add: wanted_def BLOCK_DOWNLOAD_BATCH_def del: upt_Suc)
  ultimately show ?thesis
    using assms(2) b(1) by (simp add: request_next_blocks_def Let_def)
qed

lemma request_keeps:
  "request_next_blocks R L s p = (s', r) \<Longrightarrow>
    se_store s' = se_store s \<and> tip_height s' = tip_height s \<and> tip_hash s' = tip_hash s \<and>
    validated_height s' = validated_height s \<and> last_reorg_height s' = last_reorg_height s"
  by (auto simp: request_next_blocks_def Let_def split: sum.splits if_splits)

lemma header_loop_fork:
  assumes "find_fork_point R L s (prev_blockhash h) = Some f" and "prev_blockhash h \<noteq> k"
    and "reorganize R L (se_store s) (as_u32 (tip_height s)) (as_u32 f) [] = (db, Inr gone)"
    and "linked L (prev_blockhash h) (h # hs)"
  shows "header_loop R L s (h # hs) v n k = Inr
    (s\<lparr>se_store := db, tip_height := f, tip_hash := prev_blockhash h,
       validated_height := min f (validated_height s), last_reorg_height := Some (as_u32 f)\<rparr>,
     numbered (h # hs) (f + 1), f + 1 + length (h # hs),
     last_hash L (prev_blockhash h) (h # hs))"
proof -
  have "linked L (block_hash L h) hs"
    using assms(4) by simp
  note tail = header_loop_linked [OF this]
  show ?thesis
    using assms
    by (simp add: tail Let_def last_hash_def min_def)
qed

lemma build_getheaders_cong: "core_of s' = core_of s \<Longrightarrow> build_getheaders R L s' = build_getheaders R L s"
  by (simp add: build_getheaders_def build_locator_def core_of_def Let_def split: sum.split)

section \<open>Properties\<close>

text \<open>
  C2: Whatever headers messages peers send, in any order and number, the chain below the tip
  stays complete, linked by hashes down to genesis and with valid proofs of work, and the
  store's index stays consistent.
\<close>

theorem headers_keep_chain:
  assumes "sync_ok R L rank s" and "\<forall>e \<in> set es. ranked_event L rank e"
    and "Suc (tip_height s) + total_headers es < 2 ^ 32"
  shows "sync_ok R L rank (foldl (headers_step R L) s es)"
  using assms
proof (induction es arbitrary: s)
  case Nil
  then show ?case by simp
next
  case (Cons e es)
  obtain now p hs where e: "e = (now, p, hs)"
    by (cases e)
  let ?s = "headers_step R L s e"
  have "sync_ok R L rank ?s"
    using Cons.prems handle_headers_ok [of R L rank s hs now p]
    by (simp add: e ranked_event_def total_headers_def)
  moreover have "Suc (tip_height ?s) + total_headers es < 2 ^ 32"
    using Cons.prems(3) handle_headers_tip [of R L now s p hs]
    by (simp add: e total_headers_def)
  ultimately show ?case
    using Cons.IH [of ?s] Cons.prems(2) by simp
qed

text \<open>
  C17: While the cursor is below the tip, the engine asks its peer for the blocks right above
  the cursor: consecutive blocks of its own header chain, at most 128, each once, and it
  remembers exactly those as pending; at the tip it asks for nothing.
\<close>

theorem request_next_blocks_range:
  assumes "sync_up R L rank s"
  shows "request_next_blocks R L s p =
      (if validated_height s < tip_height s
       then (s\<lparr>pending_blocks := pending_blocks s @ wanted R L s\<rparr>,
         Some (p, GetData (map WitnessBlock (wanted R L s))))
       else (s, None)) \<and>
    distinct (wanted R L s) \<and>
    length (wanted R L s) = min 128 (tip_height s - validated_height s)"
proof -
  have "distinct (wanted R L s)"
    using our_hashes_distinct [of R L rank s] assms by (simp add: wanted_def sync_up_def del: upt_Suc)
  moreover have "length (wanted R L s) = min 128 (tip_height s - validated_height s)"
    by (auto simp: wanted_def BLOCK_DOWNLOAD_BATCH_def min_def)
  moreover have "\<not> validated_height s < tip_height s \<Longrightarrow> request_next_blocks R L s p = (s, None)"
    by (simp add: request_next_blocks_def Let_def)
  ultimately show ?thesis
    using request_wanted [OF assms, of p] by simp
qed

text \<open>
  C32: The block locator starts with the tip, ends with genesis, names only blocks of the
  engine's own chain, and has at most 45 entries however long the chain is.
\<close>

theorem build_locator_shape:
  assumes "sync_up R L rank s"
  shows "hd (build_locator R L s) = tip_hash s \<and> last (build_locator R L s) = genesis_hash s \<and>
    set (build_locator R L s) \<subseteq> our_hash R L s ` {..tip_height s} \<and>
    length (build_locator R L s) \<le> 45"
proof -
  let ?t = "tip_height s"
  have ok: "sync_ok R L rank s"
    using assms by (simp add: sync_up_def)
  obtain txn where b: "rd_begin_read R (se_store s) = Inr txn" "same_rows R (se_store s) txn"
    using sync_up_begin [OF assms] .
  define loc where "loc = locator_loop R L txn ?t 0 []"
  obtain xs where xs: "loc = push_header R L txn ?t [] @ xs" "set xs \<subseteq> hashes_below R L txn ?t"
    using locator_loop_entries [of R L txn ?t 0 "[]"] by (auto simp: loc_def)
  moreover have "set (push_header R L txn ?t []) \<subseteq> hashes_below R L txn ?t"
    using push_header_entries [of R L txn ?t "[]"] by fastforce
  ultimately have "set loc \<subseteq> hashes_below R L txn ?t"
    by simp
  moreover have "loc \<noteq> [] \<and> hd loc = tip_hash s" if "0 < ?t"
    using header_at_chain(2) [OF assms b(2) order_refl that] xs(1) ok
    by (auto simp: push_header_def sync_ok_def our_hash_def)
  moreover have "loc = []" if "?t = 0"
    using header_at_chain(1) [OF assms b(2) order_refl that] that
    by (simp add: loc_def locator_loop_unfold(1) push_header_def)
  moreover have "hashes_below R L txn ?t \<subseteq> our_hash R L s ` {..?t}"
    using header_at_chain [OF assms b(2)] by (fastforce simp: hashes_below_def)
  moreover have "genesis_hash s \<in> our_hash R L s ` {..?t}"
    by (rule image_eqI [of _ _ 0]) (simp_all add: our_hash_def hash_at_def)
  moreover have "?t = 0 \<Longrightarrow> tip_hash s = genesis_hash s"
    using ok by (simp add: sync_ok_def hash_at_def)
  moreover have "length loc \<le> 44"
    using locator_loop_length [of ?t 32 R L txn 0 "[]"] ok by (simp add: loc_def sync_ok_def)
  moreover have "build_locator R L s =
      (if loc \<noteq> [] \<and> last loc = genesis_hash s then loc else loc @ [genesis_hash s])"
    using b(1) by (simp add: build_locator_def loc_def Let_def)
  ultimately show ?thesis
    by (cases "?t = 0"; cases "loc = []"; auto)
qed

text \<open>
  A stalled block download recovers: once a minute has passed without progress, the next
  check asks the peer again for the blocks from the cursor on, and only those are pending.
\<close>

theorem stall_requests_again:
  assumes up: "sync_up R L rank s" and "60000 \<le> now - last_block_time s"
    and "sync_peer s = Some p" and "sync_status s = SyncingBlocks" and "pending_blocks s \<noteq> []"
    and low: "validated_height s < tip_height s"
  shows "check_stall R L now s =
    (s\<lparr>pending_blocks := wanted R L s, last_block_time := now\<rparr>,
     Some (p, GetData (map WitnessBlock (wanted R L s)))) \<and>
    hd (wanted R L s) = our_hash R L s (validated_height s + 1)"
proof -
  let ?s = "s\<lparr>pending_blocks := [], last_block_time := now\<rparr>"
  have "sync_up R L rank ?s" and w: "wanted R L ?s = wanted R L s"
    using up sync_up_cong [of ?s s] wanted_cong [of ?s s R L] by (simp_all add: core_of_def)
  from request_wanted [OF this(1), of p] low
  have "request_next_blocks R L ?s p =
      (s\<lparr>pending_blocks := wanted R L s, last_block_time := now\<rparr>,
       Some (p, GetData (map WitnessBlock (wanted R L s))))"
    by (simp add: w)
  with assms show ?thesis
    by (simp add: check_stall_def wanted_def hd_map BLOCK_DOWNLOAD_BATCH_def del: upt_Suc)
qed

lemma fork_taken:
  assumes up: "sync_up R L rank s" and g: "best_at R L (se_store s) f = Some g"
    and f: "f < tip_height s" "tip_height s - f \<le> 2017"
    and hs: "hs \<noteq> []" "linked L (block_hash L g) hs" "\<forall>h \<in> set hs. child_rank L rank h"
    and bound: "Suc (tip_height s) + length hs < 2 ^ 32"
  obtains db where
    "header_loop R L s hs [] (tip_height s + 1) (tip_hash s) =
      Inr (s\<lparr>se_store := db, tip_height := f, tip_hash := block_hash L g,
          validated_height := min f (validated_height s), last_reorg_height := Some (as_u32 f)\<rparr>,
        numbered hs (f + 1), f + 1 + length hs, block_hash L (last hs))"
    "loop_ok R L rank (s\<lparr>se_store := db, tip_height := f, tip_hash := block_hash L g,
          validated_height := min f (validated_height s), last_reorg_height := Some (as_u32 f)\<rparr>)
        (numbered hs (f + 1)) (f + 1 + length hs) (block_hash L (last hs))"
    "\<And>m. m < 2 ^ 32 \<Longrightarrow> best_at R L db m = cut_range (Suc f) (tip_height s) (best_at R L (se_store s)) m"
proof -
  have ok: "sync_ok R L rank s" and up': "redb_up R" "tables_ok R (se_store s)"
    using up by (simp_all add: sync_up_def)
  obtain h hs' where h: "hs = h # hs'" "prev_blockhash h = block_hash L g"
    using hs(1,2) by (cases hs) auto
  obtain db gone where re: "find_fork_point R L s (block_hash L g) = Some f"
      "reorganize R L (se_store s) (as_u32 (tip_height s)) (as_u32 f) [] = (db, Inr gone)"
      "block_hash L g \<noteq> tip_hash s"
    and cut: "\<And>m. m < 2 ^ 32 \<Longrightarrow> best_at R L db m = cut_range (Suc f) (tip_height s) (best_at R L (se_store s)) m"
    by (rule rewind_step [OF ok up' g f]) blast
  note loop = header_loop_fork [of R L s h f "tip_hash s" db gone hs' "[]" "tip_height s + 1"]
  have "loop_ok R L rank s [] (tip_height s + 1) (tip_hash s)"
    using ok by (simp add: loop_ok_def links_def end_hash_def)
  note safe = header_loop_ok [OF hs(3) this]
  have run: "header_loop R L s hs [] (tip_height s + 1) (tip_hash s) =
      Inr (s\<lparr>se_store := db, tip_height := f, tip_hash := block_hash L g,
          validated_height := min f (validated_height s), last_reorg_height := Some (as_u32 f)\<rparr>,
        numbered hs (f + 1), f + 1 + length hs, block_hash L (last hs))"
    using loop re h hs(2) by (simp add: last_hash_def)
  show ?thesis
    using that [OF run _ cut] safe run bound by simp
qed

text \<open>
  C18: The engine follows whatever branch a peer sends last: headers that hang on a block of
  its chain at most 2017 below the tip, with valid proofs of work, replace everything above
  that block, also when they are fewer and carry less work than what they replace.
\<close>

theorem last_branch_wins:
  assumes up: "sync_up R L rank s" and g: "best_at R L (se_store s) f = Some g"
    and f: "f < tip_height s" "tip_height s - f \<le> 2017"
    and hs: "hs \<noteq> []" "linked L (block_hash L g) hs" "\<forall>h \<in> set hs. child_rank L rank h"
    and bound: "Suc (tip_height s) + length hs < 2 ^ 32"
    and run: "handle_headers R L now s p hs = (s', r)"
  shows "tip_height s' = f + length hs \<and> tip_hash s' = block_hash L (last hs) \<and>
    validated_height s' = min f (validated_height s) \<and> last_reorg_height s' = Some f \<and>
    (\<forall>i < length hs. best_at R L (se_store s') (f + 1 + i) = Some (hs ! i)) \<and>
    (\<forall>m \<le> f. best_at R L (se_store s') m = best_at R L (se_store s) m) \<and>
    (\<forall>m. f + length hs < m \<and> m \<le> tip_height s \<longrightarrow> best_at R L (se_store s') m = None)"
proof -
  let ?s = "s\<lparr>last_block_time := now\<rparr>" and ?v = "numbered hs (f + 1)"
  have up': "sync_up R L rank ?s" and R: "redb_up R"
    using up sync_ok_core [of ?s s] by (simp_all add: sync_up_def core_of_def)
  obtain db where loop: "header_loop R L ?s hs [] (tip_height s + 1) (tip_hash s) =
      Inr (?s\<lparr>se_store := db, tip_height := f, tip_hash := block_hash L g,
          validated_height := min f (validated_height s), last_reorg_height := Some (as_u32 f)\<rparr>,
        ?v, f + 1 + length hs, block_hash L (last hs))"
    and lo: "loop_ok R L rank (?s\<lparr>se_store := db, tip_height := f, tip_hash := block_hash L g,
          validated_height := min f (validated_height s), last_reorg_height := Some (as_u32 f)\<rparr>) ?v (f + 1 + length hs) (block_hash L (last hs))"
    and cut: "\<And>m. m < 2 ^ 32 \<Longrightarrow> best_at R L db m = cut_range (Suc f) (tip_height s) (best_at R L (se_store s)) m"
    using fork_taken [OF up', of f g hs] g f hs bound by auto
  let ?t = "?s\<lparr>se_store := db, tip_height := f, tip_hash := block_hash L g,
    validated_height := min f (validated_height s), last_reorg_height := Some (as_u32 f)\<rparr>"
  have inv: "header_inv R L rank db" and ln: "links L (block_hash L g) f ?v"
    using lo by (auto simp: loop_ok_def sync_ok_def)
  have ne: "?v \<noteq> []" and len: "length ?v = length hs"
    using hs(1) by (cases hs; simp)+
  obtain db2 where ins: "insert_headers_batch R L db ?v = (db2, Inr ())"
    using insert_headers_batch_up [OF _ R, of L db ?v] inv by (auto simp: header_inv_def)
  have new: "\<forall>i < length hs. best_at R L db2 (Suc (f + i)) = Some (hs ! i)"
    using store_batch_ok(2) [OF lo _ ne, of db2 "()"] ins f bound by (simp add: len)
  have rk: "ranked_headers L rank ?v"
    using links_ranked [OF ln] sync_ok_rank [of R L rank ?t] lo f bound by (simp add: loop_ok_def)
  have rest: "best_at R L db2 m = cut_range (Suc f) (tip_height s) (best_at R L (se_store s)) m"
    if "m \<le> f \<or> f + length hs < m" "m < 2 ^ 32" for m
    using that insert_headers_batch_outcome [OF inv rk ne ins] cut [of m] map_of_links [OF ln, of m] len
    by (auto simp: connect_def)
  have "se_store s' = db2" "tip_height s' = f + length hs" "tip_hash s' = block_hash L (last hs)"
    "validated_height s' = min f (validated_height s)" "last_reorg_height s' = Some (as_u32 f)"
    using run hs(1) loop ins
    by (auto simp: handle_headers_def Let_def dest!: request_keeps split: if_splits)
  with new rest f bound show ?thesis
    by (auto simp: cut_range_def u64_simps)
qed

text \<open>
  The rewind happens before the proof of work is looked at: one header without work on
  a block up to 2017 below the tip makes the engine drop every header above that block, and
  it gives up its peer.
\<close>

theorem bad_pow_rewinds:
  assumes up: "sync_up R L rank s" and g: "best_at R L (se_store s) f = Some g"
    and f: "f < tip_height s" "tip_height s - f \<le> 2017"
    and h: "prev_blockhash h = block_hash L g" "\<not> pow_ok L h"
    and run: "handle_headers R L now s p (h # hs) = (s', r)"
  shows "r = None \<and> sync_peer s' = None \<and> tip_height s' = f \<and> tip_hash s' = block_hash L g \<and>
    validated_height s' \<le> f \<and> sync_ok R L rank s' \<and>
    (\<forall>m. f < m \<and> m \<le> tip_height s \<longrightarrow> best_at R L (se_store s') m = None)"
proof -
  let ?s = "s\<lparr>last_block_time := now\<rparr>"
  have ok: "sync_ok R L rank ?s" and up': "redb_up R" "tables_ok R (se_store ?s)"
    using up sync_ok_core [of ?s s] by (simp_all add: sync_up_def core_of_def)
  have g': "best_at R L (se_store ?s) f = Some g" "f < tip_height ?s" "tip_height ?s - f \<le> 2017"
    using g f by simp_all
  obtain db gone where re: "find_fork_point R L ?s (block_hash L g) = Some f"
      "reorganize R L (se_store ?s) (as_u32 (tip_height ?s)) (as_u32 f) [] = (db, Inr gone)"
      "block_hash L g \<noteq> tip_hash ?s"
    and cut: "\<And>m. m < 2 ^ 32 \<Longrightarrow> best_at R L db m =
      cut_range (Suc f) (tip_height ?s) (best_at R L (se_store ?s)) m"
    by (rule rewind_step [OF ok up' g']) blast
  define t where "t = ?s\<lparr>se_store := db, tip_height := f, tip_hash := block_hash L g,
    validated_height := min f (validated_height s), last_reorg_height := Some (as_u32 f)\<rparr>"
  have s': "s' = set_state WaitingForPeers (t\<lparr>sync_peer := None\<rparr>)" and r: "r = None"
    using run h re by (auto simp: handle_headers_def t_def Let_def min_def)
  have "sync_ok R L rank t"
    unfolding t_def by (rule rewind_ok [OF ok re(1,2)])
  then have "sync_ok R L rank s'"
    using sync_ok_core [of s' t] by (simp add: s' core_of_def)
  moreover have "best_at R L db m = None" if "f < m" "m \<le> tip_height s" for m
    using that cut [of m] ok by (simp add: cut_range_def sync_ok_def)
  ultimately show ?thesis
    by (simp add: s' r t_def)
qed

text \<open>
  An inventory makes the engine ask for each announced transaction it has not seen,
  exactly once, and mark it as seen, unless it announces a block to a synchronised engine,
  which asks the announcing peer for headers instead: the transactions of that inventory are
  then marked as seen without being asked for.
\<close>

theorem handle_inv_requests:
  assumes "handle_inv R L now s p invs = (s', r)"
  defines "news \<equiv> {k. (InvTransaction k \<in> set invs \<or> InvWTx k \<in> set invs) \<and> k \<notin> known_txids s}"
  shows "known_txids s' = known_txids s \<union> news \<and>
    (if (\<exists>k. InvBlock k \<in> set invs \<or> InvCompactBlock k \<in> set invs) \<and> sync_status s = Synced
     then sync_status s' = SyncingHeaders \<and> sync_peer s' = Some p \<and>
       r = Some (p, build_getheaders R L s)
     else sync_status s' = sync_status s \<and> sync_peer s' = sync_peer s \<and>
       (if news = {} then r = None
        else \<exists>ks. distinct ks \<and> set ks = news \<and> r = Some (p, GetData (map WitnessTransaction ks))))"
proof -
  obtain ks where ks: "distinct ks" "set ks = news"
    "inv_loop invs (known_txids s) [] False = (known_txids s \<union> set ks, map WitnessTransaction ks,
      \<exists>k. InvBlock k \<in> set invs \<or> InvCompactBlock k \<in> set invs)"
    using inv_loop_result [of invs "known_txids s" "[]" False]
    unfolding inv_result_def news_def by auto
  have "build_getheaders R L (set_state st (s\<lparr>known_txids := x, sync_peer := q, last_block_time := t\<rparr>)) =
      build_getheaders R L s" for st x q t
    by (rule build_getheaders_cong) (simp add: core_of_def)
  moreover have "news = {} \<longleftrightarrow> ks = []"
    using ks(2) by auto
  ultimately show ?thesis
    using assms(1) ks
    by (auto simp: handle_inv_def Let_def sync_status_def set_state_def split: if_splits)
qed


text \<open>
  Without a peer to synchronise with the engine takes the one that reported the greatest
  height, when that is above its own tip, and asks it for headers; a peer it has is kept.
\<close>

theorem selects_highest_peer:
  assumes it: "\<And>xs. mset (it xs) = mset xs"
    and run: "try_select_sync_peer R L it s = (s', r)"
  shows "case sync_peer s of Some p \<Rightarrow> s' = s \<and> r = None
    | None \<Rightarrow> (\<exists>p h. (p, h) \<in> set (peer_heights s) \<and> tip_height s < h) \<longrightarrow>
        (\<exists>p h. (p, h) \<in> set (peer_heights s) \<and> tip_height s < h \<and>
          (\<forall>(q, n) \<in> set (peer_heights s). n \<le> h) \<and>
          sync_peer s' = Some p \<and> sync_status s' = SyncingHeaders \<and>
          r = Some (p, build_getheaders R L s))"
proof (cases "sync_peer s")
  case (Some p)
  with run show ?thesis
    by (simp add: try_select_sync_peer_def)
next
  case None
  let ?c = "filter (\<lambda>(p, h). tip_height s < h) (it (peer_heights s))"
  have set: "set (it (peer_heights s)) = set (peer_heights s)"
    using it by (metis set_mset_mset)
  have bg: "build_getheaders R L (set_state st (s\<lparr>sync_peer := q\<rparr>)) = build_getheaders R L s" for st q
    by (rule build_getheaders_cong) (simp add: core_of_def)
  show ?thesis
  proof (cases "max_by_height ?c")
    case m: None
    then have "?c = []"
      by (cases ?c) (auto split: option.splits if_splits)
    then show ?thesis
      using None set by (auto simp: filter_empty_conv)
  next
    case (Some x)
    obtain p h where x: "x = (p, h)"
      by (cases x)
    have m: "(p, h) \<in> set (peer_heights s)" "tip_height s < h" "\<forall>y \<in> set ?c. snd y \<le> h"
      using max_by_height_max [OF Some] set by (auto simp: x)
    then have "\<forall>(q, n) \<in> set (peer_heights s). n \<le> h"
      using set by fastforce
    moreover have "s' = set_state SyncingHeaders (s\<lparr>sync_peer := Some p\<rparr>)"
      "r = Some (p, build_getheaders R L s)"
      using None run Some by (simp_all add: try_select_sync_peer_def Let_def bg x)
    ultimately show ?thesis
      using None m(1,2) by simp blast
  qed
qed

section \<open>Witnesses\<close>

text \<open>An engine on the sample chain, its cursor at height 0, with the sample kernel.\<close>

definition sample_sync :: "(sample_db, hash list) sync_engine" where
  "sample_sync =
    \<lparr>se_store = sample_chain, se_progress = sync_progress_new, sync_peer = None,
     tip_height = 3, tip_hash = 3, genesis_hash = 0, consensus = Some (sample_engine [0]),
     validated_height = 0, pending_blocks = [], last_confirmed_txids = [],
     last_validated_block = None, known_txids = {}, pending_txs = [], peer_heights = [],
     last_block_time = 0, last_reorg_height = None\<rparr>"

lemma sample_sync_fields [simp]:
  "se_store sample_sync = sample_chain" "tip_height sample_sync = 3" "tip_hash sample_sync = 3"
  "genesis_hash sample_sync = 0" "consensus sample_sync = Some (sample_engine [0])"
  "validated_height sample_sync = 0" "pending_blocks sample_sync = []" "sync_peer sample_sync = None"
  "last_block_time sample_sync = 0" "known_txids sample_sync = {}" "peer_heights sample_sync = []"
  by (simp_all add: sample_sync_def)

lemma sample_sync_hash:
  "hash_at sample_redb sample_btc 0 sample_chain 0 = 0"
  "hash_at sample_redb sample_btc 0 sample_chain 1 = 1"
  "hash_at sample_redb sample_btc 0 sample_chain 2 = 2"
  "hash_at sample_redb sample_btc 0 sample_chain 3 = 3"
  by (simp_all add: hash_at_def sample_best [simplified]) (simp_all add: sample_hdr_def)

lemma sample_tables_ok: "tables_ok sample_redb sample_chain"
  by (simp only: tables_ok_def sample_has)

lemma sample_sync_up [simp]: "sync_up sample_redb sample_btc unat sample_sync"
proof -
  have "best_at sample_redb sample_btc sample_chain 0 = None"
    by (simp add: sample_chain_facts(2) connect_def sample_headers_def)
  moreover have "chain_to sample_redb sample_btc 0 sample_chain 3"
    unfolding chain_to_def
  proof (intro allI impI)
    fix n :: nat assume "n < 3"
    then consider "n = 0" | "n = 1" | "n = 2" by linarith
    then show "\<exists>h. best_at sample_redb sample_btc sample_chain (Suc n) = Some h \<and>
        pow_ok sample_btc h \<and> prev_blockhash h = hash_at sample_redb sample_btc 0 sample_chain n"
    proof cases
      case 1 then show ?thesis
        using sample_best(1) sample_sync_hash(1) by (simp add: sample_hdr_def)
    next
      case 2 then show ?thesis
        using sample_best(2) sample_sync_hash(2) by (simp add: sample_hdr_def numeral_2_eq_2)
    next
      case 3 then show ?thesis
        using sample_best(3) sample_sync_hash(3) by (simp add: sample_hdr_def numeral_3_eq_3 numeral_2_eq_2)
    qed
  qed
  ultimately show ?thesis
    by (simp add: sync_up_def sync_ok_def sample_tables_ok sample_chain_facts(1) sample_sync_hash)
qed

lemma sample_our_hash [simp]:
  "our_hash sample_redb sample_btc sample_sync 1 = 1" "our_hash sample_redb sample_btc sample_sync (Suc 0) = 1"
  "our_hash sample_redb sample_btc sample_sync 2 = 2" "our_hash sample_redb sample_btc sample_sync 3 = 3"
  using sample_sync_hash by (simp_all add: our_hash_def)

lemma sample_wanted: "wanted sample_redb sample_btc sample_sync = [1, 2, 3]"
  by (simp add: wanted_def BLOCK_DOWNLOAD_BATCH_def upt_rec numeral_2_eq_2 [symmetric] numeral_3_eq_3 [symmetric])

theorem headers_keep_chain_witness:
  "sync_ok sample_redb sample_btc unat
    (foldl (headers_step sample_redb sample_btc) sample_sync [(5, 1, [sample_hdr 4]), (6, 2, [])])"
  by (rule headers_keep_chain)
    (use sample_sync_up in \<open>auto simp: sync_up_def ranked_event_def child_rank_def total_headers_def sample_hdr_def\<close>)

theorem request_next_blocks_range_witness:
  "request_next_blocks sample_redb sample_btc sample_sync 7 =
    (sample_sync\<lparr>pending_blocks := [1, 2, 3]\<rparr>,
     Some (7, GetData [WitnessBlock 1, WitnessBlock 2, WitnessBlock 3]))"
  using request_next_blocks_range [OF sample_sync_up, of 7] by (simp add: sample_wanted)

theorem build_locator_shape_witness:
  "hd (build_locator sample_redb sample_btc sample_sync) = 3"
  using build_locator_shape [OF sample_sync_up] by simp

theorem stall_requests_again_witness:
  "snd (check_stall sample_redb sample_btc 70000
      (set_state SyncingBlocks (sample_sync\<lparr>sync_peer := Some 7, pending_blocks := [2]\<rparr>))) =
    Some (7, GetData [WitnessBlock 1, WitnessBlock 2, WitnessBlock 3])"
proof -
  let ?s = "set_state SyncingBlocks (sample_sync\<lparr>sync_peer := Some 7, pending_blocks := [2]\<rparr>)"
  have "core_of ?s = core_of sample_sync"
    by (simp add: core_of_def)
  then have up: "sync_up sample_redb sample_btc unat ?s" and "wanted sample_redb sample_btc ?s = [1, 2, 3]"
    using sync_up_cong [of ?s sample_sync] wanted_cong [of ?s sample_sync] sample_wanted by simp_all
  moreover have "last_block_time ?s = 0"
    by (simp add: set_state_def)
  ultimately show ?thesis
    using stall_requests_again [OF up, of 70000 7] by simp
qed

theorem last_branch_wins_witness:
  "tip_height (fst (handle_headers sample_redb sample_btc 5 sample_sync 7 [sample_hdr 2])) = 2"
proof -
  obtain s' r where run: "handle_headers sample_redb sample_btc 5 sample_sync 7 [sample_hdr 2] = (s', r)"
    by (cases "handle_headers sample_redb sample_btc 5 sample_sync 7 [sample_hdr 2]")
  have "best_at sample_redb sample_btc (se_store sample_sync) 1 = Some (sample_hdr 1)"
    using sample_best(1) by simp
  from last_branch_wins [OF sample_sync_up this _ _ _ _ _ _ run] show ?thesis
    using run by (simp add: child_rank_def sample_hdr_def)
qed

theorem bad_pow_rewinds_witness:
  "tip_height (fst (handle_headers sample_redb sample_btc 5 sample_sync 7
    [(sample_hdr 2)\<lparr>hdr_bits := 1\<rparr>])) = 1"
proof -
  let ?h = "(sample_hdr 2)\<lparr>hdr_bits := 1\<rparr>"
  obtain s' r where run: "handle_headers sample_redb sample_btc 5 sample_sync 7 [?h] = (s', r)"
    by (cases "handle_headers sample_redb sample_btc 5 sample_sync 7 [?h]")
  have "best_at sample_redb sample_btc (se_store sample_sync) 1 = Some (sample_hdr 1)"
    using sample_best(1) by simp
  from bad_pow_rewinds [OF sample_sync_up this _ _ _ _ run] show ?thesis
    using run by (simp add: sample_hdr_def)
qed

theorem handle_inv_requests_witness:
  "\<exists>ks. set ks = {4, 5} \<and> snd (handle_inv sample_redb sample_btc 5 (set_state SyncingHeaders sample_sync) 7
    [InvTransaction 4, InvWTx 4, InvTransaction 5]) = Some (7, GetData (map WitnessTransaction ks))"
proof -
  let ?s = "set_state SyncingHeaders sample_sync" and ?i = "[InvTransaction 4, InvWTx 4, InvTransaction 5]"
  obtain s' r where run: "handle_inv sample_redb sample_btc 5 ?s 7 ?i = (s', r)"
    by (cases "handle_inv sample_redb sample_btc 5 ?s 7 ?i")
  have "known_txids ?s = {}"
    by (simp add: set_state_def)
  moreover have "{k. k = 4 \<or> k = 5 \<or> k = (4 :: hash)} = {4, 5}"
    by auto
  ultimately show ?thesis
    using handle_inv_requests [OF run] run by auto
qed


theorem selects_highest_peer_witness:
  "sync_peer (fst (try_select_sync_peer sample_redb sample_btc id
    (sample_sync\<lparr>peer_heights := [(1, 2), (2, 9), (3, 5)]\<rparr>))) = Some 2"
proof -
  let ?s = "sample_sync\<lparr>peer_heights := [(1, 2), (2, 9), (3, 5)]\<rparr>"
  obtain s' r where run: "try_select_sync_peer sample_redb sample_btc id ?s = (s', r)"
    by (cases "try_select_sync_peer sample_redb sample_btc id ?s")
  have "\<exists>p h. (p, h) \<in> set (peer_heights ?s) \<and> tip_height ?s < h"
    by (intro exI [of _ 2] exI [of _ 9]) simp
  with selects_highest_peer [OF _ run] obtain p h where "(p, h) \<in> set (peer_heights ?s)"
    "\<forall>(q, n) \<in> set (peer_heights ?s). n \<le> h" "sync_peer s' = Some p"
    by auto
  with run show ?thesis
    by auto
qed

end
