(* ===== verification/P2p_Message.thy ===== *)
theory P2p_Message
  imports Net_Messages
begin

text \<open>
  \<open>wolfe-p2p/src/error.rs\<close> and \<open>message.rs\<close>: the codec that reads and writes messages on a
  byte stream. A stream is the list of the bytes that will still arrive before its end; a
  read returns what is left of it. The encoding of a message with its 24 byte header is the
  \<open>bitcoin\<close> crate's, a parameter.
\<close>

section \<open>Errors\<close>

datatype p2p_error =
    Connection string string
  | Handshake string string
  | InvalidMessage string string
  | Misbehavior string string nat
  | Encode string
  | Io string
  | Disconnected
  | ChannelClosed
  | DnsResolution string

section \<open>The crate's encoding\<close>

definition le_bytes :: "nat \<Rightarrow> nat \<Rightarrow> bytes" where
  "le_bytes n v = rev (be_bytes n v)"

definition le_nat :: "bytes \<Rightarrow> nat" where
  "le_nat bs = be_nat (rev bs)"

record wire =
  wr_magic :: "network \<Rightarrow> bytes"
  wr_encode :: "bytes \<Rightarrow> net_msg \<Rightarrow> string + bytes"
  wr_decode :: "bytes \<Rightarrow> string + net_msg"

text \<open>
  A message is its network's magic, the command in 12 bytes, the length of the payload in 4,
  little-endian, a checksum in 4, and the payload; decoding gives it back.
\<close>

definition framed :: "bytes \<Rightarrow> bytes \<Rightarrow> bool" where
  "framed magic bs \<longleftrightarrow> 24 \<le> length bs \<and> take 4 bs = magic \<and>
    le_nat (take 4 (drop 16 bs)) = length bs - 24"

definition wire_ok :: "wire \<Rightarrow> bool" where
  "wire_ok W \<longleftrightarrow> (\<forall>net. length (wr_magic W net) = 4) \<and>
    (\<forall>magic msg bs. length magic = 4 \<longrightarrow> wr_encode W magic msg = Inr bs \<longrightarrow>
      framed magic bs \<and> wr_decode W bs = Inr msg)"

section \<open>Reading\<close>

definition MAX_MESSAGE_SIZE :: nat where
  "MAX_MESSAGE_SIZE = 4 * 1024 * 1024"

definition MAX_RESYNC_BYTES :: nat where
  "MAX_RESYNC_BYTES = 1024 * 1024"

record message_codec =
  cd_magic :: bytes
  cd_read_buf :: bytes

definition codec_new :: "bytes \<Rightarrow> message_codec" where
  "codec_new magic = \<lparr>cd_magic = magic, cd_read_buf = []\<rparr>"

definition magic_for_network :: "wire \<Rightarrow> network \<Rightarrow> bytes" where
  "magic_for_network W net = wr_magic W net"

text \<open>\<open>read_exact\<close> of \<open>n\<close> bytes: at the end of the stream it fails and nothing is left.\<close>

definition read_exact :: "nat \<Rightarrow> bytes \<Rightarrow> bytes \<times> (p2p_error + bytes)" where
  "read_exact n s =
    (if length s < n then ([], Inl (Io ''early eof'')) else (drop n s, Inr (take n s)))"

text \<open>
  One \<open>read\<close> into a buffer of 512 bytes returns some of what is there: how many is up to the
  network, the argument \<open>chunk\<close>. It is 0 at the end of the stream only.
\<close>

definition read_some :: "(bytes \<Rightarrow> nat) \<Rightarrow> bytes \<Rightarrow> nat" where
  "read_some chunk s = min (length s) (max 1 (min 512 (chunk s)))"

text \<open>The position of the first window of four bytes that is the magic.\<close>

fun find_magic :: "bytes \<Rightarrow> bytes \<Rightarrow> nat option" where
  "find_magic magic [] = None"
| "find_magic magic (b # bs) =
    (if take 4 (b # bs) = magic then Some 0 else map_option Suc (find_magic magic bs))"

text \<open>The search for the magic in a stream that does not start with it.\<close>

function resync ::
    "(bytes \<Rightarrow> nat) \<Rightarrow> bytes \<Rightarrow> bytes \<Rightarrow> nat \<Rightarrow> bytes \<Rightarrow> bytes \<times> (p2p_error + bytes)" where
  "resync chunk magic window scanned s =
    (case find_magic magic window of
       Some pos \<Rightarrow>
         (let available = length window - pos in
          if 24 \<le> available then (s, Inr (take 24 (drop pos window)))
          else
            case read_exact (24 - available) s of
              (s, Inl e) \<Rightarrow> (s, Inl e)
            | (s, Inr rest) \<Rightarrow> (s, Inr (drop pos window @ rest)))
     | None \<Rightarrow>
         (let scanned = scanned + sat_sub (length window) 3 in
          if MAX_RESYNC_BYTES < scanned then
            (s, Inl (InvalidMessage [] (''could not re-sync stream after scanning '' @
              show_nat scanned @ '' bytes'')))
          else
            let tail = drop (length window - min (length window) 3) window;
                n = read_some chunk s
            in
            if n = 0 then (s, Inl (Io ''connection closed during stream re-sync''))
            else resync chunk magic (tail @ take n s) scanned (drop n s)))"
  by auto
termination
  by (relation "measure (\<lambda>(chunk, magic, window, scanned, s). length s)")
    (auto simp: read_some_def)

declare resync.simps [simp del]

definition read_message ::
    "wire \<Rightarrow> (bytes \<Rightarrow> nat) \<Rightarrow> message_codec \<Rightarrow> bytes
      \<Rightarrow> message_codec \<times> bytes \<times> (p2p_error + net_msg)" where
  "read_message W chunk codec s =
    (case read_exact 24 s of
       (s, Inl e) \<Rightarrow> (codec, s, Inl e)
     | (s, Inr header) \<Rightarrow>
     (case (if take 4 header \<noteq> cd_magic codec then resync chunk (cd_magic codec) header 0 s
            else (s, Inr header)) of
       (s, Inl e) \<Rightarrow> (codec, s, Inl e)
     | (s, Inr header) \<Rightarrow>
         (let payload_len = le_nat (take 4 (drop 16 header)) in
          if MAX_MESSAGE_SIZE < payload_len then
            (codec, s, Inl (InvalidMessage [] (''message too large: '' @ show_nat payload_len @ '' bytes'')))
          else
            case read_exact payload_len s of
              (s, Inl e) \<Rightarrow> (codec, s, Inl e)
            | (s, Inr payload) \<Rightarrow>
                (let codec = codec\<lparr>cd_read_buf := header @ payload\<rparr> in
                 case wr_decode W (cd_read_buf codec) of
                   Inl e \<Rightarrow> (codec, s, Inl (Encode e))
                 | Inr msg \<Rightarrow> (codec, s, Inr msg)))))"

section \<open>Writing\<close>

text \<open>
  The writer is what has been written so far; \<open>wfail\<close> says whether writing fails then.
\<close>

definition write_message ::
    "wire \<Rightarrow> (bytes \<Rightarrow> string option) \<Rightarrow> message_codec \<Rightarrow> bytes \<Rightarrow> net_msg
      \<Rightarrow> bytes \<times> (p2p_error + unit)" where
  "write_message W wfail codec out msg =
    (case wr_encode W (cd_magic codec) msg of
       Inl e \<Rightarrow> (out, Inl (Io e))
     | Inr buf \<Rightarrow>
         (case wfail out of Some e \<Rightarrow> (out, Inl (Io e)) | None \<Rightarrow> (out @ buf, Inr ())))"

section \<open>Lemmas\<close>

lemma length_le_bytes [simp]: "length (le_bytes n v) = n"
  by (simp add: le_bytes_def)

lemma le_nat_le_bytes: "v < 256 ^ n \<Longrightarrow> le_nat (le_bytes n v) = v"
  by (simp add: le_nat_def le_bytes_def be_nat_be_bytes)

lemma find_magic_Some:
  "find_magic magic w = Some pos \<Longrightarrow> pos < length w \<and> take 4 (drop pos w) = magic"
  by (induction w arbitrary: pos) (auto split: if_splits)

lemma read_some_bounds: "read_some chunk s \<le> length s" "read_some chunk s \<le> 512"
    "s \<noteq> [] \<Longrightarrow> 0 < read_some chunk s"
  by (auto simp: read_some_def)

lemma resync_budget:
  fixes n l x sc b :: nat
  assumes "n \<le> l" and "n \<le> 512" and "sc \<le> b"
    and "l - n \<le> x + 23 + (if sc + n \<le> b then 512 + b - (sc + n) else 0)"
  shows "l \<le> x + 23 + (512 + b - sc)"
  using assms by (auto split: if_splits)

text \<open>What a resynchronisation takes from the stream.\<close>

lemma resync_consumes:
  assumes "3 \<le> length w"
  shows "length (fst (resync chunk magic w scanned s)) + 23 +
    (if scanned + length w - 3 \<le> MAX_RESYNC_BYTES
     then 512 + MAX_RESYNC_BYTES - (scanned + length w - 3) else 0) \<ge> length s"
  using assms
proof (induction chunk magic w scanned s rule: resync.induct)
  case (1 chunk magic w scanned s)
  show ?case
  proof (cases "find_magic magic w")
    case (Some pos)
    then have "length w - pos > 0"
      using find_magic_Some [of magic w pos] by simp
    then have "length (fst (resync chunk magic w scanned s)) + 23 \<ge> length s"
      using Some by (subst resync.simps) (auto simp: read_exact_def Let_def)
    then show ?thesis by simp
  next
    case None
    define sc where "sc = scanned + sat_sub (length w) 3"
    have sc: "sc = scanned + length w - 3"
      using 1(2) by (simp add: sc_def sat_sub_def)
    show ?thesis
    proof (cases "MAX_RESYNC_BYTES < sc \<or> read_some chunk s = 0")
      case True
      then have "fst (resync chunk magic w scanned s) = s"
        using None by (subst resync.simps) (auto simp: Let_def sc_def [symmetric])
      then show ?thesis by simp
    next
      case False
      let ?n = "read_some chunk s"
      define w2 where "w2 = drop (length w - min (length w) 3) w @ take ?n s"
      have eq: "resync chunk magic w scanned s = resync chunk magic w2 sc (drop ?n s)"
        using None False by (subst resync.simps) (simp add: Let_def sc_def [symmetric] w2_def)
      have n: "?n \<le> length s" "?n \<le> 512"
        by (rule read_some_bounds)+
      from n have len: "length w2 = 3 + ?n"
        using 1(2) by (simp add: w2_def)
      have "sc + length w2 - 3 = sc + ?n"
        using len by simp
      moreover have "length (drop ?n s) \<le> length (fst (resync chunk magic w2 sc (drop ?n s))) + 23 +
        (if sc + length w2 - 3 \<le> MAX_RESYNC_BYTES
         then 512 + MAX_RESYNC_BYTES - (sc + length w2 - 3) else 0)"
        unfolding w2_def using False None len by (intro "1.IH") (auto simp: sc_def w2_def)
      ultimately have "length s \<le> length (fst (resync chunk magic w2 sc (drop ?n s))) + 23 +
          (512 + MAX_RESYNC_BYTES - sc)"
        using False n by (intro resync_budget [of ?n]) (simp_all only: length_drop, simp_all)
      then show ?thesis
        using eq sc False by simp
    qed
  qed
qed

text \<open>Reading a message that stands at the front of the stream.\<close>

lemma framed_parts:
  assumes "framed magic bs"
  shows "read_exact 24 (bs @ rest) = (drop 24 bs @ rest, Inr (take 24 bs))"
    and "take 4 (take 24 bs) = magic"
    and "le_nat (take 4 (drop 16 (take 24 bs))) = length bs - 24"
    and "read_exact (length bs - 24) (drop 24 bs @ rest) = (rest, Inr (drop 24 bs))"
proof -
  have len: "24 \<le> length bs" and m: "take 4 bs = magic" and l: "le_nat (take 4 (drop 16 bs)) = length bs - 24"
    using assms by (simp_all add: framed_def)
  show "read_exact 24 (bs @ rest) = (drop 24 bs @ rest, Inr (take 24 bs))"
    and "read_exact (length bs - 24) (drop 24 bs @ rest) = (rest, Inr (drop 24 bs))"
    using len by (simp_all add: read_exact_def)
  show "take 4 (take 24 bs) = magic"
    using m by simp
  have "take 4 (drop 16 (take 24 bs)) = take 4 (drop 16 bs)"
    unfolding drop_take by simp
  with l show "le_nat (take 4 (drop 16 (take 24 bs))) = length bs - 24"
    by simp
qed

lemma read_message_framed:
  assumes "framed (cd_magic codec) bs" and "length bs \<le> MAX_MESSAGE_SIZE + 24"
    and "wr_decode W bs = Inr msg"
  shows "read_message W chunk codec (bs @ rest) = (codec\<lparr>cd_read_buf := bs\<rparr>, rest, Inr msg)"
  using framed_parts(1,4) [OF assms(1), of rest] framed_parts(2,3) [OF assms(1)] assms(2,3)
  by (simp add: read_message_def Let_def del: take_take)

text \<open>Reading \<open>n\<close> messages, up to the first error.\<close>

fun read_messages ::
    "wire \<Rightarrow> (bytes \<Rightarrow> nat) \<Rightarrow> nat \<Rightarrow> message_codec \<Rightarrow> bytes \<Rightarrow> bytes \<times> (p2p_error + net_msg) list" where
  "read_messages W chunk 0 codec s = (s, [])"
| "read_messages W chunk (Suc n) codec s =
    (case read_message W chunk codec s of
       (codec, s, r) \<Rightarrow> map_prod id ((#) r) (read_messages W chunk n codec s))"

fun write_messages ::
    "wire \<Rightarrow> (bytes \<Rightarrow> string option) \<Rightarrow> message_codec \<Rightarrow> bytes \<Rightarrow> net_msg list
      \<Rightarrow> bytes \<times> (p2p_error + unit)" where
  "write_messages W wfail codec out [] = (out, Inr ())"
| "write_messages W wfail codec out (m # ms) =
    (case write_message W wfail codec out m of
       (out, Inl e) \<Rightarrow> (out, Inl e)
     | (out, Inr _) \<Rightarrow> write_messages W wfail codec out ms)"

lemma write_message_Inr:
  "write_message W wfail codec out m = (out', Inr ()) \<Longrightarrow>
    \<exists>bs. wr_encode W (cd_magic codec) m = Inr bs \<and> out' = out @ bs"
  by (auto simp: write_message_def split: sum.splits option.splits)

lemma written_read_back:
  assumes ok: "wire_ok W" and magic: "length (cd_magic codec) = 4"
    and small: "\<forall>m \<in> set ms. \<forall>bs. wr_encode W (cd_magic codec) m = Inr bs \<longrightarrow>
      length bs \<le> MAX_MESSAGE_SIZE + 24"
    and "write_messages W wfail codec out ms = (out', Inr ())"
  shows "\<exists>sent. out' = out @ sent \<and>
    (\<forall>reader rest. cd_magic reader = cd_magic codec \<longrightarrow>
      read_messages W chunk (length ms) reader (sent @ rest) = (rest, map Inr ms))"
  using small assms(4)
proof (induction ms arbitrary: out)
  case Nil
  then show ?case by auto
next
  case (Cons m ms)
  obtain out1 where w: "write_message W wfail codec out m = (out1, Inr ())"
      "write_messages W wfail codec out1 ms = (out', Inr ())"
    using Cons.prems(2) by (auto split: prod.splits sum.splits)
  obtain bs where bs: "wr_encode W (cd_magic codec) m = Inr bs" "out1 = out @ bs"
    using write_message_Inr [OF w(1)] by blast
  have f: "framed (cd_magic codec) bs" "wr_decode W bs = Inr m"
    using ok magic bs(1) unfolding wire_ok_def by blast+
  have len: "length bs \<le> MAX_MESSAGE_SIZE + 24"
    using Cons.prems(1) bs(1) by simp
  obtain sent where sent: "out' = out1 @ sent"
    and read: "\<And>reader rest. cd_magic reader = cd_magic codec \<Longrightarrow>
      read_messages W chunk (length ms) reader (sent @ rest) = (rest, map Inr ms)"
    using Cons.IH [OF _ w(2)] Cons.prems(1) by auto
  have "read_messages W chunk (length (m # ms)) reader ((bs @ sent) @ rest) = (rest, map Inr (m # ms))"
    if "cd_magic reader = cd_magic codec" for reader rest
  proof -
    have "read_message W chunk reader (bs @ (sent @ rest)) =
        (reader\<lparr>cd_read_buf := bs\<rparr>, sent @ rest, Inr m)"
      using that f len by (intro read_message_framed) simp_all
    then show ?thesis
      using read [of "reader\<lparr>cd_read_buf := bs\<rparr>" rest] that by simp
  qed
  then show ?case
    using sent bs(2) by (intro exI [of _ "bs @ sent"]) simp
qed

end
