(* ===== verification/P2p_Conn.thy ===== *)
theory P2p_Conn
  imports P2p_Message Config
begin

text \<open>
  \<open>wolfe-p2p/src/peer.rs\<close>, \<open>connection.rs\<close> and \<open>v2transport.rs\<close>: what is known of a peer,
  the version handshake in both directions, and the conversions of the encrypted transport.
  Instants are milliseconds; TCP is the list of bytes the peer will send and the list of
  bytes written to it.
\<close>

section \<open>Peers\<close>

record peer_info =
  pi_id :: nat
  pi_addr :: string
  pi_user_agent :: string
  pi_version :: nat
  pi_services :: nat
  pi_start_height :: int
  pi_relay :: bool
  pi_inbound :: bool
  pi_v2_transport :: bool
  pi_connected_at :: nat

record peer =
  pr_info :: peer_info
  pr_last_seen :: nat
  pr_last_ping :: "nat option"
  pr_ping_nonce :: "nat option"
  pr_ping_latency_ms :: "nat option"
  pr_bytes_sent :: nat
  pr_bytes_received :: nat
  pr_misbehavior_score :: nat
  pr_syncing_headers :: bool
  pr_syncing_blocks :: bool

definition peer_new :: "peer_info \<Rightarrow> peer" where
  "peer_new info =
    \<lparr>pr_info = info, pr_last_seen = pi_connected_at info, pr_last_ping = None,
     pr_ping_nonce = None, pr_ping_latency_ms = None, pr_bytes_sent = 0, pr_bytes_received = 0,
     pr_misbehavior_score = 0, pr_syncing_headers = False, pr_syncing_blocks = False\<rparr>"

definition sat_add32 :: "nat \<Rightarrow> nat \<Rightarrow> nat" where
  "sat_add32 a b = min (a + b) (2 ^ 32 - 1)"

definition record_misbehavior :: "peer \<Rightarrow> nat \<Rightarrow> peer \<times> bool" where
  "record_misbehavior p score =
    (let p = p\<lparr>pr_misbehavior_score := sat_add32 (pr_misbehavior_score p) score\<rparr> in
     (p, 100 \<le> pr_misbehavior_score p))"

definition uptime :: "nat \<Rightarrow> peer \<Rightarrow> nat" where
  "uptime now p = now - pi_connected_at (pr_info p)"

section \<open>Connections\<close>

text \<open>How the connection attempt of the operating system ends, with the peer's bytes.\<close>

datatype tcp_outcome = TcpTimedOut | TcpFailed string | TcpOpen bytes

record net =
  nt_chunk :: "bytes \<Rightarrow> nat"
  nt_wfail :: "bytes \<Rightarrow> string option"
  nt_cmd :: "net_msg \<Rightarrow> string"
  nt_crate_version :: string

record peer_connection =
  pc_info :: peer_info
  pc_our_nonce :: nat
  pc_their_nonce :: nat
  pc_codec :: message_codec
  pc_reader :: bytes
  pc_writer :: bytes

text \<open>The crate's \<open>Address::new\<close> keeps the services and the socket address.\<close>

definition build_version_message ::
    "net \<Rightarrow> string \<Rightarrow> nat \<Rightarrow> int \<Rightarrow> int \<Rightarrow> nat \<Rightarrow> version_msg" where
  "build_version_message N addr services best_height timestamp nonce =
    \<lparr>vm_version = 70016, vm_services = services, vm_timestamp = timestamp,
     vm_receiver = (0, addr), vm_sender = (services, ''0.0.0.0:0''), vm_nonce = nonce,
     vm_user_agent = user_agent (nt_crate_version N), vm_start_height = best_height,
     vm_relay = True\<rparr>"

text \<open>The loop that waits for the peer's verack.\<close>

fun await_verack ::
    "wire \<Rightarrow> net \<Rightarrow> nat \<Rightarrow> message_codec \<Rightarrow> bytes \<Rightarrow> p2p_error + (message_codec \<times> bytes \<times> bool)" where
  "await_verack W N 0 codec s = Inr (codec, s, False)"
| "await_verack W N (Suc n) codec s =
    (case read_message W (nt_chunk N) codec s of
       (codec, s, Inl e) \<Rightarrow> Inl e
     | (codec, s, Inr Verack) \<Rightarrow> Inr (codec, s, True)
     | (codec, s, Inr _) \<Rightarrow> await_verack W N n codec s)"

fun read_version ::
    "wire \<Rightarrow> net \<Rightarrow> string \<Rightarrow> message_codec \<Rightarrow> bytes \<Rightarrow> p2p_error + (message_codec \<times> bytes \<times> version_msg)" where
  "read_version W N addr codec s =
    (case read_message W (nt_chunk N) codec s of
       (codec, s, Inl e) \<Rightarrow> Inl e
     | (codec, s, Inr (Version v)) \<Rightarrow> Inr (codec, s, v)
     | (codec, s, Inr other) \<Rightarrow>
         Inl (Handshake addr (''expected version, got '' @ nt_cmd N other)))"

definition conn_write ::
    "wire \<Rightarrow> net \<Rightarrow> message_codec \<Rightarrow> bytes \<Rightarrow> net_msg \<Rightarrow> p2p_error + bytes" where
  "conn_write W N codec out msg =
    (case write_message W (nt_wfail N) codec out msg of
       (out, Inl e) \<Rightarrow> Inl e | (out, Inr _) \<Rightarrow> Inr out)"

definition info_of :: "nat \<Rightarrow> string \<Rightarrow> version_msg \<Rightarrow> bool \<Rightarrow> nat \<Rightarrow> peer_info" where
  "info_of peer_id addr v inbound now =
    \<lparr>pi_id = peer_id, pi_addr = addr, pi_user_agent = vm_user_agent v, pi_version = vm_version v,
     pi_services = vm_services v, pi_start_height = vm_start_height v, pi_relay = vm_relay v,
     pi_inbound = inbound, pi_v2_transport = False, pi_connected_at = now\<rparr>"

text \<open>\<open>ours\<close> is the version message built for this connection.\<close>

definition connect ::
    "wire \<Rightarrow> net \<Rightarrow> nat \<Rightarrow> string \<Rightarrow> network \<Rightarrow> version_msg \<Rightarrow> nat \<Rightarrow> tcp_outcome
      \<Rightarrow> p2p_error + peer_connection" where
  "connect W N now addr network ours peer_id tcp =
    (case tcp of
       TcpTimedOut \<Rightarrow> Inl (Connection addr ''connection timed out'')
     | TcpFailed e \<Rightarrow> Inl (Connection addr e)
     | TcpOpen reader \<Rightarrow>
         (let codec = codec_new (magic_for_network W network) in
          res_bind (conn_write W N codec [] (Version ours)) (\<lambda>writer.
          res_bind (read_version W N addr codec reader) (\<lambda>(codec, reader, their_version).
          res_bind (conn_write W N codec writer Verack) (\<lambda>writer.
          res_bind (await_verack W N 10 codec reader) (\<lambda>(codec, reader, got_verack).
          if \<not> got_verack
          then Inl (Handshake addr ''did not receive verack after 10 messages'')
          else Inr
            \<lparr>pc_info = info_of peer_id addr their_version False now, pc_our_nonce = vm_nonce ours,
             pc_their_nonce = vm_nonce their_version, pc_codec = codec, pc_reader = reader,
             pc_writer = writer\<rparr>))))))"

definition accept_inner ::
    "wire \<Rightarrow> net \<Rightarrow> nat \<Rightarrow> string \<Rightarrow> network \<Rightarrow> version_msg \<Rightarrow> nat \<Rightarrow> bytes
      \<Rightarrow> p2p_error + peer_connection" where
  "accept_inner W N now addr network ours peer_id reader =
    (let codec = codec_new (magic_for_network W network) in
     res_bind (read_version W N addr codec reader) (\<lambda>(codec, reader, their_version).
     res_bind (conn_write W N codec [] (Version ours)) (\<lambda>writer.
     res_bind (conn_write W N codec writer Verack) (\<lambda>writer.
     res_bind (await_verack W N 10 codec reader) (\<lambda>(codec, reader, _).
     Inr
       \<lparr>pc_info = info_of peer_id addr their_version True now, pc_our_nonce = vm_nonce ours,
        pc_their_nonce = vm_nonce their_version, pc_codec = codec, pc_reader = reader,
        pc_writer = writer\<rparr>)))))"

text \<open>The whole of \<open>accept_inner\<close> runs under a timeout of ten seconds.\<close>

definition accept ::
    "wire \<Rightarrow> net \<Rightarrow> nat \<Rightarrow> string \<Rightarrow> network \<Rightarrow> version_msg \<Rightarrow> nat \<Rightarrow> bytes \<Rightarrow> bool
      \<Rightarrow> p2p_error + peer_connection" where
  "accept W N now addr network ours peer_id reader timed_out =
    (if timed_out then Inl (Handshake addr ''inbound handshake timed out'')
     else accept_inner W N now addr network ours peer_id reader)"

definition conn_send ::
    "wire \<Rightarrow> net \<Rightarrow> peer_connection \<Rightarrow> net_msg \<Rightarrow> peer_connection \<times> (p2p_error + unit)" where
  "conn_send W N c msg =
    (case write_message W (nt_wfail N) (pc_codec c) (pc_writer c) msg of
       (out, r) \<Rightarrow> (c\<lparr>pc_writer := out\<rparr>, r))"

definition conn_recv ::
    "wire \<Rightarrow> net \<Rightarrow> peer_connection \<Rightarrow> peer_connection \<times> (p2p_error + net_msg)" where
  "conn_recv W N c =
    (case read_message W (nt_chunk N) (pc_codec c) (pc_reader c) of
       (codec, s, r) \<Rightarrow> (c\<lparr>pc_codec := codec, pc_reader := s\<rparr>, r))"

section \<open>The encrypted transport\<close>

text \<open>
  The \<open>bip324\<close> crate: its networks, its message type, its serialisation, and the protocol on
  an abstract state \<open>'p\<close>. \<open>V2Other\<close> stands for the message types the code does not name.
\<close>

datatype v2_network = V2Bitcoin | V2Testnet | V2Signet | V2Regtest

datatype v2_role = Initiator | Responder

datatype v2_msg =
    V2Ping nat
  | V2Pong nat
  | V2Verack
  | V2SendHeaders
  | V2Unknown string bytes
  | V2Other string bytes

record 'p bip324 =
  vp_new :: "v2_network \<Rightarrow> v2_role \<Rightarrow> bytes \<Rightarrow> string + 'p"
  vp_write :: "'p \<Rightarrow> bytes \<Rightarrow> string + 'p"
  vp_read :: "'p \<Rightarrow> string + ('p \<times> bytes)"
  vp_serialize :: "v2_msg \<Rightarrow> bytes"
  vp_deserialize :: "bytes \<Rightarrow> string + v2_msg"
  vp_cmd :: "net_msg \<Rightarrow> string"
  vp_payload :: "net_msg \<Rightarrow> bytes"

fun to_bip324_network :: "network \<Rightarrow> v2_network" where
  "to_bip324_network Bitcoin = V2Bitcoin"
| "to_bip324_network Testnet = V2Testnet"
| "to_bip324_network Signet = V2Signet"
| "to_bip324_network Regtest = V2Regtest"
| "to_bip324_network _ = V2Bitcoin"

definition v2_connect :: "'p bip324 \<Rightarrow> bytes \<Rightarrow> network \<Rightarrow> p2p_error + 'p" where
  "v2_connect V stream network =
    (case vp_new V (to_bip324_network network) Initiator stream of
       Inl e \<Rightarrow> Inl (Handshake ''v2'' (''BIP324 initiator handshake failed: '' @ e))
     | Inr p \<Rightarrow> Inr p)"

definition v2_accept :: "'p bip324 \<Rightarrow> bytes \<Rightarrow> network \<Rightarrow> p2p_error + 'p" where
  "v2_accept V stream network =
    (case vp_new V (to_bip324_network network) Responder stream of
       Inl e \<Rightarrow> Inl (Handshake ''v2'' (''BIP324 responder handshake failed: '' @ e))
     | Inr p \<Rightarrow> Inr p)"

text \<open>A command is at most 12 characters; one that is longer becomes \<open>unknown\<close>, padded with zeros.\<close>

fun convert_to_bip324_msg :: "'p bip324 \<Rightarrow> net_msg \<Rightarrow> v2_msg" where
  "convert_to_bip324_msg V (Ping n) = V2Ping n"
| "convert_to_bip324_msg V (Pong n) = V2Pong n"
| "convert_to_bip324_msg V Verack = V2Verack"
| "convert_to_bip324_msg V SendHeaders = V2SendHeaders"
| "convert_to_bip324_msg V other =
    V2Unknown (if length (vp_cmd V other) \<le> 12 then vp_cmd V other
      else ''unknown'' @ replicate 5 (char_of (0 :: nat))) (vp_payload V other)"

fun convert_from_bip324_msg :: "v2_msg \<Rightarrow> net_msg" where
  "convert_from_bip324_msg (V2Ping n) = Ping n"
| "convert_from_bip324_msg (V2Pong n) = Pong n"
| "convert_from_bip324_msg V2Verack = Verack"
| "convert_from_bip324_msg V2SendHeaders = SendHeaders"
| "convert_from_bip324_msg _ = Verack"

definition v2_send :: "'p bip324 \<Rightarrow> 'p \<Rightarrow> net_msg \<Rightarrow> p2p_error + 'p" where
  "v2_send V p msg =
    (case vp_write V p (vp_serialize V (convert_to_bip324_msg V msg)) of
       Inl e \<Rightarrow> Inl (Connection ''v2'' e) | Inr p \<Rightarrow> Inr p)"

definition v2_recv :: "'p bip324 \<Rightarrow> 'p \<Rightarrow> p2p_error + ('p \<times> net_msg)" where
  "v2_recv V p =
    (case vp_read V p of
       Inl e \<Rightarrow> Inl (Connection ''v2'' e)
     | Inr (p, contents) \<Rightarrow>
         if contents = [] then Inl (Handshake ''v2'' ''received decoy packet'')
         else
           case vp_deserialize V contents of
             Inl e \<Rightarrow> Inl (Handshake ''v2'' (''failed to deserialize v2 message: '' @ e))
           | Inr msg \<Rightarrow> Inr (p, convert_from_bip324_msg msg))"

definition try_v2_connect :: "'p bip324 \<Rightarrow> bytes \<Rightarrow> network \<Rightarrow> bool \<Rightarrow> p2p_error + 'p" where
  "try_v2_connect V stream network timed_out =
    (if timed_out then Inl (Handshake ''v2'' ''v2 handshake timed out'')
     else v2_connect V stream network)"

section \<open>Lemmas\<close>

text \<open>A message the codec wrote is read back by the other end's codec.\<close>

lemma conn_write_reads:
  assumes "wire_ok W" and "length (cd_magic codec) = 4" and "cd_magic reader = cd_magic codec"
    and "\<forall>bs. wr_encode W (cd_magic codec) msg = Inr bs \<longrightarrow> length bs \<le> MAX_MESSAGE_SIZE + 24"
    and "conn_write W N codec out msg = Inr out'"
  shows "\<exists>bs. out' = out @ bs \<and> (\<forall>rest. read_message W chunk reader (bs @ rest) =
    (reader\<lparr>cd_read_buf := bs\<rparr>, rest, Inr msg))"
proof -
  have "write_message W (nt_wfail N) codec out msg = (out', Inr ())"
    using assms(5) by (auto simp: conn_write_def split: prod.splits sum.splits)
  then obtain bs where bs: "wr_encode W (cd_magic codec) msg = Inr bs" "out' = out @ bs"
    using write_message_Inr by blast
  then have "framed (cd_magic reader) bs" "wr_decode W bs = Inr msg"
    using assms(1-3) unfolding wire_ok_def by auto
  then show ?thesis
    using read_message_framed [of reader bs W msg chunk] assms(4) bs by auto
qed

lemma codec_magic:
  "read_message W chunk codec s = (codec', s', r) \<Longrightarrow> cd_magic codec' = cd_magic codec"
  by (auto simp: read_message_def Let_def split: prod.splits sum.splits if_splits)

end
