(* ===== verification/P2p_Loop.thy ===== *)
theory P2p_Loop
  imports P2p_Conn
begin

text \<open>
  The message loop of one peer in \<open>wolfe-p2p/src/manager.rs\<close> (\<open>run_peer_loop\<close>). One pass of
  the loop takes the branch of \<open>select!\<close> that is ready; which one, and when, is an input.
  The table of peers is shared with the manager, the events are those sent to the node.
\<close>

section \<open>State\<close>

datatype peer_event =
    EvConnected peer_info
  | EvDisconnected nat
  | EvMessage nat net_msg
  | EvBanned nat string

record loop_state =
  ls_conn :: peer_connection
  ls_peers :: "(nat \<times> peer) list"
  ls_events :: "peer_event list"
  ls_window :: nat
  ls_count :: nat

definition PING_TIMEOUT :: nat where
  "PING_TIMEOUT = 60 * 1000"

definition PING_INTERVAL :: nat where
  "PING_INTERVAL = 120 * 1000"

definition PEER_READ_TIMEOUT :: nat where
  "PEER_READ_TIMEOUT = 20 * 60 * 1000"

definition MAX_PROTOCOL_MESSAGES_PER_SEC :: nat where
  "MAX_PROTOCOL_MESSAGES_PER_SEC = 2000"

definition loop_id :: "loop_state \<Rightarrow> nat" where
  "loop_id s = pi_id (pc_info (ls_conn s))"

definition loop_start :: "peer_connection \<Rightarrow> (nat \<times> peer) list \<Rightarrow> peer_event list \<Rightarrow> nat \<Rightarrow> loop_state" where
  "loop_start conn peers events now =
    \<lparr>ls_conn = conn, ls_peers = peers, ls_events = events, ls_window = now, ls_count = 0\<rparr>"

text \<open>\<open>get_mut\<close>: change the entry of a peer when there is one.\<close>

definition modify_peer :: "nat \<Rightarrow> (peer \<Rightarrow> peer) \<Rightarrow> (nat \<times> peer) list \<Rightarrow> (nat \<times> peer) list" where
  "modify_peer k f ps = (case map_of ps k of None \<Rightarrow> ps | Some p \<Rightarrow> AList.update k (f p) ps)"

section \<open>A received message\<close>

fun is_data_msg :: "net_msg \<Rightarrow> bool" where
  "is_data_msg (BlockMsg _) = True"
| "is_data_msg (TxMsg _) = True"
| "is_data_msg (Headers _) = True"
| "is_data_msg _ = False"

text \<open>The window of one second in which messages that are not data are counted.\<close>

definition rate_tick :: "nat \<Rightarrow> loop_state \<Rightarrow> loop_state" where
  "rate_tick now s =
    (let s = (if 1000 \<le> now - ls_window s then s\<lparr>ls_window := now, ls_count := 0\<rparr> else s)
     in s\<lparr>ls_count := ls_count s + 1\<rparr>)"

definition on_pong :: "nat \<Rightarrow> nat \<Rightarrow> peer \<Rightarrow> peer" where
  "on_pong now nonce p =
    (if pr_ping_nonce p = Some nonce
     then
       let p = (case pr_last_ping p of
           Some sent \<Rightarrow> p\<lparr>pr_ping_latency_ms := Some (now - sent)\<rparr>
         | None \<Rightarrow> p)
       in p\<lparr>pr_ping_nonce := None\<rparr>
     else p)"

text \<open>
  The flag says whether the loop goes on; \<open>hung_up\<close> says that the node dropped its end of the
  event channel.
\<close>

definition on_message ::
    "wire \<Rightarrow> net \<Rightarrow> bool \<Rightarrow> nat \<Rightarrow> loop_state \<Rightarrow> net_msg \<Rightarrow> loop_state \<times> bool" where
  "on_message W N hung_up now s msg =
    (let s = (if is_data_msg msg then s else rate_tick now s) in
     if \<not> is_data_msg msg \<and> MAX_PROTOCOL_MESSAGES_PER_SEC < ls_count s then (s, False)
     else
       let s = s\<lparr>ls_peers := modify_peer (loop_id s) (\<lambda>p. p\<lparr>pr_last_seen := now\<rparr>) (ls_peers s)\<rparr> in
       case msg of
         Ping nonce \<Rightarrow>
           (case conn_send W N (ls_conn s) (Pong nonce) of
              (c, Inl _) \<Rightarrow> (s\<lparr>ls_conn := c\<rparr>, False)
            | (c, Inr _) \<Rightarrow> (s\<lparr>ls_conn := c\<rparr>, True))
       | Pong nonce \<Rightarrow>
           (s\<lparr>ls_peers := modify_peer (loop_id s) (on_pong now nonce) (ls_peers s)\<rparr>, True)
       | _ \<Rightarrow>
           if hung_up then (s, False)
           else (s\<lparr>ls_events := ls_events s @ [EvMessage (loop_id s) msg]\<rparr>, True))"

definition recv_step :: "wire \<Rightarrow> net \<Rightarrow> bool \<Rightarrow> nat \<Rightarrow> loop_state \<Rightarrow> loop_state \<times> bool" where
  "recv_step W N hung_up now s =
    (case conn_recv W N (ls_conn s) of
       (c, r) \<Rightarrow>
         (let s = s\<lparr>ls_conn := c\<rparr> in
          case r of
            Inr msg \<Rightarrow> on_message W N hung_up now s msg
          | Inl Disconnected \<Rightarrow> (s, False)
          | Inl (Encode _) \<Rightarrow> (s, True)
          | Inl _ \<Rightarrow> (s, False)))"

section \<open>The keepalive\<close>

definition ping_stale :: "nat \<Rightarrow> peer \<Rightarrow> bool" where
  "ping_stale now p \<longleftrightarrow>
    (case pr_last_ping p of
       Some sent \<Rightarrow> pr_ping_nonce p \<noteq> None \<and> PING_TIMEOUT < now - sent
     | None \<Rightarrow> False)"

definition ping_step :: "wire \<Rightarrow> net \<Rightarrow> nat \<Rightarrow> loop_state \<Rightarrow> nat \<Rightarrow> loop_state \<times> bool" where
  "ping_step W N now s nonce =
    (if (case map_of (ls_peers s) (loop_id s) of Some p \<Rightarrow> ping_stale now p | None \<Rightarrow> False)
     then (s, False)
     else
       let s = s\<lparr>ls_peers := modify_peer (loop_id s)
             (\<lambda>p. p\<lparr>pr_last_ping := Some now, pr_ping_nonce := Some nonce\<rparr>) (ls_peers s)\<rparr> in
       case conn_send W N (ls_conn s) (Ping nonce) of
         (c, Inl _) \<Rightarrow> (s\<lparr>ls_conn := c\<rparr>, False)
       | (c, Inr _) \<Rightarrow> (s\<lparr>ls_conn := c\<rparr>, True))"

section \<open>One pass of the loop\<close>

datatype ready = ReadTimeout | Readable bool | Outbound net_msg | PingTick nat

fun loop_step :: "wire \<Rightarrow> net \<Rightarrow> nat \<Rightarrow> loop_state \<Rightarrow> ready \<Rightarrow> loop_state \<times> bool" where
  "loop_step W N now s ReadTimeout = (s, False)"
| "loop_step W N now s (Readable hung_up) = recv_step W N hung_up now s"
| "loop_step W N now s (Outbound msg) =
    (case conn_send W N (ls_conn s) msg of
       (c, Inl _) \<Rightarrow> (s\<lparr>ls_conn := c\<rparr>, False)
     | (c, Inr _) \<Rightarrow> (s\<lparr>ls_conn := c\<rparr>, True))"
| "loop_step W N now s (PingTick nonce) = ping_step W N now s nonce"

fun run_loop :: "wire \<Rightarrow> net \<Rightarrow> loop_state \<Rightarrow> (nat \<times> ready) list \<Rightarrow> loop_state \<times> bool" where
  "run_loop W N s [] = (s, True)"
| "run_loop W N s ((now, r) # rs) =
    (case loop_step W N now s r of
       (s, True) \<Rightarrow> run_loop W N s rs
     | (s, False) \<Rightarrow> (s, False))"

section \<open>Lemmas\<close>

lemma run_loop_append:
  "run_loop W N s (xs @ ys) =
    (case run_loop W N s xs of (s, True) \<Rightarrow> run_loop W N s ys | (s, False) \<Rightarrow> (s, False))"
  by (induction xs arbitrary: s) (auto split: prod.splits bool.splits)

lemma modify_peer_id [simp]:
  "map_of (modify_peer k f ps) j = (if j = k then map_option f (map_of ps j) else map_of ps j)"
  by (auto simp: modify_peer_def split: option.split)

lemma modify_peer_keys [simp]: "dom (map_of (modify_peer k f ps)) = dom (map_of ps)"
  by (auto simp: dom_def split: if_splits)

lemma conn_send_info [simp]: "conn_send W N c msg = (c', r) \<Longrightarrow> pc_info c' = pc_info c"
  by (auto simp: conn_send_def split: prod.splits)

lemma conn_recv_info: "conn_recv W N c = (c', r) \<Longrightarrow> pc_info c' = pc_info c"
  by (auto simp: conn_recv_def split: prod.splits)

lemma rate_tick_fields [simp]:
  "ls_conn (rate_tick now s) = ls_conn s" "ls_peers (rate_tick now s) = ls_peers s"
  "ls_events (rate_tick now s) = ls_events s"
  by (simp_all add: rate_tick_def Let_def)

end
