(* ===== verification/P2p_Manager.thy ===== *)
theory P2p_Manager
  imports P2p_Loop
begin

text \<open>
  \<open>wolfe-p2p/src/manager.rs\<close>: the tables of the manager and the tasks that work on them.
  Every connection is a task that runs through the phases of its code; the tables are
  concurrent maps, so a step of the system is one access of one task. Which address is
  dialled when (from the configuration, DNS seeds, or the reconnection timer) is left open:
  any address may be dialled at any time, as the guards of \<open>connect_outbound\<close> allow.
\<close>

section \<open>Networks\<close>

fun dns_seeds_for_network :: "network \<Rightarrow> string list" where
  "dns_seeds_for_network Bitcoin =
    [''seed.bitcoin.sipa.be'', ''dnsseed.bluematt.me'',
     ''dnsseed.bitcoin.dashjr-list-of-hierarchical-deterministic-wallets.org'',
     ''seed.bitcoinstats.com'', ''seed.bitcoin.jonasschnelli.ch'', ''seed.btc.petertodd.net'',
     ''seed.bitcoin.sprovoost.nl'', ''dnsseed.emzy.de'', ''seed.bitcoin.wiz.biz'']"
| "dns_seeds_for_network Testnet =
    [''testnet-seed.bitcoin.jonasschnelli.ch'', ''seed.tbtc.petertodd.net'',
     ''seed.testnet.bitcoin.sprovoost.nl'', ''testnet-seed.bluematt.me'']"
| "dns_seeds_for_network Signet = [''seed.signet.bitcoin.sprovoost.nl'']"
| "dns_seeds_for_network Regtest = []"
| "dns_seeds_for_network _ = []"

fun default_port_for_network :: "network \<Rightarrow> nat" where
  "default_port_for_network Bitcoin = 8333"
| "default_port_for_network Testnet = 18333"
| "default_port_for_network Signet = 38333"
| "default_port_for_network Regtest = 18444"
| "default_port_for_network _ = 8333"

section \<open>State\<close>

record manager =
  pm_config :: p2p_config
  pm_network :: network
  pm_peers :: "(nat \<times> peer) list"
  pm_senders :: "(nat \<times> net_msg list) list"
  pm_next_id :: nat
  pm_events :: "peer_event list"
  pm_event_rx :: bool
  pm_best_height :: nat
  pm_nonces :: "nat set"

definition manager_new :: "p2p_config \<Rightarrow> network \<Rightarrow> manager" where
  "manager_new cfg net =
    \<lparr>pm_config = cfg, pm_network = net, pm_peers = [], pm_senders = [], pm_next_id = 1,
     pm_events = [], pm_event_rx = True, pm_best_height = 0, pm_nonces = {}\<rparr>"

definition take_event_rx :: "manager \<Rightarrow> manager \<times> bool" where
  "take_event_rx m = (m\<lparr>pm_event_rx := False\<rparr>, pm_event_rx m)"

definition set_best_height :: "manager \<Rightarrow> nat \<Rightarrow> manager" where
  "set_best_height m h = m\<lparr>pm_best_height := h\<rparr>"

definition pm_peer_count :: "manager \<Rightarrow> nat" where
  "pm_peer_count m = length (pm_peers m)"

definition connected_peers ::
    "((nat \<times> peer) list \<Rightarrow> (nat \<times> peer) list) \<Rightarrow> manager \<Rightarrow> peer_info list" where
  "connected_peers it m = map (\<lambda>(k, p). pr_info p) (it (pm_peers m))"

definition next_id :: "manager \<Rightarrow> manager \<times> nat" where
  "next_id m = (m\<lparr>pm_next_id := w64 (pm_next_id m + 1)\<rparr>, pm_next_id m)"

definition inbound_count :: "manager \<Rightarrow> nat" where
  "inbound_count m = length (filter (\<lambda>(k, p). pi_inbound (pr_info p)) (pm_peers m))"

definition outbound_count :: "manager \<Rightarrow> nat" where
  "outbound_count m = length (filter (\<lambda>(k, p). \<not> pi_inbound (pr_info p)) (pm_peers m))"

text \<open>The seeds that are resolved, and the addresses of one seed that are dialled.\<close>

definition discover_seeds :: "manager \<Rightarrow> string list" where
  "discover_seeds m =
    (if dns_seeds (pm_config m) = [] then dns_seeds_for_network (pm_network m)
     else dns_seeds (pm_config m))"

definition seed_query :: "manager \<Rightarrow> string \<Rightarrow> string" where
  "seed_query m seed = seed @ '':'' @ show_nat (default_port_for_network (pm_network m))"

definition seed_targets :: "string list \<Rightarrow> string list" where
  "seed_targets addrs = take 3 addrs"

section \<open>Messages to peers\<close>

text \<open>
  A channel holds 256 messages; \<open>send\<close> waits while it is full (\<open>None\<close>). \<open>gone\<close> are the
  peers whose loop has ended, which drops the receiving end.
\<close>

definition CHANNEL :: nat where
  "CHANNEL = 256"

definition send_to_peer ::
    "nat set \<Rightarrow> manager \<Rightarrow> nat \<Rightarrow> net_msg \<Rightarrow> (manager \<times> (p2p_error + unit)) option" where
  "send_to_peer gone m peer_id msg =
    (case map_of (pm_senders m) peer_id of
       None \<Rightarrow> Some (m, Inl Disconnected)
     | Some q \<Rightarrow>
         if peer_id \<in> gone then Some (m, Inl ChannelClosed)
         else if CHANNEL \<le> length q then None
         else Some (m\<lparr>pm_senders := AList.update peer_id (q @ [msg]) (pm_senders m)\<rparr>, Inr ()))"

definition broadcast :: "nat set \<Rightarrow> manager \<Rightarrow> net_msg \<Rightarrow> manager" where
  "broadcast gone m msg =
    m\<lparr>pm_senders := map (\<lambda>(k, q). (k, if k \<notin> gone \<and> length q < CHANNEL then q @ [msg] else q))
        (pm_senders m)\<rparr>"

section \<open>Tasks\<close>

datatype phase =
    Shaking | Shaken | Nonced | Rejected | Cleared | Listed | Wired | Running
  | Left | Unwired | Unlisted | Forgotten | Gone

record task =
  tk_id :: nat
  tk_addr :: string
  tk_inbound :: bool
  tk_height :: int
  tk_phase :: phase
  tk_conn :: "peer_connection option"
  tk_window :: nat
  tk_count :: nat

definition new_task :: "manager \<Rightarrow> string \<Rightarrow> bool \<Rightarrow> nat \<Rightarrow> task" where
  "new_task m addr inbound peer_id =
    \<lparr>tk_id = peer_id, tk_addr = addr, tk_inbound = inbound,
     tk_height = as_i32 (pm_best_height m), tk_phase = Shaking, tk_conn = None,
     tk_window = 0, tk_count = 0\<rparr>"

text \<open>The guards of \<open>listen_inbound\<close> and \<open>connect_outbound\<close>, up to the handshake.\<close>

definition listen_inbound :: "manager \<Rightarrow> string \<Rightarrow> (manager \<times> task) option" where
  "listen_inbound m addr =
    (if max_inbound (pm_config m) \<le> inbound_count m then None
     else case next_id m of (m, peer_id) \<Rightarrow> Some (m, new_task m addr True peer_id))"

definition connect_outbound :: "manager \<Rightarrow> string \<Rightarrow> (manager \<times> task) option" where
  "connect_outbound m addr =
    (if max_outbound (pm_config m) \<le> outbound_count m then None
     else case next_id m of (m, peer_id) \<Rightarrow> Some (m, new_task m addr False peer_id))"

text \<open>NETWORK and WITNESS.\<close>

definition our_version :: "net \<Rightarrow> task \<Rightarrow> int \<Rightarrow> nat \<Rightarrow> version_msg" where
  "our_version N t timestamp nonce =
    build_version_message N (tk_addr t) 9 (tk_height t) timestamp nonce"

fun after_handshake :: "task \<Rightarrow> p2p_error + peer_connection \<Rightarrow> task" where
  "after_handshake t (Inl e) = t\<lparr>tk_phase := Gone\<rparr>"
| "after_handshake t (Inr c) = t\<lparr>tk_phase := Shaken, tk_conn := Some c\<rparr>"

text \<open>The straight-line code of a task after its handshake and after its loop.\<close>

definition advance :: "nat \<Rightarrow> manager \<Rightarrow> task \<Rightarrow> peer_connection \<Rightarrow> (manager \<times> task) option" where
  "advance now m t c =
    (case tk_phase t of
       Shaken \<Rightarrow> Some (m\<lparr>pm_nonces := insert (pc_our_nonce c) (pm_nonces m)\<rparr>, t\<lparr>tk_phase := Nonced\<rparr>)
     | Nonced \<Rightarrow>
         Some (m, t\<lparr>tk_phase := if pc_their_nonce c \<in> pm_nonces m then Rejected else Cleared\<rparr>)
     | Rejected \<Rightarrow> Some (m\<lparr>pm_nonces := pm_nonces m - {pc_our_nonce c}\<rparr>, t\<lparr>tk_phase := Gone\<rparr>)
     | Cleared \<Rightarrow>
         Some (m\<lparr>pm_peers := AList.update (tk_id t) (peer_new (pc_info c)) (pm_peers m)\<rparr>,
           t\<lparr>tk_phase := Listed\<rparr>)
     | Listed \<Rightarrow>
         Some (m\<lparr>pm_senders := AList.update (tk_id t) [] (pm_senders m)\<rparr>, t\<lparr>tk_phase := Wired\<rparr>)
     | Wired \<Rightarrow>
         Some (m\<lparr>pm_events := pm_events m @ [EvConnected (pc_info c)]\<rparr>,
           t\<lparr>tk_phase := Running, tk_window := now, tk_count := 0\<rparr>)
     | Left \<Rightarrow>
         Some (m\<lparr>pm_senders := AList.delete (tk_id t) (pm_senders m)\<rparr>, t\<lparr>tk_phase := Unwired\<rparr>)
     | Unwired \<Rightarrow>
         Some (m\<lparr>pm_peers := AList.delete (tk_id t) (pm_peers m)\<rparr>, t\<lparr>tk_phase := Unlisted\<rparr>)
     | Unlisted \<Rightarrow>
         Some (m\<lparr>pm_nonces := pm_nonces m - {pc_our_nonce c}\<rparr>, t\<lparr>tk_phase := Forgotten\<rparr>)
     | Forgotten \<Rightarrow>
         Some (m\<lparr>pm_events := pm_events m @ [EvDisconnected (tk_id t)]\<rparr>, t\<lparr>tk_phase := Gone\<rparr>)
     | _ \<Rightarrow> None)"

text \<open>One pass of the task's loop on the shared tables.\<close>

definition loop_of :: "manager \<Rightarrow> task \<Rightarrow> peer_connection \<Rightarrow> loop_state" where
  "loop_of m t c =
    \<lparr>ls_conn = c, ls_peers = pm_peers m, ls_events = pm_events m, ls_window = tk_window t,
     ls_count = tk_count t\<rparr>"

definition loop_pass ::
    "wire \<Rightarrow> net \<Rightarrow> nat \<Rightarrow> manager \<Rightarrow> task \<Rightarrow> peer_connection \<Rightarrow> ready \<Rightarrow> manager \<times> task" where
  "loop_pass W N now m t c r =
    (case loop_step W N now (loop_of m t c) r of
       (s, go) \<Rightarrow>
         (m\<lparr>pm_peers := ls_peers s, pm_events := ls_events s\<rparr>,
          t\<lparr>tk_phase := if go then Running else Left, tk_conn := Some (ls_conn s),
            tk_window := ls_window s, tk_count := ls_count s\<rparr>))"

section \<open>Steps of the system\<close>

type_synonym system = "manager \<times> task list"

definition closed_channels :: "task list \<Rightarrow> nat set" where
  "closed_channels ts = {tk_id t | t. t \<in> set ts \<and> tk_phase t = Left}"

inductive p2p_step :: "wire \<Rightarrow> net \<Rightarrow> system \<Rightarrow> system \<Rightarrow> bool" for W N where
  Listen: "listen_inbound m addr = Some (m', t) \<Longrightarrow> p2p_step W N (m, ts) (m', ts @ [t])"
| Dial: "connect_outbound m addr = Some (m', t) \<Longrightarrow> p2p_step W N (m, ts) (m', ts @ [t])"
| Accepted: "i < length ts \<Longrightarrow> ts ! i = t \<Longrightarrow> tk_phase t = Shaking \<Longrightarrow> tk_inbound t \<Longrightarrow>
    accept W N now (tk_addr t) (pm_network m) (our_version N t stamp nonce) (tk_id t) reader late = r \<Longrightarrow>
    p2p_step W N (m, ts) (m, ts[i := after_handshake t r])"
| Connected: "i < length ts \<Longrightarrow> ts ! i = t \<Longrightarrow> tk_phase t = Shaking \<Longrightarrow> \<not> tk_inbound t \<Longrightarrow>
    connect W N now (tk_addr t) (pm_network m) (our_version N t stamp nonce) (tk_id t) tcp = r \<Longrightarrow>
    p2p_step W N (m, ts) (m, ts[i := after_handshake t r])"
| Advance: "i < length ts \<Longrightarrow> ts ! i = t \<Longrightarrow> tk_conn t = Some c \<Longrightarrow>
    advance now m t c = Some (m', t') \<Longrightarrow> p2p_step W N (m, ts) (m', ts[i := t'])"
| Loop: "i < length ts \<Longrightarrow> ts ! i = t \<Longrightarrow> tk_conn t = Some c \<Longrightarrow> tk_phase t = Running \<Longrightarrow>
    (\<forall>msg. r \<noteq> Outbound msg) \<Longrightarrow> loop_pass W N now m t c r = (m', t') \<Longrightarrow>
    p2p_step W N (m, ts) (m', ts[i := t'])"
| Deliver: "i < length ts \<Longrightarrow> ts ! i = t \<Longrightarrow> tk_conn t = Some c \<Longrightarrow> tk_phase t = Running \<Longrightarrow>
    map_of (pm_senders m) (tk_id t) = Some (msg # q) \<Longrightarrow>
    loop_pass W N now (m\<lparr>pm_senders := AList.update (tk_id t) q (pm_senders m)\<rparr>) t c (Outbound msg) =
      (m', t') \<Longrightarrow>
    p2p_step W N (m, ts) (m', ts[i := t'])"
| Send: "send_to_peer (closed_channels ts) m k msg = Some (m', r) \<Longrightarrow> p2p_step W N (m, ts) (m', ts)"
| Broadcast: "p2p_step W N (m, ts) (broadcast (closed_channels ts) m msg, ts)"
| Height: "p2p_step W N (m, ts) (set_best_height m h, ts)"

inductive reachable :: "wire \<Rightarrow> net \<Rightarrow> p2p_config \<Rightarrow> network \<Rightarrow> system \<Rightarrow> bool" for W N cfg net where
  Start: "reachable W N cfg net (manager_new cfg net, [])"
| Step: "reachable W N cfg net s \<Longrightarrow> p2p_step W N s s' \<Longrightarrow> reachable W N cfg net s'"

inductive_cases p2p_stepE: "p2p_step W N s s'"

end
