(* ===== verification/P2p_Facts.thy ===== *)
theory P2p_Facts
  imports P2p_Manager
begin

text \<open>
  The invariant of the peer manager under every interleaving of its tasks: the tables hold
  exactly the connections that are in the phases between their insertion and their removal,
  and a node that connects to itself notices it on one side at least.
\<close>

section \<open>Connections keep their identity\<close>

lemma connect_id:
  "connect W N now addr net ours k tcp = Inr c \<Longrightarrow>
    pi_id (pc_info c) = k \<and> \<not> pi_inbound (pc_info c) \<and> pc_our_nonce c = vm_nonce ours"
  by (auto simp: connect_def Let_def info_of_def res_simps split: tcp_outcome.splits prod.splits if_splits)

lemma accept_id:
  "accept W N now addr net ours k reader late = Inr c \<Longrightarrow>
    pi_id (pc_info c) = k \<and> pi_inbound (pc_info c) \<and> pc_our_nonce c = vm_nonce ours"
  by (auto simp: accept_def accept_inner_def Let_def info_of_def res_simps split: prod.splits if_splits)

definition same_conn :: "peer_connection \<Rightarrow> peer_connection \<Rightarrow> bool" where
  "same_conn c c' \<longleftrightarrow> pc_info c' = pc_info c \<and> pc_our_nonce c' = pc_our_nonce c \<and>
    pc_their_nonce c' = pc_their_nonce c"

lemma send_same_conn: "conn_send W N c msg = (c', r) \<Longrightarrow> same_conn c c'"
  by (cases "write_message W (nt_wfail N) (pc_codec c) (pc_writer c) msg") (auto simp: conn_send_def same_conn_def)

lemma recv_same_conn: "conn_recv W N c = (c', r) \<Longrightarrow> same_conn c c'"
  by (cases "read_message W (nt_chunk N) (pc_codec c) (pc_reader c)") (auto simp: conn_recv_def same_conn_def)

lemma same_conn_trans: "same_conn a b \<Longrightarrow> same_conn b c \<Longrightarrow> same_conn a c"
  by (simp add: same_conn_def)

lemma same_conn_refl [simp]: "same_conn c c"
  by (simp add: same_conn_def)

lemma modify_peer_distinct [simp]: "keys_distinct ps \<Longrightarrow> keys_distinct (modify_peer k f ps)"
  by (simp add: modify_peer_def split: option.split)

definition loop_frame :: "loop_state \<Rightarrow> loop_state \<Rightarrow> bool" where
  "loop_frame s s' \<longleftrightarrow> same_conn (ls_conn s) (ls_conn s') \<and>
    dom (map_of (ls_peers s')) = dom (map_of (ls_peers s)) \<and>
    (keys_distinct (ls_peers s) \<longrightarrow> keys_distinct (ls_peers s'))"

lemma loop_frameI:
  "same_conn (ls_conn s) (ls_conn s') \<Longrightarrow> dom (map_of (ls_peers s')) = dom (map_of (ls_peers s)) \<Longrightarrow>
    (keys_distinct (ls_peers s) \<Longrightarrow> keys_distinct (ls_peers s')) \<Longrightarrow> loop_frame s s'"
  by (simp add: loop_frame_def)

lemma on_message_frame: "on_message W N hung_up now s msg = (s', go) \<Longrightarrow> loop_frame s s'"
  by (intro loop_frameI)
    (auto simp: on_message_def Let_def dest: send_same_conn
      split: net_msg.splits prod.splits sum.splits if_splits)

lemma loop_step_frame: "loop_step W N now s r = (s', go) \<Longrightarrow> loop_frame s s'"
proof (cases r)
  case ReadTimeout
  then show "loop_step W N now s r = (s', go) \<Longrightarrow> loop_frame s s'"
    by (simp add: loop_frame_def)
next
  case (Outbound msg)
  then show "loop_step W N now s r = (s', go) \<Longrightarrow> loop_frame s s'"
    by (auto simp: loop_frame_def dest: send_same_conn split: prod.splits sum.splits)
next
  case (PingTick nonce)
  assume "loop_step W N now s r = (s', go)"
  with PingTick show ?thesis
    by (intro loop_frameI)
      (auto simp: ping_step_def Let_def dest: send_same_conn split: prod.splits sum.splits if_splits)
next
  case (Readable hung_up)
  assume run: "loop_step W N now s r = (s', go)"
  obtain c res where c: "conn_recv W N (ls_conn s) = (c, res)"
    by (cases "conn_recv W N (ls_conn s)")
  have "loop_frame (s\<lparr>ls_conn := c\<rparr>) s'"
  proof (cases res)
    case (Inl e)
    then have "s' = s\<lparr>ls_conn := c\<rparr>"
      using run Readable c by (cases e) (simp_all add: recv_step_def)
    then show ?thesis
      by (simp add: loop_frame_def)
  next
    case (Inr msg)
    then show ?thesis
      using run Readable c by (intro on_message_frame) (simp add: recv_step_def)
  qed
  then show ?thesis
    using recv_same_conn [OF c] by (auto simp: loop_frame_def same_conn_def)
qed

section \<open>Kinds of steps\<close>

definition same_tables :: "manager \<Rightarrow> manager \<Rightarrow> bool" where
  "same_tables m m' \<longleftrightarrow>
    dom (map_of (pm_peers m')) = dom (map_of (pm_peers m)) \<and>
    dom (map_of (pm_senders m')) = dom (map_of (pm_senders m)) \<and>
    (keys_distinct (pm_peers m) \<longrightarrow> keys_distinct (pm_peers m')) \<and>
    (keys_distinct (pm_senders m) \<longrightarrow> keys_distinct (pm_senders m')) \<and>
    pm_nonces m' = pm_nonces m \<and> pm_next_id m' = pm_next_id m"

definition shook :: "task \<Rightarrow> task \<Rightarrow> bool" where
  "shook t t' \<longleftrightarrow> tk_id t' = tk_id t \<and>
    ((tk_phase t' = Gone \<and> tk_conn t' = tk_conn t) \<or>
     (tk_phase t' = Shaken \<and> (\<exists>c. tk_conn t' = Some c \<and> pi_id (pc_info c) = tk_id t)))"

lemma after_handshake_shook:
  "(\<And>c. r = Inr c \<Longrightarrow> pi_id (pc_info c) = tk_id t) \<Longrightarrow> shook t (after_handshake t r)"
  by (cases r) (auto simp: shook_def)

definition looped :: "task \<Rightarrow> task \<Rightarrow> bool" where
  "looped t t' \<longleftrightarrow> tk_id t' = tk_id t \<and> tk_phase t = Running \<and> tk_phase t' \<in> {Running, Left} \<and>
    (\<exists>c c'. tk_conn t = Some c \<and> tk_conn t' = Some c' \<and> same_conn c c')"

lemma loop_pass_looped:
  assumes "loop_pass W N now m t c r = (m', t')" and "tk_conn t = Some c" and "tk_phase t = Running"
  shows "looped t t' \<and> same_tables m m'"
proof -
  obtain s go where s: "loop_step W N now (loop_of m t c) r = (s, go)"
    by (cases "loop_step W N now (loop_of m t c) r")
  have f: "same_conn c (ls_conn s)" "dom (map_of (ls_peers s)) = dom (map_of (pm_peers m))"
    "keys_distinct (pm_peers m) \<Longrightarrow> keys_distinct (ls_peers s)"
    using loop_step_frame [OF s] by (simp_all add: loop_frame_def loop_of_def)
  have "m' = m\<lparr>pm_peers := ls_peers s, pm_events := ls_events s\<rparr>"
    "t' = t\<lparr>tk_phase := if go then Running else Left, tk_conn := Some (ls_conn s),
      tk_window := ls_window s, tk_count := ls_count s\<rparr>"
    using assms(1) s by (simp_all add: loop_pass_def)
  with f assms(2,3) show ?thesis
    by (simp add: looped_def same_tables_def)
qed

lemma map_of_broadcast:
  "map_of (map (\<lambda>(k, q). (k, f k q)) xs) k = map_option (f k) (map_of xs k)"
  by (induction xs) auto

lemma broadcast_same: "same_tables m (broadcast gone m msg)"
proof -
  let ?f = "\<lambda>k q. if k \<notin> gone \<and> length q < CHANNEL then q @ [msg] else q"
  have keys: "map fst (map (\<lambda>(k, q). (k, ?f k q)) xs) = map fst xs" for xs
    by (induction xs) auto
  have "dom (map_of (map (\<lambda>(k, q). (k, ?f k q)) (pm_senders m))) = dom (map_of (pm_senders m))"
    unfolding dom_def map_of_broadcast by simp
  then show ?thesis
    unfolding same_tables_def keys_distinct_def broadcast_def
    using keys [of "pm_senders m"] by (simp del: map_map)
qed

lemma same_tables_senders:
  assumes "map_of (pm_senders m) k = Some q"
  shows "same_tables m (m\<lparr>pm_senders := AList.update k q' (pm_senders m)\<rparr>)"
  using assms by (auto simp: same_tables_def)

lemma same_tables_trans: "same_tables a b \<Longrightarrow> same_tables b c \<Longrightarrow> same_tables a c"
  by (simp add: same_tables_def)

lemma step_kinds:
  assumes "p2p_step W N (m, ts) (m', ts')"
  shows "(\<exists>t. ts' = ts @ [t] \<and> m' = m\<lparr>pm_next_id := w64 (pm_next_id m + 1)\<rparr> \<and> tk_phase t = Shaking \<and>
      tk_conn t = None \<and> tk_id t = pm_next_id m) \<or>
    (\<exists>i t'. i < length ts \<and> ts' = ts[i := t'] \<and> tk_phase (ts ! i) = Shaking \<and> m' = m \<and> shook (ts ! i) t') \<or>
    (\<exists>i t' c now. i < length ts \<and> ts' = ts[i := t'] \<and> tk_conn (ts ! i) = Some c \<and>
      advance now m (ts ! i) c = Some (m', t')) \<or>
    (\<exists>i t'. i < length ts \<and> ts' = ts[i := t'] \<and> looped (ts ! i) t' \<and> same_tables m m') \<or>
    (ts' = ts \<and> same_tables m m')"
  using assms
proof (cases rule: p2p_step.cases)
  case (Listen addr t)
  then show ?thesis
    by (auto simp: listen_inbound_def next_id_def new_task_def split: if_splits)
next
  case (Dial addr t)
  then show ?thesis
    by (auto simp: connect_outbound_def next_id_def new_task_def split: if_splits)
next
  case (Accepted i t now stamp nonce reader late r)
  then have "shook t (after_handshake t r)"
    using accept_id [of W N now "tk_addr t" "pm_network m" "our_version N t stamp nonce" "tk_id t" reader late]
    by (intro after_handshake_shook) auto
  with Accepted show ?thesis by blast
next
  case (Connected i t now stamp nonce tcp r)
  then have "shook t (after_handshake t r)"
    using connect_id [of W N now "tk_addr t" "pm_network m" "our_version N t stamp nonce" "tk_id t" tcp]
    by (intro after_handshake_shook) auto
  with Connected show ?thesis by blast
next
  case (Advance i t c now t')
  then show ?thesis by blast
next
  case (Loop i t c r now t')
  then show ?thesis
    using loop_pass_looped by blast
next
  case (Deliver i t c msg q now t')
  then have "looped t t'" "same_tables (m\<lparr>pm_senders := AList.update (tk_id t) q (pm_senders m)\<rparr>) m'"
    using loop_pass_looped by blast+
  with Deliver same_tables_trans [OF same_tables_senders] show ?thesis by blast
next
  case (Send k msg r)
  then have "same_tables m m'"
    by (auto simp: send_to_peer_def same_tables_def split: option.splits if_splits)
  with Send show ?thesis by blast
next
  case (Broadcast msg)
  then show ?thesis
    using broadcast_same by blast
next
  case (Height h)
  then show ?thesis
    by (simp add: set_best_height_def same_tables_def)
qed

section \<open>The tables\<close>

definition listed_phases :: "phase set" where
  "listed_phases = {Listed, Wired, Running, Left, Unwired}"

definition wired_phases :: "phase set" where
  "wired_phases = {Wired, Running, Left}"

definition ids_in :: "phase set \<Rightarrow> task list \<Rightarrow> nat set" where
  "ids_in P ts = {Suc j | j. j < length ts \<and> tk_phase (ts ! j) \<in> P}"

lemma in_ids_in [simp]:
  "0 \<notin> ids_in P ts" "Suc j \<in> ids_in P ts \<longleftrightarrow> j < length ts \<and> tk_phase (ts ! j) \<in> P"
  by (auto simp: ids_in_def)

lemma ids_in_eqI: "0 \<notin> A \<Longrightarrow> (\<And>j. Suc j \<in> A \<longleftrightarrow> j < length ts \<and> tk_phase (ts ! j) \<in> P) \<Longrightarrow> ids_in P ts = A"
  by (rule set_eqI, rename_tac x, case_tac x) simp_all

lemma ids_in_snoc:
  "ids_in P (ts @ [t]) = (if tk_phase t \<in> P then insert (Suc (length ts)) (ids_in P ts) else ids_in P ts)"
  by (rule ids_in_eqI) (auto simp: nth_append less_Suc_eq)

lemma ids_in_update:
  "i < length ts \<Longrightarrow> ids_in P (ts[i := t]) =
    (if tk_phase t \<in> P then insert (Suc i) (ids_in P ts) else ids_in P ts - {Suc i})"
  by (rule ids_in_eqI) (auto simp: nth_list_update)

lemma ids_in_keep:
  "i < length ts \<Longrightarrow> (tk_phase t \<in> P) = (tk_phase (ts ! i) \<in> P) \<Longrightarrow> ids_in P (ts[i := t]) = ids_in P ts"
  by (simp add: ids_in_update insert_absorb)

definition task_ok :: "nat \<Rightarrow> task \<Rightarrow> bool" where
  "task_ok j t \<longleftrightarrow> tk_id t = Suc j \<and> (tk_phase t = Shaking \<longrightarrow> tk_conn t = None) \<and>
    (\<forall>c. tk_conn t = Some c \<longrightarrow> pi_id (pc_info c) = Suc j)"

definition tables_match :: "manager \<Rightarrow> task list \<Rightarrow> bool" where
  "tables_match m ts \<longleftrightarrow>
    pm_next_id m = Suc (length ts) \<and> (\<forall>j < length ts. task_ok j (ts ! j)) \<and>
    keys_distinct (pm_peers m) \<and> keys_distinct (pm_senders m) \<and>
    dom (map_of (pm_peers m)) = ids_in listed_phases ts \<and>
    dom (map_of (pm_senders m)) = ids_in wired_phases ts"

lemma advance_task:
  "advance now m t c = Some (m', t') \<Longrightarrow> tk_id t' = tk_id t \<and> tk_conn t' = tk_conn t \<and>
    tk_phase t \<noteq> Shaking \<and> tk_phase t' \<noteq> Shaking \<and> pm_next_id m' = pm_next_id m"
  by (auto simp: advance_def split: phase.splits if_splits)

lemma tasks_ok_update:
  "\<forall>j < length ts. task_ok j (ts ! j) \<Longrightarrow> task_ok i t \<Longrightarrow>
    \<forall>j < length (ts[i := t]). task_ok j (ts[i := t] ! j)"
  by (cases "i < length ts") (auto simp: nth_list_update)

lemma advance_effect:
  assumes "advance now m t c = Some (m', t')"
  shows "pm_peers m' =
      (if tk_phase t = Cleared then AList.update (tk_id t) (peer_new (pc_info c)) (pm_peers m)
       else if tk_phase t = Unwired then AList.delete (tk_id t) (pm_peers m) else pm_peers m)"
    and "pm_senders m' =
      (if tk_phase t = Listed then AList.update (tk_id t) [] (pm_senders m)
       else if tk_phase t = Left then AList.delete (tk_id t) (pm_senders m) else pm_senders m)"
    and "pm_nonces m' =
      (if tk_phase t = Shaken then insert (pc_our_nonce c) (pm_nonces m)
       else if tk_phase t = Rejected \<or> tk_phase t = Unlisted then pm_nonces m - {pc_our_nonce c}
       else pm_nonces m)"
    and "tk_phase t' \<in> listed_phases \<longleftrightarrow>
      tk_phase t = Cleared \<or> tk_phase t \<in> listed_phases \<and> tk_phase t \<noteq> Unwired"
    and "tk_phase t' \<in> wired_phases \<longleftrightarrow>
      tk_phase t = Listed \<or> tk_phase t \<in> wired_phases \<and> tk_phase t \<noteq> Left"
  using assms by (cases "tk_phase t";
    (simp add: advance_def listed_phases_def wired_phases_def; fail)?;
    simp add: advance_def; elim conjE; hypsubst; simp add: listed_phases_def wired_phases_def)+

lemma dom_update: "dom (map_of (AList.update k v xs)) = insert k (dom (map_of xs))"
  by simp

lemma dom_delete: "dom (map_of (AList.delete k xs)) = dom (map_of xs) - {k}"
  by (simp add: Diff_eq)

lemma advance_tables:
  assumes i: "i < length ts" and ok: "task_ok i (ts ! i)"
    and adv: "advance now m (ts ! i) c = Some (m', t')"
    and D: "dom (map_of (pm_peers m)) = ids_in listed_phases ts"
    and E: "dom (map_of (pm_senders m)) = ids_in wired_phases ts"
    and "keys_distinct (pm_peers m)" and "keys_distinct (pm_senders m)"
  shows "dom (map_of (pm_peers m')) = ids_in listed_phases (ts[i := t'])"
    and "dom (map_of (pm_senders m')) = ids_in wired_phases (ts[i := t'])"
    and "keys_distinct (pm_peers m')" and "keys_distinct (pm_senders m')"
proof -
  have id: "tk_id (ts ! i) = Suc i"
    using ok by (simp add: task_ok_def)
  note eff = advance_effect [OF adv, unfolded id]
  show "dom (map_of (pm_peers m')) = ids_in listed_phases (ts[i := t'])"
    unfolding eff(1) ids_in_update [OF i] eff(4)
    using i by (simp only: dom_update dom_delete D if_distrib [of map_of] if_distrib [of dom] split: if_split)
      (auto simp: listed_phases_def)
  show "dom (map_of (pm_senders m')) = ids_in wired_phases (ts[i := t'])"
    unfolding eff(2) ids_in_update [OF i] eff(5)
    using i by (simp only: dom_update dom_delete E if_distrib [of map_of] if_distrib [of dom] split: if_split)
      (auto simp: wired_phases_def)
  show "keys_distinct (pm_peers m')" "keys_distinct (pm_senders m')"
    using eff(1,2) assms(6,7) by (simp_all split: if_split)
qed

lemma tables_match_step:
  assumes inv: "tables_match m ts" and step: "p2p_step W N (m, ts) (m', ts')"
    and bound: "Suc (length ts') < 2 ^ 64"
  shows "tables_match m' ts'"
  using step_kinds [OF step]
proof (elim disjE exE conjE)
  fix t assume t: "ts' = ts @ [t]" "m' = m\<lparr>pm_next_id := w64 (pm_next_id m + 1)\<rparr>"
    "tk_phase t = Shaking" "tk_conn t = None" "tk_id t = pm_next_id m"
  then show ?thesis
    using inv bound
    by (auto simp: tables_match_def ids_in_snoc listed_phases_def wired_phases_def task_ok_def
        nth_append less_Suc_eq u64_simps)
next
  fix i t' assume t: "i < length ts" "ts' = ts[i := t']" "tk_phase (ts ! i) = Shaking" "m' = m"
    "shook (ts ! i) t'"
  then have "task_ok i t'"
    using inv by (auto simp: tables_match_def task_ok_def shook_def)
  moreover have "ids_in P ts' = ids_in P ts" if "P = listed_phases \<or> P = wired_phases" for P
    using t that by (auto simp: shook_def listed_phases_def wired_phases_def intro!: ids_in_keep)
  ultimately show ?thesis
    using inv t tasks_ok_update [of ts i t'] by (simp add: tables_match_def)
next
  fix i t' c now assume t: "i < length ts" "ts' = ts[i := t']" "tk_conn (ts ! i) = Some c"
    "advance now m (ts ! i) c = Some (m', t')"
  have ok: "task_ok i (ts ! i)"
    using inv t(1) by (simp add: tables_match_def)
  then have "task_ok i t'"
    using advance_task [OF t(4)] by (auto simp: task_ok_def)
  then show ?thesis
    using inv t advance_tables [OF t(1) ok t(4)] advance_task [OF t(4)] tasks_ok_update [of ts i t']
    by (simp add: tables_match_def)
next
  fix i t' assume t: "i < length ts" "ts' = ts[i := t']" "looped (ts ! i) t'" "same_tables m m'"
  then have "task_ok i t'"
    using inv by (auto simp: tables_match_def task_ok_def looped_def same_conn_def)
  moreover have "ids_in P ts' = ids_in P ts" if "P = listed_phases \<or> P = wired_phases" for P
    using t that by (auto simp: looped_def listed_phases_def wired_phases_def intro!: ids_in_keep)
  ultimately show ?thesis
    using inv t tasks_ok_update [of ts i t'] by (simp add: tables_match_def same_tables_def)
next
  assume "ts' = ts" "same_tables m m'"
  then show ?thesis
    using inv by (simp add: tables_match_def same_tables_def)
qed

lemma step_length: "p2p_step W N (m, ts) (m', ts') \<Longrightarrow> length ts \<le> length ts'"
  by (drule step_kinds) auto

lemma reachable_tables:
  "reachable W N cfg net s \<Longrightarrow> Suc (length (snd s)) < 2 ^ 64 \<Longrightarrow> tables_match (fst s) (snd s)"
proof (induction rule: reachable.induct)
  case Start
  then show ?case
    by (simp add: tables_match_def manager_new_def ids_in_def)
next
  case (Step s s')
  then show ?case
    using tables_match_step [of "fst s" "snd s" W N "fst s'" "snd s'"]
      step_length [of W N "fst s" "snd s" "fst s'" "snd s'"] by simp
qed

section \<open>The nonces\<close>

text \<open>The phases in which a task's nonce is in the table, and those after the check of the nonces.\<close>

definition holding_phases :: "phase set" where
  "holding_phases = {Nonced, Rejected, Cleared, Listed, Wired, Running, Left, Unwired, Unlisted}"

definition cleared_phases :: "phase set" where
  "cleared_phases = {Cleared, Listed, Wired, Running, Left, Unwired, Unlisted}"

definition nonces_of :: "task \<Rightarrow> (nat \<times> nat) option" where
  "nonces_of t = map_option (\<lambda>c. (pc_our_nonce c, pc_their_nonce c)) (tk_conn t)"

text \<open>The random nonces of the connections are all different.\<close>

definition fresh_nonces :: "task list \<Rightarrow> bool" where
  "fresh_nonces ts \<longleftrightarrow> (\<forall>i < length ts. \<forall>j < length ts. \<forall>a x y.
    nonces_of (ts ! i) = Some (a, x) \<longrightarrow> nonces_of (ts ! j) = Some (a, y) \<longrightarrow> i = j)"

definition nonces_held :: "manager \<Rightarrow> task list \<Rightarrow> bool" where
  "nonces_held m ts \<longleftrightarrow> (\<forall>j < length ts. \<forall>a x. nonces_of (ts ! j) = Some (a, x) \<longrightarrow>
    tk_phase (ts ! j) \<in> holding_phases \<longrightarrow> a \<in> pm_nonces m)"

text \<open>Two ends of one connection.\<close>

definition mirror :: "task \<Rightarrow> task \<Rightarrow> bool" where
  "mirror t u \<longleftrightarrow> (\<exists>a b. nonces_of t = Some (a, b) \<and> nonces_of u = Some (b, a))"

definition one_side :: "task list \<Rightarrow> bool" where
  "one_side ts \<longleftrightarrow> (\<forall>i < length ts. \<forall>j < length ts. mirror (ts ! i) (ts ! j) \<longrightarrow>
    \<not> (tk_phase (ts ! i) \<in> cleared_phases \<and> tk_phase (ts ! j) \<in> cleared_phases))"

lemma cleared_holding: "x \<in> cleared_phases \<Longrightarrow> x \<in> holding_phases"
  by (auto simp: cleared_phases_def holding_phases_def)

text \<open>What one step does to one task: it keeps its nonces, or it just finished its handshake.\<close>

definition task_step_ok :: "manager \<Rightarrow> manager \<Rightarrow> task \<Rightarrow> task \<Rightarrow> bool" where
  "task_step_ok m m' t t' \<longleftrightarrow>
    (nonces_of t' = nonces_of t \<or> nonces_of t = None) \<and>
    (tk_phase t' \<in> holding_phases \<longrightarrow> nonces_of t' = nonces_of t \<and>
      (tk_phase t \<in> holding_phases \<or> (\<exists>a x. nonces_of t = Some (a, x) \<and> a \<in> pm_nonces m'))) \<and>
    (tk_phase t' \<in> cleared_phases \<longrightarrow> tk_phase t \<in> cleared_phases \<or>
      (tk_phase t = Nonced \<and> (\<exists>a x. nonces_of t = Some (a, x) \<and> x \<notin> pm_nonces m)))"

lemma same_conn_nonces:
  "tk_conn t = Some c \<Longrightarrow> tk_conn t' = Some c' \<Longrightarrow> same_conn c c' \<Longrightarrow> nonces_of t' = nonces_of t"
  by (simp add: nonces_of_def same_conn_def)

lemma task_step_ok_same [simp]: "task_step_ok m m' t t"
  by (auto simp: task_step_ok_def)

lemma shook_ok:
  assumes "tk_phase t = Shaking" and "tk_conn t = None" and "shook t t'"
  shows "task_step_ok m m' t t'"
  using assms by (auto simp: task_step_ok_def shook_def nonces_of_def holding_phases_def cleared_phases_def)

lemma looped_ok: "looped t t' \<Longrightarrow> task_step_ok m m' t t'"
  by (auto simp: looped_def task_step_ok_def dest: same_conn_nonces)
    (auto simp: holding_phases_def cleared_phases_def)

lemma advance_phase:
  assumes "advance now m t c = Some (m', t')"
  shows "tk_phase t' \<in> holding_phases \<longleftrightarrow>
      tk_phase t = Shaken \<or> tk_phase t \<in> holding_phases \<and> tk_phase t \<noteq> Rejected \<and> tk_phase t \<noteq> Unlisted"
    and "tk_phase t' \<in> cleared_phases \<Longrightarrow>
      tk_phase t \<in> cleared_phases \<or> tk_phase t = Nonced \<and> pc_their_nonce c \<notin> pm_nonces m"
  using assms by (cases "tk_phase t";
    (simp add: advance_def holding_phases_def cleared_phases_def; fail)?;
    simp add: advance_def; elim conjE; hypsubst; simp add: holding_phases_def cleared_phases_def split: if_splits)+

lemma advance_ok:
  assumes "advance now m t c = Some (m', t')" and c: "tk_conn t = Some c"
  shows "task_step_ok m m' t t'"
proof -
  have "nonces_of t' = nonces_of t" "nonces_of t = Some (pc_our_nonce c, pc_their_nonce c)"
    using advance_task [OF assms(1)] c by (simp_all add: nonces_of_def)
  then show ?thesis
    using advance_phase [OF assms(1)] advance_effect(3) [OF assms(1)]
    by (auto simp: task_step_ok_def)
qed

text \<open>The table loses only the nonce of the task that steps.\<close>

definition nonces_kept :: "manager \<Rightarrow> manager \<Rightarrow> task \<Rightarrow> task \<Rightarrow> bool" where
  "nonces_kept m m' t t' \<longleftrightarrow> pm_nonces m \<subseteq> pm_nonces m' \<or>
    tk_phase t' \<notin> holding_phases \<and>
    (\<exists>a x. nonces_of t = Some (a, x) \<and> pm_nonces m' = pm_nonces m - {a})"

lemma step_tasks:
  assumes inv: "tables_match m ts" and step: "p2p_step W N (m, ts) (m', ts')"
  shows "(\<exists>t. ts' = ts @ [t] \<and> tk_conn t = None \<and> tk_phase t = Shaking \<and> pm_nonces m' = pm_nonces m) \<or>
    (\<exists>i t'. i < length ts \<and> ts' = ts[i := t'] \<and> task_step_ok m m' (ts ! i) t' \<and>
      nonces_kept m m' (ts ! i) t') \<or>
    (ts' = ts \<and> pm_nonces m' = pm_nonces m)"
  using step_kinds [OF step]
proof (elim disjE exE conjE)
  fix i t' assume t: "i < length ts" "ts' = ts[i := t']" "tk_phase (ts ! i) = Shaking" "m' = m"
    "shook (ts ! i) t'"
  moreover have "tk_conn (ts ! i) = None"
    using inv t by (simp add: tables_match_def task_ok_def)
  moreover have "nonces_kept m m' (ts ! i) t'"
    using t(4) by (simp add: nonces_kept_def)
  ultimately show ?thesis
    using shook_ok by blast
next
  fix i t' c now assume t: "i < length ts" "ts' = ts[i := t']" "tk_conn (ts ! i) = Some c"
    "advance now m (ts ! i) c = Some (m', t')"
  have "nonces_of (ts ! i) = Some (pc_our_nonce c, pc_their_nonce c)"
    using t(3) by (simp add: nonces_of_def)
  then have "nonces_kept m m' (ts ! i) t'"
    using advance_effect(3) [OF t(4)] advance_phase(1) [OF t(4)] by (auto simp: nonces_kept_def)
  then show ?thesis
    using t advance_ok [OF t(4,3)] by blast
next
  fix i t' assume "i < length ts" "ts' = ts[i := t']" "looped (ts ! i) t'" "same_tables m m'"
  then show ?thesis
    using looped_ok [of "ts ! i" t' m m'] by (auto simp: same_tables_def nonces_kept_def)
qed (auto simp: same_tables_def)

lemma fresh_nonces_back:
  assumes "fresh_nonces (ts[i := t'])" and "i < length ts" and "task_step_ok m m' (ts ! i) t'"
  shows "fresh_nonces ts"
proof -
  have "nonces_of (ts[i := t'] ! j) = Some p" if "j < length ts" "nonces_of (ts ! j) = Some p" for j p
    using that assms(2,3) by (cases "j = i") (auto simp: task_step_ok_def)
  then show ?thesis
    using assms(1) unfolding fresh_nonces_def by (metis length_list_update)
qed

lemma nonces_step:
  assumes inv: "tables_match m ts" and step: "p2p_step W N (m, ts) (m', ts')"
    and fresh: "fresh_nonces ts'" and held: "fresh_nonces ts \<Longrightarrow> nonces_held m ts \<and> one_side ts"
  shows "nonces_held m' ts' \<and> one_side ts'"
  using step_tasks [OF inv step]
proof (elim disjE exE conjE)
  fix t assume t: "ts' = ts @ [t]" "tk_conn t = None" "tk_phase t = Shaking" "pm_nonces m' = pm_nonces m"
  have old: "ts' ! j = ts ! j" if "j < length ts" for j
    using t(1) that by (simp add: nth_append)
  have no: "nonces_of (ts' ! length ts) = None"
    using t by (simp add: nonces_of_def)
  have "fresh_nonces ts"
    unfolding fresh_nonces_def
  proof (intro allI impI)
    fix i j a x y
    assume "i < length ts" "j < length ts" "nonces_of (ts ! i) = Some (a, x)" "nonces_of (ts ! j) = Some (a, y)"
    with fresh show "i = j"
      using old t(1) unfolding fresh_nonces_def by (metis length_append_singleton less_SucI)
  qed
  with held have "nonces_held m ts" "one_side ts" by simp_all
  then show ?thesis
    using t(4) no old unfolding nonces_held_def one_side_def mirror_def t(1)
    by (auto simp: less_Suc_eq)
next
  fix i t' assume i: "i < length ts" "ts' = ts[i := t']" "task_step_ok m m' (ts ! i) t'"
    and kept: "nonces_kept m m' (ts ! i) t'"
  note eff = kept [unfolded nonces_kept_def]
  have fr: "fresh_nonces ts"
    using fresh_nonces_back [OF _ i(1,3)] fresh i(2) by simp
  then have h: "nonces_held m ts" and o: "one_side ts"
    using held by simp_all
  have at: "ts' ! j = (if j = i then t' else ts ! j)" if "j < length ts" for j
    using that i(1,2) by simp
  have len: "length ts' = length ts"
    using i(2) by simp
  have "nonces_held m' ts'"
    unfolding nonces_held_def
  proof (intro allI impI)
    fix j a x assume j: "j < length ts'" "nonces_of (ts' ! j) = Some (a, x)" "tk_phase (ts' ! j) \<in> holding_phases"
    show "a \<in> pm_nonces m'"
    proof (cases "j = i")
      case True
      then have "nonces_of (ts ! i) = Some (a, x)"
        "tk_phase (ts ! i) \<in> holding_phases \<or> a \<in> pm_nonces m'" "tk_phase t' \<in> holding_phases"
        using j i(1,3) at [of i] by (auto simp: task_step_ok_def)
      then show ?thesis
        using h eff i(1) unfolding nonces_held_def by blast
    next
      case False
      then have t: "nonces_of (ts ! j) = Some (a, x)" "tk_phase (ts ! j) \<in> holding_phases" "j < length ts"
        using j len at [of j] by simp_all
      then have "a \<in> pm_nonces m"
        using h unfolding nonces_held_def by blast
      moreover have "nonces_of (ts ! i) \<noteq> Some (a, y)" for y
        using fr t(1,3) i(1) False unfolding fresh_nonces_def by blast
      ultimately show ?thesis
        using eff by auto
    qed
  qed
  moreover have "one_side ts'"
    unfolding one_side_def
  proof (intro allI impI notI, elim conjE)
    fix k l assume kl: "k < length ts'" "l < length ts'" "mirror (ts' ! k) (ts' ! l)"
      "tk_phase (ts' ! k) \<in> cleared_phases" "tk_phase (ts' ! l) \<in> cleared_phases"
    have before: "nonces_of (ts ! p) = nonces_of (ts' ! p) \<and> (tk_phase (ts ! p) \<in> cleared_phases \<or>
        (tk_phase (ts ! p) = Nonced \<and> (\<exists>a x. nonces_of (ts ! p) = Some (a, x) \<and> x \<notin> pm_nonces m)))"
      if "p < length ts'" "tk_phase (ts' ! p) \<in> cleared_phases" for p
    proof (cases "p = i")
      case True
      with that at [of i] i(1) have "tk_phase t' \<in> cleared_phases" "ts' ! p = t'" by simp_all
      then show ?thesis
        using True i(3) cleared_holding unfolding task_step_ok_def by simp
    next
      case False
      then show ?thesis
        using that at [of p] len by simp
    qed
    have inside: "b \<in> pm_nonces m"
      if "p < length ts'" "tk_phase (ts' ! p) \<in> cleared_phases" "nonces_of (ts' ! p) = Some (b, y)" for p b y
    proof -
      have "tk_phase (ts ! p) \<in> holding_phases" "nonces_of (ts ! p) = Some (b, y)"
        using before [OF that(1,2)] that(3) cleared_holding by (auto simp: holding_phases_def)
      then show ?thesis
        using h that(1) len unfolding nonces_held_def by metis
    qed
    obtain a b where ab: "nonces_of (ts' ! k) = Some (a, b)" "nonces_of (ts' ! l) = Some (b, a)"
      using kl(3) by (auto simp: mirror_def)
    have "tk_phase (ts ! k) \<in> cleared_phases" "tk_phase (ts ! l) \<in> cleared_phases"
      using before [OF kl(1,4)] before [OF kl(2,5)] inside [OF kl(1,4) ab(1)] inside [OF kl(2,5) ab(2)] ab
      by auto
    moreover have "mirror (ts ! k) (ts ! l)"
      using before [OF kl(1,4)] before [OF kl(2,5)] kl(3) by (simp add: mirror_def)
    ultimately show False
      using o kl(1,2) len unfolding one_side_def by simp
  qed
  ultimately show ?thesis by simp
next
  assume "ts' = ts" "pm_nonces m' = pm_nonces m"
  then show ?thesis
    using held fresh by (simp add: nonces_held_def)
qed

lemma reachable_nonces:
  "reachable W N cfg net s \<Longrightarrow> Suc (length (snd s)) < 2 ^ 64 \<Longrightarrow> fresh_nonces (snd s) \<Longrightarrow>
    nonces_held (fst s) (snd s) \<and> one_side (snd s)"
proof (induction rule: reachable.induct)
  case Start
  then show ?case
    by (simp add: nonces_held_def one_side_def)
next
  case (Step s s')
  have "Suc (length (snd s)) < 2 ^ 64"
    using step_length [of W N "fst s" "snd s" "fst s'" "snd s'"] Step.hyps(2) Step.prems(1) by simp
  then have "tables_match (fst s) (snd s)"
    "fresh_nonces (snd s) \<Longrightarrow> nonces_held (fst s) (snd s) \<and> one_side (snd s)"
    using reachable_tables [OF Step.hyps(1)] Step.IH by simp_all
  then show ?case
    using nonces_step [of "fst s" "snd s" W N "fst s'" "snd s'"] Step.hyps(2) Step.prems(2) by simp
qed

end
