(* ===== verification/P2p_Props.thy ===== *)
theory P2p_Props
  imports P2p_Facts
begin

text \<open>The properties of the peer-to-peer layer: codec, handshake, message loop, manager.\<close>

section \<open>A network for the witnesses\<close>

definition sample_net :: net where
  "sample_net = \<lparr>nt_chunk = length, nt_wfail = (\<lambda>_. None), nt_cmd = (\<lambda>_. ''cmd''), nt_crate_version = ''0''\<rparr>"

definition sample_version :: "nat \<Rightarrow> version_msg" where
  "sample_version n = build_version_message sample_net ''a'' 9 0 0 n"

definition sample_payload :: "net_msg \<Rightarrow> (byte \<times> bytes) option" where
  "sample_payload msg =
    (case msg of
       Verack \<Rightarrow> Some (1, [])
     | Ping n \<Rightarrow> if n < 2 ^ 64 then Some (2, be_bytes 8 n) else None
     | Version v \<Rightarrow>
         if v = sample_version (vm_nonce v) \<and> vm_nonce v < 2 ^ 64 then Some (3, be_bytes 8 (vm_nonce v))
         else None
     | GetAddr \<Rightarrow> Some (4, [])
     | _ \<Rightarrow> None)"

definition sample_wire :: wire where
  "sample_wire =
    \<lparr>wr_magic = (\<lambda>_. [0xf9, 0xbe, 0xb4, 0xd9]),
     wr_encode = (\<lambda>magic msg. case sample_payload msg of
        None \<Rightarrow> Inl ''not in the sample''
      | Some (c, pl) \<Rightarrow>
          Inr (magic @ (c # replicate 11 0) @ le_bytes 4 (length pl) @ replicate 4 0 @ pl)),
     wr_decode = (\<lambda>bs. let n = be_nat (drop 24 bs) in
        if bs ! 4 = 1 then Inr Verack else if bs ! 4 = 2 then Inr (Ping n)
        else if bs ! 4 = 3 then Inr (Version (sample_version n))
        else if bs ! 4 = 4 then Inr GetAddr else Inl ''unknown'')\<rparr>"

lemma sample_payload_len: "sample_payload msg = Some (c, pl) \<Longrightarrow> length pl \<le> 8"
  by (auto simp: sample_payload_def split: net_msg.splits if_splits)

lemma sample_framed:
  assumes "length magic = 4" and "length pl \<le> 8"
  shows "framed magic (magic @ (c # replicate 11 0) @ le_bytes 4 (length pl) @ replicate 4 0 @ pl)"
proof -
  let ?a = "magic @ (c # replicate 11 0)" and ?l = "le_bytes 4 (length pl)"
  have a: "length ?a = 16"
    using assms(1) by simp
  have "take 4 (drop 16 (?a @ ?l @ replicate 4 0 @ pl)) = ?l"
    using a by (simp only: drop_append drop_all le_refl diff_self_eq_0 drop0 append_Nil)
      (simp add: take_append)
  moreover have "le_nat ?l = length pl"
    using assms(2) by (intro le_nat_le_bytes) simp
  ultimately show ?thesis
    using assms by (simp add: framed_def)
qed

lemma sample_wire_ok [simp]: "wire_ok sample_wire"
proof -
  have "framed magic bs \<and> wr_decode sample_wire bs = Inr msg"
    if m: "length magic = 4" and e: "wr_encode sample_wire magic msg = Inr bs" for magic msg bs
  proof -
    obtain c pl where p: "sample_payload msg = Some (c, pl)"
      and bs: "bs = magic @ (c # replicate 11 0) @ le_bytes 4 (length pl) @ replicate 4 0 @ pl"
      using e by (auto simp: sample_wire_def split: option.splits)
    have "bs ! 4 = c" "drop 24 bs = pl"
      using m by (simp_all add: bs nth_append)
    then have "wr_decode sample_wire bs =
        (if c = 1 then Inr Verack else if c = 2 then Inr (Ping (be_nat pl))
         else if c = 3 then Inr (Version (sample_version (be_nat pl)))
         else if c = 4 then Inr GetAddr else Inl ''unknown'')"
      by (simp add: sample_wire_def Let_def)
    with p have "wr_decode sample_wire bs = Inr msg"
      by (auto simp: sample_payload_def split: net_msg.splits if_splits)
    then show ?thesis
      using sample_framed [OF m sample_payload_len [OF p]] bs by simp
  qed
  moreover have "length (wr_magic sample_wire n) = 4" for n
    by (simp add: sample_wire_def)
  ultimately show ?thesis
    by (simp add: wire_ok_def)
qed

lemma sample_encode:
  "sample_payload msg = Some (c, pl) \<Longrightarrow> \<exists>bs. wr_encode sample_wire magic msg = Inr bs \<and>
    length bs = length magic + 20 + length pl"
  by (simp add: sample_wire_def)

lemma sample_payloads [simp]:
  "sample_payload Verack = Some (1, [])" "sample_payload GetAddr = Some (4, [])"
  "n < 2 ^ 64 \<Longrightarrow> sample_payload (Ping n) = Some (2, be_bytes 8 n)"
  "n < 2 ^ 64 \<Longrightarrow> sample_payload (Version (sample_version n)) = Some (3, be_bytes 8 n)"
  by (simp_all add: sample_payload_def sample_version_def build_version_message_def)

lemma sample_magic [simp]: "wr_magic sample_wire net = [0xf9, 0xbe, 0xb4, 0xd9]"
  by (simp add: sample_wire_def)

lemma sample_wfail [simp]: "nt_wfail sample_net = (\<lambda>_. None)"
  by (simp add: sample_net_def)

text \<open>A message that fits into the limit of the codec.\<close>

definition sendable :: "wire \<Rightarrow> bytes \<Rightarrow> net_msg \<Rightarrow> bool" where
  "sendable W magic msg \<longleftrightarrow> (\<exists>bs. wr_encode W magic msg = Inr bs \<and> length bs \<le> MAX_MESSAGE_SIZE + 24)"

lemma sample_sendable:
  "sample_payload msg = Some (c, pl) \<Longrightarrow> length magic = 4 \<Longrightarrow> sendable sample_wire magic msg"
  using sample_encode [of msg c pl magic] sample_payload_len [of msg c pl]
  by (auto simp: sendable_def MAX_MESSAGE_SIZE_def)

section \<open>Frames\<close>

text \<open>Bytes that the codec reads as one message.\<close>

definition frame :: "wire \<Rightarrow> bytes \<Rightarrow> net_msg \<Rightarrow> bytes \<Rightarrow> bool" where
  "frame W magic msg bs \<longleftrightarrow> framed magic bs \<and> length bs \<le> MAX_MESSAGE_SIZE + 24 \<and> wr_decode W bs = Inr msg"

lemma read_frame:
  "frame W (cd_magic codec) msg bs \<Longrightarrow>
    read_message W chunk codec (bs @ rest) = (codec\<lparr>cd_read_buf := bs\<rparr>, rest, Inr msg)"
  by (rule read_message_framed) (simp_all add: frame_def)

lemma write_frame:
  assumes "wire_ok W" and "length (cd_magic codec) = 4" and "sendable W (cd_magic codec) msg"
    and "nt_wfail N = (\<lambda>_. None)"
  obtains bs where "frame W (cd_magic codec) msg bs"
    and "\<And>out. conn_write W N codec out msg = Inr (out @ bs)"
proof -
  obtain bs where bs: "wr_encode W (cd_magic codec) msg = Inr bs" "length bs \<le> MAX_MESSAGE_SIZE + 24"
    using assms(3) by (auto simp: sendable_def)
  show thesis
  proof (rule that [of bs])
    show "frame W (cd_magic codec) msg bs"
      using bs assms(1,2) unfolding frame_def wire_ok_def by blast
    show "conn_write W N codec out msg = Inr (out @ bs)" for out
      using bs(1) assms(4) by (simp add: conn_write_def write_message_def)
  qed
qed

lemma read_version_frame:
  "frame W (cd_magic codec) (Version v) bs \<Longrightarrow>
    read_version W N addr codec (bs @ rest) = Inr (codec\<lparr>cd_read_buf := bs\<rparr>, rest, v)"
  by (simp add: read_frame)

lemma await_verack_frame:
  "frame W (cd_magic codec) Verack bs \<Longrightarrow>
    await_verack W N (Suc n) codec (bs @ rest) = Inr (codec\<lparr>cd_read_buf := bs\<rparr>, rest, True)"
  by (simp add: read_frame)

text \<open>Messages other than verack use up the rounds of the loop.\<close>

lemma await_verack_other:
  assumes "list_all2 (\<lambda>msg bs. msg \<noteq> Verack \<and> frame W magic msg bs) msgs frames"
  shows "cd_magic codec = magic \<Longrightarrow>
    \<exists>codec'. cd_magic codec' = magic \<and>
      await_verack W N (length msgs) codec (concat frames @ rest) = Inr (codec', rest, False)"
  using assms
proof (induction msgs frames arbitrary: codec rule: list_all2_induct)
  case Nil
  then show ?case by simp
next
  case (Cons msg msgs bs frames)
  let ?c = "codec\<lparr>cd_read_buf := bs\<rparr>"
  have r: "read_message W (nt_chunk N) codec (bs @ (concat frames @ rest)) = (?c, concat frames @ rest, Inr msg)"
    using Cons.hyps(1) Cons.prems by (intro read_frame) simp
  obtain codec' where "cd_magic codec' = magic"
      "await_verack W N (length msgs) ?c (concat frames @ rest) = Inr (codec', rest, False)"
    using Cons.IH [of ?c] Cons.prems by auto
  with r Cons.hyps(1) show ?case
    by (intro exI [of _ codec']) (cases msg; simp)
qed

lemma codec_new_magic [simp]: "cd_magic (codec_new magic) = magic"
  by (simp add: codec_new_def)

section \<open>Codec and handshake\<close>

text \<open>
  C12: Whatever messages one end writes, one after the other, the other end reads back in the
  same order and nothing else is taken from the stream, as long as no payload is above the
  limit of the codec; how the network cuts the stream into reads does not matter.
\<close>

theorem codec_roundtrip:
  assumes "wire_ok W" and "length (cd_magic codec) = 4" and "cd_magic reader = cd_magic codec"
    and "\<forall>m \<in> set ms. sendable W (cd_magic codec) m"
    and "write_messages W wfail codec out ms = (out', Inr ())"
  shows "\<exists>sent. out' = out @ sent \<and>
    read_messages W chunk (length ms) reader (sent @ rest) = (rest, map Inr ms)"
proof -
  have "\<forall>m \<in> set ms. \<forall>bs. wr_encode W (cd_magic codec) m = Inr bs \<longrightarrow> length bs \<le> MAX_MESSAGE_SIZE + 24"
    using assms(4) by (auto simp: sendable_def)
  from written_read_back [OF assms(1,2) this assms(5)] assms(3) show ?thesis
    by blast
qed

text \<open>
  C34: One call of the reader takes a bounded number of bytes from the stream, whatever the
  peer sends: the search for the magic gives up after a megabyte, and a payload is at most
  four megabytes.
\<close>

theorem read_message_bounded:
  assumes "read_message W chunk codec s = (codec', s', r)"
  shows "length s - length s' \<le> MAX_RESYNC_BYTES + MAX_MESSAGE_SIZE + 538"
proof -
  have exact: "length t - length t' \<le> n" if "read_exact n t = (t', r)" for n t t' r
    using that by (auto simp: read_exact_def split: if_splits)
  obtain s1 r1 where 1: "read_exact 24 s = (s1, r1)"
    by (cases "read_exact 24 s")
  show ?thesis
  proof (cases r1)
    case (Inl e)
    then show ?thesis
      using 1 assms exact [OF 1] by (simp add: read_message_def)
  next
    case (Inr header)
    then have h: "length header = 24" "length s - length s1 \<le> 24"
      using 1 exact [OF 1] by (auto simp: read_exact_def split: if_splits)
    let ?look = "if take 4 header \<noteq> cd_magic codec then resync chunk (cd_magic codec) header 0 s1 else (s1, Inr header)"
    obtain s2 r2 where 2: "?look = (s2, r2)"
      by (cases ?look)
    have "length s1 - length s2 \<le> MAX_RESYNC_BYTES + 514"
      using 2 resync_consumes [where w = header and chunk = chunk and magic = "cd_magic codec" and scanned = 0 and s = s1] h(1)
      by (auto simp: MAX_RESYNC_BYTES_def split: if_splits)
    with h(2) have look: "length s - length s2 \<le> MAX_RESYNC_BYTES + 538"
      by simp
    show ?thesis
    proof (cases r2)
      case Inl
      then show ?thesis
        using 1 2 Inr assms look by (simp add: read_message_def)
    next
      case r2: (Inr header2)
      let ?n = "le_nat (take 4 (drop 16 header2))"
      obtain s3 r3 where 3: "read_exact ?n s2 = (s3, r3)"
        by (cases "read_exact ?n s2")
      have "s' = (if MAX_MESSAGE_SIZE < ?n then s2 else s3)"
        using 1 2 3 Inr r2 assms
        by (auto simp: read_message_def Let_def split: sum.splits if_splits)
      moreover have "length s2 - length s3 \<le> ?n"
        using exact [OF 3] .
      ultimately show ?thesis
        using look by (auto split: if_splits)
    qed
  qed
qed

text \<open>
  The search for the magic throws away what it read after the header it finds: when 24
  bytes without the magic come before a message and one read delivers that message whole, the
  reader keeps its header only, and takes the payload from the bytes after the message.
\<close>

theorem resync_drops_payload:
  assumes junk: "length junk = 24" and none: "find_magic (cd_magic codec) junk = None"
    and first: "find_magic (cd_magic codec) (drop 21 junk @ bs) = Some 3"
    and bs: "framed (cd_magic codec) bs" "length bs \<le> 512" "chunk (bs @ rest) = length bs"
    and enough: "length bs - 24 \<le> length rest"
  shows "read_message W chunk codec (junk @ bs @ rest) =
    (let buf = take 24 bs @ take (length bs - 24) rest in
     (codec\<lparr>cd_read_buf := buf\<rparr>, drop (length bs - 24) rest,
      case wr_decode W buf of Inl e \<Rightarrow> Inl (Encode e) | Inr msg \<Rightarrow> Inr msg))"
proof -
  have len: "24 \<le> length bs"
    using bs(1) by (simp add: framed_def)
  then have "bs \<noteq> []" by auto
  have n: "read_some chunk (bs @ rest) = length bs"
    using bs(2,3) len by (simp add: read_some_def)
  have "resync chunk (cd_magic codec) junk 0 (bs @ rest) =
      resync chunk (cd_magic codec) (drop 21 junk @ bs) 21 rest"
    using none junk n len \<open>bs \<noteq> []\<close> by (subst resync.simps)
      (simp add: sat_sub_def MAX_RESYNC_BYTES_def Let_def)
  also have "\<dots> = (rest, Inr (take 24 bs))"
    using first junk len by (subst resync.simps) simp
  finally have re: "resync chunk (cd_magic codec) junk 0 (bs @ rest) = (rest, Inr (take 24 bs))" .
  have "take 4 junk \<noteq> cd_magic codec"
    using none junk by (cases junk) (auto split: if_splits)
  moreover have "\<not> MAX_MESSAGE_SIZE < length bs - 24"
    using bs(2) by (simp add: MAX_MESSAGE_SIZE_def)
  ultimately show ?thesis
    using junk re framed_parts(3) [OF bs(1)] enough
    by (simp add: read_message_def read_exact_def Let_def del: take_take split: sum.split)
qed

lemma handshake_run:
  assumes ok: "wire_ok W" and up: "nt_wfail N = (\<lambda>_. None)"
    and "sendable W (wr_magic W net) (Version va)" and "sendable W (wr_magic W net) (Version vb)"
    and "sendable W (wr_magic W net) Verack"
  shows "\<exists>a b ca cb.
    connect W N now addr_b net va ka (TcpOpen b) = Inr ca \<and>
    accept W N now addr_a net vb kb a False = Inr cb \<and>
    pc_writer ca = a \<and> pc_writer cb = b \<and> pc_reader ca = [] \<and> pc_reader cb = [] \<and>
    pc_info ca = info_of ka addr_b vb False now \<and> pc_info cb = info_of kb addr_a va True now \<and>
    pc_their_nonce ca = vm_nonce vb \<and> pc_their_nonce cb = vm_nonce va"
proof -
  let ?m = "wr_magic W net" and ?c = "codec_new (wr_magic W net)"
  have m: "length (cd_magic ?c) = 4"
    using ok by (simp add: wire_ok_def)
  note wf = write_frame [OF ok m _ up]
  obtain xa where xa: "frame W ?m (Version va) xa" "\<And>out. conn_write W N ?c out (Version va) = Inr (out @ xa)"
    using wf [of "Version va"] assms(3) by auto
  obtain xb where xb: "frame W ?m (Version vb) xb" "\<And>out. conn_write W N ?c out (Version vb) = Inr (out @ xb)"
    using wf [of "Version vb"] assms(4) by auto
  obtain x where x: "frame W ?m Verack x" "\<And>out. conn_write W N ?c out Verack = Inr (out @ x)"
    using wf [of Verack] assms(5) by auto
  have keep: "conn_write W N (codec\<lparr>cd_read_buf := buf\<rparr>) out msg = conn_write W N codec out msg"
    for codec buf out msg
    by (simp add: conn_write_def write_message_def)
  have ten: "(10 :: nat) = Suc 9" by simp
  have v: "await_verack W N 10 (?c\<lparr>cd_read_buf := buf\<rparr>) x = Inr (?c\<lparr>cd_read_buf := x\<rparr>, [], True)" for buf
    using await_verack_frame [of W "?c\<lparr>cd_read_buf := buf\<rparr>" x N 9 "[]"] x(1) unfolding ten by simp
  have "connect W N now addr_b net va ka (TcpOpen (xb @ x)) = Inr
      \<lparr>pc_info = info_of ka addr_b vb False now, pc_our_nonce = vm_nonce va, pc_their_nonce = vm_nonce vb,
       pc_codec = ?c\<lparr>cd_read_buf := x\<rparr>, pc_reader = [], pc_writer = xa @ x\<rparr>"
    using xa(2) x v read_version_frame [of W ?c vb xb N addr_b x] xb(1)
    by (simp add: connect_def magic_for_network_def Let_def keep del: read_version.simps)
  moreover have "accept W N now addr_a net vb kb (xa @ x) False = Inr
      \<lparr>pc_info = info_of kb addr_a va True now, pc_our_nonce = vm_nonce vb, pc_their_nonce = vm_nonce va,
       pc_codec = ?c\<lparr>cd_read_buf := x\<rparr>, pc_reader = [], pc_writer = xb @ x\<rparr>"
    using xb(2) x v read_version_frame [of W ?c va xa N addr_a x] xa(1)
    by (simp add: accept_def accept_inner_def magic_for_network_def Let_def keep del: read_version.simps)
  ultimately show ?thesis
    by (intro exI [of _ "xa @ x"] exI [of _ "xb @ x"]) simp
qed


text \<open>
  An inbound peer need not acknowledge our version: after its version message, ten
  messages of any other kind complete the handshake of an inbound connection, where the same
  bytes make an outbound connection fail.
\<close>

theorem accept_needs_no_verack:
  assumes ok: "wire_ok W" and up: "nt_wfail N = (\<lambda>_. None)"
    and "sendable W (wr_magic W net) (Version ours)" and "sendable W (wr_magic W net) Verack"
    and v: "frame W (wr_magic W net) (Version v) bs"
    and others: "list_all2 (\<lambda>msg bs. msg \<noteq> Verack \<and> frame W (wr_magic W net) msg bs) msgs frames"
    and ten: "length msgs = 10"
  shows "(\<exists>c. accept W N now addr net ours k (bs @ concat frames @ rest) False = Inr c) \<and>
    (\<exists>why. connect W N now addr net ours k (TcpOpen (bs @ concat frames @ rest)) = Inl (Handshake addr why))"
proof -
  let ?m = "wr_magic W net" and ?c = "codec_new (wr_magic W net)"
  have m: "length (cd_magic ?c) = 4"
    using ok by (simp add: wire_ok_def)
  note wf = write_frame [OF ok m _ up]
  obtain xa where xa: "\<And>out. conn_write W N ?c out (Version ours) = Inr (out @ xa)"
    using wf [of "Version ours"] assms(3) by auto
  obtain x where x: "\<And>out. conn_write W N ?c out Verack = Inr (out @ x)"
    using wf [of Verack] assms(4) by auto
  have keep: "conn_write W N (codec\<lparr>cd_read_buf := buf\<rparr>) out msg = conn_write W N codec out msg"
    for codec buf out msg
    by (simp add: conn_write_def write_message_def)
  obtain codec' where "await_verack W N 10 (?c\<lparr>cd_read_buf := bs\<rparr>) (concat frames @ rest) =
      Inr (codec', rest, False)"
    using await_verack_other [OF others, of "?c\<lparr>cd_read_buf := bs\<rparr>" N rest] ten by auto
  moreover have "read_version W N addr ?c (bs @ concat frames @ rest) =
      Inr (?c\<lparr>cd_read_buf := bs\<rparr>, concat frames @ rest, v)"
    using read_version_frame [of W ?c v bs N addr "concat frames @ rest"] v by simp
  ultimately show ?thesis
    using xa x
    by (simp add: accept_def accept_inner_def connect_def magic_for_network_def Let_def keep
        del: read_version.simps)
qed

section \<open>The message loop\<close>

text \<open>Messages handled one after the other, each at its time.\<close>

fun receive_all :: "wire \<Rightarrow> net \<Rightarrow> loop_state \<Rightarrow> (nat \<times> net_msg) list \<Rightarrow> loop_state \<times> bool" where
  "receive_all W N s [] = (s, True)"
| "receive_all W N s ((now, msg) # ms) =
    (case on_message W N False now s msg of
       (s, True) \<Rightarrow> receive_all W N s ms
     | (s, False) \<Rightarrow> (s, False))"

definition protocol_count :: "(nat \<times> net_msg) list \<Rightarrow> nat" where
  "protocol_count ms = length (filter (\<lambda>(now, msg). \<not> is_data_msg msg) ms)"

fun forwarded :: "net_msg \<Rightarrow> bool" where
  "forwarded (Ping _) = False"
| "forwarded (Pong _) = False"
| "forwarded _ = True"

lemma receive_ConsD:
  "receive_all W N s ((now, msg) # ms) = (s', True) \<Longrightarrow>
    \<exists>s1. on_message W N False now s msg = (s1, True) \<and> receive_all W N s1 ms = (s', True)"
  by (auto split: prod.splits bool.splits)

lemma on_message_rate:
  assumes "on_message W N hung_up now s msg = (s', True)"
  shows "ls_window s' = (if is_data_msg msg then ls_window s else ls_window (rate_tick now s))"
    and "ls_count s' = (if is_data_msg msg then ls_count s else ls_count (rate_tick now s))"
    and "is_data_msg msg \<or> ls_count s' \<le> MAX_PROTOCOL_MESSAGES_PER_SEC"
  using assms by (auto simp: on_message_def Let_def split: net_msg.splits prod.splits sum.splits if_splits)

lemma on_message_forward:
  assumes "on_message W N False now s msg = (s', True)"
  shows "ls_events s' = ls_events s @ (if forwarded msg then [EvMessage (loop_id s) msg] else [])"
    and "loop_id s' = loop_id s"
  using assms
  by (cases msg; auto simp: on_message_def Let_def loop_id_def split: prod.splits sum.splits if_splits
      dest!: conn_send_info)+

text \<open>Within one window the counter only grows.\<close>

lemma window_count:
  assumes "receive_all W N s ms = (s', True)" and "\<forall>(now, msg) \<in> set ms. now - ls_window s < 1000"
    and "ls_count s \<le> 2000"
  shows "ls_count s + protocol_count ms \<le> 2000"
  using assms
proof (induction ms arbitrary: s)
  case Nil
  then show ?case by (simp add: protocol_count_def)
next
  case (Cons x ms)
  obtain now msg where x: "x = (now, msg)"
    by (cases x)
  obtain s1 where s1: "on_message W N False now s msg = (s1, True)" "receive_all W N s1 ms = (s', True)"
    using receive_ConsD Cons.prems(1) unfolding x by blast
  note r = on_message_rate [OF s1(1)]
  have "now - ls_window s < 1000"
    using Cons.prems(2) by (simp add: x)
  then have w: "ls_window s1 = ls_window s" "ls_count s1 = ls_count s + (if is_data_msg msg then 0 else 1)"
    using r(1,2) by (simp_all add: rate_tick_def Let_def)
  moreover have "ls_count s1 \<le> 2000"
    using r(3) w(2) Cons.prems(3) by (cases "is_data_msg msg") (simp_all add: MAX_PROTOCOL_MESSAGES_PER_SEC_def)
  ultimately show ?case
    using Cons.IH [OF s1(2)] Cons.prems(2) by (auto simp: x protocol_count_def)
qed

text \<open>
  A peer that floods is disconnected: while its connection lives, it gets at most 4000
  messages other than blocks, transactions and headers through in any span of a second.
\<close>

theorem flood_disconnects:
  assumes "receive_all W N s ms = (s', True)" and "\<forall>(now, msg) \<in> set ms. t \<le> now \<and> now < t + 1000"
    and "ls_count s \<le> 2000"
  shows "protocol_count ms \<le> 4000"
proof -
  have "ls_count s + protocol_count ms \<le> 4000"
    using assms
  proof (induction ms arbitrary: s)
    case Nil
    then show ?case by (simp add: protocol_count_def)
  next
    case (Cons x ms)
    obtain now msg where x: "x = (now, msg)"
      by (cases x)
    obtain s1 where s1: "on_message W N False now s msg = (s1, True)" "receive_all W N s1 ms = (s', True)"
      using receive_ConsD Cons.prems(1) unfolding x by blast
    note r = on_message_rate [OF s1(1)]
    show ?case
    proof (cases "is_data_msg msg")
      case True
      then show ?thesis
        using Cons.IH [OF s1(2)] Cons.prems(2,3) r(2) by (simp add: x protocol_count_def)
    next
      case False
      then have c: "ls_count s1 \<le> 2000"
        using r(3) by (simp add: MAX_PROTOCOL_MESSAGES_PER_SEC_def)
      show ?thesis
      proof (cases "1000 \<le> now - ls_window s")
        case True
        then have "ls_window s1 = now" "ls_count s1 = 1"
          using r(1,2) False by (simp_all add: rate_tick_def Let_def)
        moreover have "\<forall>(u, m) \<in> set ms. u - now < 1000"
          using Cons.prems(2) by (fastforce simp: x)
        ultimately have "1 + protocol_count ms \<le> 2000"
          using window_count [OF s1(2)] c by simp
        then show ?thesis
          using Cons.prems(3) False by (simp add: x protocol_count_def)
      next
        case inside: False
        then have "ls_count s1 = ls_count s + 1"
          using r(2) False by (simp add: rate_tick_def Let_def)
        then show ?thesis
          using Cons.IH [OF s1(2) _ c] Cons.prems(2) False by (simp add: x protocol_count_def)
      qed
    qed
  qed
  then show ?thesis by simp
qed

text \<open>
  While the connection lives, the node gets every message of the peer except pings and
  pongs, once, in the order of arrival.
\<close>

theorem forwards_in_order:
  assumes "receive_all W N s ms = (s', True)"
  shows "ls_events s' = ls_events s @ map (EvMessage (loop_id s)) (filter forwarded (map snd ms))"
  using assms
proof (induction ms arbitrary: s)
  case Nil
  then show ?case by simp
next
  case (Cons x ms)
  obtain now msg where x: "x = (now, msg)"
    by (cases x)
  obtain s1 where s1: "on_message W N False now s msg = (s1, True)" "receive_all W N s1 ms = (s', True)"
    using receive_ConsD Cons.prems unfolding x by blast
  with Cons.IH [OF s1(2)] on_message_forward [OF s1(1)] show ?case
    by (simp add: x)
qed

lemma on_message_pending_ping:
  assumes "on_message W N False now s msg = (s', True)" and "msg \<noteq> Pong nonce"
    and "map_of (ls_peers s) (loop_id s) = Some p" and "pr_ping_nonce p = Some nonce"
    and "pr_last_ping p = Some t"
  shows "\<exists>p'. map_of (ls_peers s') (loop_id s') = Some p' \<and> pr_ping_nonce p' = Some nonce \<and>
    pr_last_ping p' = Some t"
proof -
  have id: "loop_id s' = loop_id s"
    using on_message_forward(2) [OF assms(1)] .
  show ?thesis
    unfolding id using assms
    by (cases msg; auto simp: on_message_def Let_def loop_id_def on_pong_def split: prod.splits sum.splits if_splits)
qed

text \<open>
  C33: A peer that does not answer is dropped: after a ping, whatever else the peer sends short
  of the pong with the ping's nonce, the next keepalive more than a minute later ends the
  connection.
\<close>

theorem unanswered_ping_disconnects:
  assumes ping: "ping_step W N t s nonce = (s1, True)" and known: "loop_id s \<in> dom (map_of (ls_peers s))"
    and msgs: "receive_all W N s1 ms = (s2, True)" and silent: "\<forall>(now, msg) \<in> set ms. msg \<noteq> Pong nonce"
    and late: "t + 60000 < t'"
  shows "ping_step W N t' s2 nonce' = (s2, False)"
proof -
  have pending: "\<exists>p. map_of (ls_peers s2) (loop_id s2) = Some p \<and> pr_ping_nonce p = Some nonce \<and>
      pr_last_ping p = Some t"
    if "receive_all W N s1 ms = (s2, True)" "\<forall>(now, msg) \<in> set ms. msg \<noteq> Pong nonce"
      "map_of (ls_peers s1) (loop_id s1) = Some p" "pr_ping_nonce p = Some nonce" "pr_last_ping p = Some t"
    for s1 p
    using that
  proof (induction ms arbitrary: s1 p)
    case Nil
    then show ?case by simp
  next
    case (Cons x ms)
    obtain now msg where x: "x = (now, msg)"
      by (cases x)
    obtain u where u: "on_message W N False now s1 msg = (u, True)" "receive_all W N u ms = (s2, True)"
      using receive_ConsD Cons.prems(1) unfolding x by blast
    have "msg \<noteq> Pong nonce" and rest: "\<forall>(now, msg) \<in> set ms. msg \<noteq> Pong nonce"
      using Cons.prems(2) by (simp_all add: x)
    from on_message_pending_ping [OF u(1) this(1) Cons.prems(3-5)]
    show ?case
      using Cons.IH [OF u(2) rest] by blast
  qed
  have "loop_id s1 = loop_id s"
    using ping by (auto simp: ping_step_def Let_def loop_id_def split: prod.splits sum.splits if_splits
        dest!: conn_send_info)
  moreover obtain p where "map_of (ls_peers s) (loop_id s) = Some p"
    using known by blast
  ultimately have "\<exists>p. map_of (ls_peers s1) (loop_id s1) = Some p \<and> pr_ping_nonce p = Some nonce \<and>
      pr_last_ping p = Some t"
    using ping by (auto simp: ping_step_def Let_def split: prod.splits sum.splits if_splits)
  with pending [OF msgs silent] late show ?thesis
    by (auto simp: ping_step_def ping_stale_def PING_TIMEOUT_def)
qed

section \<open>The manager\<close>

text \<open>
  C5: In every reachable state, whatever the interleaving, the table of peers holds exactly
  the connections between their registration and their removal, each under its own
  identifier, and a channel exists only for a peer of the table.
\<close>

theorem manager_tables_exact:
  assumes "reachable W N cfg net (m, ts)" and "Suc (length ts) < 2 ^ 64"
  shows "dom (map_of (pm_peers m)) = {tk_id t | t. t \<in> set ts \<and> tk_phase t \<in> listed_phases} \<and>
    dom (map_of (pm_senders m)) = {tk_id t | t. t \<in> set ts \<and> tk_phase t \<in> wired_phases} \<and>
    dom (map_of (pm_senders m)) \<subseteq> dom (map_of (pm_peers m)) \<and>
    distinct (map tk_id ts)"
proof -
  have ok: "tables_match m ts"
    using reachable_tables [OF assms(1)] assms(2) by simp
  then have id: "tk_id (ts ! j) = Suc j" if "j < length ts" for j
    using that by (simp add: tables_match_def task_ok_def)
  have ids: "{tk_id t | t. t \<in> set ts \<and> tk_phase t \<in> P} = ids_in P ts" for P
  proof (intro set_eqI iffI)
    fix x assume "x \<in> {tk_id t | t. t \<in> set ts \<and> tk_phase t \<in> P}"
    then obtain j where "j < length ts" "x = tk_id (ts ! j)" "tk_phase (ts ! j) \<in> P"
      by (auto simp: in_set_conv_nth)
    with id show "x \<in> ids_in P ts"
      by (simp add: ids_in_def)
  next
    fix x assume "x \<in> ids_in P ts"
    then obtain j where j: "j < length ts" "x = Suc j" "tk_phase (ts ! j) \<in> P"
      by (auto simp: ids_in_def)
    with id [OF j(1)] show "x \<in> {tk_id t | t. t \<in> set ts \<and> tk_phase t \<in> P}"
      by (auto intro!: exI [of _ "ts ! j"])
  qed
  have "ids_in wired_phases ts \<subseteq> ids_in listed_phases ts"
    by (auto simp: ids_in_def wired_phases_def listed_phases_def)
  moreover have "distinct (map tk_id ts)"
    using id by (auto simp: distinct_conv_nth)
  ultimately show ?thesis
    using ok unfolding ids by (simp add: tables_match_def)
qed

text \<open>
  C22: A node that connects to itself notices it: the two ends of one connection are never both
  past the check of the nonces, in whatever order their tasks run, as long as the random
  nonces are different.
\<close>

theorem self_connection_noticed:
  assumes "reachable W N cfg net (m, ts)" and "Suc (length ts) < 2 ^ 64" and "fresh_nonces ts"
    and "t \<in> set ts" and "u \<in> set ts" and "mirror t u"
  shows "\<not> (tk_phase t \<in> cleared_phases \<and> tk_phase u \<in> cleared_phases)"
  using reachable_nonces [OF assms(1)] assms(2-)
  by (auto simp: one_side_def in_set_conv_nth)

lemma advance_step:
  assumes "reachable W N cfg net (m, ts)" and "i < length ts" and "tk_conn (ts ! i) = Some c"
    and "advance now m (ts ! i) c = Some (m', t')"
  shows "reachable W N cfg net (m', ts[i := t'])"
  using assms p2p_step.Advance [of i ts "ts ! i" c now m m' t'] reachable.Step by blast

text \<open>Any number of inbound handshakes may be under way while none is registered.\<close>

definition waiting :: "(nat \<Rightarrow> string) \<Rightarrow> nat \<Rightarrow> task" where
  "waiting addr k =
    \<lparr>tk_id = Suc k, tk_addr = addr k, tk_inbound = True, tk_height = 0, tk_phase = Shaking,
     tk_conn = None, tk_window = 0, tk_count = 0\<rparr>"

lemma many_handshakes:
  assumes "0 < max_inbound cfg"
  shows "n < 2 ^ 64 - 1 \<Longrightarrow>
    reachable W N cfg net ((manager_new cfg net)\<lparr>pm_next_id := Suc n\<rparr>, map (waiting addr) [0..<n])"
proof (induction n)
  case 0
  have "(manager_new cfg net)\<lparr>pm_next_id := Suc 0\<rparr> = manager_new cfg net"
    by (simp add: manager_new_def)
  then show ?case
    using reachable.Start [of W N cfg net] by simp
next
  case (Suc n)
  let ?m = "(manager_new cfg net)\<lparr>pm_next_id := Suc n\<rparr>"
  have "listen_inbound ?m (addr n) = Some ((manager_new cfg net)\<lparr>pm_next_id := Suc (Suc n)\<rparr>, waiting addr n)"
    using assms Suc.prems
    by (simp add: listen_inbound_def manager_new_def inbound_count_def next_id_def new_task_def
        waiting_def as_i32_def u64_simps)
  from reachable.Step [OF Suc.IH p2p_step.Listen [OF this]] Suc.prems show ?case
    by simp
qed

text \<open>The state in which the first \<open>k\<close> of them have been registered.\<close>

definition settled :: "(nat \<Rightarrow> string) \<Rightarrow> (nat \<Rightarrow> peer_connection) \<Rightarrow> nat \<Rightarrow> task" where
  "settled addr c k = (waiting addr k)\<lparr>tk_phase := Listed, tk_conn := Some (c k)\<rparr>"

definition filled ::
    "p2p_config \<Rightarrow> network \<Rightarrow> (nat \<Rightarrow> peer_connection) \<Rightarrow> nat \<Rightarrow> nat \<Rightarrow> manager" where
  "filled cfg net c n k = (manager_new cfg net)\<lparr>pm_next_id := Suc n,
    pm_peers := map (\<lambda>j. (Suc j, peer_new (pc_info (c j)))) [0..<k],
    pm_nonces := (\<lambda>j. pc_our_nonce (c j)) ` {..<k}\<rparr>"

definition lineup :: "(nat \<Rightarrow> string) \<Rightarrow> (nat \<Rightarrow> peer_connection) \<Rightarrow> nat \<Rightarrow> nat \<Rightarrow> task list" where
  "lineup addr c n k = map (\<lambda>j. if j < k then settled addr c j else waiting addr j) [0..<n]"

lemma lineup_update:
  "k < n \<Longrightarrow> (lineup addr c n k)[k := settled addr c k] = lineup addr c n (Suc k)"
  by (rule nth_equalityI) (auto simp: lineup_def nth_list_update less_Suc_eq)

lemma lineup_nth: "k < n \<Longrightarrow> lineup addr c n k ! k = waiting addr k"
  by (simp add: lineup_def)

lemma settle_one:
  assumes r: "reachable W N cfg net (filled cfg net c n k, lineup addr c n k)" and k: "k < n"
    and acc: "accept W N now (addr k) net (our_version N (waiting addr k) stamp nonce) (Suc k) reader False = Inr (c k)"
    and other: "\<And>j. j \<le> k \<Longrightarrow> pc_their_nonce (c k) \<noteq> pc_our_nonce (c j)"
  shows "reachable W N cfg net (filled cfg net c n (Suc k), lineup addr c n (Suc k))"
proof -
  let ?ts = "lineup addr c n k" and ?m = "filled cfg net c n k"
  let ?w = "waiting addr k"
  have len: "length ?ts = n" and at: "?ts ! k = ?w"
    using k by (simp_all add: lineup_def)
  have net: "pm_network ?m = net"
    by (simp add: filled_def manager_new_def)
  define t1 t2 t3 where "t1 = ?w\<lparr>tk_phase := Shaken, tk_conn := Some (c k)\<rparr>"
    and "t2 = t1\<lparr>tk_phase := Nonced\<rparr>" and "t3 = t1\<lparr>tk_phase := Cleared\<rparr>"
  define m1 where "m1 = ?m\<lparr>pm_nonces := insert (pc_our_nonce (c k)) (pm_nonces ?m)\<rparr>"
  have "p2p_step W N (?m, ?ts) (?m, ?ts[k := after_handshake ?w (Inr (c k))])"
    using k acc net len at
    by (intro p2p_step.Accepted [of k ?ts ?w W N now ?m stamp nonce reader False "Inr (c k)"])
      (simp_all add: waiting_def)
  then have 1: "reachable W N cfg net (?m, ?ts[k := t1])"
    using reachable.Step [OF r] by (simp add: t1_def)
  have 2: "reachable W N cfg net (m1, ?ts[k := t2])"
    using advance_step [OF 1, of k "c k" 0 m1 t2] k len
    by (simp add: t1_def t2_def m1_def advance_def waiting_def)
  have "pc_their_nonce (c k) \<notin> pm_nonces m1"
    using other by (auto simp: m1_def filled_def le_eq_less_or_eq)
  then have 3: "reachable W N cfg net (m1, ?ts[k := t3])"
    using advance_step [OF 2, of k "c k" 0 m1 t3] k len
    by (simp add: t1_def t2_def t3_def advance_def waiting_def)
  have "map_of (pm_peers ?m) (Suc k) = None"
    by (auto simp: filled_def map_of_eq_None_iff)
  then have "advance 0 m1 t3 (c k) = Some (filled cfg net c n (Suc k), settled addr c k)"
    by (simp add: advance_def t3_def t1_def settled_def waiting_def m1_def filled_def update_fresh
        lessThan_Suc)
  then show ?thesis
    using advance_step [OF 3, of k "c k" 0] k len lineup_update [OF k, of addr c]
    by (simp add: t3_def t1_def)
qed

text \<open>
  The limit on inbound peers does not hold: it is checked before the handshake and the
  peer is registered after it, so with a limit of one or more, any number of handshakes that
  overlap leads to as many registered inbound peers.
\<close>

theorem inbound_limit_exceeded:
  assumes limit: "0 < max_inbound cfg" and n: "n < 2 ^ 64 - 1"
    and shake: "\<And>k. k < n \<Longrightarrow>
      accept W N now (addr k) net (our_version N (waiting addr k) stamp (nonce k)) (Suc k) (reader k) False =
        Inr (c k)"
    and others: "\<And>j k. j < n \<Longrightarrow> k < n \<Longrightarrow> pc_their_nonce (c k) \<noteq> pc_our_nonce (c j)"
  shows "\<exists>m ts. reachable W N cfg net (m, ts) \<and> pm_config m = cfg \<and> inbound_count m = n"
proof -
  have "reachable W N cfg net (filled cfg net c n k, lineup addr c n k)" if "k \<le> n" for k
    using that
  proof (induction k)
    case 0
    have "filled cfg net c n 0 = (manager_new cfg net)\<lparr>pm_next_id := Suc n\<rparr>"
      by (simp add: filled_def manager_new_def)
    then show ?case
      using many_handshakes [OF limit n, of W N net addr] by (simp add: lineup_def)
  next
    case (Suc k)
    then have "k < n" and r: "reachable W N cfg net (filled cfg net c n k, lineup addr c n k)"
      by simp_all
    show ?case
      by (rule settle_one [OF r \<open>k < n\<close> shake [OF \<open>k < n\<close>]]) (use others \<open>k < n\<close> in simp)
  qed
  moreover have "inbound_count (filled cfg net c n n) = n"
  proof -
    have "pi_inbound (pc_info (c j))" if "j < n" for j
      using accept_id [OF shake [OF that]] by simp
    then have "filter (\<lambda>(k, p). pi_inbound (pr_info p)) (map (\<lambda>j. (Suc j, peer_new (pc_info (c j)))) [0..<n]) =
        map (\<lambda>j. (Suc j, peer_new (pc_info (c j)))) [0..<n]"
      by (simp add: filter_id_conv peer_new_def)
    then show ?thesis
      by (simp add: inbound_count_def filled_def)
  qed
  moreover have "pm_config (filled cfg net c n n) = cfg"
    by (simp add: filled_def manager_new_def)
  ultimately show ?thesis by blast
qed

text \<open>
  The encrypted transport carries four kinds of messages: every other message of a peer is
  handed to the node as a verack.
\<close>

theorem v2_loses_messages:
  assumes "vp_deserialize V (vp_serialize V (convert_to_bip324_msg V msg)) = Inr (convert_to_bip324_msg V msg)"
    and "vp_read V p = Inr (p', vp_serialize V (convert_to_bip324_msg V msg))"
    and "vp_serialize V (convert_to_bip324_msg V msg) \<noteq> []"
  shows "v2_recv V p = Inr (p',
    if (\<exists>n. msg = Ping n \<or> msg = Pong n) \<or> msg = SendHeaders then msg else Verack)"
  using assms by (cases msg) (simp_all add: v2_recv_def)

section \<open>Witnesses\<close>

definition sample_codec :: message_codec where
  "sample_codec = codec_new [0xf9, 0xbe, 0xb4, 0xd9]"

lemma sample_codec_magic [simp]: "cd_magic sample_codec = [0xf9, 0xbe, 0xb4, 0xd9]"
  by (simp add: sample_codec_def)

definition sample_ping :: "nat \<Rightarrow> bytes" where
  "sample_ping n = [0xf9, 0xbe, 0xb4, 0xd9] @ (2 # replicate 11 0) @ [8, 0, 0, 0] @ replicate 4 0 @ be_bytes 8 n"

lemma sample_length_bytes: "le_bytes 4 8 = [8, 0, 0, 0]"
  by code_simp

lemma sample_ping_encode:
  "n < 2 ^ 64 \<Longrightarrow> wr_encode sample_wire [0xf9, 0xbe, 0xb4, 0xd9] (Ping n) = Inr (sample_ping n)"
  by (simp add: sample_wire_def sample_ping_def sample_length_bytes)

lemma sample_ping_frame:
  "n < 2 ^ 64 \<Longrightarrow> framed [0xf9, 0xbe, 0xb4, 0xd9] (sample_ping n) \<and>
    wr_decode sample_wire (sample_ping n) = Inr (Ping n)"
  using sample_wire_ok [unfolded wire_ok_def, THEN conjunct2, rule_format, OF _ sample_ping_encode [of n]]
  by simp

theorem codec_roundtrip_witness:
  "\<exists>sent. write_messages sample_wire (\<lambda>_. None) sample_codec [] [Ping 7, Ping 9] = (sent, Inr ()) \<and>
    read_messages sample_wire length 2 sample_codec (sent @ [1]) = ([1], [Inr (Ping 7), Inr (Ping 9)])"
proof -
  have run: "write_messages sample_wire (\<lambda>_. None) sample_codec [] [Ping 7, Ping 9] =
      (sample_ping 7 @ sample_ping 9, Inr ())"
    by (simp add: write_message_def sample_ping_encode)
  have "\<forall>m \<in> set [Ping 7, Ping 9]. sendable sample_wire (cd_magic sample_codec) m"
    using sample_sendable [OF sample_payloads(3)] by simp
  from codec_roundtrip [OF sample_wire_ok _ refl this run, of length "[1]"] run show ?thesis
    by (auto simp: numeral_2_eq_2)
qed

theorem read_message_bounded_witness:
  "length (sample_ping 7) - length (fst (snd (read_message sample_wire length sample_codec (sample_ping 7))))
    \<le> MAX_RESYNC_BYTES + MAX_MESSAGE_SIZE + 538"
proof -
  obtain codec' s' r where "read_message sample_wire length sample_codec (sample_ping 7) = (codec', s', r)"
    by (cases "read_message sample_wire length sample_codec (sample_ping 7)")
  from read_message_bounded [OF this] this show ?thesis by simp
qed

lemma find_magic_None: "magic \<noteq> [] \<Longrightarrow> hd magic \<notin> set w \<Longrightarrow> find_magic magic w = None"
  by (induction w) auto

theorem resync_drops_payload_witness:
  "snd (read_message sample_wire (\<lambda>_. 32) sample_codec (replicate 24 0 @ sample_ping 7 @ be_bytes 8 5)) =
    ([], Inr (Ping 5))"
proof -
  have none: "find_magic (cd_magic sample_codec) (replicate 24 0) = None"
    by (rule find_magic_None) simp_all
  have first: "find_magic (cd_magic sample_codec) (drop 21 (replicate 24 0) @ sample_ping 7) = Some 3"
    by (simp add: sample_ping_def numeral_3_eq_3)
  have f: "framed (cd_magic sample_codec) (sample_ping 7)"
    using sample_ping_frame [of 7] by simp
  have len: "length (sample_ping 7) = 32"
    by (simp add: sample_ping_def)
  have buf: "take 24 (sample_ping 7) @ take (length (sample_ping 7) - 24) (be_bytes 8 5) = sample_ping 5"
    by (simp add: sample_ping_def)
  have dec: "wr_decode sample_wire (sample_ping 5) = Inr (Ping 5)"
    using sample_ping_frame [of 5] by simp
  have rest: "drop (length (sample_ping 7) - 24) (be_bytes 8 5) = []"
    by (simp add: len)
  have "read_message sample_wire (\<lambda>_. 32) sample_codec (replicate 24 0 @ sample_ping 7 @ be_bytes 8 5) =
    (let buf = take 24 (sample_ping 7) @ take (length (sample_ping 7) - 24) (be_bytes 8 5) in
     (sample_codec\<lparr>cd_read_buf := buf\<rparr>, drop (length (sample_ping 7) - 24) (be_bytes 8 5),
      case wr_decode sample_wire buf of Inl e \<Rightarrow> Inl (Encode e) | Inr msg \<Rightarrow> Inr msg))"
    by (rule resync_drops_payload [OF _ none first f]) (simp_all add: len)
  then show ?thesis
    unfolding buf rest by (simp only: Let_def dec snd_conv sum.case)
qed

lemma sample_versions_sendable:
  "n < 2 ^ 64 \<Longrightarrow> sendable sample_wire (wr_magic sample_wire net) (Version (sample_version n))"
  "sendable sample_wire (wr_magic sample_wire net) Verack"
  using sample_sendable [OF sample_payloads(4)] sample_sendable [OF sample_payloads(1)] by simp_all


theorem accept_needs_no_verack_witness:
  "\<exists>reader c. accept sample_wire sample_net 5 ''a'' Regtest (sample_version 2) 1 reader False = Inr c"
proof -
  let ?c = "codec_new (wr_magic sample_wire Regtest)"
  have m: "length (cd_magic ?c) = 4" by simp
  obtain v where v: "frame sample_wire (cd_magic ?c) (Version (sample_version 1)) v"
    using write_frame [OF sample_wire_ok m _ sample_wfail, of "Version (sample_version 1)"]
      sample_versions_sendable(1) [of 1 Regtest] by auto
  obtain g where g: "frame sample_wire (cd_magic ?c) GetAddr g"
    using write_frame [OF sample_wire_ok m _ sample_wfail, of GetAddr]
      sample_sendable [OF sample_payloads(2), of "cd_magic ?c"] by auto
  have "list_all2 (\<lambda>msg bs. msg \<noteq> Verack \<and> frame sample_wire (wr_magic sample_wire Regtest) msg bs)
      (replicate 10 GetAddr) (replicate 10 g)"
    using g by (simp add: list_all2_conv_all_nth)
  from accept_needs_no_verack [OF sample_wire_ok sample_wfail sample_versions_sendable(1)
      sample_versions_sendable(2) _ this, of 2 "sample_version 1" v 5 "''a''" 1 "[]"] v
  show ?thesis by auto
qed

definition sample_info :: peer_info where
  "sample_info = info_of 1 ''a'' (sample_version 1) True 0"

definition sample_conn :: peer_connection where
  "sample_conn = \<lparr>pc_info = sample_info, pc_our_nonce = 2, pc_their_nonce = 1, pc_codec = sample_codec,
    pc_reader = [], pc_writer = []\<rparr>"

definition sample_loop :: loop_state where
  "sample_loop = loop_start sample_conn [(1, peer_new sample_info)] [] 0"

lemma sample_loop_simps [simp]:
  "ls_count sample_loop = 0" "loop_id sample_loop = 1" "ls_events sample_loop = []"
  "ls_peers sample_loop = [(1, peer_new sample_info)]" "ls_window sample_loop = 0"
  "ls_conn sample_loop = sample_conn"
  by (simp_all add: sample_loop_def loop_start_def loop_id_def sample_conn_def sample_info_def info_of_def)

lemma getaddr_alive:
  "ls_count s < 2000 \<Longrightarrow> \<exists>s'. on_message W N False now s GetAddr = (s', True) \<and> ls_count s' \<le> ls_count s + 1"
  by (auto simp: on_message_def rate_tick_def Let_def MAX_PROTOCOL_MESSAGES_PER_SEC_def)

lemma sample_receives:
  obtains s' where "receive_all sample_wire sample_net sample_loop [(0, GetAddr), (5, GetAddr)] = (s', True)"
proof -
  obtain s1 where s1: "on_message sample_wire sample_net False 0 sample_loop GetAddr = (s1, True)" "ls_count s1 \<le> 1"
    using getaddr_alive [of sample_loop sample_wire sample_net 0] by auto
  obtain s2 where "on_message sample_wire sample_net False 5 s1 GetAddr = (s2, True)"
    using getaddr_alive [of s1 sample_wire sample_net 5] s1(2) by auto
  with s1(1) show thesis
    by (intro that [of s2]) simp
qed

theorem flood_disconnects_witness:
  "protocol_count [(0, GetAddr), (5, GetAddr)] \<le> 4000"
proof -
  obtain s' where "receive_all sample_wire sample_net sample_loop [(0, GetAddr), (5, GetAddr)] = (s', True)"
    by (rule sample_receives)
  from flood_disconnects [OF this, of 0] show ?thesis by simp
qed

theorem forwards_in_order_witness:
  "ls_events (fst (receive_all sample_wire sample_net sample_loop [(0, GetAddr), (5, GetAddr)])) =
    [EvMessage 1 GetAddr, EvMessage 1 GetAddr]"
proof -
  obtain s' where "receive_all sample_wire sample_net sample_loop [(0, GetAddr), (5, GetAddr)] = (s', True)"
    by (rule sample_receives)
  from forwards_in_order [OF this] this show ?thesis by simp
qed

theorem unanswered_ping_disconnects_witness:
  "\<exists>s1. ping_step sample_wire sample_net 0 sample_loop 5 = (s1, True) \<and>
    ping_step sample_wire sample_net 61000 s1 6 = (s1, False)"
proof -
  have "\<exists>bs. wr_encode sample_wire (cd_magic sample_codec) (Ping 5) = Inr bs"
    using sample_encode [OF sample_payloads(3) [of 5], of "cd_magic sample_codec"] by auto
  then obtain s1 where s1: "ping_step sample_wire sample_net 0 sample_loop 5 = (s1, True)"
    by (auto simp: ping_step_def ping_stale_def Let_def peer_new_def conn_send_def write_message_def sample_conn_def)
  have known: "loop_id sample_loop \<in> dom (map_of (ls_peers sample_loop))"
    by simp
  have silent: "receive_all sample_wire sample_net s1 [] = (s1, True)"
    by simp
  from unanswered_ping_disconnects [OF s1 known silent, of 61000 6] s1 show ?thesis by simp
qed

theorem manager_tables_exact_witness:
  "\<exists>m ts. reachable sample_wire sample_net p2p_config_default Regtest (m, ts) \<and> length ts = 3 \<and>
    map_of (pm_peers m) = Map.empty"
proof -
  let ?m = "(manager_new p2p_config_default Regtest)\<lparr>pm_next_id := Suc 3\<rparr>"
  let ?ts = "map (waiting (\<lambda>_. ''a'')) [0..<3]"
  have r: "reachable sample_wire sample_net p2p_config_default Regtest (?m, ?ts)"
    by (rule many_handshakes) (simp_all add: p2p_config_default_def)
  have "dom (map_of (pm_peers ?m)) = {}"
    using manager_tables_exact [OF r] by (auto simp: waiting_def listed_phases_def)
  with r show ?thesis
    by (intro exI [of _ ?m] exI [of _ ?ts]) simp
qed

text \<open>A peer with the given nonce connects to a task of the manager.\<close>

lemma sample_nonce [simp]: "vm_nonce (sample_version n) = n"
  by (simp add: sample_version_def build_version_message_def)

lemma sample_our_version: "tk_height t = 0 \<Longrightarrow> tk_addr t = ''a'' \<Longrightarrow> our_version sample_net t 0 n = sample_version n"
  by (simp add: our_version_def sample_version_def build_version_message_def)

lemma sample_dialogue:
  assumes "a < 2 ^ 64" and "b < 2 ^ 64"
  shows "\<exists>rb ra ca cb.
    connect sample_wire sample_net 0 ''a'' Regtest (sample_version a) ka (TcpOpen rb) = Inr ca \<and>
    accept sample_wire sample_net 0 ''a'' Regtest (sample_version b) kb ra False = Inr cb \<and>
    pc_our_nonce ca = a \<and> pc_their_nonce ca = b \<and> pc_our_nonce cb = b \<and> pc_their_nonce cb = a"
  using handshake_run [OF sample_wire_ok sample_wfail sample_versions_sendable(1) [OF assms(1)]
      sample_versions_sendable(1) [OF assms(2)] sample_versions_sendable(2),
      where net = Regtest and now = 0 and addr_b = "''a''" and addr_a = "''a''" and ka = ka and kb = kb]
    connect_id accept_id by fastforce

theorem self_connection_noticed_witness:
  "\<exists>m ts. reachable sample_wire sample_net p2p_config_default Regtest (m, ts) \<and>
    mirror (ts ! 0) (ts ! 1) \<and> \<not> (tk_phase (ts ! 0) \<in> cleared_phases \<and> tk_phase (ts ! 1) \<in> cleared_phases)"
proof -
  let ?R = "reachable sample_wire sample_net p2p_config_default Regtest"
  let ?w = "waiting (\<lambda>_. ''a'') 0"
  define m1 where "m1 = (manager_new p2p_config_default Regtest)\<lparr>pm_next_id := 2\<rparr>"
  define m2 where "m2 = (manager_new p2p_config_default Regtest)\<lparr>pm_next_id := 3\<rparr>"
  define d where "d = new_task m1 ''a'' False 2"
  have "Suc 1 = (2 :: nat)" "map (waiting (\<lambda>_. ''a'')) [0..<1] = [?w]" "0 < max_inbound p2p_config_default"
    "1 < (2 :: nat) ^ 64 - 1"
    by (simp_all add: p2p_config_default_def)
  note start = this
  have "?R (m1, [?w])"
    using many_handshakes [OF start(3,4), of sample_wire sample_net Regtest "\<lambda>_. ''a''"]
    unfolding m1_def start(1,2) .
  moreover have "connect_outbound m1 ''a'' = Some (m2, d)"
    by (simp add: connect_outbound_def m1_def m2_def d_def manager_new_def outbound_count_def next_id_def
        p2p_config_default_def new_task_def u64_simps)
  ultimately have 1: "?R (m2, [?w, d])"
    using reachable.Step p2p_step.Dial by fastforce
  obtain rb ra ca cb where
    c: "connect sample_wire sample_net 0 ''a'' Regtest (sample_version 7) 2 (TcpOpen rb) = Inr ca"
      "accept sample_wire sample_net 0 ''a'' Regtest (sample_version 8) 1 ra False = Inr cb"
    and n: "pc_our_nonce ca = 7" "pc_their_nonce ca = 8" "pc_our_nonce cb = 8" "pc_their_nonce cb = 7"
    using sample_dialogue [of 7 8 2 1] by auto
  have w: "tk_addr ?w = ''a''" "tk_id ?w = 1" "tk_inbound ?w" "tk_phase ?w = Shaking" "tk_height ?w = 0"
    by (simp_all add: waiting_def)
  have dd: "tk_addr d = ''a''" "tk_id d = 2" "\<not> tk_inbound d" "tk_phase d = Shaking" "tk_height d = 0"
    by (simp_all add: d_def new_task_def m1_def manager_new_def as_i32_def)
  have net: "pm_network m2 = Regtest"
    by (simp add: m2_def manager_new_def)
  let ?w2 = "after_handshake ?w (Inr cb)" and ?d2 = "after_handshake d (Inr ca)"
  have "p2p_step sample_wire sample_net (m2, [?w, d]) (m2, [?w, d][0 := ?w2])"
    by (rule p2p_step.Accepted [of 0 "[?w, d]" ?w sample_wire sample_net 0 m2 0 8 ra False "Inr cb"])
      (use w net c(2) in \<open>simp_all add: sample_our_version\<close>)
  then have 2: "?R (m2, [?w2, d])"
    using reachable.Step [OF 1] by simp
  have "p2p_step sample_wire sample_net (m2, [?w2, d]) (m2, [?w2, d][1 := ?d2])"
    by (rule p2p_step.Connected [of 1 "[?w2, d]" d sample_wire sample_net 0 m2 0 7 "TcpOpen rb" "Inr ca"])
      (use dd net c(1) in \<open>simp_all add: sample_our_version\<close>)
  then have 3: "?R (m2, [?w2, ?d2])"
    using reachable.Step [OF 2] by simp
  have mir: "mirror ?w2 ?d2"
    using n by (simp add: mirror_def nonces_of_def)
  have fresh: "fresh_nonces [?w2, ?d2]"
    using n by (auto simp: fresh_nonces_def nonces_of_def less_Suc_eq)
  from self_connection_noticed [OF 3 _ fresh _ _ mir] show ?thesis
    using 3 mir by (intro exI [of _ m2] exI [of _ "[?w2, ?d2]"]) simp
qed

theorem inbound_limit_exceeded_witness:
  "\<exists>m ts. reachable sample_wire sample_net (p2p_config_default\<lparr>max_inbound := 1\<rparr>) Regtest (m, ts) \<and>
    max_inbound (pm_config m) = 1 \<and> inbound_count m = 3"
proof -
  have "\<exists>r c. k < 3 \<longrightarrow> accept sample_wire sample_net 0 ''a'' Regtest (sample_version k) (Suc k) r False = Inr c \<and>
      pc_our_nonce c = k \<and> pc_their_nonce c = 10" for k
  proof (cases "k < 3")
    case True
    then have "10 < (2 :: nat) ^ 64" "k < 2 ^ 64"
      by simp_all
    from sample_dialogue [OF this, of 0 "Suc k"] show ?thesis
      by blast
  qed simp
  then obtain r c where rc: "\<And>k. k < 3 \<Longrightarrow>
      accept sample_wire sample_net 0 ''a'' Regtest (sample_version k) (Suc k) (r k) False = Inr (c k) \<and>
      pc_our_nonce (c k) = k \<and> pc_their_nonce (c k) = 10"
    by metis
  let ?cfg = "p2p_config_default\<lparr>max_inbound := 1\<rparr>"
  have "\<exists>m ts. reachable sample_wire sample_net ?cfg Regtest (m, ts) \<and> pm_config m = ?cfg \<and> inbound_count m = 3"
    by (rule inbound_limit_exceeded [where now = 0 and addr = "\<lambda>_. ''a''" and stamp = 0 and nonce = "\<lambda>k. k"
          and reader = r and c = c])
      (use rc in \<open>auto simp: sample_our_version waiting_def\<close>)
  then show ?thesis by auto
qed

theorem v2_loses_messages_witness:
  "v2_recv \<lparr>vp_new = \<lambda>_ _ _. Inr (), vp_write = \<lambda>_ _. Inr (), vp_read = \<lambda>_. Inr ((), [1]),
      vp_serialize = \<lambda>_. [1], vp_deserialize = \<lambda>_. Inr (V2Unknown ''getaddr'' []),
      vp_cmd = \<lambda>_. ''getaddr'', vp_payload = \<lambda>_. []\<rparr> () = Inr ((), Verack)"
  using v2_loses_messages [where msg = GetAddr and p = "()" and p' = "()" and
    V = "\<lparr>vp_new = \<lambda>_ _ _. Inr (), vp_write = \<lambda>_ _. Inr (), vp_read = \<lambda>_. Inr ((), [1]),
      vp_serialize = \<lambda>_. [1], vp_deserialize = \<lambda>_. Inr (V2Unknown ''getaddr'' []),
      vp_cmd = \<lambda>_. ''getaddr'', vp_payload = \<lambda>_. []\<rparr>"]
  by simp

end
