(* ===== verification/Ln_Fees.thy ===== *)
theory Ln_Fees
  imports Mempool_Props
begin

text \<open>
  \<open>wolfe-lightning/src/fee_estimator.rs\<close>: the fee rates that the Lightning library asks for,
  read off the fee histogram of the pool.
\<close>

datatype confirmation_target =
    MaximumFeeEstimate
  | UrgentOnChainSweep
  | MinAllowedAnchorChannelRemoteFee
  | MinAllowedNonAnchorChannelRemoteFee
  | AnchorChannelFee
  | NonAnchorChannelFee
  | ChannelCloseMinimum
  | OutputSpendingFee

text \<open>The loop over the histogram, highest rate first.\<close>

fun walk_histogram :: "(f64 \<times> nat) list \<Rightarrow> nat \<Rightarrow> nat \<Rightarrow> f64 option" where
  "walk_histogram [] cumulative target_index = None"
| "walk_histogram ((fee_rate, n) # hs) cumulative target_index =
    (let cumulative = w64 (cumulative + n) in
     if target_index \<le> cumulative then Some fee_rate else walk_histogram hs cumulative target_index)"

definition total_txs :: "(f64 \<times> nat) list \<Rightarrow> nat" where
  "total_txs h = foldl (\<lambda>s b. w64 (s + snd b)) 0 h"

definition target_index :: "nat \<Rightarrow> f64 \<Rightarrow> nat" where
  "target_index n percentile = f64_as_uint 64 (f64_ceil (f64_mul (f64_of_u64 n) percentile))"

definition sample_fee_rate_sat_per_vb :: "order \<Rightarrow> mempool \<Rightarrow> f64 \<Rightarrow> f64" where
  "sample_fee_rate_sat_per_vb it m percentile =
    (let histogram = fee_histogram it m in
     if histogram = [] then mempool_min_fee_rate m
     else if total_txs histogram = 0 then mempool_min_fee_rate m
     else
       case walk_histogram histogram 0 (target_index (total_txs histogram) percentile) of
         Some fee_rate \<Rightarrow> fee_rate
       | None \<Rightarrow> fst (last histogram))"

fun sat_per_vb :: "order \<Rightarrow> mempool \<Rightarrow> confirmation_target \<Rightarrow> f64" where
  "sat_per_vb it m MaximumFeeEstimate = sample_fee_rate_sat_per_vb it m (f64_lit 5 100)"
| "sat_per_vb it m UrgentOnChainSweep = sample_fee_rate_sat_per_vb it m (f64_lit 1 10)"
| "sat_per_vb it m AnchorChannelFee = sample_fee_rate_sat_per_vb it m (f64_lit 5 10)"
| "sat_per_vb it m NonAnchorChannelFee = Fin 1"
| "sat_per_vb it m ChannelCloseMinimum = sample_fee_rate_sat_per_vb it m (Fin 1)"
| "sat_per_vb it m MinAllowedAnchorChannelRemoteFee = mempool_min_fee_rate m"
| "sat_per_vb it m MinAllowedNonAnchorChannelRemoteFee = mempool_min_fee_rate m"
| "sat_per_vb it m OutputSpendingFee = sample_fee_rate_sat_per_vb it m (f64_lit 6 10)"

fun fee_floor :: "confirmation_target \<Rightarrow> nat" where
  "fee_floor MaximumFeeEstimate = 50000"
| "fee_floor UrgentOnChainSweep = 5000"
| "fee_floor NonAnchorChannelFee = 253"
| "fee_floor AnchorChannelFee = 1000"
| "fee_floor ChannelCloseMinimum = 253"
| "fee_floor _ = 253"

definition get_est_sat_per_1000_weight :: "order \<Rightarrow> mempool \<Rightarrow> confirmation_target \<Rightarrow> nat" where
  "get_est_sat_per_1000_weight it m target =
    (let sat_per_kw = f64_as_uint 32 (f64_mul (sat_per_vb it m target) (Fin 250))
     in max sat_per_kw (fee_floor target))"

definition sweep_fee_rate :: "order \<Rightarrow> mempool \<Rightarrow> nat" where
  "sweep_fee_rate it m = get_est_sat_per_1000_weight it m OutputSpendingFee"

section \<open>Sampling is antitone in the percentile\<close>

abbreviation falling :: "(f64 \<times> nat) list \<Rightarrow> bool" where
  "falling \<equiv> sorted_wrt (\<lambda>x y. f64_less (fst y) (fst x))"

definition rate_at :: "(f64 \<times> nat) list \<Rightarrow> nat \<Rightarrow> nat \<Rightarrow> f64" where
  "rate_at h c t = (case walk_histogram h c t of Some r \<Rightarrow> r | None \<Rightarrow> fst (last h))"

lemma rate_at_Cons:
  "rate_at ((r, n) # h) c t =
    (if t \<le> w64 (c + n) \<or> h = [] then r else rate_at h (w64 (c + n)) t)"
  by (simp add: rate_at_def Let_def split: option.split)

lemma rate_at_mem: "h \<noteq> [] \<Longrightarrow> rate_at h c t \<in> fst ` set h"
proof (induction h arbitrary: c)
  case Nil
  then show ?case by simp
next
  case (Cons x h)
  then show ?case by (cases x) (auto simp: rate_at_Cons)
qed

lemma rate_at_antitone:
  assumes "falling h" and "h \<noteq> []" and "t \<le> t'" and "NaN \<notin> fst ` set h"
  shows "f64_le (rate_at h c t') (rate_at h c t)"
  using assms
proof (induction h arbitrary: c)
  case Nil
  then show ?case by simp
next
  case (Cons x h)
  obtain r n where x: "x = (r, n)" by (cases x)
  have refl: "f64_le r r"
    using Cons.prems(4) by (cases r) (auto simp: f64_le_def x)
  have tail: "h \<noteq> [] \<Longrightarrow> f64_le (rate_at h d u) r" for d u
    using Cons.prems(1) rate_at_mem [of h d u] by (auto simp: x f64_le_def)
  show ?case
    using Cons.IH [of "w64 (c + n)"] Cons.prems refl tail by (auto simp: x rate_at_Cons)
qed

lemma fee_histogram_falling: "falling (fee_histogram it m)"
proof -
  have "falling (map (\<lambda>b. (b, f b)) boundaries)" for f :: "f64 \<Rightarrow> nat"
    by (simp add: boundaries_def)
  then show ?thesis
    unfolding fee_histogram_eq by (rule sorted_wrt_filter)
qed

lemma fee_histogram_rates: "fst ` set (fee_histogram it m) \<subseteq> set boundaries"
  by (auto simp: fee_histogram_eq)

lemma boundaries_positive: "r \<in> set boundaries \<Longrightarrow> \<exists>a. r = Fin a \<and> 0 \<le> a"
  by (auto simp: boundaries_def)

definition sat_per_kw :: "f64 \<Rightarrow> nat" where
  "sat_per_kw r = f64_as_uint 32 (f64_mul r (Fin 250))"

lemma sat_per_kw_mono:
  "a \<le> b \<Longrightarrow> 0 \<le> a \<Longrightarrow> sat_per_kw (Fin a) \<le> sat_per_kw (Fin b)"
  unfolding sat_per_kw_def f64_mul.simps
  by (intro f64_as_uint_mono f64_round_mono) simp_all

lemma target_index_mono:
  assumes "0 \<le> p" and "p \<le> q"
  shows "target_index n (Fin p) \<le> target_index n (Fin q)"
  unfolding target_index_def f64_of_u64_def f64_mul.simps
  using assms by (intro f64_as_uint_mono f64_ceil_mono f64_round_mono) (simp_all add: mult_left_mono)

lemma sample_antitone:
  assumes "0 \<le> p" and "p \<le> q"
  shows "sat_per_kw (sample_fee_rate_sat_per_vb it m (Fin q))
    \<le> sat_per_kw (sample_fee_rate_sat_per_vb it m (Fin p))"
proof -
  let ?h = "fee_histogram it m" and ?t = "target_index (total_txs (fee_histogram it m))"
  have eq: "sample_fee_rate_sat_per_vb it m r =
      (if ?h = [] \<or> total_txs ?h = 0 then mempool_min_fee_rate m else rate_at ?h 0 (?t r))" for r
    by (simp add: sample_fee_rate_sat_per_vb_def rate_at_def Let_def)
  show ?thesis
  proof (cases "?h = [] \<or> total_txs ?h = 0")
    case True
    then show ?thesis by (simp only: eq if_True)
  next
    case False
    then have ne: "?h \<noteq> []" by simp
    have rates: "\<exists>a. rate_at ?h 0 u = Fin a \<and> 0 \<le> a" for u
      using rate_at_mem [OF ne, of 0 u] fee_histogram_rates [of it m] boundaries_positive by blast
    have "NaN \<notin> fst ` set ?h"
      using fee_histogram_rates [of it m] boundaries_positive by fastforce
    then have "f64_le (rate_at ?h 0 (?t (Fin q))) (rate_at ?h 0 (?t (Fin p)))"
      by (intro rate_at_antitone fee_histogram_falling ne target_index_mono assms)
    with rates [of "?t (Fin q)"] rates [of "?t (Fin p)"] False show ?thesis
      by (auto simp: eq intro: sat_per_kw_mono)
  qed
qed

lemma literal_order:
  "0 \<le> fl_ratio 5 100" "fl_ratio 5 100 \<le> fl_ratio 1 10" "fl_ratio 1 10 \<le> fl_ratio 5 10"
  "fl_ratio 5 10 \<le> fl_ratio 6 10" "fl_ratio 6 10 \<le> 1"
proof -
  have "fl_ratio 6 10 \<le> fl_ratio 1 1"
    by (intro fl_ratio_mono) simp_all
  also have "fl_ratio 1 1 = 1"
    using fl_ratio_exact [of 1] by simp
  finally show "fl_ratio 6 10 \<le> 1" .
qed (auto intro: fl_ratio_mono)

lemma estimate_bounds:
  "fee_floor target \<le> get_est_sat_per_1000_weight it m target \<and>
   get_est_sat_per_1000_weight it m target < 2 ^ 32"
  using f64_as_uint_le [of 32 "f64_mul (sat_per_vb it m target) (Fin 250)"]
  by (cases target) (simp_all add: get_est_sat_per_1000_weight_def Let_def)

section \<open>Properties\<close>


text \<open>
  The estimates of one state of the pool are ordered by urgency: the ceiling for a
  counterparty is no lower than the rate of an urgent sweep, that no lower than the rate that
  bumps an anchor channel, that no lower than the rate of an ordinary sweep, and that no lower
  than the least rate accepted for a cooperative close.
\<close>

theorem fee_estimates_ordered:
  "sorted (map (get_est_sat_per_1000_weight it m)
    [ChannelCloseMinimum, OutputSpendingFee, AnchorChannelFee, UrgentOnChainSweep, MaximumFeeEstimate])"
proof -
  have est: "get_est_sat_per_1000_weight it m t = max (sat_per_kw (sat_per_vb it m t)) (fee_floor t)" for t
    by (simp add: get_est_sat_per_1000_weight_def sat_per_kw_def)
  have 1: "sat_per_kw (sat_per_vb it m ChannelCloseMinimum) \<le> sat_per_kw (sat_per_vb it m OutputSpendingFee)"
    using literal_order by (simp add: f64_lit_def sample_antitone)
  have 2: "sat_per_kw (sat_per_vb it m OutputSpendingFee) \<le> sat_per_kw (sat_per_vb it m AnchorChannelFee)"
    using literal_order by (simp add: f64_lit_def sample_antitone)
  have 3: "sat_per_kw (sat_per_vb it m AnchorChannelFee) \<le> sat_per_kw (sat_per_vb it m UrgentOnChainSweep)"
    using literal_order by (simp add: f64_lit_def sample_antitone)
  have 4: "sat_per_kw (sat_per_vb it m UrgentOnChainSweep) \<le> sat_per_kw (sat_per_vb it m MaximumFeeEstimate)"
    using literal_order by (simp add: f64_lit_def sample_antitone)
  from 1 2 3 4 show ?thesis
    unfolding est by (simp del: sat_per_vb.simps) linarith
qed

end
