(* ===== verification/Ln_Store.thy ===== *)
theory Ln_Store
  imports Node_Store Sample_Db
begin

text \<open>
  \<open>wolfe-lightning/src/persister.rs\<close>: the key-value store of the Lightning library and the
  payment history, two tables of a \<open>redb\<close> database. \<open>Table::range\<close> is the parameter \<open>Rg\<close> with
  its law \<open>range_ok\<close>; the JSON codec of a payment record is \<open>payment_codec\<close>.
\<close>

definition LN_KV :: string where "LN_KV = ''ln_kv''"
definition PAYMENT_HISTORY :: string where "PAYMENT_HISTORY = ''payment_history''"

record payment_record =
  pay_hash :: string
  pay_direction :: string
  pay_status :: string
  pay_amount_msat :: "nat option"
  pay_fee_msat :: "nat option"
  pay_timestamp :: nat

record payment_codec =
  pay_to_json :: "payment_record \<Rightarrow> string + bytes"
  pay_of_json :: "bytes \<Rightarrow> payment_record option"

definition payment_codec_ok :: "payment_codec \<Rightarrow> bool" where
  "payment_codec_ok J \<longleftrightarrow> (\<forall>r bs. pay_to_json J r = Inr bs \<longrightarrow> pay_of_json J bs = Some r)"

type_synonym 'd range =
  "'d \<Rightarrow> string \<Rightarrow> bytes option \<Rightarrow> bytes option \<Rightarrow> store_error + (store_error + bytes \<times> bytes) list"

definition in_range :: "bytes option \<Rightarrow> bytes option \<Rightarrow> bytes \<Rightarrow> bool" where
  "in_range a b k \<longleftrightarrow> (case a of Some lo \<Rightarrow> lo \<le> k | None \<Rightarrow> True) \<and>
    (case b of Some hi \<Rightarrow> k < hi | None \<Rightarrow> True)"

definition range_ok :: "'d redb \<Rightarrow> 'd range \<Rightarrow> bool" where
  "range_ok R Rg \<longleftrightarrow>
    (\<forall>d t a b. rd_has R d t \<longrightarrow>
      Rg d t a b = Inr (map Inr (filter (\<lambda>r. in_range a b (fst r)) (rd_rows R d t))))"

section \<open>Operations\<close>

text \<open>\<open>io::Error\<close> by its kind; the message is that of the database error.\<close>

datatype io_error = IoOther string | IoNotFound string

fun err_text :: "store_fail \<Rightarrow> string" where
  "err_text (StoreErr (Database s)) = s"
| "err_text (StoreErr (Storage s)) = s"
| "err_text (StoreErr (Table s)) = s"
| "err_text (StoreErr (Transaction s)) = s"
| "err_text (StoreErr (Commit s)) = s"
| "err_text _ = []"

definition kv_new :: "'d redb \<Rightarrow> 'd \<Rightarrow> 'd" where
  "kv_new R db =
    (case rd_begin_write R db of
       Inl _ \<Rightarrow> db
     | Inr txn \<Rightarrow>
         (let txn = (case rd_open_write R txn LN_KV of Inl _ \<Rightarrow> txn | Inr t \<Rightarrow> t);
              txn = (case rd_open_write R txn PAYMENT_HISTORY of Inl _ \<Rightarrow> txn | Inr t \<Rightarrow> t)
          in case rd_commit R txn of Inl _ \<Rightarrow> db | Inr db' \<Rightarrow> db'))"

definition payment_key :: "payment_record \<Rightarrow> string" where
  "payment_key r = show_nat (pay_timestamp r) @ ''_'' @ pay_hash r"

definition record_payment :: "'d redb \<Rightarrow> payment_codec \<Rightarrow> 'd \<Rightarrow> payment_record \<Rightarrow> 'd" where
  "record_payment R J db r =
    (case pay_to_json J r of
       Inl _ \<Rightarrow> db
     | Inr json \<Rightarrow>
         (case rd_begin_write R db of
            Inl _ \<Rightarrow> db
          | Inr txn \<Rightarrow>
              (let txn' =
                 (case rd_open_write R txn PAYMENT_HISTORY of
                    Inl _ \<Rightarrow> txn
                  | Inr t \<Rightarrow>
                      (case rd_insert R t PAYMENT_HISTORY (as_bytes (payment_key r)) json of
                         Inl _ \<Rightarrow> t | Inr t' \<Rightarrow> t'))
               in case rd_commit R txn' of Inl _ \<Rightarrow> db | Inr db' \<Rightarrow> db')))"

definition list_payments ::
    "'d redb \<Rightarrow> 'd range \<Rightarrow> payment_codec \<Rightarrow> 'd \<Rightarrow> nat \<Rightarrow> payment_record list" where
  "list_payments R Rg J db limit =
    (case rd_begin_read R db of
       Inl _ \<Rightarrow> []
     | Inr txn \<Rightarrow>
         (case rd_open_read R txn PAYMENT_HISTORY of
            Inl _ \<Rightarrow> []
          | Inr _ \<Rightarrow>
              (case Rg txn PAYMENT_HISTORY None None of
                 Inl _ \<Rightarrow> []
               | Inr es \<Rightarrow>
                   (let all = List.map_filter (\<lambda>e. case e of Inl _ \<Rightarrow> None | Inr kv \<Rightarrow> Some kv) es
                    in List.map_filter (\<lambda>kv. pay_of_json J (snd kv)) (take limit (rev all))))))"

definition make_key :: "string \<Rightarrow> string \<Rightarrow> string \<Rightarrow> string" where
  "make_key primary secondary key =
    (if secondary = [] then primary @ ''/'' @ key else primary @ ''/'' @ secondary @ ''/'' @ key)"

definition make_prefix :: "string \<Rightarrow> string \<Rightarrow> string" where
  "make_prefix primary secondary =
    (if secondary = [] then primary @ ''/'' else primary @ ''/'' @ secondary @ ''/'')"

definition kv_read ::
    "'d redb \<Rightarrow> 'd \<Rightarrow> string \<Rightarrow> string \<Rightarrow> string \<Rightarrow> io_error + bytes" where
  "kv_read R db primary secondary key =
    (let db_key = make_key primary secondary key in
     case in_read R db (\<lambda>txn. fetch R txn LN_KV (as_bytes db_key)) of
       Inr (Some v) \<Rightarrow> Inr v
     | Inr None \<Rightarrow> Inl (IoNotFound (''key not found: '' @ db_key))
     | Inl e \<Rightarrow> Inl (IoOther (err_text e)))"

fun io_result :: "'d \<times> (store_fail + 'a) \<Rightarrow> 'd \<times> (io_error + 'a)" where
  "io_result (db, Inl e) = (db, Inl (IoOther (err_text e)))"
| "io_result (db, Inr x) = (db, Inr x)"

definition kv_write ::
    "'d redb \<Rightarrow> 'd \<Rightarrow> string \<Rightarrow> string \<Rightarrow> string \<Rightarrow> bytes \<Rightarrow> 'd \<times> (io_error + unit)" where
  "kv_write R db primary secondary key buf =
    io_result (in_write R db (\<lambda>txn.
      res_bind (put R txn LN_KV (as_bytes (make_key primary secondary key)) buf) (\<lambda>txn. Inr (txn, ()))))"

definition kv_remove ::
    "'d redb \<Rightarrow> 'd \<Rightarrow> string \<Rightarrow> string \<Rightarrow> string \<Rightarrow> 'd \<times> (io_error + unit)" where
  "kv_remove R db primary secondary key =
    io_result (in_write R db (\<lambda>txn.
      res_bind (del R txn LN_KV (as_bytes (make_key primary secondary key))) (\<lambda>txn. Inr (txn, ()))))"

text \<open>The upper bound: the last character of the prefix is replaced by its successor.\<close>

definition range_end :: "string \<Rightarrow> string" where
  "range_end prefix =
    (if prefix = [] then [] else butlast prefix @ [char_of ((of_char (last prefix) + 1 :: nat))])"

fun collect_keys :: "string \<Rightarrow> (store_error + bytes \<times> bytes) list \<Rightarrow> string list \<Rightarrow> io_error + string list" where
  "collect_keys prefix [] keys = Inr keys"
| "collect_keys prefix (Inl e # es) keys = Inl (IoOther (err_text (StoreErr e)))"
| "collect_keys prefix (Inr (k, v) # es) keys =
    (let full_key = from_bytes k in
     if take (length prefix) full_key = prefix
     then collect_keys prefix es (keys @ [drop (length prefix) full_key])
     else collect_keys prefix es keys)"

definition kv_list ::
    "'d redb \<Rightarrow> 'd range \<Rightarrow> 'd \<Rightarrow> string \<Rightarrow> string \<Rightarrow> io_error + string list" where
  "kv_list R Rg db primary secondary =
    (let prefix = make_prefix primary secondary in
     case in_read R db (\<lambda>txn.
         res_bind (io (rd_open_read R txn LN_KV)) (\<lambda>_.
         io (Rg txn LN_KV (Some (as_bytes prefix)) (Some (as_bytes (range_end prefix)))))) of
       Inl e \<Rightarrow> Inl (IoOther (err_text e))
     | Inr es \<Rightarrow> collect_keys prefix es [])"

section \<open>The key-value store as a map\<close>

text \<open>
  The abstract store: a map from namespace, secondary namespace and key to the bytes written
  last. Its operations and those of the database agree as long as the names hold no slash,
  which is what the library promises of them.
\<close>

type_synonym kv_name = "string \<times> string \<times> string"

definition plain :: "string \<Rightarrow> bool" where
  "plain s \<longleftrightarrow> CHR ''/'' \<notin> set s"

fun plain_name :: "kv_name \<Rightarrow> bool" where
  "plain_name (p, s, k) \<longleftrightarrow> plain p \<and> plain s \<and> plain k"

definition kv_abs :: "'d redb \<Rightarrow> 'd \<Rightarrow> kv_name \<Rightarrow> bytes option" where
  "kv_abs R db n = (case n of (p, s, k) \<Rightarrow> look R db LN_KV (as_bytes (make_key p s k)))"

lemma append_slash_inject:
  "plain a \<Longrightarrow> plain b \<Longrightarrow> a @ CHR ''/'' # x = b @ CHR ''/'' # y \<longleftrightarrow> a = b \<and> x = y"
proof (induction a arbitrary: b)
  case Nil
  then show ?case by (cases b) (auto simp: plain_def)
next
  case (Cons c a)
  then show ?case by (cases b) (auto simp: plain_def)
qed

lemma make_key_inject:
  assumes "plain_name (p, s, k)" and "plain_name (p', s', k')"
  shows "make_key p s k = make_key p' s' k' \<longleftrightarrow> (p, s, k) = (p', s', k')"
proof -
  have no: "k \<noteq> s' @ CHR ''/'' # k'" "k' \<noteq> s @ CHR ''/'' # k"
    using assms by (auto simp: plain_def)
  show ?thesis
    using assms no by (auto simp: make_key_def append_slash_inject)
qed

section \<open>The interface the Lightning library relies on\<close>

text \<open>
  A store of named values: a call that succeeds changes the value of its name only, a call
  that fails changes nothing, and a read gives the value. The names are those of which \<open>ok\<close>
  holds.
\<close>

datatype 'n kv_op = Put (kv_op_name: 'n) bytes | Del (kv_op_name: 'n)

fun kv_step ::
    "('d \<Rightarrow> 'n \<Rightarrow> bytes \<Rightarrow> 'd \<times> ('e + unit)) \<Rightarrow> ('d \<Rightarrow> 'n \<Rightarrow> 'd \<times> ('e + unit)) \<Rightarrow> 'd \<Rightarrow> 'n kv_op
      \<Rightarrow> 'd \<times> ('e + unit)" where
  "kv_step wr rm d (Put n v) = wr d n v"
| "kv_step wr rm d (Del n) = rm d n"

text \<open>A sequence of calls: the last state, and those calls that succeeded.\<close>

fun kv_run ::
    "('d \<Rightarrow> 'n \<Rightarrow> bytes \<Rightarrow> 'd \<times> ('e + unit)) \<Rightarrow> ('d \<Rightarrow> 'n \<Rightarrow> 'd \<times> ('e + unit)) \<Rightarrow> 'd \<Rightarrow> 'n kv_op list
      \<Rightarrow> 'd \<times> 'n kv_op list" where
  "kv_run wr rm d [] = (d, [])"
| "kv_run wr rm d (x # xs) =
    (case kv_step wr rm d x of (d, r) \<Rightarrow>
     case kv_run wr rm d xs of (d, ys) \<Rightarrow> (d, if res_is_ok r then x # ys else ys))"

fun kv_apply :: "('n \<rightharpoonup> bytes) \<Rightarrow> 'n kv_op \<Rightarrow> 'n \<rightharpoonup> bytes" where
  "kv_apply f (Put n v) = f(n \<mapsto> v)"
| "kv_apply f (Del n) = f(n := None)"

lemma kv_apply_name: "kv_apply f x n = (if kv_op_name x = n then kv_apply Map.empty x n else f n)"
  by (cases x) auto

locale kv_store =
  fixes wr :: "'d \<Rightarrow> 'n \<Rightarrow> bytes \<Rightarrow> 'd \<times> ('e + unit)"
    and rm :: "'d \<Rightarrow> 'n \<Rightarrow> 'd \<times> ('e + unit)"
    and ok :: "'n \<Rightarrow> bool"
    and contents :: "'d \<Rightarrow> 'n \<Rightarrow> bytes option"
  assumes step_done: "ok (kv_op_name x) \<Longrightarrow> ok n \<Longrightarrow> kv_step wr rm d x = (d', Inr u) \<Longrightarrow>
      contents d' n = kv_apply (contents d) x n"
    and step_failed: "kv_step wr rm d x = (d', Inl e) \<Longrightarrow> d' = d"
begin

lemma run_contents:
  assumes "\<And>x. x \<in> set xs \<Longrightarrow> ok (kv_op_name x)" and "ok n"
  shows "contents (fst (kv_run wr rm d xs)) n = foldl kv_apply (contents d) (snd (kv_run wr rm d xs)) n"
  using assms(1)
proof (induction xs arbitrary: d)
  case Nil
  then show ?case by simp
next
  case (Cons x xs)
  obtain d1 r where s: "kv_step wr rm d x = (d1, r)"
    by (cases "kv_step wr rm d x")
  obtain d2 ys where run: "kv_run wr rm d1 xs = (d2, ys)"
    by (cases "kv_run wr rm d1 xs")
  have IH: "contents d2 n = foldl kv_apply (contents d1) ys n"
    using Cons.IH [of d1] Cons.prems run by simp
  have cong: "f n = g n \<Longrightarrow> foldl kv_apply f zs n = foldl kv_apply g zs n" for f g zs
  proof (induction zs arbitrary: f g)
    case Nil
    then show ?case by simp
  next
    case (Cons z zs)
    have "kv_apply f z n = kv_apply g z n"
      using Cons.prems by (simp add: kv_apply_name [of f] kv_apply_name [of g])
    then show ?case
      unfolding foldl.simps by (rule Cons.IH)
  qed
  show ?case
  proof (cases r)
    case (Inl e)
    then show ?thesis
      using step_failed [of d x d1 e] s run IH by simp
  next
    case (Inr u)
    then have "contents d1 n = kv_apply (contents d) x n"
      using s Cons.prems assms(2) by (intro step_done) simp_all
    then show ?thesis
      using s run IH Inr cong [of "contents d1" "kv_apply (contents d) x" ys] by simp
  qed
qed

end

section \<open>The database provides it\<close>

fun kv_put :: "'d redb \<Rightarrow> 'd \<Rightarrow> kv_name \<Rightarrow> bytes \<Rightarrow> 'd \<times> (io_error + unit)" where
  "kv_put R db (p, s, k) v = kv_write R db p s k v"

fun kv_del :: "'d redb \<Rightarrow> 'd \<Rightarrow> kv_name \<Rightarrow> 'd \<times> (io_error + unit)" where
  "kv_del R db (p, s, k) = kv_remove R db p s k"

fun kv_get :: "'d redb \<Rightarrow> 'd \<Rightarrow> kv_name \<Rightarrow> io_error + bytes" where
  "kv_get R db (p, s, k) = kv_read R db p s k"

definition kv_ok :: "'d redb \<Rightarrow> kv_name \<Rightarrow> bool" where
  "kv_ok R n \<longleftrightarrow> redb_ok R \<and> plain_name n"

lemma io_result_done: "io_result x = (db', Inr u) \<longleftrightarrow> x = (db', Inr u)"
  by (cases x rule: io_result.cases) auto

lemma in_write_failed: "in_write R db body = (db', Inl e) \<Longrightarrow> db' = db"
  by (auto simp: in_write_def split: sum.splits)

lemma kv_write_done:
  assumes R: "redb_ok R" and names: "plain_name n" "plain_name m"
    and run: "kv_put R db n v = (db', Inr u)"
  shows "kv_abs R db' m = (if m = n then Some v else kv_abs R db m)"
proof -
  obtain p s k p' s' k' where n: "n = (p, s, k)" and m: "m = (p', s', k')"
    by (metis prod_cases3)
  from run obtain txn txn' where "rd_begin_write R db = Inr txn"
    "put R txn LN_KV (as_bytes (make_key p s k)) v = Inr txn'" "rd_commit R txn' = Inr db'"
    by (auto simp: n kv_write_def io_result_done in_write_def res_simps split: sum.splits)
  then show ?thesis
    using redb_begin [OF R] put_look [OF R] names
    by (auto simp: kv_abs_def n m same_rows_def make_key_inject)
qed

lemma kv_remove_done:
  assumes R: "redb_ok R" and names: "plain_name n" "plain_name m"
    and run: "kv_del R db n = (db', Inr u)"
  shows "kv_abs R db' m = (if m = n then None else kv_abs R db m)"
proof -
  obtain p s k p' s' k' where n: "n = (p, s, k)" and m: "m = (p', s', k')"
    by (metis prod_cases3)
  from run obtain txn txn' where "rd_begin_write R db = Inr txn"
    "del R txn LN_KV (as_bytes (make_key p s k)) = Inr txn'" "rd_commit R txn' = Inr db'"
    by (auto simp: n kv_remove_def io_result_done in_write_def res_simps split: sum.splits)
  then show ?thesis
    using redb_begin [OF R] del_look [OF R] names
    by (auto simp: kv_abs_def n m same_rows_def make_key_inject)
qed

lemma kv_failed:
  "kv_put R db n v = (db', Inl e) \<Longrightarrow> db' = db" "kv_del R db n = (db', Inl e) \<Longrightarrow> db' = db"
  by (cases n; auto simp: kv_write_def kv_remove_def in_write_def split: sum.splits)+

interpretation ln_kv: kv_store "kv_put R" "kv_del R" "kv_ok R" "kv_abs R" for R
proof
  fix x n d d' u
  assume "kv_ok R (kv_op_name x)" "kv_ok R n" "kv_step (kv_put R) (kv_del R) d x = (d', Inr u)"
  then show "kv_abs R d' n = kv_apply (kv_abs R d) x n"
    by (cases x) (auto simp: kv_ok_def kv_write_done kv_remove_done)
next
  fix x d d' e
  assume "kv_step (kv_put R) (kv_del R) d x = (d', Inl e)"
  then show "d' = d"
    by (cases x) (auto dest: kv_failed)
qed

lemma kv_read_found:
  assumes R: "redb_ok R"
  shows "kv_read R db p s k = Inr v \<Longrightarrow> kv_abs R db (p, s, k) = Some v"
    and "kv_read R db p s k = Inl (IoNotFound e) \<Longrightarrow> kv_abs R db (p, s, k) = None"
proof -
  have "in_read R db (\<lambda>txn. fetch R txn LN_KV (as_bytes (make_key p s k))) = Inr w \<Longrightarrow>
      kv_abs R db (p, s, k) = w" for w
    by (auto simp: in_read_def res_simps kv_abs_def same_rows_def
        dest!: fetch_look [OF R] redb_begin(1) [OF R])
  then show "kv_read R db p s k = Inr v \<Longrightarrow> kv_abs R db (p, s, k) = Some v"
    and "kv_read R db p s k = Inl (IoNotFound e) \<Longrightarrow> kv_abs R db (p, s, k) = None"
    by (auto simp: kv_read_def Let_def split: sum.splits option.splits)
qed

section \<open>Ranges of keys\<close>

lemma byte_slash: "47 \<le> x \<Longrightarrow> x < 48 \<Longrightarrow> x = (47 :: byte)"
  by (simp add: word_le_nat_alt word_less_nat_alt word_unat_eq_iff)

lemma slash_range:
  "p @ [47] \<le> k \<and> k < p @ [48 :: byte] \<longleftrightarrow> take (Suc (length p)) k = p @ [47]"
proof (induction p arbitrary: k)
  case Nil
  show ?case
  proof (cases k)
    case Nil
    then show ?thesis by simp
  next
    case (Cons x r)
    have "47 \<le> x \<and> x < 48 \<longleftrightarrow> x = 47"
      using byte_slash [of x] by auto
    then show ?thesis
      using Cons by (cases r) (auto simp: order_le_less)
  qed
next
  case (Cons c p)
  show ?case
  proof (cases k)
    case Nil
    then show ?thesis by simp
  next
    case k: (Cons x r)
    show ?thesis
      using Cons.IH [of r] less_asym [of c x] by (cases "c = x") (auto simp: k)
  qed
qed

lemma as_from_bytes [simp]: "as_bytes (from_bytes bs) = bs"
proof -
  have "unat b mod 256 = unat b" for b :: byte
    by (rule mod_less) (use unsigned_less [of b] in simp)
  then show ?thesis
    by (simp add: from_bytes_def as_bytes_def comp_def)
qed

lemma as_bytes_Nil [simp]: "as_bytes [] = []"
  by (simp add: as_bytes_def)

lemma as_bytes_append [simp]: "as_bytes (s @ t) = as_bytes s @ as_bytes t"
  by (simp add: as_bytes_def)

lemma from_bytes_append [simp]: "from_bytes (s @ t) = from_bytes s @ from_bytes t"
  by (simp add: from_bytes_def)

lemma length_as_bytes [simp]: "length (as_bytes s) = length s" "length (from_bytes bs) = length bs"
  by (simp_all add: as_bytes_def from_bytes_def)

lemma make_prefix_snoc: "\<exists>q. make_prefix p s = q @ ''/''"
  by (auto simp: make_prefix_def)

lemma make_key_prefix: "make_key p s k = make_prefix p s @ k"
  by (simp add: make_key_def make_prefix_def)

lemma prefix_range:
  "in_range (Some (as_bytes (make_prefix p s))) (Some (as_bytes (range_end (make_prefix p s)))) k \<longleftrightarrow>
    (\<exists>x. k = as_bytes (make_key p s x))"
proof -
  obtain q where q: "make_prefix p s = q @ ''/''"
    using make_prefix_snoc by blast
  have s: "as_bytes ''/'' = [47]" "as_bytes [CHR ''0''] = [48]"
    by (simp_all add: as_bytes_def)
  have c: "as_bytes (CHR ''/'' # x) = 47 # as_bytes x" for x
    by (simp add: as_bytes_def)
  have e: "range_end (q @ ''/'') = q @ ''0''"
    by (simp add: range_end_def) code_simp
  have "take (Suc (length q)) k = as_bytes q @ [47] \<longleftrightarrow> (\<exists>x. k = as_bytes (q @ ''/'') @ as_bytes x)"
    (is "?l \<longleftrightarrow> ?r")
  proof
    assume ?l
    then have "k = (as_bytes q @ [47]) @ as_bytes (from_bytes (drop (Suc (length q)) k))"
      by (metis append_take_drop_id as_from_bytes)
    then show ?r
      unfolding as_bytes_append s by blast
  qed (auto simp: s)
  then show ?thesis
    using slash_range [of "as_bytes q" k] by (simp add: in_range_def q e s c make_key_prefix)
qed

lemma collect_keys_map:
  "collect_keys p (map Inr rs) ks =
    Inr (ks @ map (\<lambda>r. drop (length p) (from_bytes (fst r)))
      (filter (\<lambda>r. take (length p) (from_bytes (fst r)) = p) rs))"
proof (induction rs arbitrary: ks)
  case Nil
  then show ?case by simp
next
  case (Cons r rs)
  then show ?case by (cases r) (simp add: Let_def)
qed

section \<open>Properties of the store\<close>

text \<open>
  C13: The database refines the map from names to values: after any sequence of writes and
  removals, some of which may have failed, a read returns the bytes that the last successful
  call left under that name, and reports a missing key only where there is none.
\<close>

theorem kv_refines_map:
  assumes "redb_ok R" and "\<And>x. x \<in> set ops \<Longrightarrow> plain_name (kv_op_name x)" and "plain_name n"
    and "kv_run (kv_put R) (kv_del R) db ops = (db', done)"
  shows "(case kv_get R db' n of
      Inr v \<Rightarrow> foldl kv_apply (kv_abs R db) done n = Some v
    | Inl (IoNotFound _) \<Rightarrow> foldl kv_apply (kv_abs R db) done n = None
    | Inl (IoOther _) \<Rightarrow> True)"
proof -
  have c: "kv_abs R db' n = foldl kv_apply (kv_abs R db) done n"
    using ln_kv.run_contents [of ops R n db] assms by (simp add: kv_ok_def)
  have "kv_get R db' n = Inr v \<Longrightarrow> kv_abs R db' n = Some v"
    "kv_get R db' n = Inl (IoNotFound e) \<Longrightarrow> kv_abs R db' n = None" for v e
    using kv_read_found [OF assms(1), of db'] by (cases n; simp)+
  then show ?thesis
    by (auto simp: c split: io_error.split sum.split)
qed

text \<open>
  A listing that succeeds holds exactly the keys that have a value under the namespace,
  each once. For a primary namespace without a secondary one this includes the keys of its
  secondary namespaces, written with their slash.
\<close>

theorem kv_list_exact:
  assumes R: "redb_ok R" and Rg: "range_ok R Rg" and run: "kv_list R Rg db p s = Inr ks"
  shows "distinct ks \<and> (\<forall>k. k \<in> set ks \<longleftrightarrow> kv_abs R db (p, s, k) \<noteq> None) \<and>
    (\<forall>s' k. s = [] \<longrightarrow> s' \<noteq> [] \<longrightarrow> (s' @ ''/'' @ k \<in> set ks \<longleftrightarrow> kv_abs R db (p, s', k) \<noteq> None))"
proof -
  let ?P = "make_prefix p s" and ?key = "\<lambda>x. as_bytes (make_key p s x)"
  from run obtain txn es where t: "rd_begin_read R db = Inr txn" "rd_open_read R txn LN_KV = Inr ()"
      "Rg txn LN_KV (Some (as_bytes ?P)) (Some (as_bytes (range_end ?P))) = Inr es"
    and c: "collect_keys ?P es [] = Inr ks"
    by (auto simp: kv_list_def in_read_def res_simps Let_def split: sum.splits)
  have same: "look R txn = look R db"
    using redb_begin(1) [OF R t(1)] by (simp add: same_rows_def)
  let ?rows = "filter (\<lambda>r. in_range (Some (as_bytes ?P)) (Some (as_bytes (range_end ?P))) (fst r))
      (rd_rows R txn LN_KV)"
  have es: "es = map Inr ?rows"
    using t(3) Rg redb_open(2) [OF R t(2)] by (simp add: range_ok_def)
  have key: "\<exists>x. fst r = ?key x" if "r \<in> set ?rows" for r
    using that by (simp add: prefix_range)
  have ks: "ks = map (\<lambda>r. drop (length ?P) (from_bytes (fst r))) ?rows"
  proof -
    have "filter (\<lambda>r. take (length ?P) (from_bytes (fst r)) = ?P) ?rows = ?rows"
      using key by (intro filter_True ballI) (force simp: make_key_prefix)
    then show ?thesis
      using c unfolding es collect_keys_map by simp
  qed
  have rows: "(?key k, v) \<in> set ?rows \<longleftrightarrow> look R db LN_KV (?key k) = Some v" for k v
    using rows_look [OF R, of "?key k" v txn LN_KV] by (simp add: same prefix_range) blast
  have mem: "k \<in> set ks \<longleftrightarrow> kv_abs R db (p, s, k) \<noteq> None" for k
  proof
    assume "k \<in> set ks"
    then obtain r where r: "r \<in> set ?rows" "k = drop (length ?P) (from_bytes (fst r))"
      unfolding ks by auto
    from key [OF r(1)] obtain x where x: "fst r = ?key x" by blast
    with r(2) have "k = x" by (simp add: make_key_prefix)
    moreover have "r = (?key x, snd r)"
      using x by (simp add: prod_eq_iff)
    ultimately have "(?key k, snd r) \<in> set ?rows"
      using r(1) by metis
    then show "kv_abs R db (p, s, k) \<noteq> None"
      unfolding rows by (simp add: kv_abs_def)
  next
    assume "kv_abs R db (p, s, k) \<noteq> None"
    then obtain v where "(?key k, v) \<in> set ?rows"
      using rows by (auto simp: kv_abs_def)
    moreover have "k = drop (length ?P) (from_bytes (fst (?key k, v)))"
      by (simp add: make_key_prefix)
    ultimately show "k \<in> set ks"
      unfolding ks set_map by blast
  qed
  have "distinct (map fst ?rows)"
    using rows_distinct [OF R, of txn LN_KV] by (simp add: keys_distinct_def distinct_map_filter)
  moreover have "inj_on (\<lambda>k. drop (length ?P) (from_bytes k)) (fst ` set ?rows)"
  proof (rule inj_onI)
    fix a b assume "a \<in> fst ` set ?rows" "b \<in> fst ` set ?rows"
      and eq: "drop (length ?P) (from_bytes a) = drop (length ?P) (from_bytes b)"
    then obtain x y where "a = ?key x" "b = ?key y"
      using key by blast
    with eq show "a = b"
      by (simp add: make_key_prefix)
  qed
  ultimately have "distinct (map (\<lambda>k. drop (length ?P) (from_bytes k)) (map fst ?rows))"
    by (simp only: distinct_map set_map)
  then have "distinct ks"
    by (simp add: ks comp_def)
  moreover have "s = [] \<Longrightarrow> s' \<noteq> [] \<Longrightarrow> kv_abs R db (p, s, s' @ ''/'' @ k) = kv_abs R db (p, s', k)" for s' k
    by (simp add: kv_abs_def make_key_def)
  ultimately show ?thesis
    using mem by simp
qed

section \<open>The payment history\<close>

text \<open>Decimal numbers of the same width are ordered like their digits.\<close>

lemma show_nat_small: "n < 10 \<Longrightarrow> show_nat n = [char_of (48 + n)]"
  by (subst show_nat.simps) simp

lemma show_nat_big: "10 \<le> n \<Longrightarrow> show_nat n = show_nat (n div 10) @ [char_of (48 + n mod 10)]"
  by (subst show_nat.simps) simp

lemma show_nat_nonempty: "show_nat n \<noteq> []"
  by (subst show_nat.simps) simp

lemma show_nat_width: "10 ^ k \<le> n \<Longrightarrow> n < 10 ^ Suc k \<Longrightarrow> length (show_nat n) = Suc k"
proof (induction k arbitrary: n)
  case 0
  then show ?case by (simp add: show_nat_small)
next
  case (Suc k)
  then have "10 ^ k \<le> n div 10" "n div 10 < 10 ^ Suc k" "10 \<le> n"
    using less_eq_div_iff_mult_less_eq [of 10 "10 ^ k" n] by (simp_all add: less_mult_imp_div_less)
      (metis Suc.prems(1) dual_order.trans power_Suc mult.commute one_le_power mult_le_mono1
        nat_mult_1 one_le_numeral)
  then show ?case
    using Suc.IH [of "n div 10"] by (simp add: show_nat_big)
qed

lemma byte_char: "n < 256 \<Longrightarrow> as_bytes [char_of n] = [of_nat n]"
  by (simp add: as_bytes_def)

lemma byte_less: "a < 256 \<Longrightarrow> b < 256 \<Longrightarrow> (of_nat a :: byte) < of_nat b \<longleftrightarrow> a < b"
  by (simp add: word_less_nat_alt unat_byte)

lemma digit_snoc_less:
  fixes a b :: nat
  assumes "length xs = length ys" and "a < 10" and "b < 10"
    and "as_bytes xs < as_bytes ys \<or> xs = ys \<and> a < b"
  shows "as_bytes (xs @ [char_of (48 + a)]) < as_bytes (ys @ [char_of (48 + b)])"
proof -
  have small: "48 + a < 256" "48 + b < 256"
    using assms by simp_all
  have "length (as_bytes xs) = length (as_bytes ys)"
    using assms(1) by simp
  then show ?thesis
    unfolding as_bytes_append byte_char [OF small(1)] byte_char [OF small(2)]
    using assms(4) by (simp only: list_less_snoc_same_length byte_less [OF small]) auto
qed

lemma show_nat_less:
  "length (show_nat a) = length (show_nat b) \<Longrightarrow> a < b \<Longrightarrow> as_bytes (show_nat a) < as_bytes (show_nat b)"
proof (induction a arbitrary: b rule: less_induct)
  case (less a)
  show ?case
  proof (cases "a < 10")
    case True
    then have "b < 10"
      using less.prems(1) show_nat_nonempty [of "b div 10"]
      by (cases "b < 10") (auto simp: show_nat_small show_nat_big)
    with True show ?thesis
      using less.prems(2) digit_snoc_less [of "[]" "[]" a b] by (simp add: show_nat_small)
  next
    case False
    then have a: "10 \<le> a" and b: "10 \<le> b"
      using less.prems(2) by simp_all
    have len: "length (show_nat (a div 10)) = length (show_nat (b div 10))"
      using less.prems(1) unfolding show_nat_big [OF a] show_nat_big [OF b] by (simp only: length_append_singleton nat.inject)
    have "a div 10 < b div 10 \<or> a div 10 = b div 10 \<and> a mod 10 < b mod 10"
    proof (cases "a div 10 = b div 10")
      case True
      then show ?thesis
        using less.prems(2) div_mult_mod_eq [of a 10] div_mult_mod_eq [of b 10] by linarith
    next
      case False
      then show ?thesis
        using div_le_mono [of a b 10] less.prems(2) by simp
    qed
    then have "as_bytes (show_nat (a div 10)) < as_bytes (show_nat (b div 10)) \<or>
        show_nat (a div 10) = show_nat (b div 10) \<and> a mod 10 < b mod 10"
    proof
      assume "a div 10 < b div 10"
      with a len show ?thesis
        by (intro disjI1 less.IH) simp_all
    qed simp
    then show ?thesis
      unfolding show_nat_big [OF a] show_nat_big [OF b]
      by (intro digit_snoc_less len) simp_all
  qed
qed

definition ten_digits :: "payment_record \<Rightarrow> bool" where
  "ten_digits r \<longleftrightarrow> 10 ^ 9 \<le> pay_timestamp r \<and> pay_timestamp r < 10 ^ 10"

lemma same_length_append_less:
  fixes a b :: "'a :: linorder list"
  shows "length a = length b \<Longrightarrow> a < b \<Longrightarrow> a @ x < b @ y"
  by (induction a b rule: list_induct2) auto

lemma payment_key_order:
  assumes "ten_digits a" and "ten_digits b" and "as_bytes (payment_key a) < as_bytes (payment_key b)"
  shows "pay_timestamp a \<le> pay_timestamp b"
proof (rule ccontr)
  assume "\<not> pay_timestamp a \<le> pay_timestamp b"
  moreover have "length (show_nat (pay_timestamp a)) = length (show_nat (pay_timestamp b))"
    using show_nat_width [of 9 "pay_timestamp a"] show_nat_width [of 9 "pay_timestamp b"] assms(1,2)
    by (simp add: ten_digits_def)
  ultimately have "as_bytes (payment_key b) < as_bytes (payment_key a)"
    unfolding payment_key_def as_bytes_append
    by (intro same_length_append_less show_nat_less) simp_all
  with assms(3) show False by simp
qed

definition pay_json :: "payment_codec \<Rightarrow> payment_record \<Rightarrow> bytes" where
  "pay_json J r = projr (pay_to_json J r)"

definition encodes :: "payment_codec \<Rightarrow> payment_record \<Rightarrow> bool" where
  "encodes J r \<longleftrightarrow> res_is_ok (pay_to_json J r)"

lemma pay_json:
  "encodes J r \<Longrightarrow> pay_to_json J r = Inr (pay_json J r)"
  "payment_codec_ok J \<Longrightarrow> encodes J r \<Longrightarrow> pay_of_json J (pay_json J r) = Some r"
  by (auto simp: payment_codec_ok_def pay_json_def encodes_def res_is_ok_iff)

lemma record_payment_look:
  assumes R: "redb_ok R" "redb_up R" and J: "encodes J r"
  shows "look R (record_payment R J db r) PAYMENT_HISTORY =
      (look R db PAYMENT_HISTORY)(as_bytes (payment_key r) \<mapsto> pay_json J r) \<and>
    rd_has R (record_payment R J db r) PAYMENT_HISTORY"
proof -
  obtain t1 where 1: "rd_begin_write R db = Inr t1"
    using redb_up(2) [OF R(2)] by blast
  obtain t2 where 2: "rd_open_write R t1 PAYMENT_HISTORY = Inr t2" "rd_has R t2 PAYMENT_HISTORY"
      "look R t2 = look R t1"
    by (rule open_up [OF R(2,1)])
  obtain t3 where 3: "rd_insert R t2 PAYMENT_HISTORY (as_bytes (payment_key r)) (pay_json J r) = Inr t3"
    using redb_up(7) [OF R(2) 2(2)] by blast
  obtain t4 where 4: "rd_commit R t3 = Inr t4"
    using redb_up(3) [OF R(2)] by blast
  have "record_payment R J db r = t4"
    by (simp add: record_payment_def pay_json(1) [OF J] 1 2 3 4)
  then show ?thesis
    using redb_begin(2) [OF R(1) 1] redb_begin(3) [OF R(1) 4] redb_insert [OF R(1) 3] 2
    by (simp add: same_rows_def)
qed

lemma record_payments_look:
  assumes R: "redb_ok R" "redb_up R" and J: "\<forall>r \<in> set rs. encodes J r"
  shows "look R (foldl (record_payment R J) db rs) PAYMENT_HISTORY =
      look R db PAYMENT_HISTORY ++ map_of (rev (map (\<lambda>r. (as_bytes (payment_key r), pay_json J r)) rs))
    \<and> (rs \<noteq> [] \<longrightarrow> rd_has R (foldl (record_payment R J) db rs) PAYMENT_HISTORY)"
using J
proof (induction rs arbitrary: db)
  case Nil
  then show ?case by simp
next
  case (Cons r rs)
  have "rs = [] \<Longrightarrow> rd_has R (foldl (record_payment R J) db (r # rs)) PAYMENT_HISTORY"
    using record_payment_look [OF R, of J r db] Cons.prems by simp
  then show ?case
    using Cons.IH [of "record_payment R J db r"] record_payment_look [OF R, of J r db] Cons.prems
    by (cases "rs = []") (simp_all add: map_add_def fun_eq_iff split: option.split)
qed

text \<open>What a listing reads: the rows, last key first.\<close>

lemma list_payments_rows:
  assumes R: "redb_ok R" "redb_up R" and Rg: "range_ok R Rg"
    and rows: "rd_has R db PAYMENT_HISTORY \<or> look R db PAYMENT_HISTORY = Map.empty"
  obtains rows where "list_payments R Rg J db limit =
      List.map_filter (\<lambda>kv. pay_of_json J (snd kv)) (take limit (rev rows))"
    and "sorted_wrt (<) (map fst rows)"
    and "\<And>k v. (k, v) \<in> set rows \<longleftrightarrow> look R db PAYMENT_HISTORY k = Some v"
proof -
  obtain txn where t: "rd_begin_read R db = Inr txn"
    using redb_up(1) [OF R(2)] by blast
  have same: "look R txn = look R db" "rd_has R txn = rd_has R db"
    using redb_begin(1) [OF R(1) t] by (simp_all add: same_rows_def)
  have mem: "(k, v) \<in> set (rd_rows R txn PAYMENT_HISTORY) \<longleftrightarrow> look R db PAYMENT_HISTORY k = Some v" for k v
    using rows_look [OF R(1)] by (simp add: same)
  show thesis
  proof (cases "rd_has R db PAYMENT_HISTORY")
    case True
    have "List.map_filter (\<lambda>e. case e of Inl (_ :: store_error) \<Rightarrow> None | Inr kv \<Rightarrow> Some kv) (map Inr xs) = xs"
      for xs :: "(bytes \<times> bytes) list"
      by (induction xs) (simp_all add: List.map_filter_def)
    then have "list_payments R Rg J db limit =
        List.map_filter (\<lambda>kv. pay_of_json J (snd kv)) (take limit (rev (rd_rows R txn PAYMENT_HISTORY)))"
      using redb_up(5) [OF R(2), of txn PAYMENT_HISTORY] Rg True
      by (simp add: list_payments_def t same range_ok_def in_range_def)
    then show thesis
      by (rule that [OF _ rows_sorted [OF R(1)] mem])
  next
    case False
    then have "rd_open_read R txn PAYMENT_HISTORY \<noteq> Inr ()"
      using redb_open(2) [OF R(1), of txn] same by auto
    then have "list_payments R Rg J db limit = []"
      by (cases "rd_open_read R txn PAYMENT_HISTORY") (auto simp: list_payments_def t)
    with False rows show thesis
      by (intro that [of "[]"]) (simp_all add: List.map_filter_def)
  qed
qed

lemma map_of_rev_distinct: "distinct (map fst xs) \<Longrightarrow> map_of (rev xs) = map_of xs"
  by (subst map_of_inject_set) (simp_all add: rev_map [symmetric])

lemma parse_rows:
  "payment_codec_ok J \<Longrightarrow> \<forall>r \<in> set xs. encodes J r \<Longrightarrow>
    List.map_filter (\<lambda>kv. pay_of_json J (snd kv)) (map (\<lambda>r. (f r, pay_json J r)) xs) = xs"
  by (induction xs) (simp_all add: List.map_filter_def pay_json)

text \<open>
  Payments recorded at ten-digit timestamps (from 2001 to 2286) under different keys are
  listed most recent first: the listing and what the limit cuts off are together the recorded
  payments, and nothing that is cut off is more recent than anything listed.
\<close>

theorem payment_history_recent_first:
  assumes R: "redb_ok R" "redb_up R" and Rg: "range_ok R Rg" and J: "payment_codec_ok J"
    and enc: "\<forall>r \<in> set rs. encodes J r"
    and new: "look R db0 PAYMENT_HISTORY = Map.empty"
    and keys: "distinct (map payment_key rs)" and ts: "\<And>r. r \<in> set rs \<Longrightarrow> ten_digits r"
    and out: "out = list_payments R Rg J (foldl (record_payment R J) db0 rs) limit"
  shows "sorted_wrt (\<lambda>a b. pay_timestamp b \<le> pay_timestamp a) out \<and>
    length out = min limit (length rs) \<and>
    (\<exists>rest. mset out + mset rest = mset rs \<and>
      (\<forall>a \<in> set out. \<forall>b \<in> set rest. pay_timestamp b \<le> pay_timestamp a))"
proof -
  let ?db = "foldl (record_payment R J) db0 rs" and ?e = "\<lambda>r. (as_bytes (payment_key r), pay_json J r)"
  have dist: "distinct (map fst (map ?e rs))"
    using keys by (simp add: distinct_map inj_on_def)
  have look: "look R ?db PAYMENT_HISTORY = map_of (map ?e rs)"
    using record_payments_look [OF R enc, of db0] new map_of_rev_distinct [OF dist] by simp
  have has: "rd_has R ?db PAYMENT_HISTORY \<or> look R ?db PAYMENT_HISTORY = Map.empty"
    using record_payments_look [OF R enc, of db0] look by (cases "rs = []") auto
  obtain rows where o: "out = List.map_filter (\<lambda>kv. pay_of_json J (snd kv)) (take limit (rev rows))"
    and srt: "sorted_wrt (<) (map fst rows)"
    and mem: "\<And>k v. (k, v) \<in> set rows \<longleftrightarrow> map_of (map ?e rs) k = Some v"
    using list_payments_rows [OF R Rg has, of J limit] unfolding look out by blast
  have rows: "set rows = set (map ?e rs)"
    using mem dist by (auto simp: map_of_eq_Some_iff)
  define recs where "recs = map (\<lambda>kv. the (pay_of_json J (snd kv))) rows"
  have re: "rows = map ?e recs"
    unfolding recs_def map_map
  proof (rule map_idI [symmetric])
    fix kv assume "kv \<in> set rows"
    with rows obtain r where "r \<in> set rs" "kv = ?e r"
      by auto
    then show "(?e \<circ> (\<lambda>kv. the (pay_of_json J (snd kv)))) kv = kv"
      using enc by (simp add: pay_json(2) [OF J])
  qed
  have "set recs = (\<lambda>kv. the (pay_of_json J (snd kv))) ` ?e ` set rs"
    by (simp add: recs_def rows)
  also have "\<dots> = (\<lambda>r. r) ` set rs"
    unfolding image_image using enc by (intro image_cong refl) (simp add: pay_json(2) [OF J])
  finally have set_recs: "set recs = set rs"
    by simp
  have o': "out = take limit (rev recs)"
    unfolding o re rev_map take_map using enc by (intro parse_rows [OF J]) (auto simp flip: set_recs dest!: in_set_takeD)
  have srt': "sorted_wrt (\<lambda>a b. as_bytes (payment_key a) < as_bytes (payment_key b)) recs"
    using srt by (simp add: re sorted_wrt_map comp_def)
  then have "distinct recs"
    by (induction recs) auto
  moreover have "distinct rs"
    using keys by (simp add: distinct_map)
  ultimately have ms: "mset recs = mset rs"
    using set_recs by (simp add: set_eq_iff_mset_eq_distinct)
  have "sorted_wrt (\<lambda>a b. pay_timestamp a \<le> pay_timestamp b) recs"
    using srt' by (rule sorted_wrt_mono_rel [rotated]) (metis payment_key_order set_recs ts)
  then have "sorted_wrt (\<lambda>a b. pay_timestamp b \<le> pay_timestamp a) (out @ drop limit (rev recs))"
    by (simp add: o' sorted_wrt_rev)
  then have srt2: "sorted_wrt (\<lambda>a b. pay_timestamp b \<le> pay_timestamp a) out"
      "\<forall>a \<in> set out. \<forall>b \<in> set (drop limit (rev recs)). pay_timestamp b \<le> pay_timestamp a"
    by (simp_all add: sorted_wrt_append)
  have "mset out + mset (drop limit (rev recs)) = mset rs"
    unfolding o' mset_append [symmetric] append_take_drop_id mset_rev ms ..
  moreover have "length out = min limit (length rs)"
    using ms by (simp add: o' min.commute) (metis size_mset)
  ultimately show ?thesis
    using srt2 by blast
qed

section \<open>Witnesses\<close>

definition sample_range :: "sample_db range" where
  "sample_range d t a b =
    (if map_of d t = None then no_table
     else Inr (map Inr (filter (\<lambda>r. in_range a b (fst r)) (sample_rows d t))))"

lemma sample_range_ok [simp]: "range_ok sample_redb sample_range"
  by (simp add: range_ok_def sample_range_def)

definition sample_payment :: "string \<Rightarrow> nat \<Rightarrow> payment_record" where
  "sample_payment h n =
    \<lparr>pay_hash = h, pay_direction = ''send'', pay_status = ''completed'', pay_amount_msat = None,
     pay_fee_msat = None, pay_timestamp = 1700000000 + n\<rparr>"

definition sample_payment_codec :: payment_codec where
  "sample_payment_codec =
    \<lparr>pay_to_json = (\<lambda>r. let n = pay_timestamp r - 1700000000 in
        if n < 256 \<and> r = sample_payment (pay_hash r) n
        then Inr (of_nat n # as_bytes (pay_hash r)) else Inl ''record''),
     pay_of_json = (\<lambda>bs. case bs of [] \<Rightarrow> None
        | b # bs \<Rightarrow> Some (sample_payment (from_bytes bs) (unat b)))\<rparr>"

lemma sample_payment_codec_ok [simp]: "payment_codec_ok sample_payment_codec"
  unfolding payment_codec_ok_def
proof (intro allI impI)
  fix r bs assume a: "pay_to_json sample_payment_codec r = Inr bs"
  define n where "n = pay_timestamp r - 1700000000"
  from a have n: "n < 256" "r = sample_payment (pay_hash r) n" "bs = of_nat n # as_bytes (pay_hash r)"
    by (simp_all add: sample_payment_codec_def n_def [symmetric] split: if_splits)
  have "pay_of_json sample_payment_codec bs = Some (sample_payment (pay_hash r) n)"
    using n(1) by (simp add: sample_payment_codec_def n(3) unat_byte)
  with n(2) show "pay_of_json sample_payment_codec bs = Some r"
    by simp
qed

lemma sample_payment_encodes: "n < 256 \<Longrightarrow> encodes sample_payment_codec (sample_payment h n)"
  by (simp add: encodes_def sample_payment_codec_def sample_payment_def)

theorem payment_history_recent_first_witness:
  "length (list_payments sample_redb sample_range sample_payment_codec
      (foldl (record_payment sample_redb sample_payment_codec) [] [sample_payment ''a'' 3, sample_payment ''b'' 9]) 1) = 1"
proof -
  let ?rs = "[sample_payment ''a'' 3, sample_payment ''b'' 9]"
  have "\<forall>r \<in> set ?rs. encodes sample_payment_codec r"
    by (simp add: sample_payment_encodes)
  moreover have "distinct (map payment_key ?rs)"
    by (simp add: payment_key_def sample_payment_def)
  moreover have "ten_digits r" if "r \<in> set ?rs" for r
    using that by (auto simp: ten_digits_def sample_payment_def)
  moreover have "look sample_redb [] PAYMENT_HISTORY = Map.empty"
    by (simp add: sample_look fun_eq_iff)
  ultimately have "length (list_payments sample_redb sample_range sample_payment_codec
      (foldl (record_payment sample_redb sample_payment_codec) [] ?rs) 1) = min 1 (length ?rs)"
    using payment_history_recent_first [OF sample_redb_ok sample_redb_up sample_range_ok
        sample_payment_codec_ok _ _ _ _ refl, of ?rs "[]" 1] by blast
  then show ?thesis
    by simp
qed

theorem kv_refines_map_witness:
  "\<exists>db v. kv_run (kv_put sample_redb) (kv_del sample_redb) [] [Put (''m'', [], ''k'') [7], Del (''m'', [], ''j'')] =
      (db, [Put (''m'', [], ''k'') [7], Del (''m'', [], ''j'')]) \<and>
    (kv_get sample_redb db (''m'', [], ''k'') = Inr v \<longrightarrow> v = [7])"
proof -
  obtain db where run: "kv_run (kv_put sample_redb) (kv_del sample_redb) [] [Put (''m'', [], ''k'') [7], Del (''m'', [], ''j'')] =
      (db, [Put (''m'', [], ''k'') [7], Del (''m'', [], ''j'')])"
    by (simp add: kv_write_def kv_remove_def in_write_def put_def del_def)
  show ?thesis
    using kv_refines_map [OF _ _ _ run, of "(''m'', [], ''k'')"] run
    by (auto simp: plain_def split: sum.splits)
qed

theorem kv_list_exact_witness:
  "\<exists>ks. kv_list sample_redb sample_range [(LN_KV, [(as_bytes ''a/x'', [1]), (as_bytes ''a/s/y'', [2])])] ''a'' [] = Inr ks \<and>
    ''x'' \<in> set ks \<and> ''s/y'' \<in> set ks"
proof -
  let ?db = "[(LN_KV, [(as_bytes ''a/x'', [1 :: byte]), (as_bytes ''a/s/y'', [2])])]"
  obtain ks where run: "kv_list sample_redb sample_range ?db ''a'' [] = Inr ks"
    by (simp add: kv_list_def in_read_def sample_range_def Let_def collect_keys_map)
  show ?thesis
    using kv_list_exact [OF sample_redb_ok sample_range_ok run] run
    by (auto simp: kv_abs_def sample_look make_key_def)
qed

end
