(* ===== verification/Wallet.thy ===== *)
theory Wallet
  imports Config
begin

text \<open>
  \<open>wolfe-wallet\<close>: the node's wallet around the crates \<open>bdk_wallet\<close> and \<open>rusqlite\<close>, which are the
  record of parameters \<open>bdk\<close> on an abstract wallet \<open>'w\<close>, connection \<open>'c\<close> and PSBT \<open>'p\<close>. A method
  that takes \<open>&mut self\<close> returns the wallet after the call and its result: what it changed
  before an error stays changed.
\<close>

datatype wallet_error =
    Disabled
  | Bdk string
  | WalletDatabase string
  | InvalidAddress string
  | InsufficientFunds nat nat
  | Signing string
  | NotLoaded

datatype keychain = External | Internal

record wallet_balance =
  wb_confirmed :: nat
  wb_trusted_pending :: nat
  wb_untrusted_pending :: nat
  wb_immature :: nat

record tx_summary =
  ts_txid :: string
  ts_confirmed :: bool

text \<open>
  \<open>bd_persist\<close> may change the wallet and the connection even when it fails; \<open>bd_finish\<close> is
  \<open>build_tx\<close>, \<open>add_recipient\<close>, \<open>fee_rate\<close>, \<open>finish\<close>; the flag of \<open>bd_sign\<close> is
  \<open>trust_witness_utxo\<close>; \<open>bd_block\<close> and \<open>bd_tx\<close> are the conversions between the two versions of
  the \<open>bitcoin\<close> types.
\<close>

record ('w, 'c, 'p, 'm) bdk =
  bd_open :: "string \<Rightarrow> string + 'c"
  bd_execute :: "'c \<Rightarrow> string \<Rightarrow> 'c \<times> string option"
  bd_load :: "'c \<Rightarrow> (string \<times> string) option \<Rightarrow> network \<Rightarrow> 'c \<times> (string + 'w option)"
  bd_create :: "'c \<Rightarrow> string \<Rightarrow> string \<Rightarrow> network \<Rightarrow> 'c \<times> (string + 'w)"
  bd_persist :: "'w \<Rightarrow> 'c \<Rightarrow> 'w \<times> 'c \<times> string option"
  bd_reveal :: "'w \<Rightarrow> keychain \<Rightarrow> 'w \<times> string"
  bd_balance :: "'w \<Rightarrow> wallet_balance"
  bd_block :: "block \<Rightarrow> string + block"
  bd_tx :: "transaction \<Rightarrow> transaction option"
  bd_apply :: "'w \<Rightarrow> block \<Rightarrow> nat \<Rightarrow> 'w \<times> string option"
  bd_apply_connected :: "'w \<Rightarrow> block \<Rightarrow> nat \<Rightarrow> nat \<times> hash \<Rightarrow> 'w \<times> string option"
  bd_unconfirmed :: "'w \<Rightarrow> (transaction \<times> nat) list \<Rightarrow> 'w"
  bd_fee_rate :: "nat \<Rightarrow> nat option"
  bd_address :: "string \<Rightarrow> string + bytes"
  bd_finish :: "'w \<Rightarrow> bytes \<Rightarrow> nat \<Rightarrow> nat \<Rightarrow> 'w \<times> (string + 'p)"
  bd_sign :: "'w \<Rightarrow> bool \<Rightarrow> 'p \<Rightarrow> string + 'p \<times> bool"
  bd_extract :: "'p \<Rightarrow> string + transaction"
  bd_show_psbt :: "'p \<Rightarrow> string"
  bd_parse_psbt :: "string \<Rightarrow> string + 'p"
  bd_transactions :: "'w \<Rightarrow> (hash \<times> bool) list"
  bd_network :: "'w \<Rightarrow> network"
  bd_mnemonic :: "string + 'm"
  bd_xprv :: "'m \<Rightarrow> network \<Rightarrow> string + string option"

record ('w, 'c) node_wallet =
  nw_wallet :: 'w
  nw_db :: 'c

section \<open>Opening\<close>

text \<open>\<open>key.replace('\'', "''")\<close>: every quote is doubled.\<close>

definition escape_quotes :: "string \<Rightarrow> string" where
  "escape_quotes s = concat (map (\<lambda>c. if c = CHR 0x27 then [CHR 0x27, CHR 0x27] else [c]) s)"

definition pragma_key :: "string \<Rightarrow> string" where
  "pragma_key key = ''PRAGMA key = '' @ [CHR 0x27] @ escape_quotes key @ [CHR 0x27] @ '';''"

definition open_with_encryption ::
    "('w, 'c, 'p, 'm) bdk \<Rightarrow> string \<Rightarrow> network \<Rightarrow> string \<Rightarrow> string \<Rightarrow> string option
      \<Rightarrow> wallet_error + ('w, 'c) node_wallet" where
  "open_with_encryption B path network extern intern enc_key =
    (case bd_open B path of
       Inl e \<Rightarrow> Inl (WalletDatabase e)
     | Inr db \<Rightarrow>
         res_bind
           (case enc_key of
              None \<Rightarrow> Inr db
            | Some key \<Rightarrow>
                (case bd_execute B db (pragma_key key) of
                   (_, Some e) \<Rightarrow> Inl (WalletDatabase
                     (''failed to set encryption key (is SQLCipher enabled?): '' @ e))
                 | (db, None) \<Rightarrow> Inr db)) (\<lambda>db.
         case bd_load B db (Some (extern, intern)) network of
           (_, Inl e) \<Rightarrow> Inl (Bdk e)
         | (db, Inr (Some wallet)) \<Rightarrow> Inr \<lparr>nw_wallet = wallet, nw_db = db\<rparr>
         | (db, Inr None) \<Rightarrow>
             (case bd_create B db extern intern network of
                (_, Inl e) \<Rightarrow> Inl (Bdk e)
              | (db, Inr wallet) \<Rightarrow> Inr \<lparr>nw_wallet = wallet, nw_db = db\<rparr>)))"

definition wallet_open ::
    "('w, 'c, 'p, 'm) bdk \<Rightarrow> string \<Rightarrow> network \<Rightarrow> string \<Rightarrow> string
      \<Rightarrow> wallet_error + ('w, 'c) node_wallet" where
  "wallet_open B path network extern intern = open_with_encryption B path network extern intern None"

definition load_existing ::
    "('w, 'c, 'p, 'm) bdk \<Rightarrow> string \<Rightarrow> network \<Rightarrow> wallet_error + ('w, 'c) node_wallet" where
  "load_existing B path network =
    (case bd_open B path of
       Inl e \<Rightarrow> Inl (WalletDatabase e)
     | Inr db \<Rightarrow>
         (case bd_load B db None network of
            (_, Inl e) \<Rightarrow> Inl (Bdk e)
          | (db, Inr (Some wallet)) \<Rightarrow> Inr \<lparr>nw_wallet = wallet, nw_db = db\<rparr>
          | (_, Inr None) \<Rightarrow> Inl (Bdk ''no existing wallet found in database'')))"

definition coin_type :: "network \<Rightarrow> nat" where
  "coin_type network = (case network of Bitcoin \<Rightarrow> 0 | _ \<Rightarrow> 1)"

definition bip84_descriptor :: "string \<Rightarrow> network \<Rightarrow> nat \<Rightarrow> string" where
  "bip84_descriptor xprv network chain =
    ''wpkh('' @ xprv @ ''/84h/'' @ show_nat (coin_type network) @ ''h/0h/'' @ show_nat chain @ ''/*)''"

text \<open>\<open>bd_xprv\<close> is \<open>into_extended_key\<close>, which may fail, and \<open>into_xprv\<close>, which may give nothing.\<close>

definition from_mnemonic ::
    "('w, 'c, 'p, 'm) bdk \<Rightarrow> string \<Rightarrow> network \<Rightarrow> 'm \<Rightarrow> wallet_error + ('w, 'c) node_wallet" where
  "from_mnemonic B path network mnemonic =
    (case bd_xprv B mnemonic network of
       Inl e \<Rightarrow> Inl (Bdk (''key derivation: '' @ e))
     | Inr None \<Rightarrow> Inl (Bdk ''failed to derive xprv'')
     | Inr (Some xprv) \<Rightarrow>
         wallet_open B path network (bip84_descriptor xprv network 0) (bip84_descriptor xprv network 1))"

definition create_new ::
    "('w, 'c, 'p, 'm) bdk \<Rightarrow> string \<Rightarrow> network \<Rightarrow> wallet_error + ('w, 'c) node_wallet \<times> 'm" where
  "create_new B path network =
    (case bd_mnemonic B of
       Inl e \<Rightarrow> Inl (Bdk (''mnemonic generation: '' @ e))
     | Inr mnemonic \<Rightarrow>
         (case bd_xprv B mnemonic network of
            Inl e \<Rightarrow> Inl (Bdk (''key derivation: '' @ e))
          | Inr None \<Rightarrow> Inl (Bdk ''failed to derive xprv'')
          | Inr (Some xprv) \<Rightarrow>
              res_bind (wallet_open B path network
                  (bip84_descriptor xprv network 0) (bip84_descriptor xprv network 1)) (\<lambda>w.
              Inr (w, mnemonic))))"

section \<open>Operations\<close>

type_synonym ('w, 'c, 'a) wallet_step = "('w, 'c) node_wallet \<times> (wallet_error + 'a)"

definition wallet_persist ::
    "('w, 'c, 'p, 'm) bdk \<Rightarrow> ('w, 'c) node_wallet \<Rightarrow> 'a \<Rightarrow> ('w, 'c, 'a) wallet_step" where
  "wallet_persist B s x =
    (case bd_persist B (nw_wallet s) (nw_db s) of
       (w, c, e) \<Rightarrow> (\<lparr>nw_wallet = w, nw_db = c\<rparr>,
         case e of Some e \<Rightarrow> Inl (WalletDatabase e) | None \<Rightarrow> Inr x))"

definition new_address ::
    "('w, 'c, 'p, 'm) bdk \<Rightarrow> ('w, 'c) node_wallet \<Rightarrow> ('w, 'c, string) wallet_step" where
  "new_address B s =
    (case bd_reveal B (nw_wallet s) External of
       (w, addr) \<Rightarrow> wallet_persist B (s\<lparr>nw_wallet := w\<rparr>) addr)"

definition new_change_address ::
    "('w, 'c, 'p, 'm) bdk \<Rightarrow> ('w, 'c) node_wallet \<Rightarrow> ('w, 'c, string) wallet_step" where
  "new_change_address B s =
    (case bd_reveal B (nw_wallet s) Internal of
       (w, addr) \<Rightarrow> wallet_persist B (s\<lparr>nw_wallet := w\<rparr>) addr)"

definition balance :: "('w, 'c, 'p, 'm) bdk \<Rightarrow> ('w, 'c) node_wallet \<Rightarrow> wallet_balance" where
  "balance B s = bd_balance B (nw_wallet s)"

definition balance_total :: "wallet_balance \<Rightarrow> nat" where
  "balance_total b = w64 (wb_confirmed b + wb_trusted_pending b)"

definition apply_block ::
    "('w, 'c, 'p, 'm) bdk \<Rightarrow> ('w, 'c) node_wallet \<Rightarrow> block \<Rightarrow> nat \<Rightarrow> ('w, 'c, unit) wallet_step" where
  "apply_block B s block height =
    (case bd_block B block of
       Inl e \<Rightarrow> (s, Inl (Bdk (''block conversion: '' @ e)))
     | Inr b \<Rightarrow>
         (case bd_apply B (nw_wallet s) b height of
            (w, Some e) \<Rightarrow> (s\<lparr>nw_wallet := w\<rparr>, Inl (Bdk e))
          | (w, None) \<Rightarrow> wallet_persist B (s\<lparr>nw_wallet := w\<rparr>) ()))"

definition rescan_block ::
    "('w, 'c, 'p, 'm) bdk \<Rightarrow> btc \<Rightarrow> ('w, 'c) node_wallet \<Rightarrow> block \<Rightarrow> nat \<Rightarrow> network
      \<Rightarrow> ('w, 'c, unit) wallet_step" where
  "rescan_block B L s block height network =
    (case bd_block B block of
       Inl e \<Rightarrow> (s, Inl (Bdk (''block conversion: '' @ e)))
     | Inr b \<Rightarrow>
         (case bd_apply_connected B (nw_wallet s) b height
             (0, block_hash L (genesis_header L network)) of
            (w, Some e) \<Rightarrow> (s\<lparr>nw_wallet := w\<rparr>,
              Inl (Bdk (''rescan block '' @ show_nat height @ '': '' @ e)))
          | (w, None) \<Rightarrow> wallet_persist B (s\<lparr>nw_wallet := w\<rparr>) ()))"

definition apply_unconfirmed_txs ::
    "('w, 'c, 'p, 'm) bdk \<Rightarrow> ('w, 'c) node_wallet \<Rightarrow> (transaction \<times> nat) list
      \<Rightarrow> ('w, 'c, unit) wallet_step" where
  "apply_unconfirmed_txs B s txs =
    (let converted = List.map_filter (\<lambda>(tx, stamp). map_option (\<lambda>t. (t, stamp)) (bd_tx B tx)) txs
     in wallet_persist B (s\<lparr>nw_wallet := bd_unconfirmed B (nw_wallet s) converted\<rparr>) ())"

definition fund_channel ::
    "('w, 'c, 'p, 'm) bdk \<Rightarrow> ('w, 'c) node_wallet \<Rightarrow> bytes \<Rightarrow> nat \<Rightarrow> nat
      \<Rightarrow> ('w, 'c, transaction) wallet_step" where
  "fund_channel B s output_script channel_value_sats fee_rate =
    (case bd_finish B (nw_wallet s) output_script channel_value_sats fee_rate of
       (w, r) \<Rightarrow>
         let s = s\<lparr>nw_wallet := w\<rparr> in
         case r of
           Inl e \<Rightarrow> (s, Inl (Bdk (''failed to build funding tx: '' @ e)))
         | Inr psbt \<Rightarrow>
             (case bd_sign B w True psbt of
                Inl e \<Rightarrow> (s, Inl (Signing (''funding tx signing: '' @ e)))
              | Inr (psbt, finalized) \<Rightarrow>
                  if \<not> finalized then (s, Inl (Signing ''funding tx not fully signed''))
                  else
                    (case bd_extract B psbt of
                       Inl e \<Rightarrow> (s, Inl (Bdk (''failed to extract tx: '' @ e)))
                     | Inr tx \<Rightarrow> wallet_persist B s tx)))"

text \<open>The fee rate is an \<open>f32\<close>, one of the values of \<open>f64\<close>; \<open>as u64\<close> drops its fraction.\<close>

definition create_psbt ::
    "('w, 'c, 'p, 'm) bdk \<Rightarrow> ('w, 'c) node_wallet \<Rightarrow> string \<Rightarrow> nat \<Rightarrow> f64 \<Rightarrow> bool
      \<Rightarrow> ('w, 'c, string) wallet_step" where
  "create_psbt B s to_address amount_sat fee_rate_sat_per_vb sign =
    (case bd_address B to_address of
       Inl e \<Rightarrow> (s, Inl (Bdk (''invalid address: '' @ e)))
     | Inr script \<Rightarrow>
         (case bd_fee_rate B (f64_as_uint 64 fee_rate_sat_per_vb) of
            None \<Rightarrow> (s, Inl (Bdk ''invalid fee rate''))
          | Some fee_rate \<Rightarrow>
              (case bd_finish B (nw_wallet s) script amount_sat fee_rate of
                 (w, r) \<Rightarrow>
                   let s = s\<lparr>nw_wallet := w\<rparr> in
                   case r of
                     Inl e \<Rightarrow> (s, Inl (Bdk (''failed to build tx: '' @ e)))
                   | Inr psbt \<Rightarrow>
                       (case (if sign then
                            (case bd_sign B w False psbt of
                               Inl e \<Rightarrow> Inl (Bdk (''signing failed: '' @ e)) | Inr (psbt, _) \<Rightarrow> Inr psbt)
                          else Inr psbt) of
                          Inl e \<Rightarrow> (s, Inl e)
                        | Inr psbt \<Rightarrow> wallet_persist B s (bd_show_psbt B psbt)))))"

definition wallet_sign ::
    "('w, 'c, 'p, 'm) bdk \<Rightarrow> ('w, 'c) node_wallet \<Rightarrow> 'p \<Rightarrow> wallet_error + 'p \<times> bool" where
  "wallet_sign B s psbt =
    (case bd_sign B (nw_wallet s) False psbt of Inl e \<Rightarrow> Inl (Bdk e) | Inr r \<Rightarrow> Inr r)"

definition sign_psbt_base64 ::
    "('w, 'c, 'p, 'm) bdk \<Rightarrow> ('w, 'c) node_wallet \<Rightarrow> string \<Rightarrow> wallet_error + string \<times> bool" where
  "sign_psbt_base64 B s psbt_b64 =
    (case bd_parse_psbt B psbt_b64 of
       Inl e \<Rightarrow> Inl (Bdk (''invalid PSBT: '' @ e))
     | Inr psbt \<Rightarrow>
         (case bd_sign B (nw_wallet s) False psbt of
            Inl e \<Rightarrow> Inl (Bdk (''signing failed: '' @ e))
          | Inr (psbt, finalized) \<Rightarrow> Inr (bd_show_psbt B psbt, finalized)))"

definition list_transactions ::
    "('w, 'c, 'p, 'm) bdk \<Rightarrow> btc \<Rightarrow> ('w, 'c) node_wallet \<Rightarrow> tx_summary list" where
  "list_transactions B L s =
    map (\<lambda>(k, conf). \<lparr>ts_txid = hash_str L k, ts_confirmed = conf\<rparr>) (bd_transactions B (nw_wallet s))"

definition RESET_SQL :: string where
  "RESET_SQL =
    (let nl = CHR 0x0A # replicate 17 (CHR '' '') in
     ''DELETE FROM bdk_blocks WHERE block_height > 0;'' @ nl @ ''DELETE FROM bdk_anchors;'' @ nl @
     ''DELETE FROM bdk_txs;'' @ nl @ ''DELETE FROM bdk_txouts;'')"

definition reset_chain ::
    "('w, 'c, 'p, 'm) bdk \<Rightarrow> ('w, 'c) node_wallet \<Rightarrow> ('w, 'c, unit) wallet_step" where
  "reset_chain B s =
    (case bd_execute B (nw_db s) RESET_SQL of
       (db, Some e) \<Rightarrow> (s\<lparr>nw_db := db\<rparr>, Inl (WalletDatabase (''reset chain tables: '' @ e)))
     | (db, None) \<Rightarrow>
         (case bd_load B db None (bd_network B (nw_wallet s)) of
            (db, Inl e) \<Rightarrow> (s\<lparr>nw_db := db\<rparr>, Inl (Bdk e))
          | (db, Inr None) \<Rightarrow> (s\<lparr>nw_db := db\<rparr>, Inl (Bdk ''wallet lost after chain reset''))
          | (db, Inr (Some wallet)) \<Rightarrow> (s\<lparr>nw_wallet := wallet, nw_db := db\<rparr>, Inr ())))"

section \<open>Properties\<close>

text \<open>
  A string literal of SQL, read back: up to the quote that is not doubled. What is returned is
  the value and the text behind the literal.
\<close>

fun sql_chars :: "string \<Rightarrow> string \<Rightarrow> (string \<times> string) option" where
  "sql_chars acc [] = None"
| "sql_chars acc (c # cs) =
    (if c \<noteq> CHR 0x27 then sql_chars (acc @ [c]) cs
     else case cs of d # ds \<Rightarrow> if d = CHR 0x27 then sql_chars (acc @ [CHR 0x27]) ds else Some (acc, cs)
       | [] \<Rightarrow> Some (acc, []))"

fun sql_literal :: "string \<Rightarrow> (string \<times> string) option" where
  "sql_literal [] = None"
| "sql_literal (c # cs) = (if c = CHR 0x27 then sql_chars [] cs else None)"

lemma sql_chars_escape:
  "rest \<noteq> [] \<Longrightarrow> hd rest \<noteq> CHR 0x27 \<Longrightarrow>
    sql_chars acc (escape_quotes s @ CHR 0x27 # rest) = Some (acc @ s, rest)"
proof (induction s arbitrary: acc)
  case Nil
  then show ?case by (cases rest) (simp_all add: escape_quotes_def)
next
  case (Cons c s)
  have "escape_quotes (c # s) =
      (if c = CHR 0x27 then CHR 0x27 # CHR 0x27 # escape_quotes s else c # escape_quotes s)"
    by (simp add: escape_quotes_def)
  with Cons show ?case by simp
qed

text \<open>
  Whatever the configured key is, the statement that is run to set it is one PRAGMA whose
  string literal denotes exactly that key: no key can end the literal early and smuggle in
  another statement.
\<close>

theorem pragma_key_quotes:
  "\<exists>literal. pragma_key key = ''PRAGMA key = '' @ literal \<and> sql_literal literal = Some (key, '';'')"
  using sql_chars_escape [of "'';''" "[]" key] by (simp add: pragma_key_def)

text \<open>
  The words that creating a wallet returns are a backup of it: importing them on the same
  network, into any database, opens the wallet with the same two descriptors, and the coin
  type in both is 0 exactly on mainnet.
\<close>

theorem mnemonic_recovers_wallet:
  assumes "create_new B path network = Inr (w, mnemonic)"
  shows "\<exists>xprv. let extern = bip84_descriptor xprv network 0; intern = bip84_descriptor xprv network 1 in
    wallet_open B path network extern intern = Inr w \<and>
    (\<forall>path'. from_mnemonic B path' network mnemonic = wallet_open B path' network extern intern) \<and>
    (\<exists>rest. extern = ''wpkh('' @ xprv @ ''/84h/'' @ (if network = Bitcoin then ''0'' else ''1'') @ rest)"
proof -
  from assms obtain xprv where x: "bd_mnemonic B = Inr mnemonic" "bd_xprv B mnemonic network = Inr (Some xprv)"
    and w: "wallet_open B path network (bip84_descriptor xprv network 0) (bip84_descriptor xprv network 1) = Inr w"
    by (auto simp: create_new_def res_simps split: sum.splits option.splits)
  have "show_nat (coin_type network) = (if network = Bitcoin then ''0'' else ''1'')"
    by (cases network) (simp_all add: coin_type_def show_nat.simps, code_simp+)
  then show ?thesis
    using x w by (intro exI [of _ xprv]) (simp add: Let_def from_mnemonic_def bip84_descriptor_def)
qed

section \<open>Witness\<close>

text \<open>A wallet that counts its addresses, in a database that keeps whether it was created.\<close>

definition sample_bdk :: "(nat, bool, nat, string) bdk" where
  "sample_bdk =
    \<lparr>bd_open = (\<lambda>p. Inr False), bd_execute = (\<lambda>c q. (c, None)),
     bd_load = (\<lambda>c d n. (c, Inr (if c then Some 0 else None))),
     bd_create = (\<lambda>c e i n. (True, Inr 0)), bd_persist = (\<lambda>w c. (w, c, None)),
     bd_reveal = (\<lambda>w k. (w + 1, show_nat w)),
     bd_balance = (\<lambda>w. \<lparr>wb_confirmed = 0, wb_trusted_pending = 0, wb_untrusted_pending = 0, wb_immature = 0\<rparr>),
     bd_block = Inr, bd_tx = Some, bd_apply = (\<lambda>w b h. (w, None)),
     bd_apply_connected = (\<lambda>w b h i. (w, None)), bd_unconfirmed = (\<lambda>w txs. w),
     bd_fee_rate = (\<lambda>r. Some (r * 250)), bd_address = (\<lambda>a. Inr []),
     bd_finish = (\<lambda>w s v f. (w, Inr v)), bd_sign = (\<lambda>w t p. Inr (p, True)),
     bd_extract = (\<lambda>p. Inl ''no transaction''), bd_show_psbt = show_nat,
     bd_parse_psbt = (\<lambda>q. Inl ''psbt''), bd_transactions = (\<lambda>w. []),
     bd_network = (\<lambda>w. Regtest), bd_mnemonic = Inr ''abandon'',
     bd_xprv = (\<lambda>m n. Inr (Some (''xprv'' @ m)))\<rparr>"

theorem mnemonic_recovers_wallet_witness:
  "\<exists>w. create_new sample_bdk ''w.sqlite3'' Regtest = Inr (w, ''abandon'') \<and>
    from_mnemonic sample_bdk ''other'' Regtest ''abandon'' = Inr w"
proof -
  obtain w where w: "create_new sample_bdk ''w.sqlite3'' Regtest = Inr (w, ''abandon'')"
    by (simp add: create_new_def sample_bdk_def wallet_open_def open_with_encryption_def)
  have "wallet_open sample_bdk ''other'' Regtest e i = wallet_open sample_bdk ''w.sqlite3'' Regtest e i" for e i
    by (simp add: sample_bdk_def wallet_open_def open_with_encryption_def)
  with mnemonic_recovers_wallet [OF w] w show ?thesis
    by (auto simp: Let_def)
qed

end
