(* ===== verification/Ln_Events.thy ===== *)
theory Ln_Events
  imports Ln_Fees Ln_Store Wallet
begin

text \<open>
  \<open>wolfe-lightning/src/event_handler.rs\<close> and \<open>lib.rs\<close>: what the node does with the events of the
  Lightning library, and the manager around the library. The library (LDK, third-party code) is
  the record \<open>ldk\<close> of functions on an abstract state \<open>'l\<close> that stands for its channel manager,
  chain monitor, peer manager, graph and scorer together. The wallet that is injected into the
  manager is the node's own wallet, shared with the RPC server. Locks are not poisoned.
\<close>

section \<open>Data\<close>

datatype lightning_error =
    Persistence string
  | LnChannel string
  | LnPayment string
  | PeerConnection string
  | KeyManagement string
  | LnInvoice string
  | NotInitialized
  | LnStore store_fail
  | LnIo io_error

datatype lightning_event =
    PaymentReceivedEv string nat
  | PaymentSentEv string "nat option"
  | PaymentFailedEv string
  | ChannelOpenedEv string string nat
  | ChannelClosedEv string string

type_synonym ln_outpoint = "hash \<times> nat"

record channel =
  ch_id :: bytes
  ch_counterparty :: string
  ch_value_sat :: nat
  ch_outbound_msat :: nat
  ch_inbound_msat :: nat
  ch_usable :: bool
  ch_outbound :: bool
  ch_ready :: bool
  ch_scid :: "nat option"
  ch_funding :: "ln_outpoint option"

text \<open>The last argument stands for the key material of a descriptor, which the node never reads.\<close>

datatype descriptor =
    StaticOutput ln_outpoint txout
  | DelayedPaymentOutput ln_outpoint txout bytes
  | StaticPaymentOutput ln_outpoint txout bytes

datatype purpose = Bolt11Payment "bytes option" | Spontaneous bytes | OtherPurpose

datatype ldk_event =
    FundingGenerationReady bytes string nat bytes
  | OpenChannelRequest bytes string
  | PaymentClaimable bytes nat purpose
  | PaymentClaimed bytes nat
  | PaymentSent bytes "nat option"
  | PaymentFailed "bytes option"
  | SpendableOutputs "descriptor list" "bytes option"
  | ChannelReady bytes string
  | ChannelClosed bytes string
  | BumpChannelClose
  | BumpHtlcResolution
  | OtherEvent

text \<open>
  The library. A call that may fail returns the text of its error; \<open>ld_cm_pending\<close> and
  \<open>ld_mon_pending\<close> hand out the events waiting in the channel manager and in the monitors;
  \<open>ld_tx\<close> and \<open>ld_script\<close> are conversions between the two copies of the \<open>bitcoin\<close> types.
\<close>

record 'l ldk =
  ld_channels :: "'l \<Rightarrow> channel list"
  ld_peers :: "'l \<Rightarrow> (string \<times> string option \<times> bool) list"
  ld_monitors :: "'l \<Rightarrow> bytes list"
  ld_cm_confirmed :: "'l \<Rightarrow> header \<Rightarrow> (nat \<times> transaction) list \<Rightarrow> nat \<Rightarrow> 'l"
  ld_cm_best :: "'l \<Rightarrow> header \<Rightarrow> nat \<Rightarrow> 'l"
  ld_mon_confirmed :: "'l \<Rightarrow> header \<Rightarrow> (nat \<times> transaction) list \<Rightarrow> nat \<Rightarrow> 'l"
  ld_mon_best :: "'l \<Rightarrow> header \<Rightarrow> nat \<Rightarrow> 'l"
  ld_best_height :: "'l \<Rightarrow> nat"
  ld_node_id :: "'l \<Rightarrow> string"
  ld_connect :: "'l \<Rightarrow> string \<Rightarrow> string \<Rightarrow> 'l \<times> bool"
  ld_create_channel :: "'l \<Rightarrow> string \<Rightarrow> nat \<Rightarrow> nat \<Rightarrow> nat \<Rightarrow> 'l \<times> (string + bytes)"
  ld_force_close :: "'l \<Rightarrow> bytes \<Rightarrow> string \<Rightarrow> string \<Rightarrow> 'l \<times> string option"
  ld_close :: "'l \<Rightarrow> bytes \<Rightarrow> string \<Rightarrow> 'l \<times> string option"
  ld_description :: "string \<Rightarrow> string option"
  ld_invoice :: "'l \<Rightarrow> nat option \<Rightarrow> string \<Rightarrow> nat option \<Rightarrow> 'l \<times> (string + string)"
  ld_parse_invoice :: "string \<Rightarrow> string option"
  ld_pay :: "'l \<Rightarrow> string \<Rightarrow> bytes \<Rightarrow> 'l \<times> string option"
  ld_cm_pending :: "'l \<Rightarrow> 'l \<times> ldk_event list"
  ld_mon_pending :: "'l \<Rightarrow> 'l \<times> ldk_event list"
  ld_forward_htlcs :: "'l \<Rightarrow> 'l"
  ld_peer_timer :: "'l \<Rightarrow> 'l"
  ld_cm_timer :: "'l \<Rightarrow> 'l"
  ld_process_peers :: "'l \<Rightarrow> 'l"
  ld_encode_manager :: "'l \<Rightarrow> bytes"
  ld_encode_graph :: "'l \<Rightarrow> bytes"
  ld_encode_scorer :: "'l \<Rightarrow> bytes"
  ld_claim :: "'l \<Rightarrow> bytes \<Rightarrow> 'l"
  ld_accept :: "'l \<Rightarrow> bytes \<Rightarrow> string \<Rightarrow> nat \<Rightarrow> 'l \<times> string option"
  ld_funding :: "'l \<Rightarrow> bytes \<Rightarrow> string \<Rightarrow> transaction \<Rightarrow> 'l \<times> string option"
  ld_destination :: "'l \<Rightarrow> bytes option"
  ld_spend :: "'l \<Rightarrow> descriptor list \<Rightarrow> bytes \<Rightarrow> nat \<Rightarrow> transaction option"
  ld_address :: "bytes \<Rightarrow> network \<Rightarrow> string + string"
  ld_monitor_funding :: "'l \<Rightarrow> bytes \<Rightarrow> ln_outpoint option"
  ld_monitor_outputs :: "'l \<Rightarrow> bytes \<Rightarrow> transaction \<Rightarrow> nat \<Rightarrow> descriptor list option"
  ld_tx :: "transaction \<Rightarrow> transaction option"
  ld_script :: "bytes \<Rightarrow> bytes option"
  ld_hex :: "bytes \<Rightarrow> string"

text \<open>
  What the handlers read and write: the library, the two tables, the wallet, the payment hashes
  that were claimed, the transactions queued for broadcast, and the events for the main loop
  with those that were delivered; \<open>lw_rx_open\<close> says whether their receiver still exists.
\<close>

record ('l, 'd, 'w, 'c) ln_world =
  lw_ldk :: 'l
  lw_db :: 'd
  lw_wallet :: "('w, 'c) node_wallet option"
  lw_paid :: "(bytes \<times> nat) list"
  lw_broadcast :: "transaction list"
  lw_rx_open :: bool
  lw_delivered :: "lightning_event list"

section \<open>Handling an event\<close>

definition send_event ::
    "lightning_event \<Rightarrow> ('l, 'd, 'w, 'c) ln_world \<Rightarrow> ('l, 'd, 'w, 'c) ln_world" where
  "send_event e w = (if lw_rx_open w then w\<lparr>lw_delivered := lw_delivered w @ [e]\<rparr> else w)"

definition broadcast_transactions ::
    "transaction list \<Rightarrow> ('l, 'd, 'w, 'c) ln_world \<Rightarrow> ('l, 'd, 'w, 'c) ln_world" where
  "broadcast_transactions txs w = w\<lparr>lw_broadcast := lw_broadcast w @ txs\<rparr>"

definition persist_channel_manager ::
    "'l ldk \<Rightarrow> 'd redb \<Rightarrow> ('l, 'd, 'w, 'c) ln_world \<Rightarrow> ('l, 'd, 'w, 'c) ln_world" where
  "persist_channel_manager K R w =
    w\<lparr>lw_db := fst (kv_write R (lw_db w) ''channel_manager'' [] ''manager'' (ld_encode_manager K (lw_ldk w)))\<rparr>"

definition record_pay ::
    "'d redb \<Rightarrow> payment_codec \<Rightarrow> payment_record \<Rightarrow> ('l, 'd, 'w, 'c) ln_world \<Rightarrow> ('l, 'd, 'w, 'c) ln_world" where
  "record_pay R J r w = w\<lparr>lw_db := record_payment R J (lw_db w) r\<rparr>"

definition close_funding ::
    "'l ldk \<Rightarrow> bytes \<Rightarrow> string \<Rightarrow> string \<Rightarrow> ('l, 'd, 'w, 'c) ln_world \<Rightarrow> ('l, 'd, 'w, 'c) ln_world" where
  "close_funding K temp cp reason w = w\<lparr>lw_ldk := fst (ld_force_close K (lw_ldk w) temp cp reason)\<rparr>"

text \<open>
  The funding branch; \<open>None\<close> is the panic of \<open>expect\<close>. \<open>show_error\<close> renders a wallet error;
  \<open>rate\<close> is the estimate for a non-anchor channel in sat per 1000 weight.
\<close>

definition funding_rate :: "('w, 'c, 'p, 'm) bdk \<Rightarrow> nat \<Rightarrow> nat option" where
  "funding_rate B rate =
    map_option (\<lambda>least. case bd_fee_rate B (max (rate div 250) 1) of Some r \<Rightarrow> r | None \<Rightarrow> least)
      (bd_fee_rate B 1)"

definition on_funding_ready ::
    "'l ldk \<Rightarrow> ('w, 'c, 'p, 'm) bdk \<Rightarrow> (wallet_error \<Rightarrow> string) \<Rightarrow> nat \<Rightarrow> bytes \<Rightarrow> string \<Rightarrow> nat \<Rightarrow> bytes
      \<Rightarrow> ('l, 'd, 'w, 'c) ln_world \<Rightarrow> ('l, 'd, 'w, 'c) ln_world option" where
  "on_funding_ready K B show_error rate temp cp channel_value output_script w =
    (case lw_wallet w of
       None \<Rightarrow> Some (close_funding K temp cp ''no wallet available for funding'' w)
     | Some wallet \<Rightarrow>
         Option.bind (ld_script K output_script) (\<lambda>script.
         Option.bind (funding_rate B rate) (\<lambda>fee_rate.
         case fund_channel B wallet script channel_value fee_rate of
           (wallet, Inr funding_tx) \<Rightarrow>
             map_option (\<lambda>tx. w\<lparr>lw_wallet := Some wallet,
                 lw_ldk := fst (ld_funding K (lw_ldk w) temp cp tx)\<rparr>) (ld_tx K funding_tx)
         | (wallet, Inl e) \<Rightarrow>
             Some (close_funding K temp cp (''funding generation failed: '' @ show_error e)
               (w\<lparr>lw_wallet := Some wallet\<rparr>)))))"

definition on_spendable ::
    "'l ldk \<Rightarrow> nat \<Rightarrow> descriptor list \<Rightarrow> ('l, 'd, 'w, 'c) ln_world \<Rightarrow> ('l, 'd, 'w, 'c) ln_world" where
  "on_spendable K fee_rate outputs w =
    (case ld_destination K (lw_ldk w) of
       None \<Rightarrow> w
     | Some destination \<Rightarrow>
         (case ld_spend K (lw_ldk w) outputs destination fee_rate of
            Some tx \<Rightarrow> broadcast_transactions [tx] w
          | None \<Rightarrow> w))"

text \<open>The payment records of the three outcomes.\<close>

definition received_record :: "string \<Rightarrow> nat \<Rightarrow> nat \<Rightarrow> payment_record" where
  "received_record h amount now =
    \<lparr>pay_hash = h, pay_direction = ''receive'', pay_status = ''completed'',
     pay_amount_msat = Some amount, pay_fee_msat = None, pay_timestamp = now\<rparr>"

definition sent_record :: "string \<Rightarrow> nat option \<Rightarrow> nat \<Rightarrow> payment_record" where
  "sent_record h fee now =
    \<lparr>pay_hash = h, pay_direction = ''send'', pay_status = ''completed'',
     pay_amount_msat = None, pay_fee_msat = fee, pay_timestamp = now\<rparr>"

definition failed_record :: "string \<Rightarrow> nat \<Rightarrow> payment_record" where
  "failed_record h now =
    \<lparr>pay_hash = h, pay_direction = ''send'', pay_status = ''failed'',
     pay_amount_msat = None, pay_fee_msat = None, pay_timestamp = now\<rparr>"

text \<open>What the handlers use besides the state: the codecs, the pool, the configuration.\<close>

record ('l, 'd, 'w, 'c, 'p, 'm) ln_env =
  le_ldk :: "'l ldk"
  le_redb :: "'d redb"
  le_range :: "'d range"
  le_codec :: payment_codec
  le_bdk :: "('w, 'c, 'p, 'm) bdk"
  le_show_error :: "wallet_error \<Rightarrow> string"
  le_order :: order
  le_btc :: btc

fun handle_ldk_event ::
    "('l, 'd, 'w, 'c, 'p, 'm) ln_env \<Rightarrow> lightning_config \<Rightarrow> mempool \<Rightarrow> nat \<Rightarrow> nat
      \<Rightarrow> ('l, 'd, 'w, 'c) ln_world \<Rightarrow> ldk_event \<Rightarrow> ('l, 'd, 'w, 'c) ln_world option" where
  "handle_ldk_event E cfg pool now rnd w (FundingGenerationReady temp cp channel_value output_script) =
    on_funding_ready (le_ldk E) (le_bdk E) (le_show_error E)
      (get_est_sat_per_1000_weight (le_order E) pool NonAnchorChannelFee) temp cp channel_value output_script w"
| "handle_ldk_event E cfg pool now rnd w (OpenChannelRequest temp cp) =
    Some (if accept_inbound_channels cfg
      then w\<lparr>lw_ldk := fst (ld_accept (le_ldk E) (lw_ldk w) temp cp rnd)\<rparr> else w)"
| "handle_ldk_event E cfg pool now rnd w (PaymentClaimable h amount p) =
    Some (case p of
        Bolt11Payment (Some preimage) \<Rightarrow> w\<lparr>lw_ldk := ld_claim (le_ldk E) (lw_ldk w) preimage\<rparr>
      | Bolt11Payment None \<Rightarrow> w
      | Spontaneous preimage \<Rightarrow> w\<lparr>lw_ldk := ld_claim (le_ldk E) (lw_ldk w) preimage\<rparr>
      | OtherPurpose \<Rightarrow> w)"
| "handle_ldk_event E cfg pool now rnd w (PaymentClaimed h amount) =
    (let hs = ld_hex (le_ldk E) h; w = w\<lparr>lw_paid := AList.update h now (lw_paid w)\<rparr>
     in Some (send_event (PaymentReceivedEv hs amount)
          (record_pay (le_redb E) (le_codec E) (received_record hs amount now) w)))"
| "handle_ldk_event E cfg pool now rnd w (PaymentSent h fee) =
    (let hs = ld_hex (le_ldk E) h
     in Some (send_event (PaymentSentEv hs fee)
          (record_pay (le_redb E) (le_codec E) (sent_record hs fee now) w)))"
| "handle_ldk_event E cfg pool now rnd w (PaymentFailed h) =
    (let hs = (case h of Some h \<Rightarrow> ld_hex (le_ldk E) h | None \<Rightarrow> ''unknown'')
     in Some (send_event (PaymentFailedEv hs)
          (record_pay (le_redb E) (le_codec E) (failed_record hs now) w)))"
| "handle_ldk_event E cfg pool now rnd w (SpendableOutputs outputs ch) =
    Some (on_spendable (le_ldk E) (sweep_fee_rate (le_order E) pool) outputs w)"
| "handle_ldk_event E cfg pool now rnd w (ChannelReady ch cp) =
    Some (persist_channel_manager (le_ldk E) (le_redb E) w)"
| "handle_ldk_event E cfg pool now rnd w (ChannelClosed ch reason) =
    Some (send_event (ChannelClosedEv (ld_hex (le_ldk E) ch) reason)
      (persist_channel_manager (le_ldk E) (le_redb E) w))"
| "handle_ldk_event E cfg pool now rnd w BumpChannelClose = Some w"
| "handle_ldk_event E cfg pool now rnd w BumpHtlcResolution = Some w"
| "handle_ldk_event E cfg pool now rnd w OtherEvent = Some w"

end
