(* ===== verification/Lightning.thy ===== *)
theory Lightning
  imports Ln_Events
begin

text \<open>
  \<open>wolfe-lightning/src/lib.rs\<close>: the manager around the Lightning library. Opening the database
  and what the library itself does when it is built are the record \<open>ldk_start\<close>. The TCP
  listener of \<open>start\<close> is not modelled.
\<close>

section \<open>The seed\<close>

definition LN_SEED_KEY :: string where "LN_SEED_KEY = ''ln_seed''"

definition load_or_create_seed ::
    "'d redb \<Rightarrow> bytes \<Rightarrow> 'd \<Rightarrow> 'd \<times> (lightning_error + bytes)" where
  "load_or_create_seed R rnd db =
    (case in_read R db (\<lambda>txn. meta_get R txn LN_SEED_KEY) of
       Inl e \<Rightarrow> (db, Inl (LnStore e))
     | Inr found \<Rightarrow>
         if (\<exists>bs. found = Some bs \<and> length bs = 32) then (db, Inr (the found))
         else
           (case rd_begin_write R db of
              Inl e \<Rightarrow> (db, Inl (LnStore (StoreErr e)))
            | Inr txn \<Rightarrow>
                (case meta_set R txn LN_SEED_KEY rnd of
                   Inl e \<Rightarrow> (db, Inl (LnStore e))
                 | Inr txn \<Rightarrow>
                     (case rd_commit R txn of
                        Inl e \<Rightarrow> (db, Inl (Persistence (err_text (StoreErr e))))
                      | Inr db' \<Rightarrow> (db', Inr rnd)))))"

section \<open>The manager\<close>

record ('l, 'd, 'w, 'c) ln_manager =
  lm_config :: lightning_config
  lm_world :: "('l, 'd, 'w, 'c) ln_world"
  lm_has_channels :: bool
  lm_tick_count :: nat
  lm_network :: network
  lm_seed :: bytes

text \<open>
  \<open>ls_open\<close> creates the database file; \<open>ls_graph\<close> and \<open>ls_scorer\<close> decode what was persisted
  (\<open>None\<close>: start afresh); \<open>ls_read_monitors\<close> is the library's reader of the persisted monitors,
  \<open>ls_read_manager\<close> its reader of a channel manager and those monitors, \<open>ls_watch\<close> hands a
  monitor to the chain monitor, and \<open>ls_fresh\<close> builds a channel manager without channels.
\<close>

record ('l, 'd, 'g, 'sc, 'mo) ldk_start =
  ls_open :: "string \<Rightarrow> string + 'd"
  ls_graph :: "bytes \<Rightarrow> 'g option"
  ls_new_graph :: "network \<Rightarrow> 'g"
  ls_scorer :: "bytes \<Rightarrow> 'g \<Rightarrow> 'sc option"
  ls_new_scorer :: "'g \<Rightarrow> 'sc"
  ls_read_monitors :: "'d \<Rightarrow> string + 'mo list"
  ls_read_manager :: "lightning_config \<Rightarrow> 'g \<Rightarrow> 'sc \<Rightarrow> bytes \<Rightarrow> 'd \<Rightarrow> 'mo list \<Rightarrow> bytes \<Rightarrow> string + 'l"
  ls_watch :: "'l \<Rightarrow> 'mo \<Rightarrow> 'l \<times> bool"
  ls_fresh :: "lightning_config \<Rightarrow> 'g \<Rightarrow> 'sc \<Rightarrow> bytes \<Rightarrow> 'd \<Rightarrow> network \<Rightarrow> hash \<Rightarrow> nat \<Rightarrow> 'l"

definition kv_value :: "'d redb \<Rightarrow> 'd \<Rightarrow> string \<Rightarrow> string \<Rightarrow> bytes option" where
  "kv_value R db namespace key = (case kv_read R db namespace [] key of Inr v \<Rightarrow> Some v | Inl _ \<Rightarrow> None)"

definition read_network_graph :: "('l, 'd, 'g, 'sc, 'mo) ldk_start \<Rightarrow> 'd redb \<Rightarrow> 'd \<Rightarrow> 'g option" where
  "read_network_graph S R db = Option.bind (kv_value R db ''network_graph'' ''graph'') (ls_graph S)"

definition read_scorer :: "('l, 'd, 'g, 'sc, 'mo) ldk_start \<Rightarrow> 'd redb \<Rightarrow> 'd \<Rightarrow> 'g \<Rightarrow> 'sc option" where
  "read_scorer S R db g = Option.bind (kv_value R db ''scorer'' ''scorer'') (\<lambda>v. ls_scorer S v g)"

definition load_or_create_channel_manager ::
    "('l, 'd, 'g, 'sc, 'mo) ldk_start \<Rightarrow> 'd redb \<Rightarrow> lightning_config \<Rightarrow> 'g \<Rightarrow> 'sc \<Rightarrow> bytes \<Rightarrow> 'd
      \<Rightarrow> network \<Rightarrow> hash \<Rightarrow> nat \<Rightarrow> 'l" where
  "load_or_create_channel_manager S R cfg g sc seed db network best_hash best_height =
    (let fresh = ls_fresh S cfg g sc seed db network best_hash best_height in
     case kv_value R db ''channel_manager'' ''manager'' of
       None \<Rightarrow> fresh
     | Some buf \<Rightarrow>
         (let monitors = (case ls_read_monitors S db of Inr ms \<Rightarrow> ms | Inl _ \<Rightarrow> []) in
          case ls_read_manager S cfg g sc seed db monitors buf of
            Inr l \<Rightarrow> foldl (\<lambda>l m. fst (ls_watch S l m)) l monitors
          | Inl _ \<Rightarrow> fresh))"

text \<open>
  \<open>new\<close>. The receiver of the event channel is a local variable of the function and is dropped
  when it returns. The result holds the node store after the call, too.
\<close>

definition ln_manager_new ::
    "('l, 'd, 'w, 'c, 'p, 'm) ln_env \<Rightarrow> ('l, 'd, 'g, 'sc, 'mo) ldk_start \<Rightarrow> lightning_config \<Rightarrow> network
      \<Rightarrow> string \<Rightarrow> 'd \<Rightarrow> bytes \<Rightarrow> hash \<Rightarrow> nat \<Rightarrow> 'd \<times> (lightning_error + ('l, 'd, 'w, 'c) ln_manager)" where
  "ln_manager_new E S cfg network data_dir store rnd best_hash best_height =
    (let R = le_redb E; K = le_ldk E in
     case load_or_create_seed R rnd store of
       (store, Inl e) \<Rightarrow> (store, Inl e)
     | (store, Inr seed) \<Rightarrow>
         (store,
          case ls_open S (path_join data_dir ''lightning.redb'') of
            Inl e \<Rightarrow> Inl (Persistence e)
          | Inr db \<Rightarrow>
              (let db = kv_new R db;
                   g = (case read_network_graph S R db of Some g \<Rightarrow> g | None \<Rightarrow> ls_new_graph S network);
                   sc = (case read_scorer S R db g of Some s \<Rightarrow> s | None \<Rightarrow> ls_new_scorer S g);
                   l = load_or_create_channel_manager S R cfg g sc seed db network best_hash best_height
               in Inr \<lparr>lm_config = cfg,
                    lm_world = \<lparr>lw_ldk = l, lw_db = db, lw_wallet = None, lw_paid = [],
                      lw_broadcast = [], lw_rx_open = False, lw_delivered = []\<rparr>,
                    lm_has_channels = (ld_channels K l \<noteq> [] \<or> ld_monitors K l \<noteq> []),
                    lm_tick_count = 0, lm_network = network, lm_seed = seed\<rparr>)))"

definition map_ldk ::
    "('l \<Rightarrow> 'l) \<Rightarrow> ('l, 'd, 'w, 'c) ln_manager \<Rightarrow> ('l, 'd, 'w, 'c) ln_manager" where
  "map_ldk f m = m\<lparr>lm_world := (lm_world m)\<lparr>lw_ldk := f (lw_ldk (lm_world m))\<rparr>\<rparr>"

definition lm_ldk :: "('l, 'd, 'w, 'c) ln_manager \<Rightarrow> 'l" where
  "lm_ldk m = lw_ldk (lm_world m)"

section \<open>Blocks\<close>

definition feed_block :: "'l ldk \<Rightarrow> block \<Rightarrow> nat \<Rightarrow> 'l \<Rightarrow> 'l" where
  "feed_block K block height l =
    (let h = blk_header block; txs = enumerate 0 (txdata block);
         l = ld_cm_confirmed K l h txs height;
         l = ld_cm_best K l h height;
         l = ld_mon_confirmed K l h txs height
     in ld_mon_best K l h height)"

definition block_connected ::
    "'l ldk \<Rightarrow> ('l, 'd, 'w, 'c) ln_manager \<Rightarrow> block \<Rightarrow> nat \<Rightarrow> ('l, 'd, 'w, 'c) ln_manager" where
  "block_connected K m block height =
    (if lm_has_channels m then map_ldk (feed_block K block height) m
     else if ld_channels K (lm_ldk m) \<noteq> [] \<or> ld_monitors K (lm_ldk m) \<noteq> []
     then map_ldk (feed_block K block height) (m\<lparr>lm_has_channels := True\<rparr>)
     else if height mod 10000 \<noteq> 0 then m
     else map_ldk (feed_block K block height) m)"

definition block_disconnected ::
    "'l ldk \<Rightarrow> ('l, 'd, 'w, 'c) ln_manager \<Rightarrow> header \<Rightarrow> nat \<Rightarrow> ('l, 'd, 'w, 'c) ln_manager" where
  "block_disconnected K m h height =
    map_ldk (\<lambda>l. ld_mon_best K (ld_cm_best K l h (sat_sub height 1)) h (sat_sub height 1)) m"

definition handle_reorg ::
    "'l ldk \<Rightarrow> ('l, 'd, 'w, 'c) ln_manager \<Rightarrow> nat \<Rightarrow> header \<Rightarrow> ('l, 'd, 'w, 'c) ln_manager" where
  "handle_reorg K m fork_height h =
    map_ldk (\<lambda>l. ld_mon_best K (ld_cm_best K l h fork_height) h fork_height) m"

definition best_block_height :: "'l ldk \<Rightarrow> ('l, 'd, 'w, 'c) ln_manager \<Rightarrow> nat" where
  "best_block_height K m = ld_best_height K (lm_ldk m)"

definition set_wallet ::
    "('w, 'c) node_wallet \<Rightarrow> ('l, 'd, 'w, 'c) ln_manager \<Rightarrow> ('l, 'd, 'w, 'c) ln_manager" where
  "set_wallet w m = m\<lparr>lm_world := (lm_world m)\<lparr>lw_wallet := Some w\<rparr>\<rparr>"

section \<open>Channels, invoices, payments\<close>

definition set_ldk :: "'l \<Rightarrow> ('l, 'd, 'w, 'c) ln_manager \<Rightarrow> ('l, 'd, 'w, 'c) ln_manager" where
  "set_ldk l m = map_ldk (\<lambda>_. l) m"

type_synonym ('l, 'd, 'w, 'c, 'a) ln_step = "('l, 'd, 'w, 'c) ln_manager \<times> (lightning_error + 'a)"

definition connect_peer ::
    "'l ldk \<Rightarrow> ('l, 'd, 'w, 'c) ln_manager \<Rightarrow> string \<Rightarrow> string \<Rightarrow> ('l, 'd, 'w, 'c, unit) ln_step" where
  "connect_peer K m pubkey addr =
    (case ld_connect K (lm_ldk m) pubkey addr of
       (l, True) \<Rightarrow> (set_ldk l m, Inr ())
     | (l, False) \<Rightarrow>
         (set_ldk l m, Inl (PeerConnection (''failed to connect to '' @ pubkey @ ''@'' @ addr))))"

definition open_channel ::
    "'l ldk \<Rightarrow> nat \<Rightarrow> ('l, 'd, 'w, 'c) ln_manager \<Rightarrow> string \<Rightarrow> nat \<Rightarrow> nat \<Rightarrow> ('l, 'd, 'w, 'c, string) ln_step" where
  "open_channel K rnd m pubkey amount_sat push_msat =
    (if best_block_height K m < 100
     then (m, Inl (LnChannel
       (''node still syncing '' @ [CHR 0xE2, CHR 0x80, CHR 0x94] @ '' cannot open channel during IBD'')))
     else
       (case ld_create_channel K (lm_ldk m) pubkey amount_sat push_msat rnd of
          (l, Inr ch) \<Rightarrow> (set_ldk l m, Inr (ld_hex K ch))
        | (l, Inl e) \<Rightarrow> (set_ldk l m, Inl (LnChannel e))))"

definition close_channel ::
    "'l ldk \<Rightarrow> ('l, 'd, 'w, 'c) ln_manager \<Rightarrow> bytes \<Rightarrow> string \<Rightarrow> bool \<Rightarrow> ('l, 'd, 'w, 'c, unit) ln_step" where
  "close_channel K m ch cp force =
    (case (if force then ld_force_close K (lm_ldk m) ch cp ''user-requested force close''
           else ld_close K (lm_ldk m) ch cp) of
       (l, Some e) \<Rightarrow> (set_ldk l m, Inl (LnChannel e))
     | (l, None) \<Rightarrow> (set_ldk l m, Inr ()))"

definition create_invoice ::
    "'l ldk \<Rightarrow> ('l, 'd, 'w, 'c) ln_manager \<Rightarrow> nat option \<Rightarrow> string \<Rightarrow> nat option
      \<Rightarrow> ('l, 'd, 'w, 'c, string) ln_step" where
  "create_invoice K m amount_msat description expiry_secs =
    (case ld_description K description of
       Some e \<Rightarrow> (m, Inl (LnInvoice (''invalid description: '' @ e)))
     | None \<Rightarrow>
         (case ld_invoice K (lm_ldk m) amount_msat description expiry_secs of
            (l, Inr invoice) \<Rightarrow> (set_ldk l m, Inr invoice)
          | (l, Inl e) \<Rightarrow> (set_ldk l m, Inl (LnInvoice e))))"

text \<open>\<open>ld_parse_invoice\<close> gives the error, if any; the payment identifier is 32 random bytes.\<close>

definition pay_invoice ::
    "'l ldk \<Rightarrow> bytes \<Rightarrow> ('l, 'd, 'w, 'c) ln_manager \<Rightarrow> string \<Rightarrow> ('l, 'd, 'w, 'c, string) ln_step" where
  "pay_invoice K rnd m invoice_str =
    (case ld_parse_invoice K invoice_str of
       Some e \<Rightarrow> (m, Inl (LnInvoice (''invalid invoice: '' @ e)))
     | None \<Rightarrow>
         (case ld_pay K (lm_ldk m) invoice_str rnd of
            (l, Some e) \<Rightarrow> (set_ldk l m, Inl (LnPayment e))
          | (l, None) \<Rightarrow> (set_ldk l m, Inr (ld_hex K rnd))))"

section \<open>The periodic task\<close>

text \<open>
  Every event is handled at its own time with its own random number; where the list of them
  runs out they are zero.
\<close>

fun handle_events ::
    "('l, 'd, 'w, 'c, 'p, 'm) ln_env \<Rightarrow> lightning_config \<Rightarrow> mempool \<Rightarrow> (nat \<times> nat) list
      \<Rightarrow> ldk_event list \<Rightarrow> ('l, 'd, 'w, 'c) ln_world \<Rightarrow> ('l, 'd, 'w, 'c) ln_world option" where
  "handle_events E cfg pool stamps [] w = Some w"
| "handle_events E cfg pool ((now, rnd) # stamps) (e # es) w =
    Option.bind (handle_ldk_event E cfg pool now rnd w e) (handle_events E cfg pool stamps es)"
| "handle_events E cfg pool [] (e # es) w =
    Option.bind (handle_ldk_event E cfg pool 0 0 w e) (handle_events E cfg pool [] es)"

definition timers :: "'l ldk \<Rightarrow> nat \<Rightarrow> 'l \<Rightarrow> 'l" where
  "timers K n l =
    (let l = (if n mod 10 = 0 then ld_peer_timer K l else l);
         l = (if n mod 60 = 0 then ld_cm_timer K l else l)
     in ld_process_peers K l)"

definition tick ::
    "('l, 'd, 'w, 'c, 'p, 'm) ln_env \<Rightarrow> mempool \<Rightarrow> (nat \<times> nat) list \<Rightarrow> (nat \<times> nat) list
      \<Rightarrow> ('l, 'd, 'w, 'c) ln_manager \<Rightarrow> ('l, 'd, 'w, 'c) ln_manager option" where
  "tick E pool stamps1 stamps2 m =
    (let K = le_ldk E; w = lm_world m in
     case ld_cm_pending K (lw_ldk w) of
       (l, events) \<Rightarrow>
         Option.bind (handle_events E (lm_config m) pool stamps1 events (w\<lparr>lw_ldk := l\<rparr>)) (\<lambda>w.
         case ld_mon_pending K (lw_ldk w) of
           (l, events) \<Rightarrow>
             Option.bind (handle_events E (lm_config m) pool stamps2 events (w\<lparr>lw_ldk := l\<rparr>)) (\<lambda>w.
             let n = w64 (lm_tick_count m + 1) in
             Some (m\<lparr>lm_tick_count := n,
                     lm_world := w\<lparr>lw_ldk := timers K n (ld_forward_htlcs K (lw_ldk w))\<rparr>\<rparr>))))"

definition persist_state ::
    "('l, 'd, 'w, 'c, 'p, 'm) ln_env \<Rightarrow> ('l, 'd, 'w, 'c) ln_manager \<Rightarrow> ('l, 'd, 'w, 'c) ln_manager" where
  "persist_state E m =
    (let K = le_ldk E; R = le_redb E; w = lm_world m; l = lw_ldk w;
         db = fst (kv_write R (lw_db w) ''channel_manager'' [] ''manager'' (ld_encode_manager K l));
         db = fst (kv_write R db ''network_graph'' [] ''graph'' (ld_encode_graph K l));
         db = fst (kv_write R db ''scorer'' [] ''scorer'' (ld_encode_scorer K l))
     in m\<lparr>lm_world := w\<lparr>lw_db := db\<rparr>\<rparr>)"

definition shutdown ::
    "('l, 'd, 'w, 'c, 'p, 'm) ln_env \<Rightarrow> ('l, 'd, 'w, 'c) ln_manager \<Rightarrow> ('l, 'd, 'w, 'c) ln_manager" where
  "shutdown E m = persist_state E m"

definition manager_list_payments ::
    "('l, 'd, 'w, 'c, 'p, 'm) ln_env \<Rightarrow> ('l, 'd, 'w, 'c) ln_manager \<Rightarrow> nat \<Rightarrow> payment_record list" where
  "manager_list_payments E m limit =
    list_payments (le_redb E) (le_range E) (le_codec E) (lw_db (lm_world m)) limit"

section \<open>Sweeping\<close>

definition sweep_fee_rate_sat_per_kw :: "('l, 'd, 'w, 'c, 'p, 'm) ln_env \<Rightarrow> mempool \<Rightarrow> nat" where
  "sweep_fee_rate_sat_per_kw E pool = sweep_fee_rate (le_order E) pool"

definition keys_destination_address ::
    "'l ldk \<Rightarrow> ('l, 'd, 'w, 'c) ln_manager \<Rightarrow> lightning_error + string" where
  "keys_destination_address K m =
    (case ld_destination K (lm_ldk m) of
       None \<Rightarrow> Inl (KeyManagement ''get_destination_script failed'')
     | Some script \<Rightarrow>
         (case ld_address K script (lm_network m) of
            Inl e \<Rightarrow> Inl (KeyManagement (''script'' @ [CHR 0xE2, CHR 0x86, CHR 0x92] @ ''address: '' @ e))
          | Inr a \<Rightarrow> Inr a))"

definition sweep_descriptors ::
    "('l, 'd, 'w, 'c, 'p, 'm) ln_env \<Rightarrow> ('l, 'd, 'w, 'c) ln_manager \<Rightarrow> descriptor list \<Rightarrow> bytes \<Rightarrow> nat
      \<Rightarrow> ('l, 'd, 'w, 'c, hash) ln_step" where
  "sweep_descriptors E m descriptors dest_script fee_rate_sat_per_kw =
    (if descriptors = [] then (m, Inl (KeyManagement ''no descriptors to sweep''))
     else
       (case ld_spend (le_ldk E) (lm_ldk m) descriptors dest_script fee_rate_sat_per_kw of
          None \<Rightarrow> (m, Inl (KeyManagement ''spend_spendable_outputs failed''))
        | Some tx \<Rightarrow>
            (m\<lparr>lm_world := broadcast_transactions [tx] (lm_world m)\<rparr>, Inr (compute_txid (le_btc E) tx))))"

fun static_outputs :: "btc \<Rightarrow> (outpoint \<times> txout) list \<Rightarrow> lightning_error + descriptor list" where
  "static_outputs L [] = Inr []"
| "static_outputs L ((op, out) # inputs) =
    (if 2 ^ 16 \<le> vout op
     then Inl (KeyManagement (''outpoint '' @ hash_str L (txid op) @ '':'' @ show_nat (vout op) @
         '' has out-of-range vout''))
     else res_bind (static_outputs L inputs) (\<lambda>ds. Inr (StaticOutput (txid op, vout op) out # ds)))"

definition sweep_outpoints ::
    "('l, 'd, 'w, 'c, 'p, 'm) ln_env \<Rightarrow> ('l, 'd, 'w, 'c) ln_manager \<Rightarrow> (outpoint \<times> txout) list \<Rightarrow> bytes \<Rightarrow> nat
      \<Rightarrow> ('l, 'd, 'w, 'c, hash) ln_step" where
  "sweep_outpoints E m inputs dest_script fee_rate_sat_per_kw =
    (if inputs = [] then (m, Inl (KeyManagement ''no inputs to sweep''))
     else
       (case static_outputs (le_btc E) inputs of
          Inl e \<Rightarrow> (m, Inl e)
        | Inr descriptors \<Rightarrow> sweep_descriptors E m descriptors dest_script fee_rate_sat_per_kw))"

definition monitor_spendable_outputs ::
    "'l ldk \<Rightarrow> ('l, 'd, 'w, 'c) ln_manager \<Rightarrow> bytes \<Rightarrow> transaction \<Rightarrow> nat \<Rightarrow> descriptor list" where
  "monitor_spendable_outputs K m ch tx height =
    (case ld_monitor_outputs K (lm_ldk m) ch tx height of Some ds \<Rightarrow> ds | None \<Rightarrow> [])"

definition monitor_funding_outpoint ::
    "'l ldk \<Rightarrow> ('l, 'd, 'w, 'c) ln_manager \<Rightarrow> bytes \<Rightarrow> outpoint option" where
  "monitor_funding_outpoint K m ch =
    map_option (\<lambda>(k, i). \<lparr>txid = k, vout = i\<rparr>) (ld_monitor_funding K (lm_ldk m) ch)"

end
