(* ===== verification/Ln_Props.thy ===== *)
theory Ln_Props
  imports Lightning Samples
begin

text \<open>
  The manager as a state machine: the states it reaches from its construction under any
  sequence of its operations, with the payment hashes that the library reported as claimed, and
  the properties of the Lightning layer.
\<close>

section \<open>Reachable managers\<close>

definition claimed_in :: "ldk_event list \<Rightarrow> bytes set" where
  "claimed_in es = {h. \<exists>a. PaymentClaimed h a \<in> set es}"

text \<open>The events that one call of \<open>tick\<close> handles.\<close>

definition tick_events ::
    "('l, 'd, 'w, 'c, 'p, 'm) ln_env \<Rightarrow> mempool \<Rightarrow> (nat \<times> nat) list
      \<Rightarrow> ('l, 'd, 'w, 'c) ln_manager \<Rightarrow> ldk_event list" where
  "tick_events E pool stamps1 m =
    (case ld_cm_pending (le_ldk E) (lm_ldk m) of
       (l, events) \<Rightarrow> events @
         (case handle_events E (lm_config m) pool stamps1 events ((lm_world m)\<lparr>lw_ldk := l\<rparr>) of
            None \<Rightarrow> [] | Some w \<Rightarrow> snd (ld_mon_pending (le_ldk E) (lw_ldk w))))"

inductive ln_reach ::
    "('l, 'd, 'w, 'c, 'p, 'm) ln_env \<Rightarrow> ('l, 'd, 'g, 'sc, 'mo) ldk_start \<Rightarrow> bytes set
      \<Rightarrow> ('l, 'd, 'w, 'c) ln_manager \<Rightarrow> bool"
  for E S where
  start: "ln_manager_new E S cfg network data_dir store rnd best_hash best_height = (store', Inr m) \<Longrightarrow>
    ln_reach E S {} m"
| block: "ln_reach E S C m \<Longrightarrow> ln_reach E S C (block_connected (le_ldk E) m b h)"
| disconnect: "ln_reach E S C m \<Longrightarrow> ln_reach E S C (block_disconnected (le_ldk E) m hdr h)"
| reorg: "ln_reach E S C m \<Longrightarrow> ln_reach E S C (handle_reorg (le_ldk E) m h hdr)"
| wallet: "ln_reach E S C m \<Longrightarrow> ln_reach E S C (set_wallet w m)"
| connect: "ln_reach E S C m \<Longrightarrow> ln_reach E S C (fst (connect_peer (le_ldk E) m pk addr))"
| "open": "ln_reach E S C m \<Longrightarrow> ln_reach E S C (fst (open_channel (le_ldk E) rnd m pk amt push))"
| close: "ln_reach E S C m \<Longrightarrow> ln_reach E S C (fst (close_channel (le_ldk E) m ch cp force))"
| invoice: "ln_reach E S C m \<Longrightarrow> ln_reach E S C (fst (create_invoice (le_ldk E) m amount desc expiry))"
| pay: "ln_reach E S C m \<Longrightarrow> ln_reach E S C (fst (pay_invoice (le_ldk E) rid m inv_str))"
| tick: "ln_reach E S C m \<Longrightarrow> tick E pool stamps1 stamps2 m = Some m' \<Longrightarrow>
    ln_reach E S (C \<union> claimed_in (tick_events E pool stamps1 m)) m'"
| persist: "ln_reach E S C m \<Longrightarrow> ln_reach E S C (persist_state E m)"
| sweep: "ln_reach E S C m \<Longrightarrow> ln_reach E S C (fst (sweep_descriptors E m ds script rate))"
| sweep_utxos: "ln_reach E S C m \<Longrightarrow> ln_reach E S C (fst (sweep_outpoints E m ins script rate))"

text \<open>What no operation but a tick touches.\<close>

definition ledger :: "('l, 'd, 'w, 'c) ln_world \<Rightarrow> bytes set \<times> bool \<times> lightning_event list" where
  "ledger w = (fst ` set (lw_paid w), lw_rx_open w, lw_delivered w)"

abbreviation lm_ledger :: "('l, 'd, 'w, 'c) ln_manager \<Rightarrow> bytes set \<times> bool \<times> lightning_event list" where
  "lm_ledger m \<equiv> ledger (lm_world m)"

lemma ledger_simps [simp]:
  "ledger (w\<lparr>lw_ldk := l\<rparr>) = ledger w" "ledger (w\<lparr>lw_db := db\<rparr>) = ledger w"
  "ledger (w\<lparr>lw_wallet := x\<rparr>) = ledger w" "ledger (w\<lparr>lw_broadcast := txs\<rparr>) = ledger w"
  by (simp_all add: ledger_def)

lemma map_ldk_ledger [simp]: "lm_ledger (map_ldk f m) = lm_ledger m" "lm_ledger (set_ldk l m) = lm_ledger m"
  by (simp_all add: map_ldk_def set_ldk_def)

lemma quiet_ledger:
  "lm_ledger (block_connected K m b h) = lm_ledger m" "lm_ledger (block_disconnected K m hdr h) = lm_ledger m"
  "lm_ledger (handle_reorg K m h hdr) = lm_ledger m" "lm_ledger (set_wallet w m) = lm_ledger m"
  "lm_ledger (fst (connect_peer K m pk addr)) = lm_ledger m"
  "lm_ledger (fst (open_channel K rnd m pk amt push)) = lm_ledger m"
  "lm_ledger (fst (close_channel K m ch cp force)) = lm_ledger m"
  "lm_ledger (fst (create_invoice K m amount desc expiry)) = lm_ledger m"
  "lm_ledger (fst (pay_invoice K rid m inv_str)) = lm_ledger m"
  "lm_ledger (persist_state E m) = lm_ledger m"
  by (simp_all add: block_connected_def block_disconnected_def handle_reorg_def set_wallet_def
      connect_peer_def open_channel_def close_channel_def create_invoice_def pay_invoice_def
      persist_state_def Let_def split: prod.splits bool.splits sum.splits option.splits)

lemma sweep_ledger:
  "lm_ledger (fst (sweep_descriptors E m ds script rate)) = lm_ledger m"
  "lm_ledger (fst (sweep_outpoints E m ins script rate)) = lm_ledger m"
  by (simp_all add: sweep_descriptors_def sweep_outpoints_def broadcast_transactions_def
      split: option.splits sum.splits)

text \<open>How the funding branch ends when it does not panic.\<close>

lemma funding_cases:
  assumes "on_funding_ready K B f rate temp cp v out w = Some w'"
  obtains (no_wallet) "lw_wallet w = None"
      "w' = close_funding K temp cp ''no wallet available for funding'' w"
  | (funded) wallet script fee_rate wallet' funding_tx tx where "lw_wallet w = Some wallet"
      "ld_script K out = Some script" "funding_rate B rate = Some fee_rate"
      "fund_channel B wallet script v fee_rate = (wallet', Inr funding_tx)" "ld_tx K funding_tx = Some tx"
      "w' = w\<lparr>lw_wallet := Some wallet', lw_ldk := fst (ld_funding K (lw_ldk w) temp cp tx)\<rparr>"
  | (unfunded) wallet script fee_rate wallet' e where "lw_wallet w = Some wallet"
      "ld_script K out = Some script" "funding_rate B rate = Some fee_rate"
      "fund_channel B wallet script v fee_rate = (wallet', Inl e)"
      "w' = close_funding K temp cp (''funding generation failed: '' @ f e) (w\<lparr>lw_wallet := Some wallet'\<rparr>)"
proof (cases "lw_wallet w")
  case None
  then show ?thesis
    using assms by (intro no_wallet) (simp_all only: on_funding_ready_def option.case option.inject)
next
  case (Some wallet)
  with assms obtain script fee_rate where sf: "ld_script K out = Some script" "funding_rate B rate = Some fee_rate"
    by (auto simp only: on_funding_ready_def option.case bind_eq_Some_conv)
  obtain wallet' r where fc: "fund_channel B wallet script v fee_rate = (wallet', r)"
    by (cases "fund_channel B wallet script v fee_rate")
  show ?thesis
  proof (cases r)
    case (Inl e)
    with Some sf fc assms show ?thesis
      by (intro unfunded) (auto simp only: on_funding_ready_def option.case Option.bind.simps prod.case
          sum.case option.inject)
  next
    case (Inr funding_tx)
    with Some sf fc assms obtain tx where "ld_tx K funding_tx = Some tx"
      "w' = w\<lparr>lw_wallet := Some wallet', lw_ldk := fst (ld_funding K (lw_ldk w) temp cp tx)\<rparr>"
      by (auto simp: on_funding_ready_def)
    with Some sf fc Inr show ?thesis
      by (intro funded) simp_all
  qed
qed

lemma close_funding_ledger [simp]: "ledger (close_funding K temp cp reason w) = ledger w"
  by (simp add: close_funding_def)

lemma funding_ledger: "on_funding_ready K B f rate temp cp v out w = Some w' \<Longrightarrow> ledger w' = ledger w"
  by (erule funding_cases) simp_all

lemma send_event_ledger:
  "\<not> lw_rx_open w \<Longrightarrow> send_event e w = w"
  by (simp add: send_event_def)

lemma handle_event_ledger:
  assumes run: "handle_ldk_event E cfg pool now rnd w e = Some w'" and shut: "\<not> lw_rx_open w"
  shows "ledger w' = (fst ` set (lw_paid w) \<union> claimed_in [e], False, lw_delivered w)"
proof (cases e)
  case (FundingGenerationReady temp cp v out)
  then have "ledger w' = ledger w"
    using run by (auto dest: funding_ledger)
  then show ?thesis
    using shut by (simp add: ledger_def claimed_in_def FundingGenerationReady)
next
  case (PaymentClaimed h a)
  have c: "claimed_in [e] = {h}"
    by (auto simp: claimed_in_def PaymentClaimed)
  from run shut PaymentClaimed
  have w': "w' = w\<lparr>lw_paid := AList.update h now (lw_paid w),
      lw_db := record_payment (le_redb E) (le_codec E) (lw_db w) (received_record (ld_hex (le_ldk E) h) a now)\<rparr>"
    by (simp add: Let_def send_event_def record_pay_def)
  show ?thesis
    unfolding c w' ledger_def using shut by (simp add: dom_update)
next
  case (SpendableOutputs ds ch)
  then show ?thesis
    using run shut by (auto simp: ledger_def claimed_in_def on_spendable_def broadcast_transactions_def
        split: option.splits)
qed (use run shut in \<open>auto simp: claimed_in_def ledger_def Let_def send_event_def record_pay_def
      persist_channel_manager_def split: if_splits purpose.splits option.splits\<close>)

lemma handle_events_ledger:
  assumes "handle_events E cfg pool stamps es w = Some w'" and "\<not> lw_rx_open w"
  shows "ledger w' = (fst ` set (lw_paid w) \<union> claimed_in es, False, lw_delivered w)"
  using assms
proof (induction E cfg pool stamps es w rule: handle_events.induct)
  case (1 E cfg pool stamps w)
  then show ?case by (simp add: ledger_def claimed_in_def)
next
  case (2 E cfg pool now rnd stamps e es w)
  then obtain w1 where w1: "handle_ldk_event E cfg pool now rnd w e = Some w1"
      "handle_events E cfg pool stamps es w1 = Some w'"
    by (auto simp: bind_eq_Some_conv)
  with 2 handle_event_ledger [OF w1(1)] show ?case
    by (auto simp: ledger_def claimed_in_def)
next
  case (3 E cfg pool e es w)
  then obtain w1 where w1: "handle_ldk_event E cfg pool 0 0 w e = Some w1"
      "handle_events E cfg pool [] es w1 = Some w'"
    by (auto simp: bind_eq_Some_conv)
  with 3 handle_event_ledger [OF w1(1)] show ?case
    by (auto simp: ledger_def claimed_in_def)
qed

lemma tick_ledger:
  assumes "tick E pool stamps1 stamps2 m = Some m'" and "\<not> lw_rx_open (lm_world m)"
  shows "lm_ledger m' =
    (fst ` set (lw_paid (lm_world m)) \<union> claimed_in (tick_events E pool stamps1 m), False,
     lw_delivered (lm_world m))"
proof -
  let ?K = "le_ldk E" and ?w = "lm_world m"
  obtain l es where 1: "ld_cm_pending ?K (lw_ldk ?w) = (l, es)"
    by (cases "ld_cm_pending ?K (lw_ldk ?w)")
  with assms(1) obtain w1 where 2: "handle_events E (lm_config m) pool stamps1 es (?w\<lparr>lw_ldk := l\<rparr>) = Some w1"
    by (auto simp: tick_def Let_def bind_eq_Some_conv)
  obtain l' es' where 3: "ld_mon_pending ?K (lw_ldk w1) = (l', es')"
    by (cases "ld_mon_pending ?K (lw_ldk w1)")
  with assms(1) 1 2 obtain w2 where 4: "handle_events E (lm_config m) pool stamps2 es' (w1\<lparr>lw_ldk := l'\<rparr>) = Some w2"
      "lm_ledger m' = ledger w2"
    by (auto simp: tick_def Let_def bind_eq_Some_conv)
  have e: "tick_events E pool stamps1 m = es @ es'"
    by (simp add: tick_events_def lm_ldk_def 1 2 3)
  have w1: "ledger w1 = (fst ` set (lw_paid ?w) \<union> claimed_in es, False, lw_delivered ?w)"
    using handle_events_ledger [OF 2] assms(2) by simp
  then have "ledger w2 = (fst ` set (lw_paid w1) \<union> claimed_in es', False, lw_delivered w1)"
    using handle_events_ledger [OF 4(1)] by (simp add: ledger_def)
  with w1 show ?thesis
    unfolding 4(2) e by (auto simp: ledger_def claimed_in_def)
qed

lemma reach_ledger: "ln_reach E S C m \<Longrightarrow> lm_ledger m = (C, False, [])"
proof (induction rule: ln_reach.induct)
  case (start cfg network data_dir store rnd best_hash best_height store' m)
  then show ?case
    by (auto simp: ln_manager_new_def Let_def ledger_def split: prod.splits sum.splits)
next
  case (tick C m pool stamps1 stamps2 m')
  then show ?case
    using tick_ledger [OF tick.hyps(2)] by (simp add: ledger_def)
qed (simp_all only: quiet_ledger sweep_ledger)

section \<open>Properties\<close>

text \<open>
  C7: In every reachable state of the Lightning manager the payment hashes held as paid (the
  set that opens the paid routes of the RPC server) are exactly those that the library has
  reported as claimed since the manager was built.
\<close>

theorem paid_iff_claimed:
  assumes "ln_reach E S C m"
  shows "h \<in> fst ` set (lw_paid (lm_world m)) \<longleftrightarrow> h \<in> C"
  using reach_ledger [OF assms] by (simp add: ledger_def)

text \<open>
  No event ever reaches the main loop: the receiver of the event channel is dropped by the
  constructor, so that in every reachable state nothing has been delivered and nothing can be.
\<close>

theorem lightning_events_dropped:
  assumes "ln_reach E S C m"
  shows "lw_delivered (lm_world m) = [] \<and> (\<forall>e. send_event e (lm_world m) = lm_world m)"
  using reach_ledger [OF assms] by (simp add: ledger_def send_event_def)

text \<open>The estimate for a non-anchor channel does not depend on the pool.\<close>

lemma non_anchor_estimate: "get_est_sat_per_1000_weight it pool NonAnchorChannelFee = 253"
proof -
  have "fl_rat 250 = 250"
    using fl_rat_quot [of 1 250] fl_ratio_exact [of 250] by simp
  then show ?thesis
    by (simp add: get_est_sat_per_1000_weight_def f64_round_def)
qed

text \<open>
  C31: A channel that waits for its funding is never left hanging: handling the request ends
  with a transaction of the wallet handed to the library or with the channel force-closed. The
  transaction is built at one satoshi per virtual byte, whatever the pool holds.
\<close>

theorem funding_resolved:
  assumes conv: "\<And>bs. ld_script (le_ldk E) bs \<noteq> None" "\<And>tx. ld_tx (le_ldk E) tx \<noteq> None"
    and one: "bd_fee_rate (le_bdk E) 1 = Some r1"
  shows "\<exists>w'. handle_ldk_event E cfg pool now rnd w (FundingGenerationReady temp cp v out) = Some w' \<and>
    ((\<exists>wallet script wallet' tx tx'. lw_wallet w = Some wallet \<and> ld_script (le_ldk E) out = Some script \<and>
        fund_channel (le_bdk E) wallet script v r1 = (wallet', Inr tx) \<and> ld_tx (le_ldk E) tx = Some tx' \<and>
        lw_wallet w' = Some wallet' \<and> lw_ldk w' = fst (ld_funding (le_ldk E) (lw_ldk w) temp cp tx')) \<or>
     (\<exists>reason. lw_ldk w' = fst (ld_force_close (le_ldk E) (lw_ldk w) temp cp reason)))"
proof -
  let ?K = "le_ldk E" and ?B = "le_bdk E"
  have rate: "funding_rate ?B 253 = Some r1"
    using one by (simp add: funding_rate_def)
  have step: "handle_ldk_event E cfg pool now rnd w (FundingGenerationReady temp cp v out) =
      on_funding_ready ?K ?B (le_show_error E) 253 temp cp v out w"
    by (simp add: non_anchor_estimate)
  have "\<exists>w'. on_funding_ready ?K ?B (le_show_error E) 253 temp cp v out w = Some w'"
    using conv(1) [of out] conv(2) rate
    by (auto simp: on_funding_ready_def split: option.split prod.split sum.split)
  then obtain w' where w': "on_funding_ready ?K ?B (le_show_error E) 253 temp cp v out w = Some w'" ..
  have "(\<exists>wallet script wallet' tx tx'. lw_wallet w = Some wallet \<and> ld_script ?K out = Some script \<and>
        fund_channel ?B wallet script v r1 = (wallet', Inr tx) \<and> ld_tx ?K tx = Some tx' \<and>
        lw_wallet w' = Some wallet' \<and> lw_ldk w' = fst (ld_funding ?K (lw_ldk w) temp cp tx')) \<or>
     (\<exists>reason. lw_ldk w' = fst (ld_force_close ?K (lw_ldk w) temp cp reason))"
    using w'
  proof (cases rule: funding_cases)
    case no_wallet
    then show ?thesis
      by (auto simp: close_funding_def)
  next
    case funded
    with rate show ?thesis
      by auto
  next
    case unfunded
    then show ?thesis
      by (auto simp: close_funding_def)
  qed
  then show ?thesis
    unfolding step using w' by blast
qed

text \<open>
  The seed of the Lightning keys is chosen once: on a database without faults the call
  succeeds, and every later call, whatever random bytes it is offered, returns the same 32 bytes
  and changes nothing.
\<close>

theorem seed_chosen_once:
  assumes R: "redb_ok R" "redb_up R" and meta: "rd_has R db META" and rnd: "length rnd = 32"
  shows "\<exists>db' seed. load_or_create_seed R rnd db = (db', Inr seed) \<and> length seed = 32 \<and>
    (\<forall>rnd'. load_or_create_seed R rnd' db' = (db', Inr seed))"
proof -
  let ?key = "as_bytes LN_SEED_KEY"
  have get: "in_read R d (\<lambda>txn. meta_get R txn LN_SEED_KEY) = Inr (look R d META ?key)"
    if has: "rd_has R d META" for d
  proof -
    obtain txn where t: "rd_begin_read R d = Inr txn"
      using redb_up(1) [OF R(2)] by blast
    then have "rd_has R txn META" "look R txn = look R d"
      using redb_begin(1) [OF R(1) t] has by (simp_all add: same_rows_def)
    then show ?thesis
      using fetch_up [OF R(2,1), of txn META ?key] t by (simp add: in_read_def meta_get_def)
  qed
  have stays: "load_or_create_seed R rnd' d = (d, Inr seed)"
    if "rd_has R d META" "look R d META ?key = Some seed" "length seed = 32" for d seed rnd'
    using that by (simp add: load_or_create_seed_def get)
  show ?thesis
  proof (cases "\<exists>bs. look R db META ?key = Some bs \<and> length bs = 32")
    case True
    then show ?thesis
      using stays [OF meta] by blast
  next
    case False
    obtain txn where 1: "rd_begin_write R db = Inr txn"
      using redb_up(2) [OF R(2)] by blast
    obtain txn' where 2: "meta_set R txn LN_SEED_KEY rnd = Inr txn'"
      using put_up [OF R(2,1), of txn META "as_bytes LN_SEED_KEY" rnd] by (auto simp: meta_set_def)
    obtain db' where 3: "rd_commit R txn' = Inr db'"
      using redb_up(3) [OF R(2)] by blast
    have "load_or_create_seed R rnd db = (db', Inr rnd)"
      using False by (auto simp: load_or_create_seed_def get [OF meta] 1 2 3)
    moreover have "rd_has R db' META" "look R db' META ?key = Some rnd"
      using put_look [OF R(1) 2 [unfolded meta_set_def]] redb_begin(3) [OF R(1) 3]
      by (simp_all add: same_rows_def)
    ultimately show ?thesis
      using stays rnd by blast
  qed
qed

text \<open>On a database without faults a write of the key-value store succeeds and is read back.\<close>

lemma kv_write_up:
  assumes R: "redb_ok R" "redb_up R" and names: "plain p" "plain k"
  shows "\<exists>db'. kv_write R db p [] k v = (db', Inr ()) \<and> rd_has R db' LN_KV \<and>
    (\<forall>p' k'. plain p' \<longrightarrow> plain k' \<longrightarrow>
      kv_abs R db' (p', [], k') = (if (p', k') = (p, k) then Some v else kv_abs R db (p', [], k')))"
proof -
  obtain txn where 1: "rd_begin_write R db = Inr txn"
    using redb_up(2) [OF R(2)] by blast
  obtain txn' where 2: "put R txn LN_KV (as_bytes (make_key p [] k)) v = Inr txn'"
    using put_up [OF R(2,1)] by blast
  obtain db' where 3: "rd_commit R txn' = Inr db'"
    using redb_up(3) [OF R(2)] by blast
  have run: "kv_put R db (p, [], k) v = (db', Inr ())"
    by (simp add: kv_write_def in_write_def 1 2 3)
  have "rd_has R db' LN_KV"
    using put_look [OF R(1) 2] redb_begin(3) [OF R(1) 3] by (simp add: same_rows_def)
  moreover have "kv_abs R db' (p', [], k') = (if (p', k') = (p, k) then Some v else kv_abs R db (p', [], k'))"
    if "plain p'" "plain k'" for p' k'
    using kv_write_done [OF R(1) _ _ run, of "(p', [], k')"] names that by (simp add: plain_def)
  ultimately show ?thesis
    using run by simp
qed

lemma kv_value_up:
  assumes R: "redb_ok R" "redb_up R" and has: "rd_has R db LN_KV"
  shows "kv_value R db p k = kv_abs R db (p, [], k)"
proof -
  obtain txn where 1: "rd_begin_read R db = Inr txn"
    using redb_up(1) [OF R(2)] by blast
  then have "rd_has R txn LN_KV" "look R txn = look R db"
    using redb_begin(1) [OF R(1) 1] has by (simp_all add: same_rows_def)
  then show ?thesis
    using fetch_up [OF R(2,1), of txn LN_KV] 1
    by (auto simp: kv_value_def kv_read_def in_read_def kv_abs_def Let_def split: option.split)
qed

lemma plain_names:
  "plain ''channel_manager''" "plain ''manager''" "plain ''network_graph''" "plain ''graph''"
  "plain ''scorer''"
  by (simp_all add: plain_def)


section \<open>Witnesses\<close>

text \<open>A library whose state is the list of the events that wait.\<close>

definition sample_ldk :: "ldk_event list ldk" where
  "sample_ldk =
    \<lparr>ld_channels = (\<lambda>l. []), ld_peers = (\<lambda>l. []), ld_monitors = (\<lambda>l. []),
     ld_cm_confirmed = (\<lambda>l h txs n. l), ld_cm_best = (\<lambda>l h n. l), ld_mon_confirmed = (\<lambda>l h txs n. l),
     ld_mon_best = (\<lambda>l h n. l), ld_best_height = (\<lambda>l. 0), ld_node_id = (\<lambda>l. ''02''),
     ld_connect = (\<lambda>l p a. (l, False)), ld_create_channel = (\<lambda>l p a b n. (l, Inl ''offline'')),
     ld_force_close = (\<lambda>l c p r. (l @ [ChannelClosed c r], None)), ld_close = (\<lambda>l c p. (l, None)),
     ld_description = (\<lambda>s. None), ld_invoice = (\<lambda>l a d e. (l, Inr d)), ld_parse_invoice = (\<lambda>s. None),
     ld_pay = (\<lambda>l i r. (l, None)), ld_cm_pending = (\<lambda>l. ([], l)), ld_mon_pending = (\<lambda>l. (l, [])),
     ld_forward_htlcs = (\<lambda>l. l), ld_peer_timer = (\<lambda>l. l), ld_cm_timer = (\<lambda>l. l),
     ld_process_peers = (\<lambda>l. l), ld_encode_manager = (\<lambda>l. [of_nat (length l)]),
     ld_encode_graph = (\<lambda>l. []), ld_encode_scorer = (\<lambda>l. []), ld_claim = (\<lambda>l p. l),
     ld_accept = (\<lambda>l c p n. (l, None)), ld_funding = (\<lambda>l c p tx. (l, None)),
     ld_destination = (\<lambda>l. None), ld_spend = (\<lambda>l ds s r. None), ld_address = (\<lambda>s n. Inr ''bcrt1''),
     ld_monitor_funding = (\<lambda>l c. None), ld_monitor_outputs = (\<lambda>l c tx n. None),
     ld_tx = Some, ld_script = Some, ld_hex = from_bytes\<rparr>"

definition sample_ln_env :: "(ldk_event list, sample_db, nat, bool, nat, string) ln_env" where
  "sample_ln_env =
    \<lparr>le_ldk = sample_ldk, le_redb = sample_redb, le_range = sample_range, le_codec = sample_payment_codec,
     le_bdk = sample_bdk, le_show_error = (\<lambda>e. ''wallet''), le_order = (\<lambda>es. es), le_btc = sample_btc\<rparr>"

text \<open>Its start: a manager without channels has one claimed payment to report.\<close>

definition sample_hash :: bytes where
  "sample_hash = replicate 32 0"

definition sample_ldk_start :: "(ldk_event list, sample_db, unit, unit, unit) ldk_start" where
  "sample_ldk_start =
    \<lparr>ls_open = (\<lambda>p. Inr []), ls_graph = (\<lambda>b. Some ()), ls_new_graph = (\<lambda>n. ()), ls_scorer = (\<lambda>b g. Some ()),
     ls_new_scorer = (\<lambda>g. ()), ls_read_monitors = (\<lambda>d. Inr [()]),
     ls_read_manager = (\<lambda>cfg g sc seed d ms b. Inr []),
     ls_watch = (\<lambda>l mo. (l @ [OtherEvent], True)),
     ls_fresh = (\<lambda>cfg g sc seed d n k h. [PaymentClaimed sample_hash 1000])\<rparr>"

definition sample_world ::
    "ldk_event list \<Rightarrow> (nat, bool) node_wallet option \<Rightarrow> (ldk_event list, sample_db, nat, bool) ln_world" where
  "sample_world l w =
    \<lparr>lw_ldk = l, lw_db = [], lw_wallet = w, lw_paid = [], lw_broadcast = [], lw_rx_open = False,
     lw_delivered = []\<rparr>"

definition sample_manager :: "(ldk_event list, sample_db, nat, bool) ln_manager" where
  "sample_manager =
    \<lparr>lm_config = lightning_config_default,
     lm_world = (sample_world [PaymentClaimed sample_hash 1000] None)\<lparr>lw_db := [(LN_KV, []), (PAYMENT_HISTORY, [])]\<rparr>,
     lm_has_channels = False, lm_tick_count = 0, lm_network = Regtest, lm_seed = replicate 32 7\<rparr>"

lemma sample_manager_starts:
  "\<exists>store. ln_manager_new sample_ln_env sample_ldk_start lightning_config_default Regtest ''d''
      [(META, [])] (replicate 32 7) 0 0 = (store, Inr sample_manager)"
  by (simp add: ln_manager_new_def load_or_create_seed_def in_read_def meta_get_def meta_set_def
      sample_ln_env_def sample_ldk_start_def sample_ldk_def Let_def fetch_def put_def kv_new_def
      read_network_graph_def read_scorer_def kv_value_def kv_read_def LN_KV_def PAYMENT_HISTORY_def
      load_or_create_channel_manager_def sample_manager_def sample_world_def)

text \<open>After one round of the periodic task its payment is claimed.\<close>

lemma sample_tick:
  obtains m' where "tick sample_ln_env (sample_pool 1000) [(9, 0)] [] sample_manager = Some m'"
    "tick_events sample_ln_env (sample_pool 1000) [(9, 0)] sample_manager = [PaymentClaimed sample_hash 1000]"
  by (simp add: tick_def tick_events_def sample_manager_def sample_world_def sample_ln_env_def
      sample_ldk_def lm_ldk_def Let_def send_event_def)

lemma sample_reach:
  obtains m' where "ln_reach sample_ln_env sample_ldk_start (claimed_in [PaymentClaimed sample_hash 1000]) m'"
proof -
  obtain store where "ln_manager_new sample_ln_env sample_ldk_start lightning_config_default Regtest ''d''
      [(META, [])] (replicate 32 7) 0 0 = (store, Inr sample_manager)"
    using sample_manager_starts by blast
  then have 1: "ln_reach sample_ln_env sample_ldk_start {} sample_manager"
    by (rule ln_reach.start)
  obtain m' where "tick sample_ln_env (sample_pool 1000) [(9, 0)] [] sample_manager = Some m'"
    and e: "tick_events sample_ln_env (sample_pool 1000) [(9, 0)] sample_manager = [PaymentClaimed sample_hash 1000]"
    using sample_tick by blast
  from ln_reach.tick [OF 1 this(1)] show ?thesis
    unfolding e by (intro that) simp
qed

theorem paid_iff_claimed_witness:
  "\<exists>C m. ln_reach sample_ln_env sample_ldk_start C m \<and>
    sample_hash \<in> fst ` set (lw_paid (lm_world m)) \<and> [3] \<notin> fst ` set (lw_paid (lm_world m))"
proof -
  obtain m where m: "ln_reach sample_ln_env sample_ldk_start (claimed_in [PaymentClaimed sample_hash 1000]) m"
    using sample_reach .
  have ne: "[3] \<noteq> sample_hash"
    by (simp add: sample_hash_def list_eq_iff_nth_eq)
  from m show ?thesis
    using paid_iff_claimed [OF m, of sample_hash] paid_iff_claimed [OF m, of "[3]"]
    by (simp add: claimed_in_def ne) blast
qed

theorem lightning_events_dropped_witness:
  "\<exists>C m. ln_reach sample_ln_env sample_ldk_start C m \<and> C \<noteq> {} \<and> lw_delivered (lm_world m) = []"
proof -
  obtain m where m: "ln_reach sample_ln_env sample_ldk_start (claimed_in [PaymentClaimed sample_hash 1000]) m"
    using sample_reach .
  then show ?thesis
    using lightning_events_dropped [OF m] by (auto simp: claimed_in_def)
qed

theorem funding_resolved_witness:
  "\<exists>w'. handle_ldk_event sample_ln_env lightning_config_default (sample_pool 1000) 9 0
      (sample_world [] (Some \<lparr>nw_wallet = 0, nw_db = True\<rparr>)) (FundingGenerationReady [1] ''02'' 5000 [0x51]) = Some w' \<and>
    (lw_ldk w' = [] \<or> (\<exists>reason. lw_ldk w' = [ChannelClosed [1] reason]))"
proof -
  have "bd_fee_rate (le_bdk sample_ln_env) 1 = Some 250"
    by (simp add: sample_ln_env_def sample_bdk_def)
  then show ?thesis
    using funding_resolved [of sample_ln_env 250 lightning_config_default "sample_pool 1000" 9 0
        "sample_world [] (Some \<lparr>nw_wallet = 0, nw_db = True\<rparr>)" "[1]" "''02''" 5000 "[0x51]"]
    by (auto simp: sample_ln_env_def sample_ldk_def sample_world_def)
qed

theorem seed_chosen_once_witness:
  "\<exists>db seed. load_or_create_seed sample_redb (replicate 32 7) [(META, [])] = (db, Inr seed) \<and>
    load_or_create_seed sample_redb (replicate 32 9) db = (db, Inr seed)"
  using seed_chosen_once [of sample_redb "[(META, [])]" "replicate 32 7"] by auto


end
