(* ===== verification/Json.thy ===== *)
theory Json
  imports Float64
begin

text \<open>
  JSON values as the RPC layer builds and reads them: the data model of RFC 8259 with the
  numbers split as in \<open>serde_json\<close> (integers of 64 bits, and finite doubles) and the members of
  an object in the byte order of their keys. \<open>jobj\<close> is the \<open>json!\<close> macro on an object; a float
  that is not finite becomes \<open>null\<close>. The parameter helpers at the end are those of
  \<open>wolfe-rpc/src/handlers.rs\<close>.
\<close>

section \<open>Values\<close>

datatype json =
    JNull
  | JBool bool
  | JInt int
  | JFloat f64
  | JStr string
  | JArr "json list"
  | JObj "(string \<times> json) list"

definition jnat :: "nat \<Rightarrow> json" where
  "jnat n = JInt (int n)"

definition jflt :: "f64 \<Rightarrow> json" where
  "jflt x = (case x of Fin q \<Rightarrow> JFloat x | _ \<Rightarrow> JNull)"

definition jopt :: "('a \<Rightarrow> json) \<Rightarrow> 'a option \<Rightarrow> json" where
  "jopt f x = (case x of None \<Rightarrow> JNull | Some v \<Rightarrow> f v)"

text \<open>An object is an ordered map; a later member replaces an earlier one of the same name.\<close>

fun json_put :: "string \<Rightarrow> json \<Rightarrow> (string \<times> json) list \<Rightarrow> (string \<times> json) list" where
  "json_put k v [] = [(k, v)]"
| "json_put k v ((k', v') # m) =
    (if k < k' then (k, v) # (k', v') # m
     else if k = k' then (k, v) # m
     else (k', v') # json_put k v m)"

definition json_puts :: "(string \<times> json) list \<Rightarrow> (string \<times> json) list \<Rightarrow> (string \<times> json) list" where
  "json_puts m kvs = foldl (\<lambda>m (k, v). json_put k v m) m kvs"

definition jobj :: "(string \<times> json) list \<Rightarrow> json" where
  "jobj kvs = JObj (json_puts [] kvs)"

section \<open>Reading a value\<close>

fun as_array :: "json \<Rightarrow> json list option" where
  "as_array (JArr xs) = Some xs"
| "as_array _ = None"

fun as_object :: "json \<Rightarrow> (string \<times> json) list option" where
  "as_object (JObj m) = Some m"
| "as_object _ = None"

fun as_str :: "json \<Rightarrow> string option" where
  "as_str (JStr s) = Some s"
| "as_str _ = None"

fun as_bool :: "json \<Rightarrow> bool option" where
  "as_bool (JBool b) = Some b"
| "as_bool _ = None"

text \<open>An integer above the range of \<open>i64\<close> is no \<open>i64\<close>, a negative one is no \<open>u64\<close>.\<close>

fun as_i64 :: "json \<Rightarrow> int option" where
  "as_i64 (JInt i) = (if - (2 ^ 63) \<le> i \<and> i < 2 ^ 63 then Some i else None)"
| "as_i64 _ = None"

fun as_u64 :: "json \<Rightarrow> nat option" where
  "as_u64 (JInt i) = (if 0 \<le> i \<and> i < 2 ^ 64 then Some (nat i) else None)"
| "as_u64 _ = None"

fun as_f64 :: "json \<Rightarrow> f64 option" where
  "as_f64 (JInt i) = Some (if 0 \<le> i then f64_of_u64 (nat i) else Fin (- fl_ratio (nat (- i)) 1))"
| "as_f64 (JFloat x) = Some x"
| "as_f64 _ = None"

text \<open>\<open>get\<close> by a name, and \<open>pointer\<close> along the names of a path.\<close>

fun jget :: "string \<Rightarrow> json \<Rightarrow> json option" where
  "jget k (JObj m) = map_of m k"
| "jget k _ = None"

fun jpath :: "string list \<Rightarrow> json \<Rightarrow> json option" where
  "jpath [] v = Some v"
| "jpath (k # ks) v = Option.bind (jget k v) (jpath ks)"

section \<open>Parameters of a call\<close>

definition list_get :: "'a list \<Rightarrow> nat \<Rightarrow> 'a option" where
  "list_get xs i = (if i < length xs then Some (xs ! i) else None)"

definition get_param :: "json option \<Rightarrow> nat \<Rightarrow> json option" where
  "get_param params i = Option.bind (Option.bind params as_array) (\<lambda>xs. list_get xs i)"

definition get_param_str :: "json option \<Rightarrow> nat \<Rightarrow> string option" where
  "get_param_str params i = Option.bind (get_param params i) as_str"

definition get_param_i64 :: "json option \<Rightarrow> nat \<Rightarrow> int option" where
  "get_param_i64 params i = Option.bind (get_param params i) as_i64"

definition get_param_bool :: "json option \<Rightarrow> nat \<Rightarrow> bool option" where
  "get_param_bool params i = Option.bind (get_param params i) as_bool"

section \<open>Well-formed values\<close>

text \<open>What \<open>serde_json::Value\<close> can hold.\<close>

fun json_wf :: "json \<Rightarrow> bool" where
  "json_wf (JInt i) \<longleftrightarrow> - (2 ^ 63) \<le> i \<and> i < 2 ^ 64"
| "json_wf (JFloat x) \<longleftrightarrow> x \<noteq> NaN \<and> x \<noteq> PInf \<and> x \<noteq> NInf"
| "json_wf (JArr xs) \<longleftrightarrow> (\<forall>x \<in> set xs. json_wf x)"
| "json_wf (JObj m) \<longleftrightarrow> sorted_wrt (<) (map fst m) \<and> (\<forall>x \<in> set m. json_wf (snd x))"
| "json_wf v \<longleftrightarrow> True"

named_theorems json_wf_intros \<open>well-formed values\<close>

lemma json_put_keys: "fst ` set (json_put k v m) = insert k (fst ` set m)"
  by (induction k v m rule: json_put.induct) auto

lemma json_put_sorted:
  "sorted_wrt (<) (map fst m) \<Longrightarrow> sorted_wrt (<) (map fst (json_put k v m))"
proof (induction k v m rule: json_put.induct)
  case (2 k v k' v' m)
  have "\<forall>a \<in> fst ` set (json_put k v m). k' < a" if "k' < k"
    unfolding json_put_keys using that 2(2) by auto
  with 2 show ?case
    by (auto dest: less_trans)
qed simp

lemma json_put_map: "sorted_wrt (<) (map fst m) \<Longrightarrow> map_of (json_put k v m) = (map_of m)(k \<mapsto> v)"
proof (induction k v m rule: json_put.induct)
  case (2 k v k' v' m)
  have "k \<notin> fst ` set m" if "k < k'"
    using that 2(2) by (auto dest: less_trans)
  with 2 show ?case
    by (auto simp: fun_eq_iff map_of_eq_None_iff dest!: map_of_SomeD)
qed auto

lemma json_put_wf:
  "json_wf v \<Longrightarrow> \<forall>x \<in> set m. json_wf (snd x) \<Longrightarrow> \<forall>x \<in> set (json_put k v m). json_wf (snd x)"
  by (induction k v m rule: json_put.induct) auto

lemma json_puts_simps: "json_puts m [] = m" "json_puts m ((k, v) # kvs) = json_puts (json_put k v m) kvs"
  by (simp_all add: json_puts_def)

lemma json_puts_sorted: "sorted_wrt (<) (map fst m) \<Longrightarrow> sorted_wrt (<) (map fst (json_puts m kvs))"
  by (induction kvs arbitrary: m) (auto simp: json_puts_simps json_put_sorted)

lemma json_puts_map:
  "sorted_wrt (<) (map fst m) \<Longrightarrow> map_of (json_puts m kvs) = map_of m ++ map_of (rev kvs)"
  by (induction kvs arbitrary: m)
    (auto simp: json_puts_simps json_put_sorted json_put_map map_add_upd_left fun_eq_iff map_add_def split: option.split)

lemma json_puts_wf:
  "\<forall>x \<in> set m. json_wf (snd x) \<Longrightarrow> \<forall>x \<in> set kvs. json_wf (snd x) \<Longrightarrow> \<forall>x \<in> set (json_puts m kvs). json_wf (snd x)"
proof (induction kvs arbitrary: m)
  case (Cons x kvs)
  obtain k v where x: "x = (k, v)" by (cases x)
  show ?case
    using Cons.IH [OF json_put_wf [of v m k]] Cons.prems by (simp add: x json_puts_simps)
qed (simp add: json_puts_simps)

lemma jget_jobj [simp]: "jget k (jobj kvs) = map_of (rev kvs) k"
  using json_puts_map [of "[]" kvs] by (simp add: jobj_def)

lemma json_wf_jobj [json_wf_intros]: "(\<And>k v. (k, v) \<in> set kvs \<Longrightarrow> json_wf v) \<Longrightarrow> json_wf (jobj kvs)"
  using json_puts_sorted [of "[]" kvs] json_puts_wf [of "[]" kvs] by (fastforce simp: jobj_def)

lemma json_wf_simps [simp]:
  "json_wf (jflt y)" "json_wf (jnat n) \<longleftrightarrow> n < 2 ^ 64"
  "json_wf (jopt f x) \<longleftrightarrow> (\<forall>v. x = Some v \<longrightarrow> json_wf (f v))"
  by (auto simp: jflt_def jnat_def jopt_def split: f64.split option.split)

text \<open>A well-formed parameter keeps its bounds, and an integer has at most one reading.\<close>

lemma get_param_i64_range: "get_param_i64 params i = Some n \<Longrightarrow> - (2 ^ 63) \<le> n \<and> n < 2 ^ 63"
  by (auto simp: get_param_i64_def bind_eq_Some_conv split: if_splits elim!: as_i64.elims)

lemma as_u64_range: "as_u64 v = Some n \<Longrightarrow> n < 2 ^ 64"
  by (auto split: if_splits elim!: as_u64.elims)

end
