(* ===== verification/Nostr.thy ===== *)
theory Nostr
  imports Json Mempool
begin

text \<open>
  \<open>wolfe-nostr\<close>: the verification of NIP-98 authorisation headers (\<open>nip98.rs\<close>), the events that
  the node publishes (\<open>events.rs\<close>) and the bridge that publishes them (\<open>lib.rs\<close>). The Nostr SDK and
  the base64 codec are the records \<open>nip98_lib\<close> and \<open>nostr_sdk\<close>; the client is an abstract state
  \<open>'n\<close>. A public key is its text. Header values are visible ASCII, so that trimming removes
  only tabs and spaces.
\<close>

section \<open>Errors\<close>

datatype nostr_error =
    RelayConnection string
  | NostrSigning string
  | Publishing string
  | InvalidKey string
  | Nip98 string

fun show_nostr_error :: "nostr_error \<Rightarrow> string" where
  "show_nostr_error (RelayConnection s) = ''relay connection failed: '' @ s"
| "show_nostr_error (NostrSigning s) = ''event signing failed: '' @ s"
| "show_nostr_error (Publishing s) = ''event publishing failed: '' @ s"
| "show_nostr_error (InvalidKey s) = ''invalid key: '' @ s"
| "show_nostr_error (Nip98 s) = ''NIP-98 auth failed: '' @ s"

section \<open>NIP-98\<close>

definition MAX_AUTH_AGE_SECS :: nat where "MAX_AUTH_AGE_SECS = 60"
definition NIP98_KIND :: nat where "NIP98_KIND = 27235"

record nostr_event =
  ne_pubkey :: string
  ne_kind :: nat
  ne_created_at :: nat
  ne_tags :: "string list list"

text \<open>
  \<open>ni_unbase64\<close>, \<open>ni_utf8\<close> and \<open>ni_event\<close> decode the three layers, each with the text of its
  error; \<open>ni_verify\<close> gives the error of a wrong identifier or signature; \<open>ni_npub\<close> renders a key.
\<close>

record nip98_lib =
  ni_unbase64 :: "string \<Rightarrow> string + bytes"
  ni_utf8 :: "bytes \<Rightarrow> string + string"
  ni_event :: "string \<Rightarrow> string + nostr_event"
  ni_verify :: "nostr_event \<Rightarrow> string option"
  ni_npub :: "string \<Rightarrow> string"

definition is_blank :: "char \<Rightarrow> bool" where
  "is_blank c \<longleftrightarrow> c = CHR '' '' \<or> c = CHR 0x09"

definition trim :: "string \<Rightarrow> string" where
  "trim s = rev (dropWhile is_blank (rev (dropWhile is_blank s)))"

definition to_lower :: "char \<Rightarrow> char" where
  "to_lower c = (if CHR ''A'' \<le> c \<and> c \<le> CHR ''Z'' then char_of ((of_char c :: nat) + 32) else c)"

definition eq_ignore_ascii_case :: "string \<Rightarrow> string \<Rightarrow> bool" where
  "eq_ignore_ascii_case s t \<longleftrightarrow> map to_lower s = map to_lower t"

text \<open>The loop over the tags: a later tag of the same name replaces an earlier one.\<close>

definition scan_tag :: "string option \<times> string option \<Rightarrow> string list \<Rightarrow> string option \<times> string option" where
  "scan_tag acc parts =
    (case acc of (url_value, method_value) \<Rightarrow>
       if 2 \<le> length parts then
         if parts ! 0 = ''u'' then (Some (parts ! 1), method_value)
         else if parts ! 0 = ''method'' then (url_value, Some (parts ! 1))
         else acc
       else acc)"

definition scan_tags :: "string list list \<Rightarrow> string option \<times> string option" where
  "scan_tags tags = foldl scan_tag (None, None) tags"

definition quoted :: "string \<Rightarrow> string" where
  "quoted s = CHR 0x27 # s @ [CHR 0x27]"

definition check_tags :: "string \<Rightarrow> string \<Rightarrow> string list list \<Rightarrow> nostr_error + unit" where
  "check_tags url method tags =
    (case scan_tags tags of (url_value, method_value) \<Rightarrow>
       case url_value of
         None \<Rightarrow> Inl (Nip98 (''missing '' @ quoted ''u'' @ '' tag''))
       | Some u \<Rightarrow>
           if u \<noteq> url
           then Inl (Nip98 (''URL mismatch: event has '' @ quoted u @ '', request is '' @ quoted url))
           else
             (case method_value of
                None \<Rightarrow> Inl (Nip98 (''missing '' @ quoted ''method'' @ '' tag''))
              | Some m \<Rightarrow>
                  if eq_ignore_ascii_case m method then Inr ()
                  else Inl (Nip98 (''method mismatch: event has '' @ quoted m @ '', request is '' @
                    quoted method))))"

definition check_event ::
    "nip98_lib \<Rightarrow> nat \<Rightarrow> nostr_event \<Rightarrow> string \<Rightarrow> string \<Rightarrow> string list \<Rightarrow> nostr_error + string" where
  "check_event N now event url method allowed =
    (if ne_kind event \<noteq> NIP98_KIND
     then Inl (Nip98 (''wrong kind: expected '' @ show_nat NIP98_KIND @ '', got '' @ show_nat (ne_kind event)))
     else
       (let created = ne_created_at event;
            diff = (if created \<le> now then now - created else created - now)
        in if MAX_AUTH_AGE_SECS < diff
           then Inl (Nip98 (''event too old or in future: '' @ show_nat diff @ ''s drift (max '' @
             show_nat MAX_AUTH_AGE_SECS @ ''s)''))
           else
             res_bind (check_tags url method (ne_tags event)) (\<lambda>_.
             let pubkey = ne_pubkey event in
             if allowed \<noteq> [] \<and> pubkey \<notin> set allowed
             then Inl (Nip98 (''pubkey '' @ ni_npub N pubkey @ '' not in allowed list''))
             else Inr pubkey)))"

definition verify_nip98 ::
    "nip98_lib \<Rightarrow> nat \<Rightarrow> string \<Rightarrow> string \<Rightarrow> string \<Rightarrow> string list \<Rightarrow> nostr_error + string" where
  "verify_nip98 N now auth_value url method allowed =
    (case ni_unbase64 N (trim auth_value) of
       Inl e \<Rightarrow> Inl (Nip98 (''invalid base64: '' @ e))
     | Inr event_json \<Rightarrow>
         (case ni_utf8 N event_json of
            Inl e \<Rightarrow> Inl (Nip98 (''invalid UTF-8: '' @ e))
          | Inr event_str \<Rightarrow>
              (case ni_event N event_str of
                 Inl e \<Rightarrow> Inl (Nip98 (''invalid event JSON: '' @ e))
               | Inr event \<Rightarrow>
                   (case ni_verify N event of
                      Some e \<Rightarrow> Inl (Nip98 (''invalid signature: '' @ e))
                    | None \<Rightarrow> check_event N now event url method allowed))))"

section \<open>Events\<close>

text \<open>\<open>to_string\<close> of a JSON value is the argument \<open>J\<close>.\<close>

record event_builder =
  eb_kind :: nat
  eb_content :: string
  eb_tags :: "string list list"

definition block_announcement ::
    "(json \<Rightarrow> string) \<Rightarrow> nat \<Rightarrow> string \<Rightarrow> nat \<Rightarrow> nat \<Rightarrow> nat \<Rightarrow> string \<Rightarrow> event_builder" where
  "block_announcement J height hash timestamp tx_count sz network =
    \<lparr>eb_kind = 33333,
     eb_content = J (jobj [(''height'', jnat height), (''hash'', JStr hash), (''timestamp'', jnat timestamp),
       (''tx_count'', jnat tx_count), (''size'', jnat sz)]),
     eb_tags = [[''d'', ''block''], [''t'', ''bitcoin''], [''t'', ''block''],
       [''height'', show_nat height], [''network'', network]]\<rparr>"

definition fee_buckets_json :: "(f64 \<times> nat) list \<Rightarrow> json" where
  "fee_buckets_json buckets =
    JArr (map (\<lambda>(rate, n). jobj [(''fee_rate'', jflt rate), (''count'', jnat n)]) buckets)"

definition mempool_fee_oracle ::
    "(json \<Rightarrow> string) \<Rightarrow> nat \<Rightarrow> nat \<Rightarrow> f64 \<Rightarrow> (f64 \<times> nat) list \<Rightarrow> string \<Rightarrow> event_builder" where
  "mempool_fee_oracle J sz total_size min_rate buckets network =
    \<lparr>eb_kind = 33334,
     eb_content = J (jobj [(''size'', jnat sz), (''bytes'', jnat total_size), (''min_fee_rate'', jflt min_rate),
       (''fee_histogram'', fee_buckets_json buckets)]),
     eb_tags = [[''d'', ''mempool-fees''], [''t'', ''bitcoin''], [''t'', ''mempool''], [''t'', ''fees''],
       [''network'', network]]\<rparr>"

section \<open>The bridge\<close>

text \<open>
  The SDK: a call that may fail returns the text of its error, or the identifier of the event
  that was sent. \<open>nk_keys\<close> parses a secret key into its public key, \<open>nk_url\<close> is \<open>Url::parse\<close>.
\<close>

record nostr_metadata =
  nm_name :: "string option"
  nm_about :: "string option"
  nm_picture :: "string option"

record 'n nostr_sdk =
  nk_keys :: "string \<Rightarrow> string + string"
  nk_generate :: string
  nk_client :: "string \<Rightarrow> 'n"
  nk_add_relay :: "'n \<Rightarrow> string \<Rightarrow> 'n \<times> string option"
  nk_remove_relay :: "'n \<Rightarrow> string \<Rightarrow> 'n \<times> string option"
  nk_relays :: "'n \<Rightarrow> string list"
  nk_connect :: "'n \<Rightarrow> 'n"
  nk_disconnect :: "'n \<Rightarrow> 'n"
  nk_send :: "'n \<Rightarrow> event_builder \<Rightarrow> 'n \<times> (string + string)"
  nk_set_metadata :: "'n \<Rightarrow> nostr_metadata \<Rightarrow> 'n \<times> (string + string)"
  nk_url :: "string \<Rightarrow> string option"
  nk_npub :: "string \<Rightarrow> string"
  nk_json :: "json \<Rightarrow> string"

datatype nostr_msg =
    BlockValidated nat string nat nat nat
  | LightningChannelOpened string string nat
  | LightningPaymentReceived string nat

record 'n nostr_bridge =
  nb_client :: 'n
  nb_network :: string
  nb_interval_secs :: nat
  nb_public_key :: string
  nb_profile_name :: "string option"
  nb_profile_about :: "string option"
  nb_profile_picture :: "string option"

fun add_relays :: "'n nostr_sdk \<Rightarrow> 'n \<Rightarrow> string list \<Rightarrow> nostr_error + 'n" where
  "add_relays K c [] = Inr c"
| "add_relays K c (relay_url # urls) =
    (case nk_add_relay K c relay_url of
       (c, Some e) \<Rightarrow> Inl (RelayConnection (relay_url @ '': '' @ e))
     | (c, None) \<Rightarrow> add_relays K c urls)"

definition bridge_new ::
    "'n nostr_sdk \<Rightarrow> string option \<Rightarrow> string list \<Rightarrow> string \<Rightarrow> nat \<Rightarrow> string option \<Rightarrow> string option
      \<Rightarrow> string option \<Rightarrow> nostr_error + 'n nostr_bridge" where
  "bridge_new K secret relay_urls network interval name about picture =
    res_bind
      (case secret of
         None \<Rightarrow> Inr (nk_generate K)
       | Some sk \<Rightarrow> (case nk_keys K sk of Inl e \<Rightarrow> Inl (InvalidKey e) | Inr pk \<Rightarrow> Inr pk)) (\<lambda>keys.
    res_bind (add_relays K (nk_client K keys) relay_urls) (\<lambda>client.
    Inr \<lparr>nb_client = client, nb_network = network, nb_interval_secs = interval, nb_public_key = keys,
      nb_profile_name = name, nb_profile_about = about, nb_profile_picture = picture\<rparr>))"

definition nb_publish :: "'n nostr_sdk \<Rightarrow> event_builder \<Rightarrow> 'n nostr_bridge \<Rightarrow> 'n nostr_bridge" where
  "nb_publish K ev b = b\<lparr>nb_client := fst (nk_send K (nb_client b) ev)\<rparr>"

fun bridge_handle_event :: "'n nostr_sdk \<Rightarrow> 'n nostr_bridge \<Rightarrow> nostr_msg \<Rightarrow> 'n nostr_bridge" where
  "bridge_handle_event K b (BlockValidated height hash timestamp tx_count sz) =
    nb_publish K (block_announcement (nk_json K) height hash timestamp tx_count sz (nb_network b)) b"
| "bridge_handle_event K b (LightningChannelOpened channel_id counterparty capacity) = b"
| "bridge_handle_event K b (LightningPaymentReceived payment_hash amount) = b"

definition publish_fee_oracle ::
    "'n nostr_sdk \<Rightarrow> order \<Rightarrow> mempool \<Rightarrow> 'n nostr_bridge \<Rightarrow> 'n nostr_bridge" where
  "publish_fee_oracle K it pool b =
    (if mempool_len pool = 0 then b
     else nb_publish K (mempool_fee_oracle (nk_json K) (mempool_len pool) (mempool_total_bytes pool)
       (mempool_min_fee_rate pool) (fee_histogram it pool) (nb_network b)) b)"

text \<open>
  \<open>run\<close>: what the loop waits for arrives in any order; the queue of the main loop closes last.
  The panic of \<open>tokio::time::interval\<close> on a zero period is \<open>None\<close>.
\<close>

datatype bridge_input = FromMain nostr_msg | OracleTick mempool

fun bridge_step :: "'n nostr_sdk \<Rightarrow> order \<Rightarrow> 'n nostr_bridge \<Rightarrow> bridge_input \<Rightarrow> 'n nostr_bridge" where
  "bridge_step K it b (FromMain msg) = bridge_handle_event K b msg"
| "bridge_step K it b (OracleTick pool) = publish_fee_oracle K it pool b"

definition bridge_start :: "'n nostr_sdk \<Rightarrow> 'n nostr_bridge \<Rightarrow> 'n nostr_bridge option" where
  "bridge_start K b =
    (let b = b\<lparr>nb_client := nk_connect K (nb_client b)\<rparr>;
         b = (if nb_profile_name b \<noteq> None \<or> nb_profile_about b \<noteq> None \<or> nb_profile_picture b \<noteq> None
              then b\<lparr>nb_client := fst (nk_set_metadata K (nb_client b)
                \<lparr>nm_name = nb_profile_name b, nm_about = nb_profile_about b,
                 nm_picture = Option.bind (nb_profile_picture b) (nk_url K)\<rparr>)\<rparr>
              else b)
     in if nb_interval_secs b = 0 then None else Some b)"

definition bridge_run ::
    "'n nostr_sdk \<Rightarrow> order \<Rightarrow> bridge_input list \<Rightarrow> 'n nostr_bridge \<Rightarrow> 'n nostr_bridge option" where
  "bridge_run K it inputs b =
    map_option (\<lambda>b. let b = foldl (bridge_step K it) b inputs in b\<lparr>nb_client := nk_disconnect K (nb_client b)\<rparr>)
      (bridge_start K b)"

section \<open>Facts\<close>

text \<open>The value of the last tag of a name; tags without a value do not count.\<close>

definition last_tag :: "string \<Rightarrow> string list list \<Rightarrow> string option" where
  "last_tag key tags =
    (let ps = filter (\<lambda>p. 2 \<le> length p \<and> p ! 0 = key) tags
     in if ps = [] then None else Some (last ps ! 1))"

lemma last_tag_snoc:
  "last_tag key (tags @ [p]) = (if 2 \<le> length p \<and> p ! 0 = key then Some (p ! 1) else last_tag key tags)"
  by (simp add: last_tag_def Let_def)

lemma scan_tags_last: "scan_tags tags = (last_tag ''u'' tags, last_tag ''method'' tags)"
proof (induction tags rule: rev_induct)
  case Nil
  show ?case by (simp add: scan_tags_def last_tag_def)
next
  case (snoc p tags)
  then show ?case
    by (simp add: scan_tags_def scan_tag_def last_tag_snoc)
qed

lemma check_tags_ok:
  "check_tags url method tags = Inr () \<longleftrightarrow> last_tag ''u'' tags = Some url \<and>
    (\<exists>m. last_tag ''method'' tags = Some m \<and> eq_ignore_ascii_case m method)"
  by (auto simp: check_tags_def scan_tags_last split: option.split)

text \<open>What an event must say to authorise a request.\<close>

definition nip98_grants :: "nostr_event \<Rightarrow> nat \<Rightarrow> string \<Rightarrow> string \<Rightarrow> string list \<Rightarrow> bool" where
  "nip98_grants e now url method allowed \<longleftrightarrow>
    ne_kind e = NIP98_KIND \<and> now \<le> ne_created_at e + 60 \<and> ne_created_at e \<le> now + 60 \<and>
    last_tag ''u'' (ne_tags e) = Some url \<and>
    (\<exists>m. last_tag ''method'' (ne_tags e) = Some m \<and> eq_ignore_ascii_case m method) \<and>
    (allowed = [] \<or> ne_pubkey e \<in> set allowed)"

lemma check_event_grants:
  "check_event N now e url method allowed = Inr pk \<longleftrightarrow>
    nip98_grants e now url method allowed \<and> pk = ne_pubkey e"
  by (auto simp: check_event_def nip98_grants_def Let_def MAX_AUTH_AGE_SECS_def res_simps check_tags_ok)

lemma verify_nip98_grants:
  "verify_nip98 N now v url method allowed = Inr pk \<longleftrightarrow>
    (\<exists>bs str e. ni_unbase64 N (trim v) = Inr bs \<and> ni_utf8 N bs = Inr str \<and> ni_event N str = Inr e \<and>
      ni_verify N e = None \<and> nip98_grants e now url method allowed \<and> pk = ne_pubkey e)"
  by (auto simp: verify_nip98_def check_event_grants split: sum.split option.split)

text \<open>The bridge publishes once per validated block, and per tick while the pool is not empty.\<close>

definition published :: "'n nostr_sdk \<Rightarrow> order \<Rightarrow> string \<Rightarrow> bridge_input \<Rightarrow> event_builder list" where
  "published K it network x =
    (case x of
       FromMain (BlockValidated height hash timestamp tx_count sz) \<Rightarrow>
         [block_announcement (nk_json K) height hash timestamp tx_count sz network]
     | FromMain _ \<Rightarrow> []
     | OracleTick pool \<Rightarrow>
         if mp_entries pool = [] then []
         else [mempool_fee_oracle (nk_json K) (length (mp_entries pool)) (mp_total_bytes pool)
           (min_fee_rate (mp_policy pool)) (fee_histogram it pool) network])"

lemma bridge_step_effect:
  "bridge_step K it b x =
    b\<lparr>nb_client := foldl (\<lambda>c ev. fst (nk_send K c ev)) (nb_client b) (published K it (nb_network b) x)\<rparr>"
proof (cases x)
  case (FromMain msg)
  then show ?thesis
    by (cases msg) (simp_all add: published_def nb_publish_def)
next
  case (OracleTick pool)
  then show ?thesis
    by (simp add: published_def publish_fee_oracle_def nb_publish_def mempool_len_def mempool_total_bytes_def
        mempool_min_fee_rate_def)
qed

lemma bridge_inputs_effect:
  "foldl (bridge_step K it) b xs =
    b\<lparr>nb_client := foldl (\<lambda>c ev. fst (nk_send K c ev)) (nb_client b)
      (concat (map (published K it (nb_network b)) xs))\<rparr>"
proof (induction xs arbitrary: b)
  case (Cons x xs)
  show ?case
    using Cons.IH [of "bridge_step K it b x"] by (simp add: bridge_step_effect)
qed simp

section \<open>Properties\<close>

text \<open>
  C?: A NIP-98 header is accepted exactly when its three layers decode, the signature verifies,
  the event is of kind 27235, its time is at most a minute off in either direction, its last
  \<open>u\<close> tag is the request's URL, its last \<open>method\<close> tag names the request's method in any case, and its key
  is among the allowed ones, every key being allowed when none is listed.
\<close>

theorem nip98_accepts_exactly:
  "verify_nip98 N now v url method allowed = Inr pk \<longleftrightarrow>
    (\<exists>bs str e. ni_unbase64 N (trim v) = Inr bs \<and> ni_utf8 N bs = Inr str \<and> ni_event N str = Inr e \<and>
      ni_verify N e = None \<and> ne_kind e = 27235 \<and> now \<le> ne_created_at e + 60 \<and> ne_created_at e \<le> now + 60 \<and>
      last_tag ''u'' (ne_tags e) = Some url \<and>
      (\<exists>m. last_tag ''method'' (ne_tags e) = Some m \<and> eq_ignore_ascii_case m method) \<and>
      (allowed = [] \<or> ne_pubkey e \<in> set allowed) \<and> pk = ne_pubkey e)"
  by (simp add: verify_nip98_grants nip98_grants_def NIP98_KIND_def conj_assoc)

text \<open>
  The bridge publishes, in the order of what it receives, one announcement per validated
  block and one fee report per tick with a pool that is not empty, and nothing else; the
  Lightning messages are only logged. It does not start at all with a period of zero.
\<close>

theorem bridge_publishes:
  "bridge_run K it xs b =
    (if nb_interval_secs b = 0 then None
     else map_option (\<lambda>b1. b1\<lparr>nb_client := nk_disconnect K
         (foldl (\<lambda>c ev. fst (nk_send K c ev)) (nb_client b1) (concat (map (published K it (nb_network b)) xs)))\<rparr>)
       (bridge_start K b))"
  by (auto simp: bridge_run_def bridge_start_def bridge_inputs_effect Let_def)

end
