(* ===== verification/Explorer.thy ===== *)
theory Explorer
  imports Json Bitcoin_Types
begin

text \<open>
  The checks on the block explorer that a call may name (\<open>wolfe-rpc/src/handlers.rs\<close>), the errors
  of the RPC layer (\<open>error.rs\<close>), and what the checks use of \<open>std::net\<close>: the parser of IP addresses
  and the test for link-local ones. The URL parser, the resolver and the HTTP client are the
  record \<open>http\<close>.
\<close>

section \<open>IP addresses\<close>

datatype ip_addr = V4 "32 word" | V6 "128 word"

definition digit_value :: "nat \<Rightarrow> char \<Rightarrow> nat option" where
  "digit_value radix c =
    (let n = of_char c :: nat;
         v = (if 48 \<le> n \<and> n \<le> 57 then Some (n - 48)
              else if 97 \<le> n \<and> n \<le> 122 then Some (n - 87)
              else if 65 \<le> n \<and> n \<le> 90 then Some (n - 55) else None)
     in case v of Some d \<Rightarrow> if d < radix then Some d else None | None \<Rightarrow> None)"

text \<open>A number of at most the given count of digits; the rest of the input is returned with it.\<close>

definition read_number :: "nat \<Rightarrow> nat \<Rightarrow> bool \<Rightarrow> nat \<Rightarrow> string \<Rightarrow> (nat \<times> string) option" where
  "read_number radix max_digits allow_zero_prefix bound s =
    (let ds = takeWhile (\<lambda>c. digit_value radix c \<noteq> None) s;
         v = foldl (\<lambda>a c. a * radix + the (digit_value radix c)) 0 ds
     in if ds = [] \<or> max_digits < length ds then None
        else if \<not> allow_zero_prefix \<and> hd ds = CHR ''0'' \<and> 1 < length ds then None
        else if bound < v then None else Some (v, drop (length ds) s))"

definition read_char :: "char \<Rightarrow> string \<Rightarrow> string option" where
  "read_char c s = (case s of [] \<Rightarrow> None | x # xs \<Rightarrow> if x = c then Some xs else None)"

definition read_separator ::
    "char \<Rightarrow> bool \<Rightarrow> (string \<Rightarrow> ('a \<times> string) option) \<Rightarrow> string \<Rightarrow> ('a \<times> string) option" where
  "read_separator sep is_first inner s =
    (if is_first then inner s else Option.bind (read_char sep s) inner)"

fun read_octets :: "nat \<Rightarrow> bool \<Rightarrow> nat \<Rightarrow> string \<Rightarrow> (nat \<times> string) option" where
  "read_octets 0 is_first acc s = Some (acc, s)"
| "read_octets (Suc n) is_first acc s =
    Option.bind (read_separator (CHR ''.'') is_first (read_number 10 3 False 255) s)
      (\<lambda>(v, s). read_octets n False (acc * 256 + v) s)"

definition read_ipv4 :: "string \<Rightarrow> (nat \<times> string) option" where
  "read_ipv4 s = read_octets 4 True 0 s"

text \<open>
  The groups of one side of an IPv6 address, at most the given number of them; an embedded IPv4
  address fills two and ends the run, which the flag tells.
\<close>

fun read_groups :: "nat \<Rightarrow> bool \<Rightarrow> string \<Rightarrow> nat list \<times> bool \<times> string" where
  "read_groups 0 is_first s = ([], False, s)"
| "read_groups (Suc n) is_first s =
    (case (if 0 < n then read_separator (CHR '':'') is_first read_ipv4 s else None) of
       Some (v, s) \<Rightarrow> ([v div 2 ^ 16, v mod 2 ^ 16], True, s)
     | None \<Rightarrow>
         (case read_separator (CHR '':'') is_first (read_number 16 4 True (2 ^ 16 - 1)) s of
            None \<Rightarrow> ([], False, s)
          | Some (g, s) \<Rightarrow>
              (case read_groups n False s of (gs, v4, s) \<Rightarrow> (g # gs, v4, s))))"

definition groups_value :: "nat list \<Rightarrow> nat" where
  "groups_value gs = foldl (\<lambda>a g. a * 2 ^ 16 + g) 0 gs"

definition read_ipv6 :: "string \<Rightarrow> (nat \<times> string) option" where
  "read_ipv6 s =
    (case read_groups 8 True s of
       (head, head_ipv4, s) \<Rightarrow>
         if length head = 8 then Some (groups_value head, s)
         else if head_ipv4 then None
         else
           Option.bind (Option.bind (read_char (CHR '':'') s) (read_char (CHR '':''))) (\<lambda>s.
           case read_groups (8 - (length head + 1)) True s of
             (tail, _, s) \<Rightarrow>
               Some (groups_value (head @ replicate (8 - length head - length tail) 0 @ tail), s)))"

definition parse_ip :: "string \<Rightarrow> ip_addr option" where
  "parse_ip s =
    (case (case read_ipv4 s of
             Some (v, s) \<Rightarrow> Some (V4 (of_nat v), s)
           | None \<Rightarrow> map_option (\<lambda>(v, s). (V6 (of_nat v), s)) (read_ipv6 s)) of
       Some (ip, []) \<Rightarrow> Some ip
     | _ \<Rightarrow> None)"

text \<open>169.254.0.0/16 and fe80::/10.\<close>

fun is_link_local :: "ip_addr \<Rightarrow> bool" where
  "is_link_local (V4 a) \<longleftrightarrow> drop_bit 16 a = 0xA9FE"
| "is_link_local (V6 a) \<longleftrightarrow> drop_bit 118 a = 0x3FA"

section \<open>Errors of the RPC layer\<close>

datatype rpc_error =
    MethodNotFound string
  | InvalidParams string
  | RpcInternal string
  | RpcNotFound string
  | RpcWallet string
  | RpcLightning string
  | RpcNostr string

datatype http_body = BJson json | BText string

record http_response =
  rs_status :: nat
  rs_headers :: "(string \<times> string) list"
  rs_body :: http_body

definition json_response :: "nat \<Rightarrow> json \<Rightarrow> http_response" where
  "json_response status v = \<lparr>rs_status = status, rs_headers = [], rs_body = BJson v\<rparr>"

fun error_triple :: "rpc_error \<Rightarrow> nat \<times> int \<times> string" where
  "error_triple (MethodNotFound m) = (404, - 32601, m)"
| "error_triple (InvalidParams m) = (400, - 32602, m)"
| "error_triple (RpcInternal m) = (500, - 32603, m)"
| "error_triple (RpcNotFound m) = (404, - 1, m)"
| "error_triple (RpcWallet m) = (500, - 4, m)"
| "error_triple (RpcLightning m) = (500, - 5, m)"
| "error_triple (RpcNostr m) = (500, - 6, m)"

definition error_into_response :: "rpc_error \<Rightarrow> http_response" where
  "error_into_response e =
    (case error_triple e of (status, code, message) \<Rightarrow>
       json_response status
         (jobj [(''error'', jobj [(''code'', JInt code), (''message'', JStr message)])]))"

section \<open>The explorer\<close>

record url =
  u_scheme :: string
  u_username :: string
  u_password :: "string option"
  u_query :: "string option"
  u_fragment :: "string option"
  u_host :: "string option"
  u_port_or_default :: "nat option"
  u_text :: string

record http_reply =
  re_success :: bool
  re_status :: string
  re_json :: "string + json"
  re_text :: "string + string"

text \<open>
  \<open>ht_build\<close> takes the addresses pinned for a host; \<open>ht_get\<close> is a request, whose first argument
  tells the requests of one call apart; \<open>ht_not_array\<close> is the error of a value that is no list.
\<close>

record 'cl http =
  ht_parse :: "string \<Rightarrow> string + url"
  ht_lookup :: "string \<Rightarrow> nat \<Rightarrow> string + ip_addr list"
  ht_build :: "(string \<times> ip_addr list) option \<Rightarrow> string + 'cl"
  ht_get :: "nat list \<Rightarrow> 'cl \<Rightarrow> string \<Rightarrow> string + http_reply"
  ht_network :: "network \<Rightarrow> string"
  ht_not_array :: "json \<Rightarrow> string"

definition default_explorer_base :: "'cl http \<Rightarrow> network \<Rightarrow> rpc_error + string" where
  "default_explorer_base H net =
    (case net of
       Bitcoin \<Rightarrow> Inr ''https://mempool.space''
     | Testnet \<Rightarrow> Inr ''https://mempool.space/testnet''
     | Signet \<Rightarrow> Inr ''https://mempool.space/signet''
     | other \<Rightarrow> Inl (InvalidParams (''no default explorer for network '' @ [CHR 0x27] @ ht_network H other @
         [CHR 0x27] @ ''; pass an explorer base URL param'')))"

definition trim_end :: "char \<Rightarrow> string \<Rightarrow> string" where
  "trim_end c s = rev (dropWhile (\<lambda>x. x = c) (rev s))"

definition trim_brackets :: "string \<Rightarrow> string" where
  "trim_brackets s =
    (let bracket = (\<lambda>c. c = CHR ''['' \<or> c = CHR '']'')
     in rev (dropWhile bracket (rev (dropWhile bracket s))))"

definition validate_explorer_base :: "'cl http \<Rightarrow> string \<Rightarrow> rpc_error + string" where
  "validate_explorer_base H raw =
    (case ht_parse H raw of
       Inl e \<Rightarrow> Inl (InvalidParams (''bad explorer URL: '' @ e))
     | Inr url \<Rightarrow>
         if u_scheme url \<noteq> ''http'' \<and> u_scheme url \<noteq> ''https''
         then Inl (InvalidParams ''explorer URL must use http or https'')
         else if u_username url \<noteq> [] \<or> u_password url \<noteq> None
         then Inl (InvalidParams ''explorer URL must not embed credentials'')
         else if u_query url \<noteq> None \<or> u_fragment url \<noteq> None
         then Inl (InvalidParams ''explorer URL must not have a query or fragment'')
         else
           (case u_host url of
              None \<Rightarrow> Inl (InvalidParams ''explorer URL missing host'')
            | Some host \<Rightarrow>
                (case parse_ip (trim_brackets host) of
                   Some ip \<Rightarrow>
                     if is_link_local ip
                     then Inl (InvalidParams ''explorer URL must not target link-local addresses'')
                     else Inr (trim_end (CHR ''/'') (u_text url))
                 | None \<Rightarrow> Inr (trim_end (CHR ''/'') (u_text url)))))"

definition explorer_client :: "'cl http \<Rightarrow> string \<Rightarrow> rpc_error + 'cl" where
  "explorer_client H base =
    (case ht_parse H base of
       Inl e \<Rightarrow> Inl (InvalidParams (''bad explorer URL: '' @ e))
     | Inr url \<Rightarrow>
         (case u_host url of
            None \<Rightarrow> Inl (InvalidParams ''explorer URL missing host'')
          | Some host \<Rightarrow>
              res_bind
                (if parse_ip (trim_brackets host) = None then
                   (let port = (case u_port_or_default url of Some p \<Rightarrow> p | None \<Rightarrow> 443) in
                    case ht_lookup H host port of
                      Inl e \<Rightarrow> Inl (InvalidParams (''explorer host '' @ [CHR 0x27] @ host @ [CHR 0x27] @
                        '' did not resolve: '' @ e))
                    | Inr addrs \<Rightarrow>
                        if addrs = []
                        then Inl (InvalidParams (''explorer host '' @ [CHR 0x27] @ host @ [CHR 0x27] @
                          '' did not resolve to any address''))
                        else if (\<exists>a \<in> set addrs. is_link_local a)
                        then Inl (InvalidParams (''explorer host '' @ [CHR 0x27] @ host @ [CHR 0x27] @
                          '' resolves to a link-local address''))
                        else Inr (Some (host, addrs)))
                 else Inr None)
                (\<lambda>pinned. case ht_build H pinned of
                   Inl e \<Rightarrow> Inl (RpcInternal (''http client: '' @ e)) | Inr client \<Rightarrow> Inr client)))"

definition explorer_outspend ::
    "'cl http \<Rightarrow> nat list \<Rightarrow> 'cl \<Rightarrow> string \<Rightarrow> string \<Rightarrow> nat \<Rightarrow> string + json" where
  "explorer_outspend H req client base txid_hex vout_no =
    (let url = base @ ''/api/tx/'' @ txid_hex @ ''/outspend/'' @ show_nat vout_no in
     case ht_parse H url of
       Inl e \<Rightarrow> Inl (''bad explorer URL: '' @ e)
     | Inr u \<Rightarrow>
         (case ht_get H req client (u_text u) of
            Inl e \<Rightarrow> Inl e
          | Inr resp \<Rightarrow>
              if \<not> re_success resp
              then Inl (''explorer returned '' @ re_status resp @ '' for '' @ txid_hex @ '':'' @ show_nat vout_no @
                '' (funding tx may be unconfirmed or unknown)'')
              else re_json resp))"

section \<open>Dotted decimals\<close>

definition digit_char :: "nat \<Rightarrow> char" where
  "digit_char d = char_of (48 + d)"

lemma digit_char_value: "d < 10 \<Longrightarrow> digit_value 10 (digit_char d) = Some d"
  by (simp add: digit_value_def digit_char_def)

lemma digit_char_0:
  assumes "d < 10"
  shows "digit_char d = CHR ''0'' \<longleftrightarrow> d = 0"
proof
  assume "digit_char d = CHR ''0''"
  then have "(of_char (digit_char d) :: nat) = of_char CHR ''0''"
    by simp
  with assms show "d = 0"
    by (simp add: digit_char_def)
next
  have "(char_of (48 :: nat) :: char) = CHR ''0''"
    by code_simp
  then show "d = 0 \<Longrightarrow> digit_char d = CHR ''0''"
    by (simp add: digit_char_def)
qed

text \<open>The digits of a number below a thousand.\<close>

definition digits3 :: "nat \<Rightarrow> nat list" where
  "digits3 n = (if n < 10 then [n] else if n < 100 then [n div 10, n mod 10]
     else [n div 100, n div 10 mod 10, n mod 10])"

lemma show_nat_digits3:
  assumes "n < 1000"
  shows "show_nat n = map digit_char (digits3 n)"
proof -
  have "n div 10 < 100" "n div 100 < 10" "n div 10 div 10 = n div 100"
    using assms by (simp_all add: flip: div_mult2_eq)
  then show ?thesis
    using assms show_nat.simps [of n] show_nat.simps [of "n div 10"] show_nat.simps [of "n div 100"]
    by (auto simp: digits3_def digit_char_def)
qed

lemma digits3_facts:
  assumes n: "n < 1000"
  shows "\<forall>d \<in> set (digits3 n). d < 10" "foldl (\<lambda>a d. a * 10 + d) 0 (digits3 n) = n"
    "digits3 n \<noteq> []" "length (digits3 n) \<le> 3" "hd (digits3 n) = 0 \<Longrightarrow> length (digits3 n) = 1"
proof -
  have "n div 100 * 10 + n div 10 mod 10 = n div 10"
    using div_mult_mod_eq [of "n div 10" 10] by (simp flip: div_mult2_eq)
  then have e: "(n div 100 * 10 + n div 10 mod 10) * 10 + n mod 10 = n" "n div 10 * 10 + n mod 10 = n"
    by simp_all
  have d: "n div 100 < 10" "n < 100 \<Longrightarrow> n div 10 < 10" "\<not> n < 10 \<Longrightarrow> 0 < n div 10" "\<not> n < 100 \<Longrightarrow> 0 < n div 100"
    using n by (simp_all add: div_greater_zero_iff)
  show "\<forall>d \<in> set (digits3 n). d < 10"
    using d by (simp add: digits3_def)
  show "foldl (\<lambda>a d. a * 10 + d) 0 (digits3 n) = n"
    using e by (simp add: digits3_def)
  show "digits3 n \<noteq> []" "length (digits3 n) \<le> 3"
    by (simp_all add: digits3_def)
  show "hd (digits3 n) = 0 \<Longrightarrow> length (digits3 n) = 1"
    using d by (simp add: digits3_def split: if_splits)
qed

definition digits_end :: "string \<Rightarrow> bool" where
  "digits_end s \<longleftrightarrow> s = [] \<or> digit_value 10 (hd s) = None"

lemma takeWhile_digits_end: "digits_end s \<Longrightarrow> takeWhile (\<lambda>c. digit_value 10 c \<noteq> None) s = []"
  by (cases s) (auto simp: digits_end_def)

lemma takeWhile_digits:
  assumes "\<forall>d \<in> set ds. d < 10" and "digits_end s"
  shows "takeWhile (\<lambda>c. digit_value 10 c \<noteq> None) (map digit_char ds @ s) = map digit_char ds"
  using assms(1) by (induction ds) (simp_all add: takeWhile_digits_end [OF assms(2)] digit_char_value del: not_None_eq)

lemma foldl_digits:
  assumes "\<forall>d \<in> set ds. d < 10"
  shows "foldl (\<lambda>a c. a * 10 + the (digit_value 10 c)) v (map digit_char ds) = foldl (\<lambda>a d. a * 10 + d) v ds"
  using assms by (induction ds arbitrary: v) (simp_all add: digit_char_value)

lemma read_octet:
  assumes n: "n < 256" and s: "digits_end s"
  shows "read_number 10 3 False 255 (show_nat n @ s) = Some (n, s)"
proof -
  have n': "n < 1000"
    using n by simp
  note d = digits3_facts [OF n']
  have "hd (map digit_char (digits3 n)) = CHR ''0'' \<longleftrightarrow> hd (digits3 n) = 0"
    using d(1,3) digit_char_0 by (simp add: hd_map)
  then show ?thesis
    using n d(3-5) unfolding show_nat_digits3 [OF n'] read_number_def Let_def takeWhile_digits [OF d(1) s]
      foldl_digits [OF d(1)] d(2)
    by auto
qed

definition dotted :: "nat \<Rightarrow> nat \<Rightarrow> nat \<Rightarrow> nat \<Rightarrow> string" where
  "dotted a b c d = show_nat a @ ''.'' @ show_nat b @ ''.'' @ show_nat c @ ''.'' @ show_nat d"

lemma digits_end_simps: "digits_end []" "digits_end (CHR ''.'' # s)"
  by (simp_all add: digits_end_def digit_value_def)

lemma four: "(4 :: nat) = Suc (Suc (Suc (Suc 0)))"
  by simp

lemma read_ipv4_dotted:
  assumes "a < 256" "b < 256" "c < 256" "d < 256"
  shows "read_ipv4 (dotted a b c d) = Some (((a * 256 + b) * 256 + c) * 256 + d, [])"
  using read_octet [OF assms(1), of "''.'' @ show_nat b @ ''.'' @ show_nat c @ ''.'' @ show_nat d"]
    read_octet [OF assms(2), of "''.'' @ show_nat c @ ''.'' @ show_nat d"]
    read_octet [OF assms(3), of "''.'' @ show_nat d"] read_octet [OF assms(4), of "[]"]
  unfolding read_ipv4_def four by (simp add: dotted_def read_separator_def read_char_def digits_end_simps)

lemma parse_ip_dotted:
  assumes "a < 256" "b < 256" "c < 256" "d < 256"
  shows "parse_ip (dotted a b c d) = Some (V4 (of_nat (((a * 256 + b) * 256 + c) * 256 + d)))"
  using read_ipv4_dotted [OF assms] by (simp add: parse_ip_def)

lemma link_local_dotted:
  assumes "a < 256" "b < 256" "c < 256" "d < 256"
  shows "is_link_local (V4 (of_nat (((a * 256 + b) * 256 + c) * 256 + d))) \<longleftrightarrow> a = 169 \<and> b = 254"
proof -
  let ?v = "((a * 256 + b) * 256 + c) * 256 + d"
  have v: "?v < 2 ^ 32"
    using assms by simp
  have "drop_bit 16 (of_nat ?v :: 32 word) = 0xA9FE \<longleftrightarrow> unat (drop_bit 16 (of_nat ?v :: 32 word)) = 0xA9FE"
    by (simp add: word_unat_eq_iff)
  also have "unat (drop_bit 16 (of_nat ?v :: 32 word)) = unat (of_nat ?v :: 32 word) div 2 ^ 16"
    by (subst unat_drop_bit_eq) (rule drop_bit_eq_div)
  also have "unat (of_nat ?v :: 32 word) = ?v"
    using v unfolding unat_of_nat by (intro mod_less) simp
  also have "?v div 2 ^ 16 = a * 256 + b"
    using assms by (simp add: algebra_simps) 
  also have "(a * 256 + b = 0xA9FE) \<longleftrightarrow> a = 169 \<and> b = 254"
  proof
    assume e: "a * 256 + b = 0xA9FE"
    have "a = (a * 256 + b) div 256" "b = (a * 256 + b) mod 256"
      using assms(2) by simp_all
    then show "a = 169 \<and> b = 254"
      unfolding e by simp
  qed simp
  finally show ?thesis by simp
qed

section \<open>Properties\<close>

text \<open>What a URL must be like, apart from its host.\<close>

definition plain_base :: "url \<Rightarrow> bool" where
  "plain_base u \<longleftrightarrow> (u_scheme u = ''http'' \<or> u_scheme u = ''https'') \<and> u_username u = [] \<and>
    u_password u = None \<and> u_query u = None \<and> u_fragment u = None"

lemma validate_explorer_iff:
  "validate_explorer_base H raw = Inr base \<longleftrightarrow>
    (\<exists>u host. ht_parse H raw = Inr u \<and> plain_base u \<and> u_host u = Some host \<and>
      (\<forall>ip. parse_ip (trim_brackets host) = Some ip \<longrightarrow> \<not> is_link_local ip) \<and>
      base = trim_end (CHR ''/'') (u_text u))"
  by (auto simp: validate_explorer_base_def plain_base_def split: sum.split option.split)

lemma explorer_client_iff:
  "explorer_client H base = Inr cl \<longleftrightarrow>
    (\<exists>u host. ht_parse H base = Inr u \<and> u_host u = Some host \<and>
      (if parse_ip (trim_brackets host) = None
       then \<exists>addrs. ht_lookup H host (case u_port_or_default u of Some p \<Rightarrow> p | None \<Rightarrow> 443) = Inr addrs \<and>
         addrs \<noteq> [] \<and> (\<forall>a \<in> set addrs. \<not> is_link_local a) \<and> ht_build H (Some (host, addrs)) = Inr cl
       else ht_build H None = Inr cl))"
  by (auto simp: explorer_client_def Let_def res_simps split: sum.split option.split if_splits)

lemma trim_brackets_id:
  assumes "CHR ''['' \<notin> set s" "CHR '']'' \<notin> set s"
  shows "trim_brackets s = s"
proof -
  have "dropWhile (\<lambda>c. c = CHR ''['' \<or> c = CHR '']'') xs = xs" if "set xs = set s" for xs
    using assms that by (cases xs) auto
  then show ?thesis
    by (simp add: trim_brackets_def Let_def)
qed

text \<open>
  An address in dotted decimal is refused as the explorer of a call exactly when it is in
  169.254.0.0/16, whatever the rest of an otherwise acceptable URL says.
\<close>

theorem explorer_refuses_link_local:
  assumes "a < 256" "b < 256" "c < 256" "d < 256"
    and "ht_parse H raw = Inr u" "plain_base u" "u_host u = Some (dotted a b c d)"
  shows "validate_explorer_base H raw =
    (if a = 169 \<and> b = 254 then Inl (InvalidParams ''explorer URL must not target link-local addresses'')
     else Inr (trim_end (CHR ''/'') (u_text u)))"
proof -
  have plain: "CHR ''['' \<notin> set (show_nat n)" "CHR '']'' \<notin> set (show_nat n)" if n: "n < 256" for n
  proof -
    have "digit_value 10 ch \<noteq> None" if "ch \<in> set (show_nat n)" for ch
      using that n digits3_facts(1) [of n] by (auto simp: show_nat_digits3 digit_char_value)
    moreover have "digit_value 10 (CHR ''['') = None" "digit_value 10 (CHR '']'') = None"
      by (simp_all add: digit_value_def)
    ultimately show "CHR ''['' \<notin> set (show_nat n)" "CHR '']'' \<notin> set (show_nat n)"
      by metis+
  qed
  let ?host = "dotted a b c d"
  have "CHR ''['' \<notin> set ?host" "CHR '']'' \<notin> set ?host"
    using assms(1-4) plain by (simp_all add: dotted_def)
  then have t: "trim_brackets ?host = ?host"
    by (rule trim_brackets_id)
  define ip where "ip = V4 (of_nat (((a * 256 + b) * 256 + c) * 256 + d))"
  have ip: "parse_ip (trim_brackets ?host) = Some ip" "is_link_local ip \<longleftrightarrow> a = 169 \<and> b = 254"
    unfolding t ip_def using parse_ip_dotted [OF assms(1-4)] link_local_dotted [OF assms(1-4)] by blast+
  have "validate_explorer_base H raw =
      (if is_link_local ip then Inl (InvalidParams ''explorer URL must not target link-local addresses'')
       else Inr (trim_end (CHR ''/'') (u_text u)))"
    using assms(5-7) ip(1) by (auto simp: validate_explorer_base_def plain_base_def)
  then show ?thesis
    unfolding ip(2) .
qed

text \<open>
  The check looks at the two literal ranges only: the IPv4-mapped form of a link-local address
  passes it.
\<close>

lemma read_groups_numeral:
  "read_groups (numeral k) = (\<lambda>is_first s.
    case (if 0 < (pred_numeral k :: nat) then read_separator (CHR '':'') is_first read_ipv4 s else None) of
       Some (v, s) \<Rightarrow> ([v div 2 ^ 16, v mod 2 ^ 16], True, s)
     | None \<Rightarrow>
         (case read_separator (CHR '':'') is_first (read_number 16 4 True (2 ^ 16 - 1)) s of
            None \<Rightarrow> ([], False, s)
          | Some (g, s) \<Rightarrow>
              (case read_groups (pred_numeral k) False s of (gs, v4, s) \<Rightarrow> (g # gs, v4, s))))"
  by (simp add: numeral_eq_Suc fun_eq_iff)

lemma read_octets_numeral:
  "read_octets (numeral k) is_first acc s =
    Option.bind (read_separator (CHR ''.'') is_first (read_number 10 3 False 255) s)
      (\<lambda>(v, s). read_octets (pred_numeral k) False (acc * 256 + v) s)"
  by (simp add: numeral_eq_Suc)

lemma zero_groups:
  "replicate (numeral k) x = x # replicate (pred_numeral k) x"
  by (simp add: numeral_eq_Suc)

lemmas ip_eval = parse_ip_def read_ipv6_def read_ipv4_def read_groups_numeral read_octets_numeral
  read_separator_def read_char_def read_number_def digit_value_def groups_value_def zero_groups Let_def

lemma mapped_link_local_passes:
  "parse_ip ''::ffff:a9fe:a9fe'' = Some (V6 0xFFFFA9FEA9FE)" "\<not> is_link_local (V6 0xFFFFA9FEA9FE)"
  "parse_ip ''::ffff:169.254.169.254'' = Some (V6 0xFFFFA9FEA9FE)"
  "parse_ip ''fe80::1'' = Some (V6 0xFE800000000000000000000000000001)"
  "is_link_local (V6 0xFE800000000000000000000000000001)"
  by (simp_all add: ip_eval)


section \<open>Witnesses\<close>

definition sample_url :: "string \<Rightarrow> url" where
  "sample_url host =
    \<lparr>u_scheme = ''http'', u_username = [], u_password = None, u_query = None, u_fragment = None,
     u_host = Some host, u_port_or_default = Some 80, u_text = ''http://'' @ host @ ''/''\<rparr>"

text \<open>A client that knows one host and answers every request with the same value.\<close>

definition sample_http :: "string \<Rightarrow> json \<Rightarrow> (string \<times> ip_addr list) option http" where
  "sample_http host v =
    \<lparr>ht_parse = (\<lambda>s. Inr (sample_url host)), ht_lookup = (\<lambda>h p. Inr [V4 0x08080808]), ht_build = Inr,
     ht_get = (\<lambda>i c s. Inr \<lparr>re_success = True, re_status = ''200 OK'', re_json = Inr v, re_text = Inr []\<rparr>),
     ht_network = (\<lambda>n. ''regtest''), ht_not_array = (\<lambda>v. ''not an array'')\<rparr>"

theorem explorer_refuses_link_local_witness:
  "validate_explorer_base (sample_http (dotted 169 254 169 254) JNull) ''x'' =
      Inl (InvalidParams ''explorer URL must not target link-local addresses'') \<and>
    validate_explorer_base (sample_http (dotted 10 0 0 1) JNull) ''x'' =
      Inr (trim_end (CHR ''/'') (u_text (sample_url (dotted 10 0 0 1))))"
proof -
  have "plain_base (sample_url host)" for host
    by (simp add: plain_base_def sample_url_def)
  moreover have "ht_parse (sample_http host JNull) ''x'' = Inr (sample_url host)"
    "u_host (sample_url host) = Some host" for host
    by (simp_all add: sample_http_def sample_url_def)
  ultimately show ?thesis
    using explorer_refuses_link_local [of 169 254 169 254 "sample_http (dotted 169 254 169 254) JNull" "''x''"]
      explorer_refuses_link_local [of 10 0 0 1 "sample_http (dotted 10 0 0 1) JNull" "''x''"] by simp
qed


end
