(* ===== verification/Rpc_State.thy ===== *)
theory Rpc_State
  imports Explorer Nostr Lightning Consensus
begin

text \<open>
  \<open>NodeState\<close> of \<open>wolfe-rpc/src/server.rs\<close>: what the RPC handlers share with the rest of the node,
  with its setters and getters, and the texts of the errors that the handlers pass on. An object
  behind an \<open>Arc\<close> is a part of the state. Two of them are shared between two holders: the wallet
  (the state's and the Lightning manager's, written together by \<open>write_wallet\<close>) and the table of
  paid invoices (the state's own, or the manager's after \<open>set_paid_invoices\<close>).
\<close>

section \<open>Texts of errors\<close>

fun show_wallet_error :: "wallet_error \<Rightarrow> string" where
  "show_wallet_error Disabled = ''wallet not enabled in configuration''"
| "show_wallet_error (Bdk s) = ''BDK wallet error: '' @ s"
| "show_wallet_error (WalletDatabase s) = ''database error: '' @ s"
| "show_wallet_error (InvalidAddress s) = ''invalid address: '' @ s"
| "show_wallet_error (InsufficientFunds needed available) =
    ''insufficient funds: need '' @ show_nat needed @ '' sat, have '' @ show_nat available @ '' sat''"
| "show_wallet_error (Signing s) = ''signing failed: '' @ s"
| "show_wallet_error NotLoaded = ''no wallet loaded''"

fun show_store_error :: "store_error \<Rightarrow> string" where
  "show_store_error (Database s) = ''redb database error: '' @ s"
| "show_store_error (Storage s) = ''redb storage error: '' @ s"
| "show_store_error (Table s) = ''redb table error: '' @ s"
| "show_store_error (Transaction s) = ''redb transaction error: '' @ s"
| "show_store_error (Commit s) = ''redb commit error: '' @ s"
| "show_store_error (BitcoinEncode s) = ''bitcoin consensus encoding error: '' @ s"
| "show_store_error (Redb.Json s) = ''JSON serialization error: '' @ s"
| "show_store_error (HeaderNotFound s) = ''header not found for hash: '' @ s"
| "show_store_error (HeaderNotFoundAtHeight n) = ''header not found at height: '' @ show_nat n"
| "show_store_error (PeerNotFound s) = ''peer not found: '' @ s"
| "show_store_error (MetaKeyNotFound s) = ''metadata key not found: '' @ s"
| "show_store_error (Corruption s) = ''data corruption: '' @ s"

fun show_lightning_error :: "lightning_error \<Rightarrow> string" where
  "show_lightning_error (Persistence s) = ''persistence error: '' @ s"
| "show_lightning_error (LnChannel s) = ''channel error: '' @ s"
| "show_lightning_error (LnPayment s) = ''payment error: '' @ s"
| "show_lightning_error (PeerConnection s) = ''peer connection error: '' @ s"
| "show_lightning_error (KeyManagement s) = ''key management error: '' @ s"
| "show_lightning_error (LnInvoice s) = ''invoice error: '' @ s"
| "show_lightning_error NotInitialized = ''not initialized''"
| "show_lightning_error (LnStore (StoreErr e)) = ''store error: '' @ show_store_error e"
| "show_lightning_error (LnStore Panic) = ''store error: ''"
| "show_lightning_error (LnIo (IoOther s)) = ''io error: '' @ s"
| "show_lightning_error (LnIo (IoNotFound s)) = ''io error: '' @ s"

fun show_consensus_error :: "consensus_error \<Rightarrow> string" where
  "show_consensus_error (InitializationFailed s) = ''consensus engine initialization failed: '' @ s"
| "show_consensus_error (BlockValidationFailed s) = ''block validation failed: '' @ s"
| "show_consensus_error (HeaderValidationFailed s) = ''block header validation failed: '' @ s"
| "show_consensus_error (BlockNotFound s) = ''block not found: '' @ s"
| "show_consensus_error (BlockReadFailed s) = ''failed to read block data: '' @ s"
| "show_consensus_error (ImportFailed s) = ''block import failed: '' @ s"
| "show_consensus_error (InvalidDataDir s) = ''invalid data directory: '' @ s"
| "show_consensus_error (Kernel s) = ''kernel error: '' @ s"
| "show_consensus_error (FatalError s) = ''fatal kernel error: '' @ s"
| "show_consensus_error (FlushError s) = ''flush error: '' @ s"
| "show_consensus_error (UnknownChainType s) = ''unknown chain type: '' @ s"
| "show_consensus_error (ConsensusIo s) = ''I/O error: '' @ s"

text \<open>The first argument renders a double with one decimal.\<close>

fun show_mempool_error :: "(f64 \<Rightarrow> string) \<Rightarrow> btc \<Rightarrow> mempool_error \<Rightarrow> string" where
  "show_mempool_error f L (Policy.Rejected reason) = ''transaction rejected: '' @ reason"
| "show_mempool_error f L (FeeTooLow rate min_rate) =
    ''fee too low: '' @ f rate @ '' sat/vB < minimum '' @ f min_rate @ '' sat/vB''"
| "show_mempool_error f L (TooLarge sz) = ''transaction too large: '' @ show_nat sz @ '' bytes''"
| "show_mempool_error f L (Full sz max_mb) =
    ''mempool full ('' @ f sz @ '' MB >= '' @ show_nat max_mb @ '' MB)''"
| "show_mempool_error f L (DatacarrierTooLarge sz limit) =
    ''OP_RETURN output exceeds limit: '' @ show_nat sz @ '' > '' @ show_nat limit @ '' bytes''"
| "show_mempool_error f L DatacarrierDisabled = ''OP_RETURN rejected by policy''"
| "show_mempool_error f L (TooManyAncestors n limit) =
    ''too many ancestors: '' @ show_nat n @ '' > '' @ show_nat limit"
| "show_mempool_error f L (TooManyDescendants n limit) =
    ''too many descendants: '' @ show_nat n @ '' > '' @ show_nat limit"
| "show_mempool_error f L (Duplicate k) = ''duplicate transaction: '' @ hash_str L k"
| "show_mempool_error f L MissingInputs = ''missing inputs''"

section \<open>The state\<close>

record peer_snapshot =
  ps_addr :: string
  ps_user_agent :: string
  ps_version :: nat
  ps_inbound :: bool
  ps_v2_transport :: bool
  ps_start_height :: int

datatype paid_table = OwnPaid "(bytes \<times> nat) list" | ManagerPaid

record ('k, 'l, 'd, 'w, 'c, 'n) node_state =
  ns_chain :: string
  ns_network :: network
  ns_wallet_db_path :: string
  ns_mempool :: mempool
  ns_peer_infos :: "peer_snapshot list"
  ns_started_at :: nat
  ns_best_height :: nat
  ns_headers_height :: nat
  ns_best_hash :: string
  ns_syncing :: bool
  ns_shutdown :: "bool option"
  ns_consensus :: "'k consensus_engine option"
  ns_wallet :: "('w, 'c) node_wallet option"
  ns_lightning :: "('l, 'd, 'w, 'c) ln_manager option"
  ns_nostr_client :: "'n option"
  ns_nostr_pubkey :: "string option"
  ns_l402_secret :: "bytes option"
  ns_paid :: paid_table
  ns_l402_config :: l402_config
  ns_tx_broadcast :: "transaction list option"

definition node_state_new ::
    "string \<Rightarrow> network \<Rightarrow> string \<Rightarrow> mempool \<Rightarrow> nat \<Rightarrow> ('k, 'l, 'd, 'w, 'c, 'n) node_state" where
  "node_state_new chain network wallet_path pool now =
    \<lparr>ns_chain = chain, ns_network = network, ns_wallet_db_path = wallet_path, ns_mempool = pool,
     ns_peer_infos = [], ns_started_at = now, ns_best_height = 0, ns_headers_height = 0,
     ns_best_hash = [], ns_syncing = True, ns_shutdown = None, ns_consensus = None, ns_wallet = None,
     ns_lightning = None, ns_nostr_client = None, ns_nostr_pubkey = None, ns_l402_secret = None,
     ns_paid = OwnPaid [], ns_l402_config = l402_config_default, ns_tx_broadcast = None\<rparr>"

type_synonym ('k, 'l, 'd, 'w, 'c, 'n) ns_update =
  "('k, 'l, 'd, 'w, 'c, 'n) node_state \<Rightarrow> ('k, 'l, 'd, 'w, 'c, 'n) node_state"

definition ns_set_consensus :: "'k consensus_engine \<Rightarrow> ('k, 'l, 'd, 'w, 'c, 'n) ns_update" where
  "ns_set_consensus e S = S\<lparr>ns_consensus := Some e\<rparr>"

definition ns_set_wallet :: "('w, 'c) node_wallet \<Rightarrow> ('k, 'l, 'd, 'w, 'c, 'n) ns_update" where
  "ns_set_wallet w S = S\<lparr>ns_wallet := Some w\<rparr>"

definition set_lightning :: "('l, 'd, 'w, 'c) ln_manager \<Rightarrow> ('k, 'l, 'd, 'w, 'c, 'n) ns_update" where
  "set_lightning m S = S\<lparr>ns_lightning := Some m\<rparr>"

definition set_nostr_client :: "'n \<Rightarrow> ('k, 'l, 'd, 'w, 'c, 'n) ns_update" where
  "set_nostr_client c S = S\<lparr>ns_nostr_client := Some c\<rparr>"

definition set_nostr_pubkey :: "string \<Rightarrow> ('k, 'l, 'd, 'w, 'c, 'n) ns_update" where
  "set_nostr_pubkey k S = S\<lparr>ns_nostr_pubkey := Some k\<rparr>"

definition set_l402_secret :: "bytes \<Rightarrow> ('k, 'l, 'd, 'w, 'c, 'n) ns_update" where
  "set_l402_secret s S = S\<lparr>ns_l402_secret := Some s\<rparr>"

definition set_paid_invoices :: "paid_table \<Rightarrow> ('k, 'l, 'd, 'w, 'c, 'n) ns_update" where
  "set_paid_invoices p S = S\<lparr>ns_paid := p\<rparr>"

definition paid_invoices :: "('k, 'l, 'd, 'w, 'c, 'n) node_state \<Rightarrow> (bytes \<times> nat) list" where
  "paid_invoices S =
    (case ns_paid S of
       OwnPaid t \<Rightarrow> t
     | ManagerPaid \<Rightarrow> (case ns_lightning S of Some m \<Rightarrow> lw_paid (lm_world m) | None \<Rightarrow> []))"

definition set_l402_config :: "l402_config \<Rightarrow> ('k, 'l, 'd, 'w, 'c, 'n) ns_update" where
  "set_l402_config c S = S\<lparr>ns_l402_config := c\<rparr>"

definition set_tx_broadcast :: "('k, 'l, 'd, 'w, 'c, 'n) ns_update" where
  "set_tx_broadcast S = S\<lparr>ns_tx_broadcast := Some []\<rparr>"

definition set_shutdown_flag :: "bool \<Rightarrow> ('k, 'l, 'd, 'w, 'c, 'n) ns_update" where
  "set_shutdown_flag b S = S\<lparr>ns_shutdown := Some b\<rparr>"

definition trigger_shutdown ::
    "('k, 'l, 'd, 'w, 'c, 'n) node_state \<Rightarrow> ('k, 'l, 'd, 'w, 'c, 'n) node_state \<times> bool" where
  "trigger_shutdown S =
    (case ns_shutdown S of Some _ \<Rightarrow> (S\<lparr>ns_shutdown := Some True\<rparr>, True) | None \<Rightarrow> (S, False))"

definition ns_set_best_height :: "nat \<Rightarrow> ('k, 'l, 'd, 'w, 'c, 'n) ns_update" where
  "ns_set_best_height n S = S\<lparr>ns_best_height := n\<rparr>"

definition set_headers_height :: "nat \<Rightarrow> ('k, 'l, 'd, 'w, 'c, 'n) ns_update" where
  "set_headers_height n S = S\<lparr>ns_headers_height := n\<rparr>"

definition set_best_hash :: "string \<Rightarrow> ('k, 'l, 'd, 'w, 'c, 'n) ns_update" where
  "set_best_hash h S = S\<lparr>ns_best_hash := h\<rparr>"

definition set_syncing :: "bool \<Rightarrow> ('k, 'l, 'd, 'w, 'c, 'n) ns_update" where
  "set_syncing b S = S\<lparr>ns_syncing := b\<rparr>"

definition ns_peer_count :: "('k, 'l, 'd, 'w, 'c, 'n) node_state \<Rightarrow> nat" where
  "ns_peer_count S = length (ns_peer_infos S)"

definition set_peer_infos :: "peer_snapshot list \<Rightarrow> ('k, 'l, 'd, 'w, 'c, 'n) ns_update" where
  "set_peer_infos ps S = S\<lparr>ns_peer_infos := ps\<rparr>"

definition add_peer_info :: "peer_snapshot \<Rightarrow> ('k, 'l, 'd, 'w, 'c, 'n) ns_update" where
  "add_peer_info p S = S\<lparr>ns_peer_infos := ns_peer_infos S @ [p]\<rparr>"

definition remove_peer_info :: "string \<Rightarrow> ('k, 'l, 'd, 'w, 'c, 'n) ns_update" where
  "remove_peer_info addr S = S\<lparr>ns_peer_infos := filter (\<lambda>p. ps_addr p \<noteq> addr) (ns_peer_infos S)\<rparr>"

text \<open>Seconds since the start: the clock is monotonic.\<close>

definition uptime_secs :: "nat \<Rightarrow> ('k, 'l, 'd, 'w, 'c, 'n) node_state \<Rightarrow> nat" where
  "uptime_secs now S = now - ns_started_at S"

definition get_info :: "string \<Rightarrow> nat \<Rightarrow> ('k, 'l, 'd, 'w, 'c, 'n) node_state \<Rightarrow> json" where
  "get_info version now S =
    jobj [(''version'', JStr version), (''user_agent'', JStr (user_agent version)),
      (''chain'', JStr (ns_chain S)), (''blocks'', jnat (ns_best_height S)),
      (''headers'', jnat (ns_headers_height S)), (''best_block_hash'', JStr (ns_best_hash S)),
      (''mempool_size'', jnat (mempool_len (ns_mempool S))), (''peers'', jnat (ns_peer_count S)),
      (''uptime_secs'', jnat (uptime_secs now S)), (''syncing'', JBool (ns_syncing S))]"

text \<open>The wallet behind the lock: a change is seen by both of its holders.\<close>

definition write_wallet :: "('w, 'c) node_wallet \<Rightarrow> ('k, 'l, 'd, 'w, 'c, 'n) ns_update" where
  "write_wallet w S =
    S\<lparr>ns_wallet := Some w,
      ns_lightning := map_option (\<lambda>m. if lw_wallet (lm_world m) = None then m else set_wallet w m)
        (ns_lightning S)\<rparr>"

section \<open>Requests\<close>

text \<open>The authorisation header, where it is present and visible ASCII.\<close>

record http_request =
  rq_method :: string
  rq_path :: string
  rq_uri :: string
  rq_authorization :: "string option"

text \<open>
  Codecs of the crates that the handlers use. A parser gives the text of its error;
  \<open>rc_address\<close> parses an address, \<open>rc_require_network\<close> gives its text and script where the network
  fits; \<open>rc_pubkey\<close> and \<open>rc_socket_addr\<close> give the text of what they parsed.
\<close>

record rpc_codec =
  rc_hex :: "bytes \<Rightarrow> string"
  rc_unhex :: "string \<Rightarrow> bytes option"
  rc_base64 :: "bytes \<Rightarrow> string"
  rc_unbase64 :: "string \<Rightarrow> bytes option"
  rc_hmac :: "bytes \<Rightarrow> bytes \<Rightarrow> bytes"
  rc_invoice_hash :: "string \<Rightarrow> bytes option"
  rc_ser_tx :: "transaction \<Rightarrow> bytes"
  rc_de_tx :: "bytes \<Rightarrow> string + transaction"
  rc_encode_block :: "bytes \<Rightarrow> string + bytes"
  rc_de_block :: "bytes \<Rightarrow> string + block"
  rc_txid :: "string \<Rightarrow> string + hash"
  rc_address :: "string \<Rightarrow> string + string"
  rc_require_network :: "string \<Rightarrow> network \<Rightarrow> string + string \<times> bytes"
  rc_script_of :: "string \<Rightarrow> bytes"
  rc_pubkey :: "string \<Rightarrow> string + string"
  rc_socket_addr :: "string \<Rightarrow> string + string"
  rc_show_f1 :: "f64 \<Rightarrow> string"
  rc_nostr_key :: "string \<Rightarrow> string option"

text \<open>What a handler is given besides the state.\<close>

record ('k, 'l, 'd, 'w, 'c, 'p, 'm, 'cl, 'n) rpc_env =
  re_ln :: "('l, 'd, 'w, 'c, 'p, 'm) ln_env"
  re_kernel :: "'k kernel"
  re_http :: "'cl http"
  re_nostr :: "'n nostr_sdk"
  re_nip98 :: nip98_lib
  re_codec :: rpc_codec
  re_version :: string
  re_mnemonic :: "string \<Rightarrow> string + 'm"
  re_show_mnemonic :: "'m \<Rightarrow> string"

end
