(* ===== verification/L402.thy ===== *)
theory L402
  imports Rpc_State Ln_Props
begin

text \<open>
  \<open>wolfe-rpc/src/l402.rs\<close>: the tokens that bind an expiry to a payment hash, and the middleware that
  opens a route to the holder of a token whose payment was claimed. The base64 codec and
  HMAC-SHA256 are \<open>rc_base64\<close>, \<open>rc_unbase64\<close> and \<open>rc_hmac\<close>, a function of the key and the concatenated input.
\<close>

section \<open>Tokens\<close>

definition TOKEN_VERSION :: byte where "TOKEN_VERSION = 1"
definition TOKEN_LEN :: nat where "TOKEN_LEN = 73"

definition compute_hmac :: "rpc_codec \<Rightarrow> bytes \<Rightarrow> bytes \<Rightarrow> nat \<Rightarrow> bytes" where
  "compute_hmac C secret payment_hash expiry = rc_hmac C secret (payment_hash @ be_bytes 8 expiry)"

definition create_token :: "rpc_codec \<Rightarrow> bytes \<Rightarrow> bytes \<Rightarrow> nat \<Rightarrow> string" where
  "create_token C secret payment_hash expiry =
    rc_base64 C ([TOKEN_VERSION] @ payment_hash @ be_bytes 8 expiry @ compute_hmac C secret payment_hash expiry)"

definition verify_token :: "rpc_codec \<Rightarrow> nat \<Rightarrow> bytes \<Rightarrow> string \<Rightarrow> string + bytes" where
  "verify_token C now secret token =
    (case rc_unbase64 C token of
       None \<Rightarrow> Inl ''invalid base64''
     | Some bs \<Rightarrow>
         if length bs \<noteq> TOKEN_LEN then Inl ''invalid token length''
         else if bs ! 0 \<noteq> TOKEN_VERSION then Inl ''unsupported token version''
         else
           (let payment_hash = take 32 (drop 1 bs);
                expiry = be_nat (take 8 (drop 33 bs));
                expected_hmac = take 32 (drop 41 bs)
            in if expiry < now then Inl ''token expired''
               else if compute_hmac C secret payment_hash expiry \<noteq> expected_hmac
               then Inl ''invalid token signature''
               else Inr payment_hash))"

definition derive_l402_secret :: "rpc_codec \<Rightarrow> bytes \<Rightarrow> bytes" where
  "derive_l402_secret C ln_seed = rc_hmac C ln_seed (as_bytes ''l402-token-key'')"

section \<open>The middleware\<close>

datatype gate = Pass | Respond http_response

definition payment_required_response :: "string \<Rightarrow> http_response" where
  "payment_required_response reason =
    \<lparr>rs_status = 402, rs_headers = [(''Content-Type'', ''application/json'')],
     rs_body = BJson (jobj [(''code'', jnat 402), (''message'', JStr reason)])\<rparr>"

definition text_response :: "nat \<Rightarrow> string \<Rightarrow> http_response" where
  "text_response status s = \<lparr>rs_status = status, rs_headers = [], rs_body = BText s\<rparr>"

text \<open>The offer of an invoice, with its token; without a payment hash the token is empty.\<close>

definition l402_offer :: "rpc_codec \<Rightarrow> nat \<Rightarrow> bytes \<Rightarrow> l402_config \<Rightarrow> string \<Rightarrow> http_response" where
  "l402_offer C now secret cfg invoice =
    (let expiry = w64 (now + token_expiry_secs cfg);
         token = (case rc_invoice_hash C invoice of
             Some ph \<Rightarrow> create_token C secret ph expiry | None \<Rightarrow> [])
     in \<lparr>rs_status = 402,
         rs_headers = [(''WWW-Authenticate'', ''L402 macaroon='' @ CHR 0x22 # token @ [CHR 0x22] @
            '', invoice='' @ CHR 0x22 # invoice @ [CHR 0x22]), (''Content-Type'', ''application/json'')],
         rs_body = BJson (jobj [(''code'', jnat 402), (''message'', JStr ''Payment Required''),
            (''invoice'', JStr invoice), (''price_sats'', jnat (price_sats cfg))])\<rparr>)"

definition l402_middleware ::
    "('k, 'l, 'd, 'w, 'c, 'p, 'm, 'cl, 'n) rpc_env \<Rightarrow> nat \<Rightarrow> http_request
      \<Rightarrow> ('k, 'l, 'd, 'w, 'c, 'n) node_state \<Rightarrow> ('k, 'l, 'd, 'w, 'c, 'n) node_state \<times> gate" where
  "l402_middleware E now req S =
    (let C = re_codec E; cfg = ns_l402_config S in
     if \<not> l402_enabled cfg then (S, Pass)
     else
       case ns_l402_secret S of
         None \<Rightarrow> (S, Pass)
       | Some secret \<Rightarrow>
           (let token = Option.bind (rq_authorization req)
                (\<lambda>h. if take 5 h = ''L402 '' then Some (drop 5 h) else None)
            in case token of
                 Some token \<Rightarrow>
                   (S, case verify_token C now secret token of
                         Inr payment_hash \<Rightarrow>
                           if map_of (paid_invoices S) payment_hash \<noteq> None then Pass
                           else Respond (payment_required_response ''invoice not yet paid'')
                       | Inl e \<Rightarrow> Respond (payment_required_response e))
               | None \<Rightarrow>
                   (case ns_lightning S of
                      None \<Rightarrow> (S, Respond (text_response 503 ''lightning not available''))
                    | Some mgr \<Rightarrow>
                        (case create_invoice (le_ldk (re_ln E)) mgr (Some (w64 (price_sats cfg * 1000)))
                             (invoice_description cfg) (Some (invoice_expiry_secs cfg)) of
                           (mgr, Inr invoice) \<Rightarrow>
                             (S\<lparr>ns_lightning := Some mgr\<rparr>, Respond (l402_offer C now secret cfg invoice))
                         | (mgr, Inl e) \<Rightarrow>
                             (S\<lparr>ns_lightning := Some mgr\<rparr>, Respond (text_response 500 ''failed to create invoice''))))))"

section \<open>Facts about tokens\<close>

text \<open>The laws of the codecs: what is encoded is decoded, and an HMAC has 32 bytes.\<close>

definition rpc_codec_ok :: "rpc_codec \<Rightarrow> bool" where
  "rpc_codec_ok C \<longleftrightarrow> (\<forall>bs. rc_unbase64 C (rc_base64 C bs) = Some bs) \<and> (\<forall>k m. length (rc_hmac C k m) = 32)"

definition token_bytes :: "rpc_codec \<Rightarrow> bytes \<Rightarrow> bytes \<Rightarrow> nat \<Rightarrow> bytes" where
  "token_bytes C secret h expiry = [1] @ h @ be_bytes 8 expiry @ rc_hmac C secret (h @ be_bytes 8 expiry)"

lemma token_split:
  assumes "length bs = 73"
  shows "bs = [bs ! 0] @ take 32 (drop 1 bs) @ take 8 (drop 33 bs) @ take 32 (drop 41 bs)"
proof -
  have "bs = take 1 bs @ take 32 (drop 1 bs) @ take 8 (drop 33 bs) @ drop 41 bs"
    using take_add [of 1 32 bs] take_add [of 33 8 bs] append_take_drop_id [of 41 bs] by simp
  moreover have "take 1 bs = [bs ! 0]"
    using assms by (cases bs) simp_all
  moreover have "take 32 (drop 41 bs) = drop 41 bs"
    using assms by simp
  ultimately show ?thesis by simp
qed

lemma verify_token_iff:
  assumes "rpc_codec_ok C"
  shows "verify_token C now secret token = Inr h \<longleftrightarrow>
    length h = 32 \<and> (\<exists>expiry < 2 ^ 64. now \<le> expiry \<and> rc_unbase64 C token = Some (token_bytes C secret h expiry))"
proof
  assume "verify_token C now secret token = Inr h"
  then obtain bs where bs: "rc_unbase64 C token = Some bs" "length bs = 73" "bs ! 0 = 1"
      "h = take 32 (drop 1 bs)" "now \<le> be_nat (take 8 (drop 33 bs))"
      "compute_hmac C secret h (be_nat (take 8 (drop 33 bs))) = take 32 (drop 41 bs)"
    by (auto simp: verify_token_def Let_def TOKEN_LEN_def TOKEN_VERSION_def split: option.splits if_splits)
  define e where "e = be_nat (take 8 (drop 33 bs))"
  have "be_bytes 8 e = take 8 (drop 33 bs)"
    using be_bytes_be_nat [of "take 8 (drop 33 bs)"] bs(2) by (simp add: e_def)
  then have "bs = token_bytes C secret h e"
    using token_split [OF bs(2)] bs(3,4,6) by (simp add: token_bytes_def compute_hmac_def flip: e_def)
  moreover have "e < 2 ^ 64"
    using be_nat_bound [of "take 8 (drop 33 bs)"] bs(2) by (simp add: e_def)
  moreover have "now \<le> e" "length h = 32"
    using bs by (simp_all add: e_def)
  ultimately show "length h = 32 \<and>
      (\<exists>expiry < 2 ^ 64. now \<le> expiry \<and> rc_unbase64 C token = Some (token_bytes C secret h expiry))"
    using bs(1) by blast
next
  assume "length h = 32 \<and>
      (\<exists>expiry < 2 ^ 64. now \<le> expiry \<and> rc_unbase64 C token = Some (token_bytes C secret h expiry))"
  then obtain e where e: "length h = 32" "e < 2 ^ 64" "now \<le> e" "rc_unbase64 C token = Some (token_bytes C secret h e)"
    by blast
  moreover have "length (rc_hmac C secret m) = 32" for m
    using assms by (simp add: rpc_codec_ok_def)
  ultimately show "verify_token C now secret token = Inr h"
    by (simp add: verify_token_def token_bytes_def TOKEN_LEN_def TOKEN_VERSION_def compute_hmac_def Let_def)
qed

section \<open>Properties\<close>

text \<open>
  C29: A token that the node issued for a payment hash opens to that hash until it expires and is
  refused as expired afterwards; and a string opens to a hash only if it decodes to the very
  bytes the node would issue under its secret for this hash and an expiry that has not passed.
\<close>

theorem l402_token_roundtrip:
  assumes C: "rpc_codec_ok C" and h: "length h = 32" and e: "expiry < 2 ^ 64"
  shows "verify_token C now secret (create_token C secret h expiry) =
      (if now \<le> expiry then Inr h else Inl ''token expired'') \<and>
    (\<forall>token h'. verify_token C now secret token = Inr h' \<longleftrightarrow> length h' = 32 \<and>
      (\<exists>x < 2 ^ 64. now \<le> x \<and> rc_unbase64 C token = rc_unbase64 C (create_token C secret h' x)))"
proof -
  have t: "rc_unbase64 C (create_token C secret h' x) = Some (token_bytes C secret h' x)" for h' x
    using C by (simp add: rpc_codec_ok_def create_token_def token_bytes_def compute_hmac_def TOKEN_VERSION_def)
  have len: "length (rc_hmac C secret m) = 32" for m
    using C by (simp add: rpc_codec_ok_def)
  have "verify_token C now secret (create_token C secret h expiry) =
      (if now \<le> expiry then Inr h else Inl ''token expired'')"
    using h e len unfolding verify_token_def t
    by (simp add: token_bytes_def TOKEN_LEN_def TOKEN_VERSION_def compute_hmac_def Let_def)
  then show ?thesis
    by (simp add: verify_token_iff [OF C] t)
qed

text \<open>
  C8: Where the gate is armed (L402 enabled and a secret derived), a request passes it only with
  a token issued under the secret that has not expired, for a payment that the Lightning library
  has reported as claimed since the manager was built.
\<close>

theorem l402_pass_is_paid:
  assumes reach: "ln_reach (re_ln E) Start claims m" and S: "ns_lightning S = Some m" "ns_paid S = ManagerPaid"
    and armed: "l402_enabled (ns_l402_config S)" "ns_l402_secret S = Some secret"
    and C: "rpc_codec_ok (re_codec E)" and pass: "l402_middleware E now req S = (S', Pass)"
  shows "S' = S \<and> (\<exists>token h expiry. rq_authorization req = Some (''L402 '' @ token) \<and> h \<in> claims \<and> now \<le> expiry \<and>
    rc_unbase64 (re_codec E) token = Some (token_bytes (re_codec E) secret h expiry))"
proof -
  let ?token = "Option.bind (rq_authorization req) (\<lambda>h. if take 5 h = ''L402 '' then Some (drop 5 h) else None)"
  obtain token where tok: "?token = Some token"
    using pass armed S(1)
    by (cases ?token) (simp_all add: l402_middleware_def Let_def split: sum.splits prod.splits)
  then obtain str where hd: "rq_authorization req = Some str" "take 5 str = ''L402 ''" "token = drop 5 str"
    by (cases "rq_authorization req") (simp_all split: if_splits)
  have p: "S' = S \<and> (case verify_token (re_codec E) now secret token of
      Inr h \<Rightarrow> map_of (paid_invoices S) h \<noteq> None | Inl e \<Rightarrow> False)"
    using pass armed unfolding l402_middleware_def Let_def tok
    by (simp split: sum.splits if_splits)
  then obtain h where v: "verify_token (re_codec E) now secret (drop 5 str) = Inr h"
      and paid: "map_of (paid_invoices S) h \<noteq> None" and S': "S' = S"
    unfolding hd(3) by (simp split: sum.splits)
  have "h \<in> fst ` set (lw_paid (lm_world m))"
    using paid S by (simp add: paid_invoices_def map_of_eq_None_iff)
  then have "h \<in> claims"
    using reach_ledger [OF reach] by (simp add: ledger_def)
  moreover have "''L402 '' @ drop 5 str = str"
    using append_take_drop_id [of 5 str] unfolding hd(2) .
  moreover obtain expiry where "now \<le> expiry"
    "rc_unbase64 (re_codec E) (drop 5 str) = Some (token_bytes (re_codec E) secret h expiry)"
    using v unfolding verify_token_iff [OF C] by blast
  ultimately show ?thesis
    using S' hd(1) by metis
qed

text \<open>
  A request without a token passes the gate not only while L402 is disabled but also when it
  is enabled and no secret was set, which is the state of a node whose Lightning manager did not
  start; in no other case does it pass.
\<close>

theorem l402_gate_open:
  "(l402_middleware E now req S = (S', Pass) \<and> rq_authorization req = None) \<longleftrightarrow>
    S' = S \<and> rq_authorization req = None \<and>
    (if l402_enabled (ns_l402_config S) then ns_l402_secret S = None else True)"
  by (auto simp: l402_middleware_def Let_def bind_eq_Some_conv split: option.splits sum.splits prod.splits)

section \<open>Witnesses\<close>

text \<open>Base64 as the identity on bytes, and an HMAC that repeats the first byte of its input.\<close>

definition sample_rpc_codec :: rpc_codec where
  "sample_rpc_codec =
    \<lparr>rc_hex = from_bytes, rc_unhex = (\<lambda>s. Some (as_bytes s)), rc_base64 = from_bytes,
     rc_unbase64 = (\<lambda>s. Some (as_bytes s)), rc_hmac = (\<lambda>k m. replicate 32 (hd (m @ [0]))),
     rc_invoice_hash = (\<lambda>s. Some (replicate 32 0)), rc_ser_tx = (\<lambda>tx. []),
     rc_de_tx = (\<lambda>bs. Inr (sample_tx (length bs) [(9, 0)] [50])), rc_encode_block = Inr,
     rc_de_block = (\<lambda>bs. Inl ''block''), rc_txid = (\<lambda>s. Inr 0), rc_address = Inr,
     rc_require_network = (\<lambda>s n. Inr (s, [])), rc_script_of = as_bytes, rc_pubkey = Inr,
     rc_socket_addr = Inr, rc_show_f1 = (\<lambda>x. ''1.0''), rc_nostr_key = Some\<rparr>"

lemma sample_rpc_codec_ok [simp]: "rpc_codec_ok sample_rpc_codec"
  by (simp add: rpc_codec_ok_def sample_rpc_codec_def)

theorem l402_token_roundtrip_witness:
  "verify_token sample_rpc_codec 5 [] (create_token sample_rpc_codec [] (replicate 32 7) 9) = Inr (replicate 32 7) \<and>
    verify_token sample_rpc_codec 10 [] (create_token sample_rpc_codec [] (replicate 32 7) 9) = Inl ''token expired''"
  using l402_token_roundtrip [of sample_rpc_codec "replicate 32 7" 9 5 "[]"]
    l402_token_roundtrip [of sample_rpc_codec "replicate 32 7" 9 10 "[]"] by simp

text \<open>A Nostr client whose state is the list of what it sent, and a NIP-98 codec that trusts everyone.\<close>

definition sample_nostr_sdk :: "event_builder list nostr_sdk" where
  "sample_nostr_sdk =
    \<lparr>nk_keys = Inr, nk_generate = ''npub'', nk_client = (\<lambda>k. []), nk_add_relay = (\<lambda>c u. (c, None)),
     nk_remove_relay = (\<lambda>c u. (c, None)), nk_relays = (\<lambda>c. []), nk_connect = (\<lambda>c. c), nk_disconnect = (\<lambda>c. c),
     nk_send = (\<lambda>c ev. (c @ [ev], Inr ''id'')), nk_set_metadata = (\<lambda>c m. (c, Inr ''id'')),
     nk_url = Some, nk_npub = (\<lambda>k. k), nk_json = (\<lambda>v. ''json'')\<rparr>"

definition sample_nip98 :: nip98_lib where
  "sample_nip98 =
    \<lparr>ni_unbase64 = (\<lambda>s. Inr (as_bytes s)), ni_utf8 = (\<lambda>bs. Inr (from_bytes bs)),
     ni_event = (\<lambda>s. Inr \<lparr>ne_pubkey = s, ne_kind = 27235, ne_created_at = 5,
       ne_tags = [[''u'', ''http://h/''], [''method'', ''get'']]\<rparr>),
     ni_verify = (\<lambda>e. None), ni_npub = (\<lambda>k. k)\<rparr>"

definition sample_rpc_env ::
    "json \<Rightarrow> (hash list, ldk_event list, sample_db, nat, bool, nat, string,
      (string \<times> ip_addr list) option, event_builder list) rpc_env" where
  "sample_rpc_env v =
    \<lparr>re_ln = sample_ln_env, re_kernel = sample_kernel, re_http = sample_http ''h'' v,
     re_nostr = sample_nostr_sdk, re_nip98 = sample_nip98, re_codec = sample_rpc_codec, re_version = ''0.1.0'',
     re_mnemonic = Inr, re_show_mnemonic = (\<lambda>m. m)\<rparr>"

definition sample_node ::
    "(ldk_event list, sample_db, nat, bool) ln_manager option
      \<Rightarrow> (hash list, ldk_event list, sample_db, nat, bool, event_builder list) node_state" where
  "sample_node m =
    (node_state_new ''regtest'' Regtest ''w.sqlite3'' (sample_pool 1000) 0)
      \<lparr>ns_lightning := m, ns_paid := ManagerPaid, ns_l402_secret := Some [],
       ns_l402_config := l402_config_default\<lparr>l402_enabled := True\<rparr>\<rparr>"

theorem l402_pass_is_paid_witness:
  "\<exists>m req claims. ln_reach (re_ln (sample_rpc_env JNull)) sample_ldk_start claims m \<and>
    l402_middleware (sample_rpc_env JNull) 5 req (sample_node (Some m)) = (sample_node (Some m), Pass) \<and>
    sample_hash \<in> claims"
proof -
  let ?E = "sample_rpc_env JNull" and ?h = sample_hash
  let ?C = "claimed_in [PaymentClaimed ?h 1000]"
  have e: "re_ln ?E = sample_ln_env" "re_codec ?E = sample_rpc_codec"
    by (simp_all add: sample_rpc_env_def)
  obtain m where m: "ln_reach (re_ln ?E) sample_ldk_start ?C m"
    using sample_reach unfolding e by blast
  let ?req = "\<lparr>rq_method = ''GET'', rq_path = ''/l402/api/fees'', rq_uri = ''/l402/api/fees'',
    rq_authorization = Some (''L402 '' @ create_token sample_rpc_codec [] ?h 9)\<rparr>"
  have "verify_token sample_rpc_codec 5 [] (create_token sample_rpc_codec [] ?h 9) = Inr ?h"
    using verify_token_iff [OF sample_rpc_codec_ok, of 5 "[]" "create_token sample_rpc_codec [] ?h 9" ?h]
    by (intro iffD2 [OF verify_token_iff [OF sample_rpc_codec_ok]])
      (auto simp: create_token_def token_bytes_def compute_hmac_def sample_rpc_codec_def TOKEN_VERSION_def
        sample_hash_def intro!: exI [of _ 9])
  moreover have "map_of (paid_invoices (sample_node (Some m))) ?h \<noteq> None"
    using reach_ledger [OF m] by (simp add: sample_node_def paid_invoices_def map_of_eq_None_iff ledger_def claimed_in_def)
  ultimately have pass: "l402_middleware ?E 5 ?req (sample_node (Some m)) = (sample_node (Some m), Pass)"
    unfolding l402_middleware_def by (simp add: sample_rpc_env_def) (simp add: sample_node_def)
  have "sample_node (Some m) = sample_node (Some m) \<and> (\<exists>token h expiry.
      rq_authorization ?req = Some (''L402 '' @ token) \<and> h \<in> ?C \<and> 5 \<le> expiry \<and>
      rc_unbase64 (re_codec ?E) token = Some (token_bytes (re_codec ?E) [] h expiry))"
    by (rule l402_pass_is_paid [OF m _ _ _ _ _ pass]) (simp_all add: sample_node_def e)
  then show ?thesis
    using m pass by (auto simp: claimed_in_def)
qed

end
