(* ===== verification/Rpc_Auth.thy ===== *)
theory Rpc_Auth
  imports L402
begin

text \<open>
  The server of \<open>wolfe-rpc/src/server.rs\<close>: who is let in. Every request goes through the middleware
  of the group of routes its path belongs to: the JSON-RPC and REST routes are authenticated, the
  \<open>/l402\<close> routes are gated by a payment, and every other path serves the dashboard to everyone.
  Routing itself (axum) is the table \<open>guard_of\<close>.
\<close>

section \<open>Authentication\<close>

definition unauthorized_response :: http_response where
  "unauthorized_response =
    \<lparr>rs_status = 401, rs_headers = [(''WWW-Authenticate'', ''Basic realm='' @ CHR 0x22 # ''wolfe-rpc'' @
       [CHR 0x22] @ '', Nostr'')],
     rs_body = BJson (jobj [(''error'', jobj [(''code'', JInt (- 32600)), (''message'', JStr ''unauthorized'')])])\<rparr>"

definition auth_middleware ::
    "nip98_lib \<Rightarrow> nat \<Rightarrow> string option \<Rightarrow> bool \<Rightarrow> string list \<Rightarrow> string \<Rightarrow> http_request \<Rightarrow> gate" where
  "auth_middleware N now basic_expected nip98_enabled nip98_pubkeys listen_addr req =
    (if basic_expected = None \<and> \<not> nip98_enabled then Pass
     else
       case rq_authorization req of
         None \<Rightarrow> Respond unauthorized_response
       | Some hdr \<Rightarrow>
           if nip98_enabled \<and> take 6 hdr = ''Nostr '' then
             (case verify_nip98 N now (drop 6 hdr) (''http://'' @ listen_addr @ rq_uri req) (rq_method req)
                 nip98_pubkeys of
                Inr pubkey \<Rightarrow> Pass
              | Inl e \<Rightarrow> Respond unauthorized_response)
           else if basic_expected = Some hdr then Pass
           else Respond unauthorized_response)"

section \<open>The server\<close>

record rpc_server =
  sv_config :: rpc_config
  sv_nostr :: nostr_config

definition rpc_server_new :: "rpc_config \<Rightarrow> rpc_server" where
  "rpc_server_new cfg = \<lparr>sv_config = cfg, sv_nostr = nostr_config_default\<rparr>"

definition with_nostr_config :: "nostr_config \<Rightarrow> rpc_server \<Rightarrow> rpc_server" where
  "with_nostr_config nostr sv = sv\<lparr>sv_nostr := nostr\<rparr>"

text \<open>What \<open>start\<close> computes before it serves. A public key that does not parse is dropped.\<close>

definition expected_credentials :: "rpc_codec \<Rightarrow> rpc_config \<Rightarrow> string option" where
  "expected_credentials C cfg =
    (case (rpc_user cfg, rpc_password cfg) of
       (Some user, Some pass) \<Rightarrow> Some (''Basic '' @ rc_base64 C (as_bytes (user @ '':'' @ pass)))
     | _ \<Rightarrow> None)"

definition nip98_allowed :: "rpc_codec \<Rightarrow> nostr_config \<Rightarrow> string list" where
  "nip98_allowed C nostr =
    (if nip98_auth nostr then List.map_filter (rc_nostr_key C) (allowed_pubkeys nostr) else [])"

definition cors_allowed :: "(string \<Rightarrow> bool) \<Rightarrow> rpc_config \<Rightarrow> string list option" where
  "cors_allowed valid cfg = (if cors_origins cfg = [] then None else Some (filter valid (cors_origins cfg)))"

datatype guard = Authenticated | PaidGate | Public

definition authenticated_paths :: "string list" where
  "authenticated_paths =
    [''/'', ''/api/info'', ''/api/blockchain'', ''/api/mempool'', ''/api/peers'', ''/api/lightning/info'',
     ''/api/lightning/channels'', ''/api/lightning/payments'']"

definition block_route :: string where "block_route = ''/l402/api/block/''"

definition is_block_path :: "string \<Rightarrow> bool" where
  "is_block_path path \<longleftrightarrow> take (length block_route) path = block_route \<and>
    drop (length block_route) path \<noteq> [] \<and> CHR ''/'' \<notin> set (drop (length block_route) path)"

definition guard_of :: "string \<Rightarrow> guard" where
  "guard_of path =
    (if path \<in> set authenticated_paths then Authenticated
     else if is_block_path path \<or> path \<in> set [''/l402/api/fees'', ''/l402/api/mempool'', ''/l402/api/chain'']
     then PaidGate else Public)"

definition admit ::
    "('k, 'l, 'd, 'w, 'c, 'p, 'm, 'cl, 'n) rpc_env \<Rightarrow> rpc_server \<Rightarrow> nat \<Rightarrow> http_request
      \<Rightarrow> ('k, 'l, 'd, 'w, 'c, 'n) node_state \<Rightarrow> ('k, 'l, 'd, 'w, 'c, 'n) node_state \<times> gate" where
  "admit E sv now req S =
    (case guard_of (rq_path req) of
       Authenticated \<Rightarrow>
         (S, auth_middleware (re_nip98 E) now (expected_credentials (re_codec E) (sv_config sv))
            (nip98_auth (sv_nostr sv)) (nip98_allowed (re_codec E) (sv_nostr sv)) (rpc_listen (sv_config sv)) req)
     | PaidGate \<Rightarrow> l402_middleware E now req S
     | Public \<Rightarrow> (S, Pass))"

text \<open>
  The dashboard, built into the binary: \<open>assets\<close> is the embedded folder, \<open>mime\<close> guesses a
  content type and \<open>lossy\<close> reads bytes as text.
\<close>

definition html_response :: "string \<Rightarrow> http_response" where
  "html_response s = \<lparr>rs_status = 200, rs_headers = [(''content-type'', ''text/html; charset=utf-8'')], rs_body = BText s\<rparr>"

definition dashboard_handler ::
    "(string \<Rightarrow> bytes option) \<Rightarrow> (string \<Rightarrow> string) \<Rightarrow> (bytes \<Rightarrow> string) \<Rightarrow> http_request \<Rightarrow> http_response" where
  "dashboard_handler assets mime lossy req =
    (let path = dropWhile (\<lambda>c. c = CHR ''/'') (rq_path req) in
     case assets path of
       Some file \<Rightarrow>
         \<lparr>rs_status = 200, rs_headers = [(''content-type'', mime path)], rs_body = BText (from_bytes file)\<rparr>
     | None \<Rightarrow>
         (case assets (path @ ''.html'') of
            Some file \<Rightarrow> html_response (lossy file)
          | None \<Rightarrow>
              (case assets ''index.html'' of
                 Some file \<Rightarrow> html_response (lossy file)
               | None \<Rightarrow> text_response 404 ''dashboard not found'')))"

section \<open>Properties\<close>

text \<open>
  C9: A JSON-RPC or REST request is let in exactly when no method of authentication is
  configured, or its header is the expected Basic credential (and, with NIP-98 on, does not ask for
  Nostr), or NIP-98 is on and the header carries an event that authorises this URL and method.
  Every other request of these routes gets the same 401.
\<close>

theorem authenticated_iff:
  assumes "guard_of (rq_path req) = Authenticated"
    and creds: "creds = expected_credentials (re_codec E) (sv_config sv)" and nip98: "nip98 = nip98_auth (sv_nostr sv)"
  shows "admit E sv now req S =
    (S, if (creds = None \<and> \<not> nip98) \<or>
          (\<exists>hdr. rq_authorization req = Some hdr \<and>
            (if nip98 \<and> take 6 hdr = ''Nostr ''
             then \<exists>e bs str. ni_unbase64 (re_nip98 E) (trim (drop 6 hdr)) = Inr bs \<and> ni_utf8 (re_nip98 E) bs = Inr str \<and>
               ni_event (re_nip98 E) str = Inr e \<and> ni_verify (re_nip98 E) e = None \<and>
               nip98_grants e now (''http://'' @ rpc_listen (sv_config sv) @ rq_uri req) (rq_method req)
                 (List.map_filter (rc_nostr_key (re_codec E)) (allowed_pubkeys (sv_nostr sv)))
             else creds = Some hdr))
        then Pass else Respond unauthorized_response)"
proof -
  have v: "(\<exists>pk. verify_nip98 N now w url meth ks = Inr pk) \<longleftrightarrow>
      (\<exists>e bs str. ni_unbase64 N (trim w) = Inr bs \<and> ni_utf8 N bs = Inr str \<and> ni_event N str = Inr e \<and>
        ni_verify N e = None \<and> nip98_grants e now url meth ks)" for N w url meth ks
    unfolding verify_nip98_grants by blast
  have split: "(case r of Inr pk \<Rightarrow> Pass | Inl e \<Rightarrow> Respond unauthorized_response) =
      (if \<exists>pk. r = Inr pk then Pass else Respond unauthorized_response)" for r :: "nostr_error + string"
    by (cases r) auto
  show ?thesis
    using assms(1) unfolding admit_def auth_middleware_def split v creds nip98
    by (auto simp: nip98_allowed_def split: option.split)
qed

text \<open>
  The list of allowed keys fails open: when none of its entries parses, every key is allowed,
  so that any event signed by anyone authorises the request it names.
\<close>

theorem malformed_keys_fail_open:
  assumes "guard_of (rq_path req) = Authenticated" and on: "nip98_auth (sv_nostr sv)"
    and bad: "\<forall>k \<in> set (allowed_pubkeys (sv_nostr sv)). rc_nostr_key (re_codec E) k = None"
    and hdr: "rq_authorization req = Some (''Nostr '' @ tok)"
    and dec: "ni_unbase64 (re_nip98 E) (trim tok) = Inr bs" "ni_utf8 (re_nip98 E) bs = Inr str"
      "ni_event (re_nip98 E) str = Inr e" "ni_verify (re_nip98 E) e = None"
    and ev: "ne_kind e = 27235" "ne_created_at e = now"
      "ne_tags e = [[''u'', ''http://'' @ rpc_listen (sv_config sv) @ rq_uri req], [''method'', rq_method req]]"
  shows "admit E sv now req S = (S, Pass)"
proof -
  have "List.map_filter (rc_nostr_key (re_codec E)) (allowed_pubkeys (sv_nostr sv)) = []"
    using bad by (simp add: map_filter_def filter_empty_conv)
  then have "nip98_allowed (re_codec E) (sv_nostr sv) = []"
    using on by (simp add: nip98_allowed_def)
  moreover have "nip98_grants e now (''http://'' @ rpc_listen (sv_config sv) @ rq_uri req) (rq_method req) []"
    using ev by (simp add: nip98_grants_def NIP98_KIND_def last_tag_def eq_ignore_ascii_case_def)
  then have "verify_nip98 (re_nip98 E) now tok (''http://'' @ rpc_listen (sv_config sv) @ rq_uri req) (rq_method req) [] =
      Inr (ne_pubkey e)"
    unfolding verify_nip98_grants using dec by blast
  ultimately show ?thesis
    using assms(1) on hdr by (simp add: admit_def auth_middleware_def)
qed

section \<open>Witnesses\<close>

definition sample_request :: "string option \<Rightarrow> http_request" where
  "sample_request hdr = \<lparr>rq_method = ''get'', rq_path = ''/'', rq_uri = ''/'', rq_authorization = hdr\<rparr>"

definition sample_server :: "string option \<Rightarrow> bool \<Rightarrow> string list \<Rightarrow> rpc_server" where
  "sample_server user nip98 ks =
    \<lparr>sv_config = rpc_config_default\<lparr>rpc_listen := ''h'', rpc_user := user, rpc_password := user\<rparr>,
     sv_nostr = nostr_config_default\<lparr>nip98_auth := nip98, allowed_pubkeys := ks\<rparr>\<rparr>"

lemma sample_guard: "guard_of (rq_path (sample_request hdr)) = Authenticated"
  by (simp add: sample_request_def guard_of_def authenticated_paths_def)

theorem authenticated_iff_witness:
  "snd (admit (sample_rpc_env JNull) (sample_server (Some ''u'') False []) 5 (sample_request (Some ''Basic u:u'')) (sample_node None)) = Pass \<and>
    snd (admit (sample_rpc_env JNull) (sample_server (Some ''u'') False []) 5 (sample_request (Some ''Basic u:v'')) (sample_node None)) \<noteq> Pass"
proof -
  let ?E = "sample_rpc_env JNull" and ?sv = "sample_server (Some ''u'') False []"
  have "expected_credentials (re_codec ?E) (sv_config ?sv) = Some ''Basic u:u''"
    by (simp add: expected_credentials_def sample_rpc_env_def sample_rpc_codec_def sample_server_def)
  then show ?thesis
    using authenticated_iff [OF sample_guard refl refl, of ?E ?sv 5 "Some ''Basic u:u''" "sample_node None"]
      authenticated_iff [OF sample_guard refl refl, of ?E ?sv 5 "Some ''Basic u:v''" "sample_node None"]
    by (simp add: sample_request_def)
qed

theorem malformed_keys_fail_open_witness:
  "admit ((sample_rpc_env JNull)\<lparr>re_codec := sample_rpc_codec\<lparr>rc_nostr_key := (\<lambda>s. None)\<rparr>\<rparr>) (sample_server None True [''bad''])
      5 (sample_request (Some ''Nostr e'')) (sample_node None) = (sample_node None, Pass)"
  by (rule malformed_keys_fail_open [OF sample_guard, where tok = "''e''" and bs = "as_bytes ''e''" and str = "''e''"
      and e = "\<lparr>ne_pubkey = ''e'', ne_kind = 27235, ne_created_at = 5,
        ne_tags = [[''u'', ''http://h/''], [''method'', ''get'']]\<rparr>"])
    (simp_all add: sample_request_def sample_server_def sample_rpc_env_def sample_nip98_def trim_def is_blank_def)

end
