(* ===== verification/Rpc_Chain.thy ===== *)
theory Rpc_Chain
  imports Rpc_Auth
begin

text \<open>
  The handlers of \<open>wolfe-rpc/src/handlers.rs\<close> that read the chain, the pool and the peers: the paid
  and the free REST routes, and the JSON-RPC methods of the same group with
  \<open>sendrawtransaction\<close>. A handler gives a JSON value; a method gives a value or an error, and one that
  changes the node's state returns it first.
\<close>

section \<open>The paid REST routes\<close>

definition l402_get_block ::
    "('k, 'l, 'd, 'w, 'c, 'p, 'm, 'cl, 'n) rpc_env \<Rightarrow> ('k, 'l, 'd, 'w, 'c, 'n) node_state \<Rightarrow> nat \<Rightarrow> json" where
  "l402_get_block E S height =
    (let failed = (\<lambda>s. jobj [(''error'', JStr s)]); L = le_btc (re_ln E) in
     case ns_consensus S of
       None \<Rightarrow> failed ''consensus engine not available''
     | Some engine \<Rightarrow>
         (case read_block_data_at_height (re_kernel E) engine height of
            Inl e \<Rightarrow> failed (''block not found: '' @ show_consensus_error e)
          | Inr block_data \<Rightarrow>
              (case rc_encode_block (re_codec E) block_data of
                 Inl e \<Rightarrow> failed (''encode: '' @ e)
               | Inr bs \<Rightarrow>
                   (case rc_de_block (re_codec E) bs of
                      Inl e \<Rightarrow> failed (''deserialize: '' @ e)
                    | Inr block \<Rightarrow>
                        jobj [(''height'', jnat height), (''hash'', JStr (hash_str L (blk_hash L block))),
                          (''timestamp'', jnat (unat (hdr_time (blk_header block)))),
                          (''tx_count'', jnat (length (txdata block))), (''size'', jnat (length bs)),
                          (''txids'', JArr (map (\<lambda>tx. JStr (hash_str L (compute_txid L tx))) (txdata block)))]))))"

definition l402_get_fees :: "order \<Rightarrow> ('k, 'l, 'd, 'w, 'c, 'n) node_state \<Rightarrow> json" where
  "l402_get_fees it S =
    (let pool = ns_mempool S in
     jobj [(''min_fee_rate'', jflt (mempool_min_fee_rate pool)),
       (''fee_histogram'', fee_buckets_json (fee_histogram it pool))])"

definition l402_get_mempool :: "('k, 'l, 'd, 'w, 'c, 'n) node_state \<Rightarrow> json" where
  "l402_get_mempool S =
    (let pool = ns_mempool S in
     jobj [(''size'', jnat (mempool_len pool)), (''bytes'', jnat (mempool_size_bytes pool)),
       (''min_fee_rate'', jflt (mempool_min_fee_rate pool))])"

definition l402_get_chain :: "('k, 'l, 'd, 'w, 'c, 'n) node_state \<Rightarrow> json" where
  "l402_get_chain S =
    jobj [(''chain'', JStr (ns_chain S)), (''blocks'', jnat (ns_best_height S)),
      (''headers'', jnat (ns_headers_height S)), (''best_block_hash'', JStr (ns_best_hash S)),
      (''syncing'', JBool (ns_syncing S))]"

section \<open>The free REST routes\<close>

definition rest_get_info :: "string \<Rightarrow> nat \<Rightarrow> ('k, 'l, 'd, 'w, 'c, 'n) node_state \<Rightarrow> json" where
  "rest_get_info version now S = get_info version now S"

definition get_blockchain :: "('k, 'l, 'd, 'w, 'c, 'n) node_state \<Rightarrow> json" where
  "get_blockchain S =
    jobj [(''chain'', JStr (ns_chain S)), (''blocks'', jnat (ns_best_height S)),
      (''headers'', jnat (ns_headers_height S)), (''best_block_hash'', JStr (ns_best_hash S)),
      (''syncing'', JBool (ns_syncing S))]"

definition get_mempool :: "('k, 'l, 'd, 'w, 'c, 'n) node_state \<Rightarrow> json" where
  "get_mempool S =
    (let pool = ns_mempool S; cfg = mp_policy pool in
     jobj [(''size'', jnat (mempool_len pool)), (''bytes'', jnat (mempool_size_bytes pool)),
       (''policy'', jobj [(''min_fee_rate'', jflt (min_fee_rate cfg)), (''datacarrier'', JBool (datacarrier cfg)),
          (''max_datacarrier_bytes'', jnat (max_datacarrier_bytes cfg)), (''full_rbf'', JBool (full_rbf cfg))])])"

definition get_peers :: "('k, 'l, 'd, 'w, 'c, 'n) node_state \<Rightarrow> json" where
  "get_peers S =
    (let peer_list = map (\<lambda>p. jobj [(''addr'', JStr (ps_addr p)), (''user_agent'', JStr (ps_user_agent p)),
         (''version'', jnat (ps_version p)), (''inbound'', JBool (ps_inbound p)),
         (''v2_transport'', JBool (ps_v2_transport p)), (''start_height'', JInt (ps_start_height p))]) (ns_peer_infos S)
     in jobj [(''count'', jnat (length peer_list)), (''peers'', JArr peer_list)])"

definition num_active :: "channel list \<Rightarrow> nat" where
  "num_active cs = length (filter ch_usable cs)"

definition get_lightning_info ::
    "'l ldk \<Rightarrow> ('k, 'l, 'd, 'w, 'c, 'n) node_state \<Rightarrow> json" where
  "get_lightning_info K S =
    (case ns_lightning S of
       None \<Rightarrow> jobj [(''enabled'', JBool False)]
     | Some mgr \<Rightarrow>
         (let channels = ld_channels K (lm_ldk mgr) in
          jobj [(''enabled'', JBool True), (''node_id'', JStr (ld_node_id K (lm_ldk mgr))),
            (''num_channels'', jnat (length channels)), (''num_active_channels'', jnat (num_active channels)),
            (''num_peers'', jnat (length (ld_peers K (lm_ldk mgr))))]))"

definition channel_members :: "'l ldk \<Rightarrow> channel \<Rightarrow> (string \<times> json) list" where
  "channel_members K c =
    [(''channel_id'', JStr (ld_hex K (ch_id c))), (''counterparty'', JStr (ch_counterparty c)),
     (''capacity_sat'', jnat (ch_value_sat c)), (''outbound_capacity_msat'', jnat (ch_outbound_msat c)),
     (''inbound_capacity_msat'', jnat (ch_inbound_msat c)), (''is_usable'', JBool (ch_usable c)),
     (''is_outbound'', JBool (ch_outbound c)), (''is_channel_ready'', JBool (ch_ready c))]"

definition not_enabled :: json where
  "not_enabled = jobj [(''error'', JStr ''lightning not enabled'')]"

definition get_lightning_channels :: "'l ldk \<Rightarrow> ('k, 'l, 'd, 'w, 'c, 'n) node_state \<Rightarrow> json" where
  "get_lightning_channels K S =
    (case ns_lightning S of
       None \<Rightarrow> not_enabled
     | Some mgr \<Rightarrow>
         jobj [(''channels'', JArr (map (\<lambda>c. jobj (channel_members K c)) (ld_channels K (lm_ldk mgr))))])"

definition payment_json :: "payment_record \<Rightarrow> json" where
  "payment_json p =
    jobj [(''payment_hash'', JStr (pay_hash p)), (''direction'', JStr (pay_direction p)),
      (''status'', JStr (pay_status p)), (''amount_msat'', jopt jnat (pay_amount_msat p)),
      (''fee_msat'', jopt jnat (pay_fee_msat p)), (''timestamp'', jnat (pay_timestamp p))]"

definition get_lightning_payments ::
    "('l, 'd, 'w, 'c, 'p, 'm) ln_env \<Rightarrow> ('k, 'l, 'd, 'w, 'c, 'n) node_state \<Rightarrow> json" where
  "get_lightning_payments LE S =
    (case ns_lightning S of
       None \<Rightarrow> not_enabled
     | Some mgr \<Rightarrow> jobj [(''payments'', JArr (map payment_json (manager_list_payments LE mgr 50)))])"

section \<open>JSON-RPC: the chain\<close>

text \<open>\<open>as i64\<close> and the wrapping arithmetic on it; \<open>as u32\<close> of a signed number.\<close>

definition wrap_i64 :: "int \<Rightarrow> int" where
  "wrap_i64 i = (i + 2 ^ 63) mod 2 ^ 64 - 2 ^ 63"

definition int_as_u32 :: "int \<Rightarrow> nat" where
  "int_as_u32 i = nat (i mod 2 ^ 32)"

definition int_as_u64 :: "int \<Rightarrow> nat" where
  "int_as_u64 i = nat (i mod 2 ^ 64)"

definition rpc_getblockchaininfo :: "('k, 'l, 'd, 'w, 'c, 'n) node_state \<Rightarrow> json" where
  "rpc_getblockchaininfo S =
    jobj [(''chain'', JStr (ns_chain S)), (''blocks'', jnat (ns_best_height S)),
      (''headers'', jnat (ns_headers_height S)), (''bestblockhash'', JStr (ns_best_hash S)),
      (''initialblockdownload'', JBool (ns_syncing S)), (''warnings'', JStr [])]"

definition rpc_getnetworkinfo :: "string \<Rightarrow> ('k, 'l, 'd, 'w, 'c, 'n) node_state \<Rightarrow> json" where
  "rpc_getnetworkinfo version S =
    jobj [(''version'', JStr version), (''subversion'', JStr (user_agent version)),
      (''protocolversion'', jnat 70016), (''connections'', jnat (ns_peer_count S))]"

definition rpc_getmempoolinfo :: "('k, 'l, 'd, 'w, 'c, 'n) node_state \<Rightarrow> json" where
  "rpc_getmempoolinfo S =
    (let pool = ns_mempool S in
     jobj [(''loaded'', JBool True), (''size'', jnat (mempool_len pool)),
       (''bytes'', jnat (mempool_size_bytes pool)),
       (''mempoolminfee'', jflt (f64_div (min_fee_rate (mp_policy pool)) (Fin 100000)))])"

definition rpc_getpeerinfo :: "('k, 'l, 'd, 'w, 'c, 'n) node_state \<Rightarrow> json" where
  "rpc_getpeerinfo S =
    JArr (map (\<lambda>p. jobj [(''addr'', JStr (ps_addr p)), (''subver'', JStr (ps_user_agent p)),
      (''version'', jnat (ps_version p)), (''inbound'', JBool (ps_inbound p)),
      (''startingheight'', JInt (ps_start_height p))]) (ns_peer_infos S))"

definition rpc_getblock ::
    "('k, 'l, 'd, 'w, 'c, 'p, 'm, 'cl, 'n) rpc_env \<Rightarrow> ('k, 'l, 'd, 'w, 'c, 'n) node_state \<Rightarrow> json option
      \<Rightarrow> rpc_error + json" where
  "rpc_getblock E S params =
    (case get_param_str params 0 of
       None \<Rightarrow> Inl (InvalidParams ''missing blockhash'')
     | Some blockhash \<Rightarrow>
         (let verbosity = (case get_param_i64 params 1 of Some v \<Rightarrow> v | None \<Rightarrow> 1) in
          case ns_consensus S of
            None \<Rightarrow> Inl (RpcInternal ''consensus engine not available'')
          | Some engine \<Rightarrow>
              (case rc_unhex (re_codec E) blockhash of
                 None \<Rightarrow> Inl (InvalidParams ''invalid blockhash hex'')
               | Some hash_raw \<Rightarrow>
                   if length hash_raw \<noteq> 32 then Inl (InvalidParams ''blockhash must be 32 bytes'')
                   else
                     (case get_block_by_hash (re_kernel E) engine (hash_of_bytes (rev hash_raw)) of
                        None \<Rightarrow> Inl (RpcNotFound ''block not found'')
                      | Some info \<Rightarrow>
                          if verbosity = 0 then
                            (case read_block_data_at_height (re_kernel E) engine (int_as_u32 (bi_height info)) of
                               Inl e \<Rightarrow> Inl (RpcInternal (''failed to read block: '' @ show_consensus_error e))
                             | Inr block_data \<Rightarrow>
                                 (case rc_encode_block (re_codec E) block_data of
                                    Inl e \<Rightarrow> Inl (RpcInternal (''failed to encode block: '' @ e))
                                  | Inr raw \<Rightarrow> Inr (JStr (rc_hex (re_codec E) raw))))
                          else
                            Inr (jobj [(''hash'', JStr blockhash), (''height'', JInt (bi_height info)),
                              (''confirmations'',
                                JInt (wrap_i64 (wrap_i64 (int (ns_best_height S)) - bi_height info + 1)))])))))"

definition rpc_getrawtransaction ::
    "rpc_codec \<Rightarrow> ('k, 'l, 'd, 'w, 'c, 'n) node_state \<Rightarrow> json option \<Rightarrow> rpc_error + json" where
  "rpc_getrawtransaction C S params =
    (case get_param_str params 0 of
       None \<Rightarrow> Inl (InvalidParams ''missing txid'')
     | Some txid_hex \<Rightarrow>
         (case rc_unhex C txid_hex of
            None \<Rightarrow> Inl (InvalidParams ''invalid txid hex'')
          | Some txid_bytes \<Rightarrow>
              if length txid_bytes \<noteq> 32 then Inl (InvalidParams ''txid must be 32 bytes'')
              else
                (case mempool_get (ns_mempool S) (hash_of_bytes (rev txid_bytes)) of
                   None \<Rightarrow> Inl (RpcNotFound (''transaction '' @ txid_hex @ '' not found''))
                 | Some entry \<Rightarrow>
                     (let raw_hex = rc_hex C (rc_ser_tx C (me_tx entry)) in
                      if get_param_bool params 1 = Some True
                      then Inr (jobj [(''txid'', JStr txid_hex), (''hex'', JStr raw_hex),
                        (''size'', jnat (me_size_vbytes entry)), (''confirmations'', jnat 0)])
                      else Inr (JStr raw_hex)))))"

definition rpc_sendrawtransaction ::
    "('k, 'l, 'd, 'w, 'c, 'p, 'm, 'cl, 'n) rpc_env \<Rightarrow> nat \<Rightarrow> ('k, 'l, 'd, 'w, 'c, 'n) node_state \<Rightarrow> json option
      \<Rightarrow> ('k, 'l, 'd, 'w, 'c, 'n) node_state \<times> (rpc_error + json)" where
  "rpc_sendrawtransaction E now S params =
    (let C = re_codec E; L = le_btc (re_ln E) in
     case get_param_str params 0 of
       None \<Rightarrow> (S, Inl (InvalidParams ''missing hex transaction''))
     | Some hex_tx \<Rightarrow>
         (case rc_unhex C hex_tx of
            None \<Rightarrow> (S, Inl (InvalidParams ''invalid hex''))
          | Some tx_bytes \<Rightarrow>
              (case rc_de_tx C tx_bytes of
                 Inl e \<Rightarrow> (S, Inl (InvalidParams (''invalid transaction: '' @ e)))
               | Inr tx \<Rightarrow>
                   (case mempool_add L now (ns_mempool S) tx 0 of
                      Inl e \<Rightarrow>
                        (S, Inl (RpcInternal (''mempool rejection: '' @ show_mempool_error (rc_show_f1 C) L e)))
                    | Inr (pool, _) \<Rightarrow>
                        (S\<lparr>ns_mempool := pool\<rparr>, Inr (JStr (hash_str L (compute_txid L tx))))))))"

definition rpc_getrawmempool ::
    "('l, 'd, 'w, 'c, 'p, 'm) ln_env \<Rightarrow> ('k, 'l, 'd, 'w, 'c, 'n) node_state \<Rightarrow> json" where
  "rpc_getrawmempool LE S =
    JArr (map (\<lambda>e. JStr (hash_str (le_btc LE) (me_txid e))) (get_sorted_by_fee_rate (le_order LE) (ns_mempool S)))"

end
