(* ===== verification/Rpc_Wallet.thy ===== *)
theory Rpc_Wallet
  imports Rpc_Chain
begin

text \<open>
  The wallet methods of the JSON-RPC interface (\<open>wolfe-rpc/src/handlers.rs\<close>). Each works on the
  wallet behind the lock of the node's state; what an operation changed before it failed stays
  changed.
\<close>

section \<open>Reading\<close>

type_synonym ('k, 'l, 'd, 'w, 'c, 'n) rpc_step = "('k, 'l, 'd, 'w, 'c, 'n) node_state \<times> (rpc_error + json)"

definition no_wallet :: rpc_error where
  "no_wallet = RpcWallet ''wallet not loaded''"

definition btc_amount :: "nat \<Rightarrow> f64" where
  "btc_amount sat = f64_div (f64_of_u64 sat) (Fin 100000000)"

definition rpc_getbalance ::
    "('w, 'c, 'p, 'm) bdk \<Rightarrow> ('k, 'l, 'd, 'w, 'c, 'n) node_state \<Rightarrow> rpc_error + json" where
  "rpc_getbalance B S =
    (case ns_wallet S of
       None \<Rightarrow> Inl no_wallet
     | Some w \<Rightarrow> Inr (jflt (btc_amount (wb_confirmed (balance B w)))))"

definition rpc_getwalletinfo ::
    "('w, 'c, 'p, 'm) bdk \<Rightarrow> btc \<Rightarrow> ('k, 'l, 'd, 'w, 'c, 'n) node_state \<Rightarrow> rpc_error + json" where
  "rpc_getwalletinfo B L S =
    (case ns_wallet S of
       None \<Rightarrow> Inl no_wallet
     | Some w \<Rightarrow>
         (let b = balance B w in
          Inr (jobj [(''balance'', jflt (btc_amount (wb_confirmed b))),
            (''unconfirmed_balance'', jflt (btc_amount (wb_trusted_pending b))),
            (''immature_balance'', jflt (btc_amount (wb_immature b))),
            (''txcount'', jnat (length (list_transactions B L w)))])))"

definition rpc_getnewaddress ::
    "('w, 'c, 'p, 'm) bdk \<Rightarrow> ('k, 'l, 'd, 'w, 'c, 'n) node_state \<Rightarrow> ('k, 'l, 'd, 'w, 'c, 'n) rpc_step" where
  "rpc_getnewaddress B S =
    (case ns_wallet S of
       None \<Rightarrow> (S, Inl no_wallet)
     | Some w \<Rightarrow>
         (case new_address B w of
            (w, Inl e) \<Rightarrow> (write_wallet w S, Inl (RpcWallet (''address generation: '' @ show_wallet_error e)))
          | (w, Inr addr) \<Rightarrow> (write_wallet w S, Inr (JStr addr))))"

definition rpc_listtransactions ::
    "('w, 'c, 'p, 'm) bdk \<Rightarrow> btc \<Rightarrow> ('k, 'l, 'd, 'w, 'c, 'n) node_state \<Rightarrow> rpc_error + json" where
  "rpc_listtransactions B L S =
    (case ns_wallet S of
       None \<Rightarrow> Inl no_wallet
     | Some w \<Rightarrow>
         Inr (JArr (map (\<lambda>t. jobj [(''txid'', JStr (ts_txid t)), (''confirmed'', JBool (ts_confirmed t))])
           (list_transactions B L w))))"

section \<open>Spending\<close>

text \<open>\<open>as f32\<close>: 24 significant bits, subnormal values below \<open>2 ^ -126\<close>, infinity from \<open>2 ^ 128\<close>.\<close>

definition fl_single :: "nat \<Rightarrow> nat \<Rightarrow> rat" where
  "fl_single n d =
    (if n = 0 then 0
     else let s = max (ratio_exp n d - 23) (- 149) in
       of_nat (round_half_even (of_nat n / of_nat d / two_pow s)) * two_pow s)"

fun as_f32 :: "f64 \<Rightarrow> f64" where
  "as_f32 (Fin q) =
    (case quotient_of \<bar>q\<bar> of (n, d) \<Rightarrow>
       let r = fl_single (nat n) (nat d) in
       if 2 ^ 128 \<le> r then (if q < 0 then NInf else PInf) else if q < 0 then Fin (- r) else Fin r)"
| "as_f32 x = x"

definition amount_in_sat :: "f64 \<Rightarrow> nat" where
  "amount_in_sat amount_btc = f64_as_uint 64 (f64_mul amount_btc (Fin 100000000))"

definition psbt_outputs :: "json option \<Rightarrow> rpc_error + string \<times> nat" where
  "psbt_outputs params =
    (case Option.bind (get_param params 1) as_array of
       None \<Rightarrow> Inl (InvalidParams ''missing outputs array at param index 1'')
     | Some [] \<Rightarrow> Inl (InvalidParams ''empty outputs'')
     | Some (v # vs) \<Rightarrow>
         (case as_object v of
            None \<Rightarrow> Inl (InvalidParams ''output must be an object'')
          | Some [] \<Rightarrow> Inl (InvalidParams ''empty output object'')
          | Some ((address, amount_btc) # _) \<Rightarrow>
              (case as_f64 amount_btc of
                 None \<Rightarrow> Inl (InvalidParams ''amount must be a number'')
               | Some x \<Rightarrow> Inr (address, amount_in_sat x))))"

definition psbt_fee_rate :: "json option \<Rightarrow> f64" where
  "psbt_fee_rate params =
    as_f32 (case Option.bind (get_param params 3) (\<lambda>v. Option.bind (jget ''fee_rate'' v) as_f64) of
      Some x \<Rightarrow> x | None \<Rightarrow> Fin 1)"

definition rpc_walletcreatefundedpsbt ::
    "('w, 'c, 'p, 'm) bdk \<Rightarrow> ('k, 'l, 'd, 'w, 'c, 'n) node_state \<Rightarrow> json option
      \<Rightarrow> ('k, 'l, 'd, 'w, 'c, 'n) rpc_step" where
  "rpc_walletcreatefundedpsbt B S params =
    (case ns_wallet S of
       None \<Rightarrow> (S, Inl no_wallet)
     | Some w \<Rightarrow>
         (case psbt_outputs params of
            Inl e \<Rightarrow> (S, Inl e)
          | Inr (address, amount_sat) \<Rightarrow>
              (case create_psbt B w address amount_sat (psbt_fee_rate params) False of
                 (w, Inl e) \<Rightarrow> (write_wallet w S, Inl (RpcWallet (''psbt creation: '' @ show_wallet_error e)))
               | (w, Inr psbt) \<Rightarrow>
                   (write_wallet w S,
                    Inr (jobj [(''psbt'', JStr psbt), (''fee'', JInt 0), (''changepos'', JInt (- 1))])))))"

definition rpc_walletprocesspsbt ::
    "('w, 'c, 'p, 'm) bdk \<Rightarrow> ('k, 'l, 'd, 'w, 'c, 'n) node_state \<Rightarrow> json option \<Rightarrow> rpc_error + json" where
  "rpc_walletprocesspsbt B S params =
    (case ns_wallet S of
       None \<Rightarrow> Inl no_wallet
     | Some w \<Rightarrow>
         (case get_param_str params 0 of
            None \<Rightarrow> Inl (InvalidParams ''missing psbt string'')
          | Some psbt \<Rightarrow>
              (case sign_psbt_base64 B w psbt of
                 Inl e \<Rightarrow> Inl (RpcWallet (''signing: '' @ show_wallet_error e))
               | Inr (out, finalized) \<Rightarrow>
                   Inr (jobj [(''psbt'', JStr out), (''complete'', JBool finalized)]))))"

section \<open>Creating\<close>

definition inject_wallet :: "('w, 'c) node_wallet \<Rightarrow> ('k, 'l, 'd, 'w, 'c, 'n) ns_update" where
  "inject_wallet w S =
    (let S = ns_set_wallet w S in S\<lparr>ns_lightning := map_option (set_wallet w) (ns_lightning S)\<rparr>)"

definition rpc_createwallet ::
    "('k, 'l, 'd, 'w, 'c, 'p, 'm, 'cl, 'n) rpc_env \<Rightarrow> ('k, 'l, 'd, 'w, 'c, 'n) node_state
      \<Rightarrow> ('k, 'l, 'd, 'w, 'c, 'n) rpc_step" where
  "rpc_createwallet E S =
    (if ns_wallet S \<noteq> None then (S, Inl (RpcWallet ''wallet already loaded''))
     else
       case create_new (le_bdk (re_ln E)) (ns_wallet_db_path S) (ns_network S) of
         Inl e \<Rightarrow> (S, Inl (RpcWallet (''wallet creation failed: '' @ show_wallet_error e)))
       | Inr (w, mnemonic) \<Rightarrow>
           (inject_wallet w S,
            Inr (jobj [(''mnemonic'', JStr (re_show_mnemonic E mnemonic)),
              (''message'', JStr (''BACKUP THIS SEED PHRASE '' @ [CHR 0xE2, CHR 0x80, CHR 0x94] @
                 '' it will NOT be shown again''))])))"

definition rpc_importwallet ::
    "('k, 'l, 'd, 'w, 'c, 'p, 'm, 'cl, 'n) rpc_env \<Rightarrow> ('k, 'l, 'd, 'w, 'c, 'n) node_state \<Rightarrow> json option
      \<Rightarrow> ('k, 'l, 'd, 'w, 'c, 'n) rpc_step" where
  "rpc_importwallet E S params =
    (let dash = [CHR 0xE2, CHR 0x80, CHR 0x94] in
     if ns_wallet S \<noteq> None
     then (S, Inl (RpcWallet (''wallet already loaded '' @ dash @ '' stop node, delete wallet DB, then retry'')))
     else
       case get_param_str params 0 of
         None \<Rightarrow> (S, Inl (InvalidParams ''missing mnemonic seed phrase''))
       | Some phrase \<Rightarrow>
           (case re_mnemonic E phrase of
              Inl e \<Rightarrow> (S, Inl (InvalidParams (''invalid mnemonic: '' @ e)))
            | Inr mnemonic \<Rightarrow>
                (case from_mnemonic (le_bdk (re_ln E)) (ns_wallet_db_path S) (ns_network S) mnemonic of
                   Inl e \<Rightarrow> (S, Inl (RpcWallet (''wallet import failed: '' @ show_wallet_error e)))
                 | Inr w \<Rightarrow>
                     (inject_wallet w S,
                      Inr (jobj [(''message'', JStr (''wallet imported successfully '' @ dash @
                        '' rescan will happen as blocks sync''))])))))"

section \<open>Rescanning\<close>

definition read_chain_block ::
    "('k, 'l, 'd, 'w, 'c, 'p, 'm, 'cl, 'n) rpc_env \<Rightarrow> 'k consensus_engine \<Rightarrow> nat \<Rightarrow> rpc_error + block" where
  "read_chain_block E engine height =
    (let failed = (\<lambda>what e. RpcInternal (''block '' @ what @ '' at '' @ show_nat height @ '': '' @ e)) in
     case read_block_data_at_height (re_kernel E) engine height of
       Inl e \<Rightarrow> Inl (failed ''read'' (show_consensus_error e))
     | Inr data \<Rightarrow>
         (case rc_encode_block (re_codec E) data of
            Inl e \<Rightarrow> Inl (failed ''encode'' e)
          | Inr bs \<Rightarrow>
              (case rc_de_block (re_codec E) bs of
                 Inl e \<Rightarrow> Inl (failed ''deserialize'' e)
               | Inr block \<Rightarrow> Inr block)))"

text \<open>The loop over the heights; a block that the wallet rejects is counted as scanned.\<close>

fun rescan_loop ::
    "('k, 'l, 'd, 'w, 'c, 'p, 'm, 'cl, 'n) rpc_env \<Rightarrow> 'k consensus_engine \<Rightarrow> network \<Rightarrow> nat list
      \<Rightarrow> ('w, 'c) node_wallet \<Rightarrow> nat \<Rightarrow> nat \<Rightarrow> ('w, 'c) node_wallet \<times> (rpc_error + nat \<times> nat)" where
  "rescan_loop E engine net [] w scanned found = (w, Inr (scanned, found))"
| "rescan_loop E engine net (height # hs) w scanned found =
    (case read_chain_block E engine height of
       Inl e \<Rightarrow> (w, Inl e)
     | Inr block \<Rightarrow>
         (let B = le_bdk (re_ln E); L = le_btc (re_ln E);
              before = length (list_transactions B L w);
              w = fst (rescan_block B L w block height net);
              after = length (list_transactions B L w)
          in rescan_loop E engine net hs w (as_u32 (scanned + 1))
               (if before < after then w64 (found + (after - before)) else found)))"

definition rpc_rescanblockchain ::
    "('k, 'l, 'd, 'w, 'c, 'p, 'm, 'cl, 'n) rpc_env \<Rightarrow> ('k, 'l, 'd, 'w, 'c, 'n) node_state \<Rightarrow> json option
      \<Rightarrow> ('k, 'l, 'd, 'w, 'c, 'n) rpc_step" where
  "rpc_rescanblockchain E S params =
    (case ns_wallet S of
       None \<Rightarrow> (S, Inl no_wallet)
     | Some w \<Rightarrow>
         (case ns_consensus S of
            None \<Rightarrow> (S, Inl (RpcInternal ''consensus engine not available''))
          | Some engine \<Rightarrow>
              (let height = chain_height (re_kernel E) engine in
               if height \<le> 0 then (S, Inl (RpcInternal ''chain not synced yet''))
               else
                 (let tip = int_as_u32 height;
                      start = int_as_u32 (case get_param_i64 params 0 of Some v \<Rightarrow> v | None \<Rightarrow> 0);
                      stop = (case get_param_i64 params 1 of Some v \<Rightarrow> int_as_u32 v | None \<Rightarrow> tip)
                  in case reset_chain (le_bdk (re_ln E)) w of
                       (w, Inl e) \<Rightarrow> (write_wallet w S, Inl (RpcWallet (''chain reset: '' @ show_wallet_error e)))
                     | (w, Inr _) \<Rightarrow>
                         (case rescan_loop E engine (ns_network S) [start..<Suc stop] w 0 0 of
                            (w, Inl e) \<Rightarrow> (write_wallet w S, Inl e)
                          | (w, Inr (scanned, found)) \<Rightarrow>
                              (write_wallet w S,
                               Inr (jobj [(''start_height'', jnat start), (''stop_height'', jnat stop),
                                 (''blocks_scanned'', jnat scanned), (''transactions_found'', jnat found)])))))))"

section \<open>Facts about a rescan\<close>

definition readable :: "('k, 'l, 'd, 'w, 'c, 'p, 'm, 'cl, 'n) rpc_env \<Rightarrow> 'k consensus_engine \<Rightarrow> nat \<Rightarrow> bool" where
  "readable E engine h \<longleftrightarrow> res_is_ok (read_chain_block E engine h)"

text \<open>The wallet after one block that was read.\<close>

definition scan_one ::
    "('k, 'l, 'd, 'w, 'c, 'p, 'm, 'cl, 'n) rpc_env \<Rightarrow> 'k consensus_engine \<Rightarrow> network
      \<Rightarrow> ('w, 'c) node_wallet \<Rightarrow> nat \<Rightarrow> ('w, 'c) node_wallet" where
  "scan_one E engine net w h =
    fst (rescan_block (le_bdk (re_ln E)) (le_btc (re_ln E)) w (projr (read_chain_block E engine h)) h net)"

lemma rescan_loop_wallet:
  "fst (rescan_loop E engine net hs w n f) = foldl (scan_one E engine net) w (takeWhile (readable E engine) hs)"
proof (induction hs arbitrary: w n f)
  case (Cons h hs)
  then show ?case
    by (cases "read_chain_block E engine h") (simp_all add: readable_def scan_one_def Let_def)
qed simp

lemma rescan_loop_result:
  "case snd (rescan_loop E engine net hs w n f) of
     Inl e \<Rightarrow> \<exists>h \<in> set hs. read_chain_block E engine h = Inl e
   | Inr (scanned, found) \<Rightarrow> (\<forall>h \<in> set hs. readable E engine h) \<and> (hs \<noteq> [] \<longrightarrow> scanned = as_u32 (n + length hs)) \<and>
       (hs = [] \<longrightarrow> scanned = n)"
proof (induction hs arbitrary: w n f)
  case (Cons h hs)
  show ?case
  proof (cases "read_chain_block E engine h")
    case (Inr block)
    let ?w = "scan_one E engine net w h" and ?before = "length (list_transactions (le_bdk (re_ln E)) (le_btc (re_ln E)) w)"
    let ?after = "length (list_transactions (le_bdk (re_ln E)) (le_btc (re_ln E)) ?w)"
    let ?f = "if ?before < ?after then w64 (f + (?after - ?before)) else f"
    have step: "rescan_loop E engine net (h # hs) w n f = rescan_loop E engine net hs ?w (as_u32 (n + 1)) ?f"
      by (simp add: Inr scan_one_def Let_def)
    show ?thesis
      using Cons.IH [where w = ?w and n = "as_u32 (n + 1)" and f = ?f] unfolding step
      by (cases "hs = []") (auto simp: readable_def Inr as_u32_def mod_simps split: sum.splits)
  qed simp
qed simp

section \<open>Facts about amounts\<close>

lemma two_roundings:
  fixes k q r :: rat
  assumes "\<bar>q - k\<bar> \<le> k / 9007199254740992" and "\<bar>r - q\<bar> \<le> q / 9007199254740992"
    and "0 < k" and "k < 2251799813685248"
  shows "\<bar>r - k\<bar> < 1"
  using assms by linarith

lemma btc_product:
  assumes k: "0 < k" "k < 2 ^ 51"
  shows "\<bar>fl_rat (fl_ratio k 100000000 * 100000000) - of_nat k\<bar> < 1"
proof -
  let ?q = "fl_ratio k 100000000 * 100000000 :: rat" and ?k = "of_nat k :: rat"
  have k': "0 < ?k" "?k < 2 ^ 51"
    using k by (simp, metis of_nat_less_iff of_nat_numeral of_nat_power)
  have "\<bar>fl_ratio k 100000000 - ?k / 100000000\<bar> \<le> ?k / 100000000 / 2 ^ 53"
    using fl_ratio_error [of 100000000 k] by simp
  then have "\<bar>fl_ratio k 100000000 - ?k / 100000000\<bar> * 100000000 \<le> ?k / 2 ^ 53"
    by simp
  moreover have "?q - ?k = (fl_ratio k 100000000 - ?k / 100000000) * 100000000"
    by (simp add: left_diff_distrib)
  then have "\<bar>?q - ?k\<bar> = \<bar>fl_ratio k 100000000 - ?k / 100000000\<bar> * 100000000"
    by (simp only: abs_mult abs_numeral)
  ultimately have e: "\<bar>?q - ?k\<bar> \<le> ?k / 2 ^ 53"
    by simp
  have q: "0 \<le> ?q"
    by simp
  obtain n d where nd: "0 < d" "?q = quot n d"
    by (rule nonneg_quot [OF q])
  have "\<bar>fl_rat ?q - ?q\<bar> \<le> ?q / 2 ^ 53"
    unfolding nd(2) fl_rat_quot [OF nd(1)] using fl_ratio_error [OF nd(1)] .
  then show ?thesis
    using two_roundings [of ?q ?k "fl_rat ?q"] e k' by simp
qed

lemma amount_in_sat_eq:
  assumes "0 < k" "k < 2 ^ 51"
  shows "amount_in_sat (f64_lit k 100000000) = nat \<lfloor>fl_rat (fl_ratio k 100000000 * 100000000)\<rfloor>"
proof -
  let ?r = "fl_rat (fl_ratio k 100000000 * 100000000)"
  have r: "\<bar>?r - of_nat k\<bar> < 1" "0 \<le> ?r"
    using btc_product [OF assms] by (simp_all add: fl_rat_nonneg)
  have "(of_nat k :: rat) < 2 ^ 51"
    using assms(2) by (metis of_nat_less_iff of_nat_numeral of_nat_power)
  then have b: "?r < 2 ^ 52"
    using r by simp
  then have "?r < 2 ^ 1024"
    by (rule less_trans) simp
  then have "f64_round (fl_ratio k 100000000 * 100000000) = Fin ?r"
    by (subst f64_round_nonneg) (simp_all add: not_le)
  moreover have "nat \<lfloor>?r\<rfloor> \<le> 2 ^ 64 - 1"
  proof -
    have "\<lfloor>?r\<rfloor> < 2 ^ 52"
      unfolding floor_less_iff using b by simp
    then show ?thesis
      by (simp only: nat_le_iff) simp
  qed
  ultimately show ?thesis
    by (simp add: amount_in_sat_def f64_lit_def)
qed

section \<open>Properties\<close>


text \<open>
  The amount of a payment, given in bitcoin as the double nearest to a whole number of
  satoshi, is that number or one less, for every amount up to the supply of coins.
\<close>

theorem psbt_amount_bounds:
  assumes "sat \<le> 2100000000000000"
  shows "amount_in_sat (f64_lit sat 100000000) \<in> {sat - 1, sat}"
proof (cases "sat = 0")
  case True
  then show ?thesis
    by (simp add: amount_in_sat_def f64_lit_def f64_round_def fl_rat_def)
next
  case False
  then have k: "0 < sat" "sat < 2 ^ 51"
    using assms by simp_all
  let ?r = "fl_rat (fl_ratio sat 100000000 * 100000000)"
  have "\<bar>?r - of_nat sat\<bar> < 1"
    by (rule btc_product [OF k])
  then have "of_int (int sat - 1) < ?r" "?r < of_int (int sat + 1)"
    by (simp_all add: abs_less_iff)
  then have "int sat - 1 \<le> \<lfloor>?r\<rfloor>" "\<lfloor>?r\<rfloor> < int sat + 1"
    by (simp_all only: le_floor_iff floor_less_iff less_imp_le)
  then show ?thesis
    unfolding amount_in_sat_eq [OF k] using k(1) by auto
qed

text \<open>The satoshi is lost for 0.29 bitcoin.\<close>

lemma amount_loses_satoshi: "amount_in_sat (f64_lit 29000000 100000000) = 28999999"
proof -
  have f: "\<lfloor>130604389193744384 / 25 :: rat\<rfloor> = 5224175567749775"
    by (simp add: floor_eq_iff)
  have g: "\<lfloor>2040693581152255859375 / 262144 :: rat\<rfloor> = 7784628223999999"
    by (simp add: floor_eq_iff)
  have 1: "fl_ratio 29000000 100000000 = 5224175567749775 / 2 ^ 54"
    by (simp add: fl_ratio_def ratio_exp_def two_pow_def round_half_even_def Let_def compute_floorlog f)
  have 2: "(5224175567749775 / 2 ^ 54 * 100000000 :: rat) = quot 522417556774977500000000 18014398509481984"
    by simp
  have 3: "fl_rat (quot 522417556774977500000000 18014398509481984) = 7784628223999999 / 2 ^ 28"
    by (subst fl_rat_quot) (simp_all add: fl_ratio_def ratio_exp_def two_pow_def round_half_even_def Let_def compute_floorlog g)
  have h: "\<lfloor>7784628223999999 / 268435456 :: rat\<rfloor> = 28999999"
    by (simp add: floor_eq_iff)
  show ?thesis
    unfolding amount_in_sat_eq [of 29000000, simplified] 1 2 3 by (simp add: h)
qed

section \<open>Witnesses\<close>

definition sample_wallet_node ::
    "hash list consensus_engine \<Rightarrow> (hash list, ldk_event list, sample_db, nat, bool, event_builder list) node_state" where
  "sample_wallet_node e =
    (sample_node None)\<lparr>ns_wallet := Some \<lparr>nw_wallet = 3, nw_db = True\<rparr>, ns_consensus := Some e\<rparr>"


theorem psbt_amount_bounds_witness: "amount_in_sat (f64_lit 29000000 100000000) \<in> {28999999, 29000000}"
  using psbt_amount_bounds [of 29000000] by simp

end
