(* ===== verification/Rpc_Lightning.thy ===== *)
theory Rpc_Lightning
  imports Rpc_Wallet
begin

text \<open>
  The Lightning methods of the JSON-RPC interface (\<open>wolfe-rpc/src/handlers.rs\<close>). What the manager
  changed stays changed when a call fails.
\<close>

section \<open>The node, its channels and peers\<close>

definition ln_disabled :: rpc_error where
  "ln_disabled = RpcLightning ''lightning not enabled''"

definition ln_failed :: "lightning_error \<Rightarrow> rpc_error" where
  "ln_failed e = RpcLightning (show_lightning_error e)"

definition rpc_ln_getinfo :: "'l ldk \<Rightarrow> ('k, 'l, 'd, 'w, 'c, 'n) node_state \<Rightarrow> rpc_error + json" where
  "rpc_ln_getinfo K S =
    (case ns_lightning S of
       None \<Rightarrow> Inl ln_disabled
     | Some mgr \<Rightarrow>
         (let channels = ld_channels K (lm_ldk mgr) in
          Inr (jobj [(''node_id'', JStr (ld_node_id K (lm_ldk mgr))), (''num_channels'', jnat (length channels)),
            (''num_active_channels'', jnat (num_active channels)),
            (''num_peers'', jnat (length (ld_peers K (lm_ldk mgr))))])))"

definition rpc_ln_listchannels :: "'l ldk \<Rightarrow> ('k, 'l, 'd, 'w, 'c, 'n) node_state \<Rightarrow> rpc_error + json" where
  "rpc_ln_listchannels K S =
    (case ns_lightning S of
       None \<Rightarrow> Inl ln_disabled
     | Some mgr \<Rightarrow>
         Inr (JArr (map (\<lambda>c. jobj (channel_members K c @ [(''short_channel_id'', jopt jnat (ch_scid c))]))
           (ld_channels K (lm_ldk mgr)))))"

definition rpc_ln_listpeers :: "'l ldk \<Rightarrow> ('k, 'l, 'd, 'w, 'c, 'n) node_state \<Rightarrow> rpc_error + json" where
  "rpc_ln_listpeers K S =
    (case ns_lightning S of
       None \<Rightarrow> Inl ln_disabled
     | Some mgr \<Rightarrow>
         Inr (JArr (map (\<lambda>(node_id, address, inbound).
             jobj [(''node_id'', JStr node_id), (''address'', jopt JStr address), (''inbound'', JBool inbound)])
           (ld_peers K (lm_ldk mgr)))))"

text \<open>The peer as one parameter or two; the text is split at the first \<open>@\<close>.\<close>

definition peer_params :: "json option \<Rightarrow> rpc_error + string \<times> string" where
  "peer_params params =
    (case get_param_str params 0 of
       None \<Rightarrow> Inl (InvalidParams ''missing node_id (pubkey@host:port)'')
     | Some s \<Rightarrow>
         if CHR ''@'' \<in> set s
         then Inr (takeWhile (\<lambda>c. c \<noteq> CHR ''@'') s, tl (dropWhile (\<lambda>c. c \<noteq> CHR ''@'') s))
         else
           (case get_param_str params 1 of
              None \<Rightarrow> Inl (InvalidParams ''missing address'') | Some addr \<Rightarrow> Inr (s, addr)))"

definition parse_pubkey :: "rpc_codec \<Rightarrow> string \<Rightarrow> rpc_error + string" where
  "parse_pubkey C s =
    (case rc_pubkey C s of Inl e \<Rightarrow> Inl (InvalidParams (''invalid pubkey: '' @ e)) | Inr pk \<Rightarrow> Inr pk)"

definition with_ln :: "('k, 'l, 'd, 'w, 'c, 'n) node_state \<Rightarrow> ('l, 'd, 'w, 'c, 'a) ln_step \<Rightarrow> ('a \<Rightarrow> json)
    \<Rightarrow> ('k, 'l, 'd, 'w, 'c, 'n) rpc_step" where
  "with_ln S step f =
    (case step of
       (mgr, Inl e) \<Rightarrow> (S\<lparr>ns_lightning := Some mgr\<rparr>, Inl (ln_failed e))
     | (mgr, Inr x) \<Rightarrow> (S\<lparr>ns_lightning := Some mgr\<rparr>, Inr (f x)))"

definition rpc_ln_connect ::
    "'l ldk \<Rightarrow> rpc_codec \<Rightarrow> ('k, 'l, 'd, 'w, 'c, 'n) node_state \<Rightarrow> json option
      \<Rightarrow> ('k, 'l, 'd, 'w, 'c, 'n) rpc_step" where
  "rpc_ln_connect K C S params =
    (case ns_lightning S of
       None \<Rightarrow> (S, Inl ln_disabled)
     | Some mgr \<Rightarrow>
         (case res_bind (peer_params params) (\<lambda>(pk, a).
             res_bind (parse_pubkey C pk) (\<lambda>pk.
             case rc_socket_addr C a of
               Inl e \<Rightarrow> Inl (InvalidParams (''invalid address: '' @ e)) | Inr a \<Rightarrow> Inr (pk, a))) of
            Inl e \<Rightarrow> (S, Inl e)
          | Inr (pk, a) \<Rightarrow>
              with_ln S (connect_peer K mgr pk a) (\<lambda>_. jobj [(''connected'', JBool True)])))"

definition rpc_ln_openchannel ::
    "'l ldk \<Rightarrow> rpc_codec \<Rightarrow> nat \<Rightarrow> ('k, 'l, 'd, 'w, 'c, 'n) node_state \<Rightarrow> json option
      \<Rightarrow> ('k, 'l, 'd, 'w, 'c, 'n) rpc_step" where
  "rpc_ln_openchannel K C rnd S params =
    (case ns_lightning S of
       None \<Rightarrow> (S, Inl ln_disabled)
     | Some mgr \<Rightarrow>
         (case get_param_str params 0 of
            None \<Rightarrow> (S, Inl (InvalidParams ''missing node_id''))
          | Some pubkey_hex \<Rightarrow>
              (case get_param_i64 params 1 of
                 None \<Rightarrow> (S, Inl (InvalidParams ''missing amount_sat''))
               | Some amount \<Rightarrow>
                   (let push = (case get_param_i64 params 2 of Some v \<Rightarrow> v | None \<Rightarrow> 0) in
                    case parse_pubkey C pubkey_hex of
                      Inl e \<Rightarrow> (S, Inl e)
                    | Inr pubkey \<Rightarrow>
                        with_ln S (open_channel K rnd mgr pubkey (int_as_u64 amount) (int_as_u64 push))
                          (\<lambda>channel_id. jobj [(''channel_id'', JStr channel_id)])))))"

definition rpc_ln_closechannel ::
    "'l ldk \<Rightarrow> rpc_codec \<Rightarrow> ('k, 'l, 'd, 'w, 'c, 'n) node_state \<Rightarrow> json option
      \<Rightarrow> ('k, 'l, 'd, 'w, 'c, 'n) rpc_step" where
  "rpc_ln_closechannel K C S params =
    (case ns_lightning S of
       None \<Rightarrow> (S, Inl ln_disabled)
     | Some mgr \<Rightarrow>
         (case get_param_str params 0 of
            None \<Rightarrow> (S, Inl (InvalidParams ''missing channel_id''))
          | Some channel_id_hex \<Rightarrow>
              (case get_param_str params 1 of
                 None \<Rightarrow> (S, Inl (InvalidParams ''missing counterparty node_id''))
               | Some counterparty_hex \<Rightarrow>
                   (let force = (get_param_bool params 2 = Some True) in
                    case rc_unhex C channel_id_hex of
                      None \<Rightarrow> (S, Inl (InvalidParams ''invalid channel_id hex''))
                    | Some bs \<Rightarrow>
                        if length bs \<noteq> 32 then (S, Inl (InvalidParams ''channel_id must be 32 bytes''))
                        else
                          (case parse_pubkey C counterparty_hex of
                             Inl e \<Rightarrow> (S, Inl e)
                           | Inr counterparty \<Rightarrow>
                               with_ln S (close_channel K mgr bs counterparty force)
                                 (\<lambda>_. jobj [(''closing'', JBool True), (''force'', JBool force)]))))))"

section \<open>Payments\<close>

definition rpc_ln_invoice ::
    "'l ldk \<Rightarrow> ('k, 'l, 'd, 'w, 'c, 'n) node_state \<Rightarrow> json option \<Rightarrow> ('k, 'l, 'd, 'w, 'c, 'n) rpc_step" where
  "rpc_ln_invoice K S params =
    (case ns_lightning S of
       None \<Rightarrow> (S, Inl ln_disabled)
     | Some mgr \<Rightarrow>
         with_ln S (create_invoice K mgr (map_option int_as_u64 (get_param_i64 params 0))
             (case get_param_str params 1 of Some d \<Rightarrow> d | None \<Rightarrow> ''wolfe invoice'')
             (map_option int_as_u32 (get_param_i64 params 2)))
           (\<lambda>invoice. jobj [(''invoice'', JStr invoice)]))"

definition rpc_ln_listpayments ::
    "('l, 'd, 'w, 'c, 'p, 'm) ln_env \<Rightarrow> ('k, 'l, 'd, 'w, 'c, 'n) node_state \<Rightarrow> json option \<Rightarrow> rpc_error + json" where
  "rpc_ln_listpayments LE S params =
    (case ns_lightning S of
       None \<Rightarrow> Inl ln_disabled
     | Some mgr \<Rightarrow>
         (let limit = int_as_u64 (case get_param_i64 params 0 of Some v \<Rightarrow> v | None \<Rightarrow> 50) in
          Inr (JArr (map payment_json (manager_list_payments LE mgr limit)))))"

definition rpc_ln_pay ::
    "'l ldk \<Rightarrow> bytes \<Rightarrow> ('k, 'l, 'd, 'w, 'c, 'n) node_state \<Rightarrow> json option \<Rightarrow> ('k, 'l, 'd, 'w, 'c, 'n) rpc_step" where
  "rpc_ln_pay K rid S params =
    (case ns_lightning S of
       None \<Rightarrow> (S, Inl ln_disabled)
     | Some mgr \<Rightarrow>
         (case get_param_str params 0 of
            None \<Rightarrow> (S, Inl (InvalidParams ''missing invoice''))
          | Some invoice \<Rightarrow>
              with_ln S (pay_invoice K rid mgr invoice) (\<lambda>payment_id. jobj [(''payment_id'', JStr payment_id)])))"

section \<open>Reconciling the channels with the chain\<close>

text \<open>
  The base URL of the explorer: a parameter, or the network's default. \<open>joined\<close> says of every
  lookup task whether its result arrived.
\<close>

definition explorer_base :: "'cl http \<Rightarrow> network \<Rightarrow> json option \<Rightarrow> nat \<Rightarrow> rpc_error + string" where
  "explorer_base H net params i =
    (case get_param_str params i of
       Some raw \<Rightarrow> validate_explorer_base H raw | None \<Rightarrow> default_explorer_base H net)"

definition outpoint_text :: "btc \<Rightarrow> ln_outpoint \<Rightarrow> string" where
  "outpoint_text L op = hash_str L (fst op) @ '':'' @ show_nat (snd op)"

definition tx_link :: "string \<Rightarrow> string \<Rightarrow> string" where
  "tx_link base txid_hex = base @ ''/tx/'' @ txid_hex"

definition is_spent :: "json \<Rightarrow> bool" where
  "is_spent v \<longleftrightarrow> Option.bind (jget ''spent'' v) as_bool = Some True"

definition spent_height :: "json \<Rightarrow> nat option" where
  "spent_height v = Option.bind (jpath [''status'', ''block_height''] v) as_u64"

definition show_bool :: "bool \<Rightarrow> string" where
  "show_bool b = (if b then ''true'' else ''false'')"

text \<open>Verdict, detail and on-chain view of one channel, from its lookup.\<close>

definition reconcile_channel ::
    "btc \<Rightarrow> string \<Rightarrow> channel \<Rightarrow> (string + json) \<Rightarrow> string \<times> string \<times> json" where
  "reconcile_channel L base c lookup =
    (let dash = [CHR 0xE2, CHR 0x80, CHR 0x94] in
     case ch_funding c of
       None \<Rightarrow>
         (''NO_FUNDING_TX'', ''channel has no funding outpoint yet (still negotiating)'',
          jobj [(''checked'', JBool False)])
     | Some op \<Rightarrow>
         (let url = JStr (tx_link base (hash_str L (fst op))) in
          case lookup of
            Inl e \<Rightarrow>
              (''UNKNOWN'', ''explorer lookup failed: '' @ e, jobj [(''checked'', JBool False), (''explorer_url'', url)])
          | Inr v \<Rightarrow>
              if is_spent v then
                (''CLOSED_ONCHAIN'',
                 ''funding output SPENT on-chain'' @
                   (case spent_height v of Some h \<Rightarrow> '' at height '' @ show_nat h | None \<Rightarrow> []) @ '' '' @ dash @
                   '' channel closed; LDK still reports is_channel_ready='' @ show_bool (ch_ready c) @
                   '' (state divergence)'',
                 jobj [(''checked'', JBool True), (''funding_spent'', JBool True),
                   (''spending_txid'', jopt JStr (Option.bind (jget ''txid'' v) as_str)),
                   (''spent_block_height'', jopt jnat (spent_height v)), (''explorer_url'', url)])
              else
                (''OPEN_CONFIRMED'', ''funding output unspent on-chain '' @ dash @ '' channel genuinely open'',
                 jobj [(''checked'', JBool True), (''funding_spent'', JBool False), (''explorer_url'', url)])))"

definition channel_lookup ::
    "btc \<Rightarrow> 'cl http \<Rightarrow> (nat \<Rightarrow> bool) \<Rightarrow> 'cl \<Rightarrow> string \<Rightarrow> nat \<Rightarrow> channel \<Rightarrow> string + json" where
  "channel_lookup L H joined client base i c =
    (case ch_funding c of
       Some op \<Rightarrow>
         if joined i then explorer_outspend H [i] client base (hash_str L (fst op)) (snd op)
         else Inl ''lookup task failed''
     | None \<Rightarrow> Inl ''lookup task failed'')"

definition reconcile_json ::
    "'l ldk \<Rightarrow> btc \<Rightarrow> channel \<Rightarrow> string \<times> string \<times> json \<Rightarrow> json" where
  "reconcile_json K L c view =
    (case view of (verdict, detail, onchain) \<Rightarrow>
       jobj [(''channel_id'', JStr (ld_hex K (ch_id c))), (''counterparty'', JStr (ch_counterparty c)),
         (''capacity_sat'', jnat (ch_value_sat c)), (''is_outbound'', JBool (ch_outbound c)),
         (''funding_outpoint'', jopt (\<lambda>op. JStr (outpoint_text L op)) (ch_funding c)),
         (''ldk_view'', jobj [(''is_channel_ready'', JBool (ch_ready c)), (''is_usable'', JBool (ch_usable c)),
            (''short_channel_id'', jopt jnat (ch_scid c)), (''outbound_capacity_msat'', jnat (ch_outbound_msat c)),
            (''inbound_capacity_msat'', jnat (ch_inbound_msat c))]),
         (''onchain_view'', onchain), (''verdict'', JStr verdict), (''detail'', JStr detail)])"

text \<open>The counters of the loop: open, closed, unknown and without funding.\<close>

definition count_verdict :: "nat \<times> nat \<times> nat \<times> nat \<Rightarrow> string \<Rightarrow> nat \<times> nat \<times> nat \<times> nat" where
  "count_verdict counters verdict =
    (case counters of (n_open, n_closed, n_unknown, n_none) \<Rightarrow>
       if verdict = ''NO_FUNDING_TX'' then (n_open, n_closed, n_unknown, as_u32 (n_none + 1))
       else if verdict = ''UNKNOWN'' then (n_open, n_closed, as_u32 (n_unknown + 1), n_none)
       else if verdict = ''CLOSED_ONCHAIN'' then (n_open, as_u32 (n_closed + 1), n_unknown, n_none)
       else (as_u32 (n_open + 1), n_closed, n_unknown, n_none))"

definition rpc_reconcilechannels ::
    "('k, 'l, 'd, 'w, 'c, 'p, 'm, 'cl, 'n) rpc_env \<Rightarrow> (nat \<Rightarrow> bool) \<Rightarrow> ('k, 'l, 'd, 'w, 'c, 'n) node_state
      \<Rightarrow> json option \<Rightarrow> rpc_error + json" where
  "rpc_reconcilechannels E joined S params =
    (let H = re_http E; L = le_btc (re_ln E); K = le_ldk (re_ln E) in
     case ns_lightning S of
       None \<Rightarrow> Inl ln_disabled
     | Some mgr \<Rightarrow>
         res_bind (explorer_base H (ns_network S) params 0) (\<lambda>base.
         res_bind (explorer_client H base) (\<lambda>client.
         let channels = enumerate 0 (ld_channels K (lm_ldk mgr));
             views = map (\<lambda>(i, c). reconcile_channel L base c (channel_lookup L H joined client base i c)) channels
         in case foldl (\<lambda>cs view. count_verdict cs (fst view)) (0, 0, 0, 0) views of
              (n_open, n_closed, n_unknown, n_none) \<Rightarrow>
                Inr (jobj [(''explorer'', JStr base),
                  (''channels'', JArr (map2 (\<lambda>(i, c). reconcile_json K L c) channels views)),
                  (''summary'', jobj [(''total'', jnat (length channels)), (''open_confirmed'', jnat n_open),
                     (''closed_onchain'', jnat n_closed), (''no_funding_tx'', jnat n_none),
                     (''unknown'', jnat n_unknown)])]))))"

section \<open>Properties\<close>

definition verdicts :: "string \<Rightarrow> json list \<Rightarrow> nat" where
  "verdicts v rows = length (filter (\<lambda>row. jget ''verdict'' row = Some (JStr v)) rows)"

text \<open>The verdict of a channel, and when the explorer answered that its funding output is spent.\<close>

definition channel_verdict :: "channel \<Rightarrow> (string + json) \<Rightarrow> string" where
  "channel_verdict c lookup =
    (if ch_funding c = None then ''NO_FUNDING_TX''
     else case lookup of
       Inl e \<Rightarrow> ''UNKNOWN'' | Inr v \<Rightarrow> if is_spent v then ''CLOSED_ONCHAIN'' else ''OPEN_CONFIRMED'')"

lemma reconcile_verdict: "fst (reconcile_channel L base c lookup) = channel_verdict c lookup"
  by (simp add: reconcile_channel_def channel_verdict_def Let_def split: option.split sum.split)

lemma count_verdicts:
  assumes "n_open + length vs < 2 ^ 32" "n_closed + length vs < 2 ^ 32" "n_unknown + length vs < 2 ^ 32"
    "n_none + length vs < 2 ^ 32"
  shows "foldl count_verdict (n_open, n_closed, n_unknown, n_none) vs =
    (n_open + length (filter (\<lambda>v. v \<notin> {''NO_FUNDING_TX'', ''UNKNOWN'', ''CLOSED_ONCHAIN''}) vs),
     n_closed + length (filter (\<lambda>v. v = ''CLOSED_ONCHAIN'') vs),
     n_unknown + length (filter (\<lambda>v. v = ''UNKNOWN'') vs),
     n_none + length (filter (\<lambda>v. v = ''NO_FUNDING_TX'') vs))"
  using assms
proof (induction vs arbitrary: n_open n_closed n_unknown n_none)
  case (Cons v vs)
  have w: "as_u32 (Suc n) = Suc n" if "n + length (v # vs) < 2 ^ 32" for n
    using that by (simp add: as_u32_def)
  show ?case
    using Cons.prems Cons.IH by (auto simp: count_verdict_def w)
qed simp

lemma verdict_split:
  assumes "\<forall>v \<in> set vs. v \<in> {''NO_FUNDING_TX'', ''UNKNOWN'', ''CLOSED_ONCHAIN'', ''OPEN_CONFIRMED''}"
  shows "length (filter (\<lambda>v. v \<notin> {''NO_FUNDING_TX'', ''UNKNOWN'', ''CLOSED_ONCHAIN''}) vs) =
      length (filter (\<lambda>v. v = ''OPEN_CONFIRMED'') vs)"
    "length vs = length (filter (\<lambda>v. v = ''OPEN_CONFIRMED'') vs) + length (filter (\<lambda>v. v = ''CLOSED_ONCHAIN'') vs) +
      length (filter (\<lambda>v. v = ''UNKNOWN'') vs) + length (filter (\<lambda>v. v = ''NO_FUNDING_TX'') vs)"
  using assms by (induction vs) auto

lemma channel_verdict_cases:
  "channel_verdict c lookup \<in> {''NO_FUNDING_TX'', ''UNKNOWN'', ''CLOSED_ONCHAIN'', ''OPEN_CONFIRMED''}"
  by (simp add: channel_verdict_def split: sum.split)

definition summary :: "json \<Rightarrow> string \<Rightarrow> json option" where
  "summary r k = jpath [''summary'', k] r"

lemma verdict_rows:
  assumes l: "length views = length chans"
    and rows_def: "rows = map2 (\<lambda>(i, c). reconcile_json K L c) (enumerate 0 chans) views"
  shows "length rows = length chans"
    and "i < length chans \<Longrightarrow> jget ''verdict'' (rows ! i) = Some (JStr (fst (views ! i)))"
    and "verdicts v rows = length (filter (\<lambda>x. x = v) (map fst views))"
proof -
  show len: "length rows = length chans"
    by (simp add: rows_def l)
  have row: "jget ''verdict'' (rows ! i) = Some (JStr (fst (views ! i)))" if "i < length chans" for i
    using that by (cases "views ! i") (simp add: rows_def l nth_enumerate_eq reconcile_json_def)
  then show "i < length chans \<Longrightarrow> jget ''verdict'' (rows ! i) = Some (JStr (fst (views ! i)))" .
  have "map (jget ''verdict'') rows = map (\<lambda>x. Some (JStr x)) (map fst views)"
    by (rule nth_equalityI) (simp_all add: row len l)
  then have "length (filter (\<lambda>x. x = Some (JStr v)) (map (jget ''verdict'') rows)) =
      length (filter (\<lambda>x. x = Some (JStr v)) (map (\<lambda>x. Some (JStr x)) (map fst views)))"
    by simp
  then show "verdicts v rows = length (filter (\<lambda>x. x = v) (map fst views))"
    by (simp add: verdicts_def filter_map o_def)
qed

lemma verdict_summary:
  assumes "\<forall>v \<in> set vs. v \<in> {''NO_FUNDING_TX'', ''UNKNOWN'', ''CLOSED_ONCHAIN'', ''OPEN_CONFIRMED''}" "length vs < 2 ^ 32"
  shows "foldl count_verdict (0, 0, 0, 0) vs =
    (length (filter (\<lambda>v. v = ''OPEN_CONFIRMED'') vs), length (filter (\<lambda>v. v = ''CLOSED_ONCHAIN'') vs),
     length (filter (\<lambda>v. v = ''UNKNOWN'') vs), length (filter (\<lambda>v. v = ''NO_FUNDING_TX'') vs))"
  unfolding verdict_split(1) [OF assms(1), symmetric] using assms(2) by (subst count_verdicts) simp_all

text \<open>
  C?: A successful \<open>reconcilechannels\<close> has one row per channel. A row says that a channel is closed
  exactly when its funding transaction is known and the explorer's answer for it says that the
  output is spent. The counters of the summary are the numbers of rows with each verdict, and add
  up to the number of channels.
\<close>

theorem reconcile_counts:
  assumes S: "ns_lightning S = Some mgr"
    and chans: "chans = ld_channels (le_ldk (re_ln E)) (lm_ldk mgr)" "length chans < 2 ^ 32"
    and ok: "rpc_reconcilechannels E joined S params = Inr r"
  shows "\<exists>rows client base. jget ''channels'' r = Some (JArr rows) \<and> length rows = length chans \<and>
    explorer_base (re_http E) (ns_network S) params 0 = Inr base \<and> explorer_client (re_http E) base = Inr client \<and>
    (\<forall>i < length chans. jget ''verdict'' (rows ! i) = Some (JStr ''CLOSED_ONCHAIN'') \<longleftrightarrow>
      (\<exists>op v. ch_funding (chans ! i) = Some op \<and> joined i \<and> is_spent v \<and>
        explorer_outspend (re_http E) [i] client base (hash_str (le_btc (re_ln E)) (fst op)) (snd op) = Inr v)) \<and>
    summary r ''open_confirmed'' = Some (jnat (verdicts ''OPEN_CONFIRMED'' rows)) \<and>
    summary r ''closed_onchain'' = Some (jnat (verdicts ''CLOSED_ONCHAIN'' rows)) \<and>
    summary r ''unknown'' = Some (jnat (verdicts ''UNKNOWN'' rows)) \<and>
    summary r ''no_funding_tx'' = Some (jnat (verdicts ''NO_FUNDING_TX'' rows)) \<and>
    summary r ''total'' = Some (jnat (verdicts ''OPEN_CONFIRMED'' rows + verdicts ''CLOSED_ONCHAIN'' rows +
      verdicts ''UNKNOWN'' rows + verdicts ''NO_FUNDING_TX'' rows))"
proof -
  let ?H = "re_http E" and ?L = "le_btc (re_ln E)" and ?K = "le_ldk (re_ln E)"
  obtain base client where b: "explorer_base ?H (ns_network S) params 0 = Inr base" "explorer_client ?H base = Inr client"
    using ok S by (auto simp: rpc_reconcilechannels_def Let_def res_simps)
  define look where "look = (\<lambda>(i, c). channel_lookup ?L ?H joined client base i c)"
  define views where "views = map (\<lambda>(i, c). reconcile_channel ?L base c (look (i, c))) (enumerate 0 chans)"
  define rows where "rows = map2 (\<lambda>(i, c). reconcile_json ?K ?L c) (enumerate 0 chans) views"
  let ?vs = "map fst views"
  have l: "length views = length chans"
    by (simp add: views_def)
  note rows = verdict_rows [OF l rows_def]
  have v: "fst (views ! i) = channel_verdict (chans ! i) (look (i, chans ! i))" if "i < length chans" for i
    using that by (simp add: views_def nth_enumerate_eq reconcile_verdict)
  have four: "\<forall>v \<in> set ?vs. v \<in> {''NO_FUNDING_TX'', ''UNKNOWN'', ''CLOSED_ONCHAIN'', ''OPEN_CONFIRMED''}"
    unfolding views_def map_map using channel_verdict_cases by (fastforce simp: reconcile_verdict)
  have "foldl count_verdict (0, 0, 0, 0) ?vs = (verdicts ''OPEN_CONFIRMED'' rows,
      verdicts ''CLOSED_ONCHAIN'' rows, verdicts ''UNKNOWN'' rows, verdicts ''NO_FUNDING_TX'' rows)"
    unfolding rows(3) by (rule verdict_summary [OF four]) (simp only: length_map l chans(2))
  moreover have "length chans = verdicts ''OPEN_CONFIRMED'' rows + verdicts ''CLOSED_ONCHAIN'' rows +
      verdicts ''UNKNOWN'' rows + verdicts ''NO_FUNDING_TX'' rows"
    unfolding rows(3) using verdict_split(2) [OF four] by (simp only: length_map l)
  moreover have "foldl (\<lambda>cs view. count_verdict cs (fst view)) (0, 0, 0, 0) views = foldl count_verdict (0, 0, 0, 0) ?vs"
    by (simp add: foldl_map)
  ultimately have r: "r = jobj [(''explorer'', JStr base), (''channels'', JArr rows),
      (''summary'', jobj [(''total'', jnat (verdicts ''OPEN_CONFIRMED'' rows + verdicts ''CLOSED_ONCHAIN'' rows +
          verdicts ''UNKNOWN'' rows + verdicts ''NO_FUNDING_TX'' rows)),
         (''open_confirmed'', jnat (verdicts ''OPEN_CONFIRMED'' rows)),
         (''closed_onchain'', jnat (verdicts ''CLOSED_ONCHAIN'' rows)),
         (''no_funding_tx'', jnat (verdicts ''NO_FUNDING_TX'' rows)),
         (''unknown'', jnat (verdicts ''UNKNOWN'' rows))])]"
    using ok S unfolding rpc_reconcilechannels_def rows_def views_def look_def chans(1)
    by (simp add: b res_simps Let_def)
  have "fst (views ! i) = ''CLOSED_ONCHAIN'' \<longleftrightarrow>
      (\<exists>op v. ch_funding (chans ! i) = Some op \<and> joined i \<and> is_spent v \<and>
        explorer_outspend ?H [i] client base (hash_str ?L (fst op)) (snd op) = Inr v)" if "i < length chans" for i
    unfolding v [OF that]
    by (auto simp: channel_verdict_def look_def channel_lookup_def split: sum.split option.split if_splits)
  then show ?thesis
    by (intro exI [of _ rows] exI [of _ client] exI [of _ base]) (simp add: rows(1,2) b summary_def r)
qed

section \<open>Witness\<close>

text \<open>A library with one channel whose funding output the explorer reports as spent.\<close>

definition sample_channel :: channel where
  "sample_channel =
    \<lparr>ch_id = replicate 32 1, ch_counterparty = ''03'', ch_value_sat = 5000, ch_outbound_msat = 4000000,
     ch_inbound_msat = 0, ch_usable = True, ch_outbound = True, ch_ready = True, ch_scid = None,
     ch_funding = Some (8, 0)\<rparr>"

definition sample_channel_ldk :: "ldk_event list ldk" where
  "sample_channel_ldk =
    sample_ldk\<lparr>ld_channels := \<lambda>l. [sample_channel], ld_monitors := \<lambda>l. [replicate 32 1],
      ld_destination := \<lambda>l. Some [1], ld_spend := \<lambda>l ds s r. Some (sample_tx 1 [(9, 0)] [50])\<rparr>"

definition sample_explorer_env ::
    "json \<Rightarrow> (hash list, ldk_event list, sample_db, nat, bool, nat, string,
      (string \<times> ip_addr list) option, event_builder list) rpc_env" where
  "sample_explorer_env v = (sample_rpc_env v)\<lparr>re_ln := sample_ln_env\<lparr>le_ldk := sample_channel_ldk\<rparr>\<rparr>"

definition sample_params :: "json option" where
  "sample_params = Some (JArr [JStr ''x''])"

lemma sample_explorer:
  "explorer_base (re_http (sample_explorer_env v)) net (Some (JArr [JStr ''x''])) 0 = Inr ''http://h''"
  "explorer_client (re_http (sample_explorer_env v)) b = Inr (Some (''h'', [V4 0x08080808]))"
proof -
  have p: "parse_ip (trim_brackets ''h'') = None"
    by (simp add: ip_eval trim_brackets_def)
  then show "explorer_base (re_http (sample_explorer_env v)) net (Some (JArr [JStr ''x''])) 0 = Inr ''http://h''"
    by (simp add: explorer_base_def get_param_str_def get_param_def list_get_def sample_explorer_env_def
        sample_rpc_env_def sample_http_def validate_explorer_base_def sample_url_def trim_end_def)
  from p show "explorer_client (re_http (sample_explorer_env v)) b = Inr (Some (''h'', [V4 0x08080808]))"
    by (simp add: explorer_client_def sample_explorer_env_def sample_rpc_env_def sample_http_def sample_url_def)
qed

theorem reconcile_counts_witness:
  "\<exists>r rows. rpc_reconcilechannels (sample_explorer_env (JObj [(''spent'', JBool True)])) (\<lambda>i. True)
      (sample_node (Some sample_manager)) sample_params = Inr r \<and>
    jget ''channels'' r = Some (JArr rows) \<and> length rows = 1 \<and>
    jget ''verdict'' (rows ! 0) = Some (JStr ''CLOSED_ONCHAIN'')"
proof -
  let ?E = "sample_explorer_env (JObj [(''spent'', JBool True)])"
  let ?S = "sample_node (Some sample_manager)"
  have p: "sample_params = Some (JArr [JStr ''x''])"
    by (simp add: sample_params_def)
  have "\<exists>r. rpc_reconcilechannels ?E (\<lambda>i. True) ?S sample_params = Inr r"
    unfolding rpc_reconcilechannels_def Let_def p
    by (simp add: sample_explorer sample_node_def res_simps case_prod_unfold)
  then obtain r where r: "rpc_reconcilechannels ?E (\<lambda>i. True) ?S sample_params = Inr r" ..
  have c: "[sample_channel] = ld_channels (le_ldk (re_ln ?E)) (lm_ldk sample_manager)"
    by (simp add: sample_explorer_env_def sample_channel_ldk_def)
  have S: "ns_lightning ?S = Some sample_manager"
    by (simp add: sample_node_def)
  have o: "\<exists>op v. ch_funding ([sample_channel] ! 0) = Some op \<and> True \<and> is_spent v \<and>
      explorer_outspend (re_http ?E) [0] (Some (''h'', [V4 0x08080808])) b (hash_str (le_btc (re_ln ?E)) (fst op)) (snd op) = Inr v" for b
    by (simp add: sample_channel_def is_spent_def explorer_outspend_def sample_explorer_env_def
        sample_rpc_env_def sample_http_def Let_def)
  show ?thesis
    using reconcile_counts [OF S c _ r] r o by (auto simp: sample_explorer)
qed

end
