(* ===== verification/Rpc_Sweep.thy ===== *)
theory Rpc_Sweep
  imports Rpc_Lightning
begin

text \<open>
  \<open>ln_sweep_to_address\<close> of \<open>wolfe-rpc/src/handlers.rs\<close>: one transaction that spends the outputs at
  the key manager's own address and what the closed channels left to claim. Requests to the explorer
  are told apart by the list \<open>[i]\<close> for monitor \<open>i\<close>, with \<open>0\<close> appended for its transaction and
  \<open>1, j\<close> for its \<open>j\<close>-th output; the empty list is the request for the outputs of the address.
\<close>

section \<open>What is collected\<close>

record sweep_acc =
  sw_descriptors :: "descriptor list"
  sw_skipped :: nat
  sw_total :: nat
  sw_utxos :: "json list"
  sw_closed :: "json list"

definition member_str :: "string \<Rightarrow> json \<Rightarrow> string option" where
  "member_str k v = Option.bind (jget k v) as_str"

definition member_u64 :: "string \<Rightarrow> json \<Rightarrow> nat option" where
  "member_u64 k v = Option.bind (jget k v) as_u64"

definition is_confirmed :: "json \<Rightarrow> bool" where
  "is_confirmed u \<longleftrightarrow> Option.bind (jpath [''status'', ''confirmed''] u) as_bool = Some True"

section \<open>Outputs at the destination of the key manager\<close>

definition missing :: "string \<Rightarrow> rpc_error" where
  "missing what = RpcInternal (''utxo missing '' @ what)"

definition sweep_utxo :: "rpc_codec \<Rightarrow> string \<Rightarrow> bool \<Rightarrow> sweep_acc \<Rightarrow> json \<Rightarrow> rpc_error + sweep_acc" where
  "sweep_utxo C src include_unconfirmed acc u =
    (case (member_str ''txid'' u, member_u64 ''vout'' u, member_u64 ''value'' u) of
       (None, _, _) \<Rightarrow> Inl (missing ''txid'')
     | (Some k, None, _) \<Rightarrow> Inl (missing ''vout'')
     | (Some k, Some i, v) \<Rightarrow>
         if 2 ^ 16 \<le> i
         then Inl (RpcInternal (''utxo '' @ k @ '' has out-of-range vout '' @ show_nat i))
         else
           (case v of
              None \<Rightarrow> Inl (missing ''value'')
            | Some val \<Rightarrow>
                if \<not> is_confirmed u \<and> \<not> include_unconfirmed then
                  Inr (acc\<lparr>sw_skipped := as_u32 (sw_skipped acc + 1),
                    sw_utxos := sw_utxos acc @ [jobj [(''txid'', JStr k), (''vout'', jnat i),
                      (''value_sat'', jnat val), (''confirmed'', JBool False), (''included'', JBool False),
                      (''kind'', JStr ''static_output''),
                      (''note'', JStr ''skipped (pass include_unconfirmed=true to spend as CPFP)'')]]\<rparr>)
                else
                  (case rc_txid C k of
                     Inl e \<Rightarrow> Inl (RpcInternal (''bad txid '' @ k @ '': '' @ e))
                   | Inr h \<Rightarrow>
                       Inr (acc\<lparr>sw_descriptors := sw_descriptors acc @
                           [StaticOutput (h, i) \<lparr>tx_value = val, script_pubkey = rc_script_of C src\<rparr>],
                         sw_total := w64 (sw_total acc + val),
                         sw_utxos := sw_utxos acc @ [jobj [(''txid'', JStr k), (''vout'', jnat i),
                           (''value_sat'', jnat val), (''confirmed'', JBool (is_confirmed u)),
                           (''block_height'', jopt jnat (spent_height u)), (''included'', JBool True),
                           (''kind'', JStr ''static_output'')]]\<rparr>))))"

fun sweep_utxos :: "rpc_codec \<Rightarrow> string \<Rightarrow> bool \<Rightarrow> json list \<Rightarrow> sweep_acc \<Rightarrow> rpc_error + sweep_acc" where
  "sweep_utxos C src include_unconfirmed [] acc = Inr acc"
| "sweep_utxos C src include_unconfirmed (u # us) acc =
    res_bind (sweep_utxo C src include_unconfirmed acc u) (sweep_utxos C src include_unconfirmed us)"

section \<open>Outputs of closed channels\<close>

fun descriptor_parts :: "descriptor \<Rightarrow> string \<times> nat \<times> ln_outpoint" where
  "descriptor_parts (StaticOutput op out) = (''static_output'', tx_value out, op)"
| "descriptor_parts (DelayedPaymentOutput op out k) = (''delayed_payment'', tx_value out, op)"
| "descriptor_parts (StaticPaymentOutput op out k) = (''static_payment'', tx_value out, op)"

definition spendable_outpoint :: "descriptor \<Rightarrow> ln_outpoint" where
  "spendable_outpoint d = snd (snd (descriptor_parts d))"

text \<open>Where the explorer does not answer, a descriptor counts as spent.\<close>

definition unspent :: "btc \<Rightarrow> 'cl http \<Rightarrow> 'cl \<Rightarrow> string \<Rightarrow> nat \<Rightarrow> nat \<times> descriptor \<Rightarrow> bool" where
  "unspent L H client base i jd =
    (case spendable_outpoint (snd jd) of (k, n) \<Rightarrow>
       (case explorer_outspend H [i, 1, fst jd] client base (hash_str L k) n of
          Inl e \<Rightarrow> False | Inr v \<Rightarrow> \<not> is_spent v))"

text \<open>The transaction that spent the funding output, with its height, where it is confirmed.\<close>

definition closing_tx ::
    "btc \<Rightarrow> rpc_codec \<Rightarrow> 'cl http \<Rightarrow> 'cl \<Rightarrow> string \<Rightarrow> nat \<Rightarrow> outpoint \<Rightarrow> (string \<times> nat \<times> transaction) option" where
  "closing_tx L C H client base i funding =
    (case explorer_outspend H [i] client base (hash_str L (txid funding)) (vout funding mod 2 ^ 16) of
       Inl e \<Rightarrow> None
     | Inr v \<Rightarrow>
         if \<not> is_spent v then None
         else
           Option.bind (member_str ''txid'' v) (\<lambda>k.
           Option.bind (spent_height v) (\<lambda>h.
           case ht_get H [i, 0] client (base @ ''/api/tx/'' @ k @ ''/hex'') of
             Inl e \<Rightarrow> None
           | Inr resp \<Rightarrow>
               if \<not> re_success resp then None
               else
                 (case re_text resp of
                    Inl e \<Rightarrow> None
                  | Inr body \<Rightarrow>
                      Option.bind (rc_unhex C (trim body)) (\<lambda>bs.
                      case rc_de_tx C bs of Inl e \<Rightarrow> None | Inr tx \<Rightarrow> Some (k, as_u32 h, tx))))))"

definition claim_row :: "'l ldk \<Rightarrow> btc \<Rightarrow> nat \<Rightarrow> bytes \<Rightarrow> descriptor \<Rightarrow> json" where
  "claim_row K L close_height cid d =
    (case descriptor_parts d of (kind, v, k, n) \<Rightarrow>
       jobj [(''txid'', JStr (hash_str L k)), (''vout'', jnat n), (''value_sat'', jnat v),
         (''confirmed'', JBool True), (''block_height'', jnat close_height), (''included'', JBool True),
         (''kind'', JStr kind), (''channel_id'', JStr (ld_hex K cid))])"

definition descriptor_value :: "descriptor \<Rightarrow> nat" where
  "descriptor_value d = fst (snd (descriptor_parts d))"

definition sweep_monitor ::
    "('k, 'l, 'd, 'w, 'c, 'p, 'm, 'cl, 'n) rpc_env \<Rightarrow> ('l, 'd, 'w, 'c) ln_manager \<Rightarrow> 'cl \<Rightarrow> string
      \<Rightarrow> sweep_acc \<Rightarrow> nat \<times> bytes \<Rightarrow> sweep_acc" where
  "sweep_monitor E mgr client base acc m =
    (let K = le_ldk (re_ln E); L = le_btc (re_ln E); H = re_http E; i = fst m; cid = snd m in
     case monitor_funding_outpoint K mgr cid of
       None \<Rightarrow> acc
     | Some funding \<Rightarrow>
         (case closing_tx L (re_codec E) H client base i funding of
            None \<Rightarrow> acc
          | Some (k, h, tx) \<Rightarrow>
              (let raw = enumerate 0 (monitor_spendable_outputs K mgr cid tx h);
                   ds = map snd (filter (unspent L H client base i) raw);
                   spent = as_u32 (length (filter (\<lambda>d. \<not> unspent L H client base i d) raw));
                   v = foldl (\<lambda>v d. w64 (v + descriptor_value d)) 0 ds
               in acc\<lparr>sw_descriptors := sw_descriptors acc @ ds,
                    sw_total := w64 (sw_total acc + v),
                    sw_utxos := sw_utxos acc @ map (claim_row K L h cid) ds,
                    sw_closed := sw_closed acc @ [jobj [(''channel_id'', JStr (ld_hex K cid)),
                      (''funding_outpoint'', JStr (hash_str L (txid funding) @ '':'' @ show_nat (vout funding))),
                      (''close_txid'', JStr k), (''close_block_height'', jnat h),
                      (''descriptors_recovered'', jnat (length ds)),
                      (''descriptors_skipped_already_spent'', jnat spent), (''total_value_sat'', jnat v)]]\<rparr>)))"

section \<open>The call\<close>

text \<open>The fee rate in satoshi per thousand weight units: at least the relay minimum.\<close>

definition sweep_rate :: "('l, 'd, 'w, 'c, 'p, 'm) ln_env \<Rightarrow> mempool \<Rightarrow> json option \<Rightarrow> nat" where
  "sweep_rate LE pool params =
    (case get_param_i64 params 1 of
       Some v \<Rightarrow> max (min (int_as_u32 (max v 1) * 250) (2 ^ 32 - 1)) 253
     | None \<Rightarrow> sweep_fee_rate_sat_per_kw LE pool)"

definition fetch_utxos :: "'cl http \<Rightarrow> 'cl \<Rightarrow> string \<Rightarrow> string \<Rightarrow> rpc_error + json list" where
  "fetch_utxos H client base src =
    (let url = base @ ''/api/address/'' @ src @ ''/utxo'' in
     case ht_get H [] client url of
       Inl e \<Rightarrow> Inl (RpcInternal (''explorer fetch: '' @ e))
     | Inr resp \<Rightarrow>
         if \<not> re_success resp
         then Inl (RpcInternal (''explorer returned '' @ re_status resp @ '' for '' @ url))
         else
           (case re_json resp of
              Inl e \<Rightarrow> Inl (RpcInternal (''explorer parse: '' @ e))
            | Inr (JArr us) \<Rightarrow> Inr us
            | Inr v \<Rightarrow> Inl (RpcInternal (''explorer parse: '' @ ht_not_array H v))))"

text \<open>
  The checks in their order, and what they lead to: the explorer's base URL, the own address,
  the destination with its script, and the inputs.
\<close>

definition sweep_inputs ::
    "('k, 'l, 'd, 'w, 'c, 'p, 'm, 'cl, 'n) rpc_env \<Rightarrow> network \<Rightarrow> ('l, 'd, 'w, 'c) ln_manager \<Rightarrow> json option
      \<Rightarrow> rpc_error + string \<times> string \<times> (string \<times> bytes) \<times> sweep_acc" where
  "sweep_inputs E net mgr params =
    (let K = le_ldk (re_ln E); C = re_codec E; H = re_http E in
     case get_param_str params 0 of
       None \<Rightarrow> Inl (InvalidParams ''destination address required'')
     | Some dest_str \<Rightarrow>
         res_bind (explorer_base H net params 2) (\<lambda>base.
         let include_unconfirmed = (get_param_bool params 3 = Some True) in
         case keys_destination_address K mgr of
           Inl e \<Rightarrow> Inl (RpcLightning (''destination: '' @ show_lightning_error e))
         | Inr src \<Rightarrow>
             (case rc_address C dest_str of
                Inl e \<Rightarrow> Inl (InvalidParams (''bad address: '' @ e))
              | Inr parsed \<Rightarrow>
                  (case rc_require_network C parsed (lm_network mgr) of
                     Inl e \<Rightarrow> Inl (InvalidParams (''network mismatch: '' @ e))
                   | Inr dest \<Rightarrow>
                       res_bind (explorer_client H base) (\<lambda>client.
                       res_bind (fetch_utxos H client base src) (\<lambda>us.
                       res_bind (sweep_utxos C src include_unconfirmed us
                           \<lparr>sw_descriptors = [], sw_skipped = 0, sw_total = 0, sw_utxos = [], sw_closed = []\<rparr>) (\<lambda>acc.
                       Inr (base, src, dest,
                         foldl (sweep_monitor E mgr client base) acc
                           (enumerate 0 (ld_monitors K (lm_ldk mgr)))))))))))"

definition included :: "json \<Rightarrow> bool" where
  "included v \<longleftrightarrow> Option.bind (jget ''included'' v) as_bool = Some True"

definition rpc_ln_sweep_to_address ::
    "('k, 'l, 'd, 'w, 'c, 'p, 'm, 'cl, 'n) rpc_env \<Rightarrow> ('k, 'l, 'd, 'w, 'c, 'n) node_state \<Rightarrow> json option
      \<Rightarrow> ('k, 'l, 'd, 'w, 'c, 'n) rpc_step" where
  "rpc_ln_sweep_to_address E S params =
    (case ns_lightning S of
       None \<Rightarrow> (S, Inl ln_disabled)
     | Some mgr \<Rightarrow>
         (case sweep_inputs E (ns_network S) mgr params of
            Inl e \<Rightarrow> (S, Inl e)
          | Inr (base, src, (dest, script), acc) \<Rightarrow>
              if sw_descriptors acc = [] then
                (S, Inr (jobj [(''txid'', JNull), (''broadcast'', JBool False), (''from_address'', JStr src),
                   (''to_address'', JStr dest), (''utxos'', JArr (sw_utxos acc)),
                   (''closed_channels'', JArr (sw_closed acc)), (''skipped_unconfirmed'', jnat (sw_skipped acc)),
                   (''detail'', JStr ''no eligible inputs found'')]))
              else
                (let L = le_btc (re_ln E); rate = sweep_rate (re_ln E) (ns_mempool S) params in
                 case sweep_descriptors (re_ln E) mgr (sw_descriptors acc) script rate of
                   (mgr, Inl e) \<Rightarrow>
                     (S\<lparr>ns_lightning := Some mgr\<rparr>, Inl (RpcLightning (''sweep: '' @ show_lightning_error e)))
                 | (mgr, Inr k) \<Rightarrow>
                     (S\<lparr>ns_lightning := Some mgr\<rparr>,
                      Inr (jobj [(''txid'', JStr (hash_str L k)), (''broadcast'', JBool True),
                        (''from_address'', JStr src), (''to_address'', JStr dest),
                        (''fee_rate_sat_per_kw'', jnat rate), (''fee_rate_sat_per_vb'', jnat (rate div 250)),
                        (''total_input_sat'', jnat (sw_total acc)),
                        (''input_count'', jnat (length (filter included (sw_utxos acc)))),
                        (''skipped_unconfirmed'', jnat (sw_skipped acc)), (''utxos'', JArr (sw_utxos acc)),
                        (''closed_channels'', JArr (sw_closed acc)),
                        (''explorer_url'', JStr (tx_link base (hash_str L k)))])))))"

section \<open>What the collected inputs are\<close>

text \<open>The descriptor that an output at the own address stands for.\<close>

definition utxo_input :: "rpc_codec \<Rightarrow> string \<Rightarrow> json \<Rightarrow> descriptor \<Rightarrow> bool" where
  "utxo_input C src u d \<longleftrightarrow>
    (\<exists>k i val h. member_str ''txid'' u = Some k \<and> member_u64 ''vout'' u = Some i \<and> i < 2 ^ 16 \<and>
      member_u64 ''value'' u = Some val \<and> rc_txid C k = Inr h \<and>
      d = StaticOutput (h, i) \<lparr>tx_value = val, script_pubkey = rc_script_of C src\<rparr>)"

definition from_utxos :: "rpc_codec \<Rightarrow> string \<Rightarrow> bool \<Rightarrow> json list \<Rightarrow> descriptor \<Rightarrow> bool" where
  "from_utxos C src b us d \<longleftrightarrow> (\<exists>u \<in> set us. utxo_input C src u d \<and> (is_confirmed u \<or> b))"

definition from_monitors ::
    "('k, 'l, 'd, 'w, 'c, 'p, 'm, 'cl, 'n) rpc_env \<Rightarrow> ('l, 'd, 'w, 'c) ln_manager \<Rightarrow> 'cl \<Rightarrow> string \<Rightarrow> nat \<times> bytes
      \<Rightarrow> descriptor \<Rightarrow> bool" where
  "from_monitors E mgr client base m d \<longleftrightarrow>
    (\<exists>funding k h tx j. monitor_funding_outpoint (le_ldk (re_ln E)) mgr (snd m) = Some funding \<and>
      closing_tx (le_btc (re_ln E)) (re_codec E) (re_http E) client base (fst m) funding = Some (k, h, tx) \<and>
      d \<in> set (monitor_spendable_outputs (le_ldk (re_ln E)) mgr (snd m) tx h) \<and>
      unspent (le_btc (re_ln E)) (re_http E) client base (fst m) (j, d))"

text \<open>The running total and the rows that are included agree with the descriptors.\<close>

definition acc_ok :: "sweep_acc \<Rightarrow> bool" where
  "acc_ok acc \<longleftrightarrow> sw_total acc = w64 (sum_list (map descriptor_value (sw_descriptors acc))) \<and>
    length (filter included (sw_utxos acc)) = length (sw_descriptors acc)"

lemma sweep_utxo_Inr:
  assumes "sweep_utxo C src b acc u = Inr acc'" "acc_ok acc"
  shows "acc_ok acc' \<and>
    (\<forall>d \<in> set (sw_descriptors acc'). d \<in> set (sw_descriptors acc) \<or> utxo_input C src u d \<and> (is_confirmed u \<or> b))"
  using assms unfolding sweep_utxo_def
  by (auto split: option.splits sum.splits if_splits
      simp: acc_ok_def included_def utxo_input_def descriptor_value_def w64_def mod_add_right_eq mod_add_left_eq)

lemma sweep_utxos_Inr:
  assumes "sweep_utxos C src b us acc = Inr acc'" "acc_ok acc"
  shows "acc_ok acc' \<and> (\<forall>d \<in> set (sw_descriptors acc'). d \<in> set (sw_descriptors acc) \<or> from_utxos C src b us d)"
  using assms
proof (induction us arbitrary: acc)
  case (Cons u us)
  then obtain acc1 where a: "sweep_utxo C src b acc u = Inr acc1" "sweep_utxos C src b us acc1 = Inr acc'"
    by (auto simp: res_simps)
  show ?case
    using Cons.IH [OF a(2)] sweep_utxo_Inr [OF a(1) Cons.prems(2)] by (auto simp: from_utxos_def)
qed simp

lemma sum_values: "foldl (\<lambda>v d. w64 (v + descriptor_value d)) v ds = (if ds = [] then v else w64 (v + sum_list (map descriptor_value ds)))"
  by (induction ds arbitrary: v) (auto simp: w64_def mod_simps add.assoc)

lemma included_claim: "included (claim_row K L h cid d)"
  by (simp add: included_def claim_row_def split: prod.split)

lemma unspent_index: "d \<in> set (map snd (filter (unspent L H client base i) (enumerate 0 xs))) \<Longrightarrow>
    d \<in> set xs \<and> (\<exists>j. unspent L H client base i (j, d))"
  by (auto simp: in_set_enumerate_eq)

lemma sweep_monitor_facts:
  assumes "acc_ok acc"
  shows "acc_ok (sweep_monitor E mgr client base acc m) \<and>
    (\<forall>d \<in> set (sw_descriptors (sweep_monitor E mgr client base acc m)).
      d \<in> set (sw_descriptors acc) \<or> from_monitors E mgr client base m d)"
proof (cases "monitor_funding_outpoint (le_ldk (re_ln E)) mgr (snd m)")
  case None
  then show ?thesis
    using assms by (simp add: sweep_monitor_def Let_def)
next
  case (Some funding)
  let ?L = "le_btc (re_ln E)" and ?H = "re_http E" and ?K = "le_ldk (re_ln E)"
  show ?thesis
  proof (cases "closing_tx ?L (re_codec E) ?H client base (fst m) funding")
    case None
    then show ?thesis
      using assms Some by (simp add: sweep_monitor_def Let_def)
  next
    case S2: (Some x)
    obtain k h tx where x: "x = (k, h, tx)"
      by (cases x)
    define ds where "ds = map snd (filter (unspent ?L ?H client base (fst m))
      (enumerate 0 (monitor_spendable_outputs ?K mgr (snd m) tx h)))"
    have ds: "\<forall>d \<in> set ds. from_monitors E mgr client base m d"
      using Some S2 x unspent_index unfolding ds_def from_monitors_def by fast
    let ?acc = "sweep_monitor E mgr client base acc m"
    have eqs: "sw_descriptors ?acc = sw_descriptors acc @ ds"
      "sw_total ?acc = w64 (sw_total acc + foldl (\<lambda>v d. w64 (v + descriptor_value d)) 0 ds)"
      "sw_utxos ?acc = sw_utxos acc @ map (claim_row ?K ?L h (snd m)) ds"
      unfolding sweep_monitor_def Let_def ds_def by (simp_all add: Some S2 x)
    have "acc_ok ?acc"
      using assms unfolding acc_ok_def eqs sum_values
      by (simp add: filter_map o_def included_claim w64_def mod_simps)
    with ds show ?thesis
      unfolding eqs by auto
  qed
qed

lemma sweep_monitors_facts:
  assumes "acc_ok acc"
  shows "acc_ok (foldl (sweep_monitor E mgr client base) acc ms) \<and>
    (\<forall>d \<in> set (sw_descriptors (foldl (sweep_monitor E mgr client base) acc ms)).
      d \<in> set (sw_descriptors acc) \<or> (\<exists>m \<in> set ms. from_monitors E mgr client base m d))"
  using assms
proof (induction ms arbitrary: acc)
  case (Cons m ms)
  then show ?case
    using sweep_monitor_facts [OF Cons.prems, of E mgr client base m] by fastforce
qed simp

lemma sweep_inputs_facts:
  assumes "sweep_inputs E net mgr params = Inr (base, src, dest, acc)"
  obtains client us where "explorer_base (re_http E) net params 2 = Inr base"
    "explorer_client (re_http E) base = Inr client" "fetch_utxos (re_http E) client base src = Inr us"
    "keys_destination_address (le_ldk (re_ln E)) mgr = Inr src" "acc_ok acc"
    "\<exists>dest_str parsed. get_param_str params 0 = Some dest_str \<and> rc_address (re_codec E) dest_str = Inr parsed \<and>
      rc_require_network (re_codec E) parsed (lm_network mgr) = Inr dest"
    "\<forall>d \<in> set (sw_descriptors acc). from_utxos (re_codec E) src (get_param_bool params 3 = Some True) us d \<or>
      (\<exists>m \<in> set (enumerate 0 (ld_monitors (le_ldk (re_ln E)) (lm_ldk mgr))). from_monitors E mgr client base m d)"
proof -
  let ?z = "\<lparr>sw_descriptors = [], sw_skipped = 0, sw_total = 0, sw_utxos = [], sw_closed = []\<rparr>"
  let ?ms = "enumerate 0 (ld_monitors (le_ldk (re_ln E)) (lm_ldk mgr))"
  have z: "acc_ok ?z"
    by (simp add: acc_ok_def w64_def)
  obtain s where s: "get_param_str params 0 = Some s"
    using assms by (cases "get_param_str params 0") (simp_all add: sweep_inputs_def Let_def)
  have b: "explorer_base (re_http E) net params 2 = Inr base"
    using assms by (cases "explorer_base (re_http E) net params 2")
      (auto simp: sweep_inputs_def Let_def s res_simps split: sum.splits)
  have k: "keys_destination_address (le_ldk (re_ln E)) mgr = Inr src"
    using assms by (cases "keys_destination_address (le_ldk (re_ln E)) mgr")
      (auto simp: sweep_inputs_def Let_def s b res_simps split: sum.splits)
  obtain parsed where p: "rc_address (re_codec E) s = Inr parsed"
    using assms by (cases "rc_address (re_codec E) s") (auto simp: sweep_inputs_def Let_def s b k res_simps)
  have n: "rc_require_network (re_codec E) parsed (lm_network mgr) = Inr dest"
    using assms by (cases "rc_require_network (re_codec E) parsed (lm_network mgr)")
      (auto simp: sweep_inputs_def Let_def s b k p res_simps)
  obtain client us acc1 where f: "explorer_client (re_http E) base = Inr client"
    "fetch_utxos (re_http E) client base src = Inr us"
    "sweep_utxos (re_codec E) src (get_param_bool params 3 = Some True) us ?z = Inr acc1"
    "acc = foldl (sweep_monitor E mgr client base) acc1 ?ms"
    using assms by (auto simp: sweep_inputs_def Let_def s b k p n res_simps)
  note a1 = sweep_utxos_Inr [OF f(3) z]
  have a2: "acc_ok acc \<and> (\<forall>d \<in> set (sw_descriptors acc).
      d \<in> set (sw_descriptors acc1) \<or> (\<exists>m \<in> set ?ms. from_monitors E mgr client base m d))"
    unfolding f(4) by (rule sweep_monitors_facts) (rule a1 [THEN conjunct1])
  show thesis
    by (rule that [OF b f(1,2) k]) (use a1 a2 s p n in auto)
qed

section \<open>Properties\<close>

lemma sweep_rate_bounds: "253 \<le> sweep_rate LE pool params \<and> sweep_rate LE pool params < 2 ^ 32"
  using estimate_bounds [where it = "le_order LE" and m = pool and target = OutputSpendingFee]
  by (simp add: sweep_rate_def sweep_fee_rate_sat_per_kw_def sweep_fee_rate_def min_less_iff_disj split: option.split)

text \<open>
  C24: A sweep spends only outputs at the node's own address that the explorer reports as confirmed (or
  unconfirmed ones that the caller asked for), and outputs of closed channels that it reports as
  unspent; the destination is an address of the node's network.
\<close>

theorem sweep_inputs_eligible:
  assumes "sweep_inputs E net mgr params = Inr (base, src, dest, acc)" "d \<in> set (sw_descriptors acc)"
  shows "\<exists>client us dest_str parsed. keys_destination_address (le_ldk (re_ln E)) mgr = Inr src \<and>
    explorer_client (re_http E) base = Inr client \<and> fetch_utxos (re_http E) client base src = Inr us \<and>
    get_param_str params 0 = Some dest_str \<and> rc_address (re_codec E) dest_str = Inr parsed \<and>
    rc_require_network (re_codec E) parsed (lm_network mgr) = Inr dest \<and>
    (from_utxos (re_codec E) src (get_param_bool params 3 = Some True) us d \<or>
     (\<exists>m \<in> set (enumerate 0 (ld_monitors (le_ldk (re_ln E)) (lm_ldk mgr))). from_monitors E mgr client base m d))"
proof -
  obtain client us where f: "explorer_client (re_http E) base = Inr client" "fetch_utxos (re_http E) client base src = Inr us"
    "keys_destination_address (le_ldk (re_ln E)) mgr = Inr src"
    "\<exists>dest_str parsed. get_param_str params 0 = Some dest_str \<and> rc_address (re_codec E) dest_str = Inr parsed \<and>
      rc_require_network (re_codec E) parsed (lm_network mgr) = Inr dest"
    "\<forall>d \<in> set (sw_descriptors acc). from_utxos (re_codec E) src (get_param_bool params 3 = Some True) us d \<or>
      (\<exists>m \<in> set (enumerate 0 (ld_monitors (le_ldk (re_ln E)) (lm_ldk mgr))). from_monitors E mgr client base m d)"
    using sweep_inputs_facts [OF assms(1)] by metis
  show ?thesis
    using f(1-4) f(5) [rule_format, OF assms(2)] by blast
qed

text \<open>
  C?: A call of \<open>ln_sweep_to_address\<close> either leaves the node as it was, and then reports an error or
  that nothing was broadcast; or it queues exactly one transaction, which the library built from the
  collected inputs for the script of the destination at a rate of at least 253 satoshi per thousand
  weight units, and reports its identifier, the number of the inputs and the sum of their values.
\<close>

theorem sweep_broadcast:
  assumes S: "ns_lightning S = Some mgr" and call: "rpc_ln_sweep_to_address E S params = (S', res)"
    and rate: "rate = sweep_rate (re_ln E) (ns_mempool S) params"
  shows "if S' = S then (case res of Inl e \<Rightarrow> True | Inr r \<Rightarrow> jget ''broadcast'' r = Some (JBool False))
    else \<exists>base src dest script acc tx r.
      sweep_inputs E (ns_network S) mgr params = Inr (base, src, (dest, script), acc) \<and>
      ld_spend (le_ldk (re_ln E)) (lm_ldk mgr) (sw_descriptors acc) script rate = Some tx \<and>
      253 \<le> rate \<and> rate < 2 ^ 32 \<and>
      S' = S\<lparr>ns_lightning := Some (mgr\<lparr>lm_world := broadcast_transactions [tx] (lm_world mgr)\<rparr>)\<rparr> \<and>
      res = Inr r \<and>
      jget ''txid'' r = Some (JStr (hash_str (le_btc (re_ln E)) (compute_txid (le_btc (re_ln E)) tx))) \<and>
      jget ''input_count'' r = Some (jnat (length (sw_descriptors acc))) \<and>
      jget ''total_input_sat'' r = Some (jnat (w64 (sum_list (map descriptor_value (sw_descriptors acc)))))"
proof (cases "sweep_inputs E (ns_network S) mgr params")
  case (Inl e)
  then show ?thesis
    using S call by (auto simp: rpc_ln_sweep_to_address_def)
next
  case (Inr x)
  obtain base src dest script acc where x: "x = (base, src, (dest, script), acc)"
    by (cases x) auto
  have ok: "acc_ok acc"
    by (rule sweep_inputs_facts [OF Inr [unfolded x]])
  have same: "S\<lparr>ns_lightning := Some mgr\<rparr> = S"
    using S by simp
  show ?thesis
  proof (cases "sw_descriptors acc = []")
    case True
    then have e: "S' = S" "\<exists>r. res = Inr r \<and> jget ''broadcast'' r = Some (JBool False)"
      using S call by (auto simp: rpc_ln_sweep_to_address_def Inr x)
    from e(2) show ?thesis
      unfolding if_P [OF e(1)] by auto
  next
    case False
    show ?thesis
    proof (cases "ld_spend (le_ldk (re_ln E)) (lm_ldk mgr) (sw_descriptors acc) script rate")
      case None
      then have "S' = S" "\<exists>e. res = Inl e"
        using S call False rate same by (auto simp: rpc_ln_sweep_to_address_def Inr x Let_def sweep_descriptors_def)
      then show ?thesis by auto
    next
      case (Some tx)
      let ?mgr = "mgr\<lparr>lm_world := broadcast_transactions [tx] (lm_world mgr)\<rparr>"
      have new: "S' = S\<lparr>ns_lightning := Some ?mgr\<rparr>" "\<exists>r. res = Inr r \<and>
          jget ''txid'' r = Some (JStr (hash_str (le_btc (re_ln E)) (compute_txid (le_btc (re_ln E)) tx))) \<and>
          jget ''input_count'' r = Some (jnat (length (filter included (sw_utxos acc)))) \<and>
          jget ''total_input_sat'' r = Some (jnat (sw_total acc))"
        using S call False rate Some by (auto simp: rpc_ln_sweep_to_address_def Inr x Let_def sweep_descriptors_def)
      have "map_option (\<lambda>m. lw_broadcast (lm_world m)) (ns_lightning S') \<noteq>
          map_option (\<lambda>m. lw_broadcast (lm_world m)) (ns_lightning S)"
        using S new(1) by (simp add: broadcast_transactions_def)
      then have "S' \<noteq> S"
        by blast
      then show ?thesis
        unfolding if_not_P [OF \<open>S' \<noteq> S\<close>] using new Inr x Some ok sweep_rate_bounds rate unfolding acc_ok_def by auto
    qed
  qed
qed

section \<open>Witnesses\<close>

text \<open>One confirmed output of 700 satoshi at the own address.\<close>

definition sample_utxo :: json where
  "sample_utxo = JObj [(''status'', JObj [(''confirmed'', JBool True)]), (''txid'', JStr ''aa''),
    (''value'', JInt 700), (''vout'', JInt 1)]"

definition sample_sweep_env ::
    "(hash list, ldk_event list, sample_db, nat, bool, nat, string,
      (string \<times> ip_addr list) option, event_builder list) rpc_env" where
  "sample_sweep_env = sample_explorer_env (JArr [sample_utxo])"

definition sample_sweep_params :: "json option" where
  "sample_sweep_params = Some (JArr [JStr ''bcrt1'', JInt 2, JStr ''x''])"

definition sample_sweep_acc :: sweep_acc where
  "sample_sweep_acc =
    \<lparr>sw_descriptors = [StaticOutput (0, 1) \<lparr>tx_value = 700, script_pubkey = as_bytes ''bcrt1''\<rparr>],
     sw_skipped = 0, sw_total = 700,
     sw_utxos = [jobj [(''txid'', JStr ''aa''), (''vout'', jnat 1), (''value_sat'', jnat 700),
       (''confirmed'', JBool True), (''block_height'', JNull), (''included'', JBool True),
       (''kind'', JStr ''static_output'')]], sw_closed = []\<rparr>"

lemma sample_sweep_inputs:
  "sweep_inputs sample_sweep_env net sample_manager sample_sweep_params =
    Inr (''http://h'', ''bcrt1'', (''bcrt1'', []), sample_sweep_acc)"
proof -
  have b: "explorer_base (re_http sample_sweep_env) net sample_sweep_params 2 = Inr ''http://h''"
    using sample_explorer(1) [of "JArr [sample_utxo]" net]
    by (simp add: explorer_base_def sample_sweep_env_def sample_sweep_params_def get_param_str_def
        get_param_def list_get_def)
  have c: "explorer_client (re_http sample_sweep_env) ''http://h'' = Inr (Some (''h'', [V4 0x08080808]))"
    by (simp add: sample_sweep_env_def sample_explorer)
  have k: "keys_destination_address (le_ldk (re_ln sample_sweep_env)) sample_manager = Inr ''bcrt1''"
    by (simp add: keys_destination_address_def sample_sweep_env_def sample_explorer_env_def sample_channel_ldk_def
        sample_ldk_def)
  have u: "fetch_utxos (re_http sample_sweep_env) cl b s = Inr [sample_utxo]" for cl b s
    by (simp add: fetch_utxos_def Let_def sample_sweep_env_def sample_explorer_env_def sample_rpc_env_def sample_http_def)
  have m: "sweep_monitor sample_sweep_env sample_manager cl b acc mo = acc" for cl b acc mo
    by (simp add: sweep_monitor_def Let_def monitor_funding_outpoint_def sample_sweep_env_def
        sample_explorer_env_def sample_channel_ldk_def sample_ldk_def)
  then have f: "foldl (sweep_monitor sample_sweep_env sample_manager cl b) acc ms = acc" for cl b acc ms
    by (induction ms) simp_all
  have p: "get_param_str sample_sweep_params 0 = Some ''bcrt1''" "get_param_bool sample_sweep_params 3 = None"
    by (simp_all add: sample_sweep_params_def get_param_str_def get_param_bool_def get_param_def list_get_def)
  have e: "re_codec sample_sweep_env = sample_rpc_codec"
    by (simp add: sample_sweep_env_def sample_explorer_env_def sample_rpc_env_def)
  have t: "is_confirmed sample_utxo" "member_str ''txid'' sample_utxo = Some ''aa''"
    "member_u64 ''vout'' sample_utxo = Some 1" "member_u64 ''value'' sample_utxo = Some 700"
    "spent_height sample_utxo = None"
    by (simp_all add: is_confirmed_def member_str_def member_u64_def spent_height_def sample_utxo_def)
  show ?thesis
    unfolding sweep_inputs_def Let_def p b k c u e
    by (simp add: sample_rpc_codec_def sweep_utxo_def t f sample_sweep_acc_def w64_def jopt_def c k u)
qed

theorem sweep_inputs_eligible_witness:
  "\<exists>src us. from_utxos sample_rpc_codec src False us (StaticOutput (0, 1) \<lparr>tx_value = 700, script_pubkey = as_bytes ''bcrt1''\<rparr>)"
proof -
  let ?d = "StaticOutput (0, 1) \<lparr>tx_value = 700, script_pubkey = as_bytes ''bcrt1''\<rparr>"
  have d: "?d \<in> set (sw_descriptors sample_sweep_acc)"
    by (simp add: sample_sweep_acc_def)
  have no: "\<not> from_monitors sample_sweep_env sample_manager cl b m ?d" for cl b m
    by (simp add: from_monitors_def monitor_funding_outpoint_def sample_sweep_env_def
        sample_explorer_env_def sample_channel_ldk_def sample_ldk_def)
  have "re_codec sample_sweep_env = sample_rpc_codec" "get_param_bool sample_sweep_params 3 = None"
    by (simp_all add: sample_sweep_env_def sample_explorer_env_def sample_rpc_env_def sample_sweep_params_def
        get_param_bool_def get_param_def list_get_def)
  then show ?thesis
    using sweep_inputs_eligible [OF sample_sweep_inputs [of Regtest] d] no by auto
qed

theorem sweep_broadcast_witness:
  "\<exists>S' r. rpc_ln_sweep_to_address sample_sweep_env (sample_node (Some sample_manager)) sample_sweep_params = (S', Inr r) \<and>
    jget ''input_count'' r = Some (jnat 1) \<and> jget ''total_input_sat'' r = Some (jnat 700)"
proof -
  let ?S = "sample_node (Some sample_manager)"
  have S: "ns_lightning ?S = Some sample_manager"
    by (simp add: sample_node_def)
  obtain S' res where c: "rpc_ln_sweep_to_address sample_sweep_env ?S sample_sweep_params = (S', res)"
    by (cases "rpc_ln_sweep_to_address sample_sweep_env ?S sample_sweep_params")
  have sp: "ld_spend (le_ldk (re_ln sample_sweep_env)) l ds b n = Some (sample_tx 1 [(9, 0)] [50])" for l ds b n
    by (simp add: sample_sweep_env_def sample_explorer_env_def sample_channel_ldk_def)
  have "\<exists>r. res = Inr r \<and> jget ''broadcast'' r = Some (JBool True)"
    using c S by (auto simp: rpc_ln_sweep_to_address_def sample_sweep_inputs sample_sweep_acc_def Let_def
        sweep_descriptors_def sp)
  then show ?thesis
    using sweep_broadcast [OF S c refl] c
    by (auto simp: sample_sweep_inputs sample_sweep_acc_def descriptor_value_def w64_def split: if_splits)
qed

end
