(* ===== verification/Rpc.thy ===== *)
theory Rpc
  imports Rpc_Sweep Rpc_Auth
begin

text \<open>
  The Nostr methods, \<open>uptime\<close> and \<open>stop\<close> of \<open>wolfe-rpc/src/handlers.rs\<close>, the table of methods
  \<open>dispatch_rpc\<close>, the JSON-RPC envelope, and the server's answer to a request: the gate of its group of
  routes and then its handler.
\<close>

section \<open>Nostr\<close>

definition nostr_disabled :: rpc_error where
  "nostr_disabled = RpcNostr ''nostr not enabled''"

definition rpc_nostr_getinfo :: "'n nostr_sdk \<Rightarrow> ('k, 'l, 'd, 'w, 'c, 'n) node_state \<Rightarrow> json" where
  "rpc_nostr_getinfo N S =
    (let npub = (case ns_nostr_pubkey S of Some k \<Rightarrow> k | None \<Rightarrow> []);
         relays = (case ns_nostr_client S of Some c \<Rightarrow> nk_relays N c | None \<Rightarrow> [])
     in jobj [(''enabled'', JBool (ns_nostr_client S \<noteq> None)), (''npub'', JStr npub),
          (''relay_count'', jnat (length relays)), (''relays'', JArr (map JStr relays))])"

definition rpc_nostr_publish ::
    "'n nostr_sdk \<Rightarrow> ('k, 'l, 'd, 'w, 'c, 'n) node_state \<Rightarrow> json option \<Rightarrow> ('k, 'l, 'd, 'w, 'c, 'n) rpc_step" where
  "rpc_nostr_publish N S params =
    (case ns_nostr_client S of
       None \<Rightarrow> (S, Inl nostr_disabled)
     | Some c \<Rightarrow>
         (case get_param_str params 0 of
            None \<Rightarrow> (S, Inl (InvalidParams ''missing content''))
          | Some content \<Rightarrow>
              (let kind = nat ((case get_param_i64 params 1 of Some v \<Rightarrow> v | None \<Rightarrow> 1) mod 2 ^ 16) in
               case nk_send N c \<lparr>eb_kind = kind, eb_content = content, eb_tags = []\<rparr> of
                 (c, Inl e) \<Rightarrow> (S\<lparr>ns_nostr_client := Some c\<rparr>, Inl (RpcNostr (''publish failed: '' @ e)))
               | (c, Inr ident) \<Rightarrow>
                   (S\<lparr>ns_nostr_client := Some c\<rparr>,
                    Inr (jobj [(''event_id'', JStr ident), (''kind'', jnat kind)])))))"

definition rpc_nostr_addrelay ::
    "'n nostr_sdk \<Rightarrow> ('k, 'l, 'd, 'w, 'c, 'n) node_state \<Rightarrow> json option \<Rightarrow> ('k, 'l, 'd, 'w, 'c, 'n) rpc_step" where
  "rpc_nostr_addrelay N S params =
    (case ns_nostr_client S of
       None \<Rightarrow> (S, Inl nostr_disabled)
     | Some c \<Rightarrow>
         (case get_param_str params 0 of
            None \<Rightarrow> (S, Inl (InvalidParams ''missing relay URL''))
          | Some url \<Rightarrow>
              (case nk_add_relay N c url of
                 (c, Some e) \<Rightarrow> (S\<lparr>ns_nostr_client := Some c\<rparr>, Inl (RpcNostr (''add relay failed: '' @ e)))
               | (c, None) \<Rightarrow>
                   (S\<lparr>ns_nostr_client := Some (nk_connect N c)\<rparr>, Inr (jobj [(''added'', JStr url)])))))"

definition rpc_nostr_removerelay ::
    "'n nostr_sdk \<Rightarrow> ('k, 'l, 'd, 'w, 'c, 'n) node_state \<Rightarrow> json option \<Rightarrow> ('k, 'l, 'd, 'w, 'c, 'n) rpc_step" where
  "rpc_nostr_removerelay N S params =
    (case ns_nostr_client S of
       None \<Rightarrow> (S, Inl nostr_disabled)
     | Some c \<Rightarrow>
         (case get_param_str params 0 of
            None \<Rightarrow> (S, Inl (InvalidParams ''missing relay URL''))
          | Some url \<Rightarrow>
              (case nk_remove_relay N c url of
                 (c, Some e) \<Rightarrow> (S\<lparr>ns_nostr_client := Some c\<rparr>, Inl (RpcNostr (''remove relay failed: '' @ e)))
               | (c, None) \<Rightarrow>
                   (S\<lparr>ns_nostr_client := Some c\<rparr>, Inr (jobj [(''removed'', JStr url)])))))"

definition rpc_nostr_listrelays ::
    "'n nostr_sdk \<Rightarrow> ('k, 'l, 'd, 'w, 'c, 'n) node_state \<Rightarrow> rpc_error + json" where
  "rpc_nostr_listrelays N S =
    (case ns_nostr_client S of
       None \<Rightarrow> Inl nostr_disabled
     | Some c \<Rightarrow> Inr (JArr (map (\<lambda>url. jobj [(''url'', JStr url)]) (nk_relays N c))))"

definition rpc_stop :: "('k, 'l, 'd, 'w, 'c, 'n) node_state \<Rightarrow> ('k, 'l, 'd, 'w, 'c, 'n) rpc_step" where
  "rpc_stop S =
    (case trigger_shutdown S of
       (S, True) \<Rightarrow> (S, Inr (JStr ''BitcoinWolfe server stopping''))
     | (S, False) \<Rightarrow> (S, Inl (RpcInternal ''shutdown flag not wired'')))"

section \<open>Dispatch\<close>

text \<open>
  The moment and the random numbers of a call: the Unix time, the monotonic clock, a channel's
  user identifier, a payment's identifier, and which lookup tasks of \<open>reconcilechannels\<close> end
  without a panic.
\<close>

record rpc_ctx =
  cx_now :: nat
  cx_clock :: nat
  cx_user_id :: nat
  cx_payment_id :: bytes
  cx_joined :: "nat \<Rightarrow> bool"

definition query :: "'s \<Rightarrow> rpc_error + json \<Rightarrow> 's \<times> (rpc_error + json)" where
  "query S r = (S, r)"

definition dispatch_rpc ::
    "('k, 'l, 'd, 'w, 'c, 'p, 'm, 'cl, 'n) rpc_env \<Rightarrow> rpc_ctx \<Rightarrow> ('k, 'l, 'd, 'w, 'c, 'n) node_state
      \<Rightarrow> string \<Rightarrow> json option \<Rightarrow> ('k, 'l, 'd, 'w, 'c, 'n) rpc_step" where
  "dispatch_rpc E cx S meth params =
    (let LE = re_ln E; K = le_ldk LE; B = le_bdk LE; L = le_btc LE; C = re_codec E; N = re_nostr E in
     if meth = ''getblockchaininfo'' then query S (Inr (rpc_getblockchaininfo S))
     else if meth = ''getnetworkinfo'' then query S (Inr (rpc_getnetworkinfo (re_version E) S))
     else if meth = ''getmempoolinfo'' then query S (Inr (rpc_getmempoolinfo S))
     else if meth = ''getpeerinfo'' then query S (Inr (rpc_getpeerinfo S))
     else if meth = ''getblockcount'' then query S (Inr (jnat (ns_best_height S)))
     else if meth = ''getbestblockhash'' then query S (Inr (JStr (ns_best_hash S)))
     else if meth = ''getblock'' then query S (rpc_getblock E S params)
     else if meth = ''getrawtransaction'' then query S (rpc_getrawtransaction C S params)
     else if meth = ''sendrawtransaction'' then rpc_sendrawtransaction E (cx_now cx) S params
     else if meth = ''getrawmempool'' then query S (Inr (rpc_getrawmempool LE S))
     else if meth = ''getbalance'' then query S (rpc_getbalance B S)
     else if meth = ''getwalletinfo'' then query S (rpc_getwalletinfo B L S)
     else if meth = ''getnewaddress'' then rpc_getnewaddress B S
     else if meth = ''listtransactions'' then query S (rpc_listtransactions B L S)
     else if meth = ''walletcreatefundedpsbt'' then rpc_walletcreatefundedpsbt B S params
     else if meth = ''walletprocesspsbt'' then query S (rpc_walletprocesspsbt B S params)
     else if meth = ''ln_getinfo'' then query S (rpc_ln_getinfo K S)
     else if meth = ''ln_listchannels'' then query S (rpc_ln_listchannels K S)
     else if meth = ''reconcilechannels'' then query S (rpc_reconcilechannels E (cx_joined cx) S params)
     else if meth = ''ln_sweep_to_address'' then rpc_ln_sweep_to_address E S params
     else if meth = ''ln_listpeers'' then query S (rpc_ln_listpeers K S)
     else if meth = ''ln_connect'' then rpc_ln_connect K C S params
     else if meth = ''ln_openchannel'' then rpc_ln_openchannel K C (cx_user_id cx) S params
     else if meth = ''ln_closechannel'' then rpc_ln_closechannel K C S params
     else if meth = ''ln_invoice'' then rpc_ln_invoice K S params
     else if meth = ''ln_listpayments'' then query S (rpc_ln_listpayments LE S params)
     else if meth = ''ln_pay'' then rpc_ln_pay K (cx_payment_id cx) S params
     else if meth = ''createwallet'' then rpc_createwallet E S
     else if meth = ''importwallet'' then rpc_importwallet E S params
     else if meth = ''rescanblockchain'' then rpc_rescanblockchain E S params
     else if meth = ''nostr_getinfo'' then query S (Inr (rpc_nostr_getinfo N S))
     else if meth = ''nostr_publish'' then rpc_nostr_publish N S params
     else if meth = ''nostr_addrelay'' then rpc_nostr_addrelay N S params
     else if meth = ''nostr_removerelay'' then rpc_nostr_removerelay N S params
     else if meth = ''nostr_listrelays'' then query S (rpc_nostr_listrelays N S)
     else if meth = ''uptime'' then query S (Inr (jnat (uptime_secs (cx_clock cx) S)))
     else if meth = ''stop'' then rpc_stop S
     else query S (Inl (MethodNotFound (''method '' @ [CHR 0x27] @ meth @ [CHR 0x27] @ '' not found''))))"

section \<open>The JSON-RPC envelope\<close>

record json_rpc_request =
  jr_jsonrpc :: "string option"
  jr_id :: json
  jr_method :: string
  jr_params :: "json option"

fun rpc_error_code :: "rpc_error \<Rightarrow> int \<times> string" where
  "rpc_error_code (MethodNotFound m) = (- 32601, m)"
| "rpc_error_code (InvalidParams m) = (- 32602, m)"
| "rpc_error_code (RpcInternal m) = (- 32603, m)"
| "rpc_error_code (RpcNotFound m) = (- 1, m)"
| "rpc_error_code (RpcWallet m) = (- 4, m)"
| "rpc_error_code (RpcLightning m) = (- 5, m)"
| "rpc_error_code (RpcNostr m) = (- 6, m)"

definition json_rpc_response :: "json \<Rightarrow> rpc_error + json \<Rightarrow> json" where
  "json_rpc_response ident result =
    (case result of
       Inr v \<Rightarrow> jobj [(''jsonrpc'', JStr ''2.0''), (''id'', ident), (''result'', v)]
     | Inl e \<Rightarrow>
         (case rpc_error_code e of (code, message) \<Rightarrow>
            jobj [(''jsonrpc'', JStr ''2.0''), (''id'', ident),
              (''error'', jobj [(''code'', JInt code), (''message'', JStr message)])]))"

definition json_rpc ::
    "('k, 'l, 'd, 'w, 'c, 'p, 'm, 'cl, 'n) rpc_env \<Rightarrow> rpc_ctx \<Rightarrow> ('k, 'l, 'd, 'w, 'c, 'n) node_state
      \<Rightarrow> json_rpc_request \<Rightarrow> ('k, 'l, 'd, 'w, 'c, 'n) node_state \<times> json" where
  "json_rpc E cx S req =
    (case dispatch_rpc E cx S (jr_method req) (jr_params req) of
       (S, result) \<Rightarrow> (S, json_rpc_response (jr_id req) result))"

section \<open>Serving a request\<close>

text \<open>
  What axum extracts from a request: the body of a call and the height of a block path, or the
  response where the extraction fails; and the embedded dashboard.
\<close>

record extracted =
  ex_body :: "http_response + json_rpc_request"
  ex_height :: "http_response + nat"
  ex_assets :: "string \<Rightarrow> bytes option"
  ex_mime :: "string \<Rightarrow> string"
  ex_lossy :: "bytes \<Rightarrow> string"

definition not_allowed :: http_response where
  "not_allowed = text_response 405 []"

definition rest_handler ::
    "('k, 'l, 'd, 'w, 'c, 'p, 'm, 'cl, 'n) rpc_env \<Rightarrow> rpc_ctx \<Rightarrow> ('k, 'l, 'd, 'w, 'c, 'n) node_state
      \<Rightarrow> extracted \<Rightarrow> http_request \<Rightarrow> http_response" where
  "rest_handler E cx S x req =
    (let path = rq_path req; LE = re_ln E; K = le_ldk LE in
     if path = ''/api/info'' then json_response 200 (rest_get_info (re_version E) (cx_clock cx) S)
     else if path = ''/api/blockchain'' then json_response 200 (get_blockchain S)
     else if path = ''/api/mempool'' then json_response 200 (get_mempool S)
     else if path = ''/api/peers'' then json_response 200 (get_peers S)
     else if path = ''/api/lightning/info'' then json_response 200 (get_lightning_info K S)
     else if path = ''/api/lightning/channels'' then json_response 200 (get_lightning_channels K S)
     else if path = ''/api/lightning/payments'' then json_response 200 (get_lightning_payments LE S)
     else if is_block_path path then
       (case ex_height x of Inl r \<Rightarrow> r | Inr height \<Rightarrow> json_response 200 (l402_get_block E S height))
     else if path = ''/l402/api/fees'' then json_response 200 (l402_get_fees (le_order LE) S)
     else if path = ''/l402/api/mempool'' then json_response 200 (l402_get_mempool S)
     else if path = ''/l402/api/chain'' then json_response 200 (l402_get_chain S)
     else dashboard_handler (ex_assets x) (ex_mime x) (ex_lossy x) req)"

definition handle_request ::
    "('k, 'l, 'd, 'w, 'c, 'p, 'm, 'cl, 'n) rpc_env \<Rightarrow> rpc_ctx \<Rightarrow> ('k, 'l, 'd, 'w, 'c, 'n) node_state
      \<Rightarrow> extracted \<Rightarrow> http_request \<Rightarrow> ('k, 'l, 'd, 'w, 'c, 'n) node_state \<times> http_response" where
  "handle_request E cx S x req =
    (if rq_path req = ''/'' \<and> rq_method req = ''POST'' then
       (case ex_body x of
          Inl r \<Rightarrow> (S, r)
        | Inr call \<Rightarrow> (case json_rpc E cx S call of (S, v) \<Rightarrow> (S, json_response 200 v)))
     else if rq_method req = ''GET'' \<or> rq_method req = ''HEAD'' then (S, rest_handler E cx S x req)
     else (S, not_allowed))"

definition serve ::
    "('k, 'l, 'd, 'w, 'c, 'p, 'm, 'cl, 'n) rpc_env \<Rightarrow> rpc_server \<Rightarrow> rpc_ctx \<Rightarrow> extracted \<Rightarrow> http_request
      \<Rightarrow> ('k, 'l, 'd, 'w, 'c, 'n) node_state \<Rightarrow> ('k, 'l, 'd, 'w, 'c, 'n) node_state \<times> http_response" where
  "serve E sv cx x req S =
    (case admit E sv (cx_now cx) req S of
       (S, Respond r) \<Rightarrow> (S, r)
     | (S, Pass) \<Rightarrow> handle_request E cx S x req)"

section \<open>What a call can change\<close>

definition ln_frame :: "('l, 'd, 'w, 'c) ln_manager \<Rightarrow> ('l, 'd, 'w, 'c) ln_manager \<Rightarrow> bool" where
  "ln_frame m m' \<longleftrightarrow>
    (\<exists>l w txs. m' = m\<lparr>lm_world := (lm_world m)\<lparr>lw_ldk := l, lw_wallet := w,
      lw_broadcast := lw_broadcast (lm_world m) @ txs\<rparr>\<rparr>)"

definition node_frame :: "('k, 'l, 'd, 'w, 'c, 'n) node_state \<Rightarrow> ('k, 'l, 'd, 'w, 'c, 'n) node_state \<Rightarrow> bool" where
  "node_frame S S' \<longleftrightarrow>
    (\<exists>pool w l n b. rel_option ln_frame (ns_lightning S) l \<and>
      S' = S\<lparr>ns_mempool := pool, ns_shutdown := b, ns_wallet := w, ns_lightning := l, ns_nostr_client := n\<rparr>)"

text \<open>The wallet of the Lightning manager is the node's.\<close>

definition wallet_shared :: "('k, 'l, 'd, 'w, 'c, 'n) node_state \<Rightarrow> bool" where
  "wallet_shared S \<longleftrightarrow> (\<forall>m. ns_lightning S = Some m \<longrightarrow> lw_wallet (lm_world m) = ns_wallet S)"

definition safe_step :: "('k, 'l, 'd, 'w, 'c, 'n) node_state \<Rightarrow> ('k, 'l, 'd, 'w, 'c, 'n) rpc_step \<Rightarrow> bool" where
  "safe_step S step \<longleftrightarrow> node_frame S (fst step) \<and> (wallet_shared S \<longrightarrow> wallet_shared (fst step))"

named_theorems safe_intros \<open>calls that keep the frame\<close>

lemma ln_frame_ldk [safe_intros]: "ln_frame m (set_ldk l m)"
  unfolding ln_frame_def set_ldk_def map_ldk_def
  by (rule exI [of _ l], rule exI [of _ "lw_wallet (lm_world m)"], rule exI [of _ "[]"]) simp

lemma ln_frame_refl [safe_intros]: "ln_frame m m"
  unfolding ln_frame_def
  by (rule exI [of _ "lw_ldk (lm_world m)"], rule exI [of _ "lw_wallet (lm_world m)"], rule exI [of _ "[]"]) simp

lemma ln_frame_broadcast [safe_intros]: "ln_frame m (m\<lparr>lm_world := broadcast_transactions txs (lm_world m)\<rparr>)"
  unfolding ln_frame_def broadcast_transactions_def
  by (rule exI [of _ "lw_ldk (lm_world m)"], rule exI [of _ "lw_wallet (lm_world m)"], rule exI [of _ txs]) simp

lemma ln_frame_wallet [safe_intros]: "ln_frame m (set_wallet w m)"
  unfolding ln_frame_def set_wallet_def
  by (rule exI [of _ "lw_ldk (lm_world m)"], rule exI [of _ "Some w"], rule exI [of _ "[]"]) simp

lemma node_frameI:
  assumes "rel_option ln_frame (ns_lightning S) (ns_lightning S')"
    and "S' = S\<lparr>ns_mempool := ns_mempool S', ns_shutdown := ns_shutdown S', ns_wallet := ns_wallet S',
      ns_lightning := ns_lightning S', ns_nostr_client := ns_nostr_client S'\<rparr>"
  shows "node_frame S S'"
  using assms unfolding node_frame_def by blast

lemma rel_ln_refl [safe_intros]: "rel_option ln_frame x x"
  by (cases x) (simp_all add: ln_frame_refl)

lemma safe_query [safe_intros]: "safe_step S (query S r)" "safe_step S (S, r)"
  by (auto simp: safe_step_def query_def intro!: node_frameI rel_ln_refl)

lemma safe_pool [safe_intros]: "safe_step S (S\<lparr>ns_mempool := pool\<rparr>, r)"
  by (auto simp: safe_step_def wallet_shared_def intro!: node_frameI rel_ln_refl)

lemma safe_nostr [safe_intros]: "safe_step S (S\<lparr>ns_nostr_client := n\<rparr>, r)"
  by (auto simp: safe_step_def wallet_shared_def intro!: node_frameI rel_ln_refl)

lemma safe_shutdown [safe_intros]: "safe_step S (S\<lparr>ns_shutdown := b\<rparr>, r)"
  by (auto simp: safe_step_def wallet_shared_def intro!: node_frameI rel_ln_refl)

lemma safe_inject [safe_intros]: "safe_step S (inject_wallet w S, r)"
proof -
  have "rel_option ln_frame (ns_lightning S) (map_option (set_wallet w) (ns_lightning S))"
    by (cases "ns_lightning S") (simp_all add: ln_frame_wallet)
  then show ?thesis
    by (auto simp: safe_step_def wallet_shared_def inject_wallet_def ns_set_wallet_def Let_def set_wallet_def
        intro!: node_frameI)
qed

lemma safe_write [safe_intros]:
  assumes "ns_wallet S \<noteq> None"
  shows "safe_step S (write_wallet w S, r)"
proof -
  have "rel_option ln_frame (ns_lightning S)
      (map_option (\<lambda>m. if lw_wallet (lm_world m) = None then m else set_wallet w m) (ns_lightning S))"
    by (cases "ns_lightning S") (simp_all add: ln_frame_wallet ln_frame_refl)
  then have "node_frame S (write_wallet w S)"
    by (auto simp: write_wallet_def intro!: node_frameI)
  moreover have "wallet_shared S \<longrightarrow> wallet_shared (write_wallet w S)"
    using assms by (cases "ns_lightning S") (auto simp: wallet_shared_def write_wallet_def set_wallet_def)
  ultimately show ?thesis
    by (simp add: safe_step_def)
qed

text \<open>A step of the manager that keeps its wallet.\<close>

definition ln_step_ok :: "('l, 'd, 'w, 'c) ln_manager \<Rightarrow> ('l, 'd, 'w, 'c, 'a) ln_step \<Rightarrow> bool" where
  "ln_step_ok m step \<longleftrightarrow> ln_frame m (fst step) \<and> lw_wallet (lm_world (fst step)) = lw_wallet (lm_world m)"

lemma safe_lightning:
  assumes "ns_lightning S = Some m" "ln_step_ok m step"
  shows "safe_step S (S\<lparr>ns_lightning := Some (fst step)\<rparr>, r)"
  using assms by (auto simp: safe_step_def wallet_shared_def ln_step_ok_def intro!: node_frameI)

lemma safe_with_ln [safe_intros]:
  assumes "ns_lightning S = Some m" "ln_step_ok m step"
  shows "safe_step S (with_ln S step f)"
  using safe_lightning [OF assms] by (auto simp: with_ln_def split: prod.split sum.split)

lemma ln_step_ldk: "ln_step_ok m (set_ldk l m, r)" "ln_step_ok m (m, r)"
  using ln_frame_ldk [of m l] ln_frame_refl [of m] by (simp_all add: ln_step_ok_def set_ldk_def map_ldk_def)

lemma ln_step_broadcast: "ln_step_ok m (m\<lparr>lm_world := broadcast_transactions txs (lm_world m)\<rparr>, r)"
  using ln_frame_broadcast [of m txs] by (simp add: ln_step_ok_def broadcast_transactions_def)

lemma ln_steps_ok [safe_intros]:
  "ln_step_ok m (connect_peer K m pk a)" "ln_step_ok m (open_channel K rnd m pk n p)"
  "ln_step_ok m (close_channel K m ch cp force)" "ln_step_ok m (create_invoice K m amt d e)"
  "ln_step_ok m (pay_invoice K rid m invoice)" "ln_step_ok m (sweep_descriptors LE m ds s rate)"
  unfolding connect_peer_def open_channel_def close_channel_def create_invoice_def pay_invoice_def sweep_descriptors_def
  by (simp_all add: ln_step_ldk ln_step_broadcast split: prod.split sum.split bool.split option.split)

lemma safe_lightning_calls [safe_intros]:
  "safe_step S (rpc_ln_connect K C S params)" "safe_step S (rpc_ln_openchannel K C rnd S params)"
  "safe_step S (rpc_ln_closechannel K C S params)" "safe_step S (rpc_ln_invoice K S params)"
  "safe_step S (rpc_ln_pay K rid S params)"
  unfolding rpc_ln_connect_def rpc_ln_openchannel_def rpc_ln_closechannel_def rpc_ln_invoice_def rpc_ln_pay_def Let_def
  by (auto intro!: safe_intros split: option.split sum.split prod.split)

lemma safe_sweep [safe_intros]: "safe_step S (rpc_ln_sweep_to_address E S params)"
proof -
  have "safe_step S (case sweep_descriptors (re_ln E) m ds s rate of
      (mgr, Inl e) \<Rightarrow> (S\<lparr>ns_lightning := Some mgr\<rparr>, f e) | (mgr, Inr k) \<Rightarrow> (S\<lparr>ns_lightning := Some mgr\<rparr>, g k))"
    if "ns_lightning S = Some m" for m ds s rate f g
    using safe_lightning [OF that ln_steps_ok(6) [where LE = "re_ln E" and ds = ds and s = s and rate = rate]]
    by (auto split: prod.split sum.split)
  then show ?thesis
    unfolding rpc_ln_sweep_to_address_def Let_def
    by (auto intro!: safe_query split: option.split sum.split)
qed

lemma safe_wallet_calls [safe_intros]:
  "safe_step S (rpc_getnewaddress B S)" "safe_step S (rpc_walletcreatefundedpsbt B S params)"
  "safe_step S (rpc_createwallet E S)" "safe_step S (rpc_importwallet E S params)"
  "safe_step S (rpc_rescanblockchain E S params)"
  unfolding rpc_getnewaddress_def rpc_walletcreatefundedpsbt_def rpc_createwallet_def rpc_importwallet_def
    rpc_rescanblockchain_def Let_def
  by (auto intro!: safe_intros split: option.split sum.split prod.split)

lemma safe_other_calls [safe_intros]:
  "safe_step S (rpc_sendrawtransaction E now S params)" "safe_step S (rpc_nostr_publish N S params)"
  "safe_step S (rpc_nostr_addrelay N S params)" "safe_step S (rpc_nostr_removerelay N S params)"
  "safe_step S (rpc_stop S)"
  unfolding rpc_sendrawtransaction_def rpc_nostr_publish_def rpc_nostr_addrelay_def rpc_nostr_removerelay_def
    rpc_stop_def trigger_shutdown_def Let_def
  by (auto intro!: safe_intros split: option.split sum.split prod.split)

lemma safe_if: "safe_step S a \<Longrightarrow> safe_step S b \<Longrightarrow> safe_step S (if c then a else b)"
  by simp

lemma safe_dispatch: "safe_step S (dispatch_rpc E cx S meth params)"
  unfolding dispatch_rpc_def Let_def by (intro safe_if safe_intros)

section \<open>What the methods that ask can change\<close>

definition mutating_methods :: "string list" where
  "mutating_methods =
    [''sendrawtransaction'', ''getnewaddress'', ''walletcreatefundedpsbt'', ''ln_sweep_to_address'', ''ln_connect'',
     ''ln_openchannel'', ''ln_closechannel'', ''ln_invoice'', ''ln_pay'', ''createwallet'', ''importwallet'',
     ''rescanblockchain'', ''nostr_publish'', ''nostr_addrelay'', ''nostr_removerelay'', ''stop'']"

lemma query_if:
  "fst (query S r) = S" "fst a = S \<Longrightarrow> fst b = S \<Longrightarrow> fst (if c then a else b) = S"
  "(\<not> c \<Longrightarrow> fst b = S) \<Longrightarrow> \<not> c \<Longrightarrow> fst (if c then a else b) = S"
  by (simp_all add: query_def)

lemma dispatch_query:
  assumes "meth \<notin> set mutating_methods"
  shows "fst (dispatch_rpc E cx S meth params) = S"
proof -
  have n: "meth \<noteq> m" if "m \<in> set mutating_methods" for m
    using assms that by blast
  note n = n [unfolded mutating_methods_def, simplified]
  show ?thesis
    unfolding dispatch_rpc_def Let_def
    by (simp only: n [of "''sendrawtransaction''"] n [of "''getnewaddress''"] n [of "''walletcreatefundedpsbt''"]
        n [of "''ln_sweep_to_address''"] n [of "''ln_connect''"] n [of "''ln_openchannel''"] n [of "''ln_closechannel''"]
        n [of "''ln_invoice''"] n [of "''ln_pay''"] n [of "''createwallet''"] n [of "''importwallet''"]
        n [of "''rescanblockchain''"] n [of "''nostr_publish''"] n [of "''nostr_addrelay''"] n [of "''nostr_removerelay''"]
        n [of "''stop''"] simp_thms if_False) (intro query_if)
qed

lemma admit_cases:
  assumes "admit E sv now req S = (S', g)" "S' \<noteq> S"
  shows "guard_of (rq_path req) = PaidGate \<and> (\<exists>r. g = Respond r \<and> rs_status r \<noteq> 200)"
  using assms
  by (auto simp: admit_def l402_middleware_def Let_def l402_offer_def text_response_def
      split: guard.splits if_splits option.splits sum.splits prod.splits)

section \<open>Properties\<close>

lemma safe_admit: "safe_step S (fst (admit E sv now req S), r)"
proof -
  have "safe_step S (S\<lparr>ns_lightning := Some m'\<rparr>, r)"
    if "ns_lightning S = Some m" "create_invoice K m a d e = (m', q)" for m K a d e m' q
    using safe_lightning [OF that(1) ln_steps_ok(4), of K a d e r] by (simp add: that(2))
  then have "safe_step S (fst (l402_middleware E now req S), r)"
    by (auto simp: l402_middleware_def Let_def safe_query split: option.split sum.split prod.split)
  then show ?thesis
    by (simp add: admit_def safe_query split: guard.split)
qed

lemma serve_safe: "safe_step S (fst (serve E sv rcx x req S), r)"
proof -
  have admit: "S' = S" if "admit E sv (cx_now rcx) req S = (S', Pass)" for S'
    using admit_cases [OF that] by auto
  have call: "safe_step S (fst (json_rpc E rcx S call), r)" for call
    using safe_dispatch [of S E rcx "jr_method call" "jr_params call"]
    by (cases "dispatch_rpc E rcx S (jr_method call) (jr_params call)") (simp add: json_rpc_def safe_step_def)
  have "safe_step S (fst (handle_request E rcx S x req), r)"
    using call by (auto simp: handle_request_def safe_query split: sum.split prod.split) (metis fst_conv)+
  then show ?thesis
    using admit safe_admit [of S E sv "cx_now rcx" req r]
    by (auto simp: serve_def split: prod.split gate.split)
qed



text \<open>
  The JSON-RPC answer carries the identifier of the call and either the method's result or an
  error, never both, and the error object is the one the REST interface gives for the same error.
\<close>

theorem json_rpc_answers:
  "case (json_rpc E cx S req, dispatch_rpc E cx S (jr_method req) (jr_params req)) of
     ((S1, v), (S2, res)) \<Rightarrow>
       S1 = S2 \<and> jget ''id'' v = Some (jr_id req) \<and> jget ''jsonrpc'' v = Some (JStr ''2.0'') \<and>
       (case res of
          Inr y \<Rightarrow> jget ''result'' v = Some y \<and> jget ''error'' v = None
        | Inl e \<Rightarrow> jget ''result'' v = None \<and>
            (case rs_body (error_into_response e) of
               BJson b \<Rightarrow> jget ''error'' v \<noteq> None \<and> jget ''error'' v = jget ''error'' b
             | BText t \<Rightarrow> False))"
proof -
  have c: "fst (rpc_error_code e) = fst (snd (error_triple e))" "snd (rpc_error_code e) = snd (snd (error_triple e))" for e
    by (cases e; simp)+
  have "json_rpc_response i (Inl e) = jobj [(''jsonrpc'', JStr ''2.0''), (''id'', i),
      (''error'', jobj [(''code'', JInt (fst (snd (error_triple e)))), (''message'', JStr (snd (snd (error_triple e))))])]"
    for i e
    unfolding c [symmetric] by (simp add: json_rpc_response_def split: prod.split)
  moreover have "rs_body (error_into_response e) = BJson (jobj [(''error'', jobj
      [(''code'', JInt (fst (snd (error_triple e)))), (''message'', JStr (snd (snd (error_triple e))))])])" for e
    by (simp add: error_into_response_def json_response_def split: prod.split)
  ultimately show ?thesis
    by (auto simp: json_rpc_def json_rpc_response_def split: prod.split sum.split)
qed

text \<open>
  C?: \<open>getblock\<close> with verbosity 0 answers for a height: two known blocks of the same height
  get the same answer, so the answer for one that is not in the active chain is another block.
\<close>

definition raw_params :: "string \<Rightarrow> json option" where
  "raw_params blockhash = Some (JArr [JStr blockhash, JInt 0])"

theorem getblock_by_height:
  assumes "ns_consensus S = Some engine"
    and "rc_unhex (re_codec E) s1 = Some b1" "length b1 = 32" "rc_unhex (re_codec E) s2 = Some b2" "length b2 = 32"
    and "get_block_by_hash (re_kernel E) engine (hash_of_bytes (rev b1)) = Some i1"
      "get_block_by_hash (re_kernel E) engine (hash_of_bytes (rev b2)) = Some i2" "bi_height i1 = bi_height i2"
  shows "rpc_getblock E S (raw_params s1) = rpc_getblock E S (raw_params s2)"
proof -
  have "get_param_str (raw_params s) 0 = Some s" "get_param_i64 (raw_params s) 1 = Some 0" for s
    by (simp_all add: raw_params_def get_param_str_def get_param_i64_def get_param_def list_get_def)
  then show ?thesis
    using assms by (simp add: rpc_getblock_def)
qed

text \<open>
  C?: \<open>sendrawtransaction\<close> adds the transaction to the pool, with a fee of zero, and does nothing
  else: it leaves the node unchanged where it fails, and where it succeeds only the pool differs.
\<close>

theorem sendraw_only_pools:
  "case rpc_sendrawtransaction E now S params of
     (S', Inl e) \<Rightarrow> S' = S
   | (S', Inr v) \<Rightarrow> \<exists>tx pool bs k. rc_de_tx (re_codec E) bs = Inr tx \<and>
       mempool_add (le_btc (re_ln E)) now (ns_mempool S) tx 0 = Inr (pool, k) \<and> S' = S\<lparr>ns_mempool := pool\<rparr> \<and>
       mempool_contains (ns_mempool S') k \<and> v = JStr (hash_str (le_btc (re_ln E)) k) \<and>
       ns_tx_broadcast S' = ns_tx_broadcast S"
proof -
  have k: "mempool_contains m' k \<and> k = compute_txid L tx" if "mempool_add L now m tx fee = Inr (m', k)" for L m tx fee m' k
    using that by (auto simp: mempool_add_iff mempool_contains_def map_of_bump_parents)
  obtain S' r where r: "rpc_sendrawtransaction E now S params = (S', r)"
    by (cases "rpc_sendrawtransaction E now S params")
  show ?thesis
  proof (cases r)
    case (Inl e)
    then show ?thesis
      using r by (auto simp: rpc_sendrawtransaction_def Let_def split: option.splits sum.splits prod.splits)
  next
    case (Inr v)
    then obtain tx pool bs q where t: "rc_de_tx (re_codec E) bs = Inr tx"
        "mempool_add (le_btc (re_ln E)) now (ns_mempool S) tx 0 = Inr (pool, q)" "S' = S\<lparr>ns_mempool := pool\<rparr>"
        "v = JStr (hash_str (le_btc (re_ln E)) (compute_txid (le_btc (re_ln E)) tx))"
      using r by (auto simp: rpc_sendrawtransaction_def Let_def split: option.splits sum.splits prod.splits)
    then show ?thesis
      using r Inr k [OF t(2)] by auto
  qed
qed

section \<open>Witnesses\<close>

definition sample_ctx :: rpc_ctx where
  "sample_ctx = \<lparr>cx_now = 5, cx_clock = 7, cx_user_id = 1, cx_payment_id = [], cx_joined = \<lambda>i. True\<rparr>"

definition sample_call :: "string \<Rightarrow> extracted" where
  "sample_call meth =
    \<lparr>ex_body = Inr \<lparr>jr_jsonrpc = None, jr_id = JNull, jr_method = meth, jr_params = None\<rparr>, ex_height = Inr 0,
     ex_assets = (\<lambda>p. None), ex_mime = (\<lambda>p. ''''), ex_lossy = from_bytes\<rparr>"

definition sample_post :: http_request where
  "sample_post = \<lparr>rq_method = ''POST'', rq_path = ''/'', rq_uri = ''/'', rq_authorization = None\<rparr>"

text \<open>Stopping a node that is wired for it changes its state.\<close>

definition sample_stoppable ::
    "(hash list, ldk_event list, sample_db, nat, bool, event_builder list) node_state" where
  "sample_stoppable = (sample_node (Some sample_manager))\<lparr>ns_shutdown := Some False\<rparr>"

lemma sample_serve:
  "fst (serve (sample_rpc_env JNull) (sample_server None False []) sample_ctx (sample_call ''stop'') sample_post sample_stoppable)
    = sample_stoppable\<lparr>ns_shutdown := Some True\<rparr>"
  by (simp add: serve_def admit_def sample_post_def guard_of_def authenticated_paths_def auth_middleware_def
      sample_server_def expected_credentials_def rpc_config_default_def nostr_config_default_def handle_request_def
      sample_call_def json_rpc_def dispatch_rpc_def Let_def rpc_stop_def trigger_shutdown_def sample_stoppable_def
      del: fst_conv split: prod.split) simp

lemma sample_shared: "wallet_shared sample_stoppable"
  by (simp add: wallet_shared_def sample_stoppable_def sample_node_def node_state_new_def sample_manager_def sample_world_def)



text \<open>A node with two blocks of which the kernel reports the same height.\<close>

definition sample_getblock_env ::
    "(hash list, ldk_event list, sample_db, nat, bool, nat, string,
      (string \<times> ip_addr list) option, event_builder list) rpc_env" where
  "sample_getblock_env =
    (sample_rpc_env JNull)\<lparr>re_kernel := sample_kernel\<lparr>kn_read_block := \<lambda>k e. Inr [of_int (fst e) + 7]\<rparr>\<rparr>"

theorem getblock_by_height_witness:
  "\<exists>s1 s2. s1 \<noteq> s2 \<and> rpc_getblock sample_getblock_env (sample_wallet_node (sample_engine [0, 1])) (raw_params s1) =
    rpc_getblock sample_getblock_env (sample_wallet_node (sample_engine [0, 1])) (raw_params s2)"
proof -
  define b1 b2 where b: "b1 = rev (hash_bytes (0 :: hash))" "b2 = rev (hash_bytes (1 :: hash))"
  have l: "length b1 = 32" "length b2 = 32" and h: "hash_of_bytes (rev b1) = 0" "hash_of_bytes (rev b2) = 1"
    by (simp_all add: b)
  have c: "ns_consensus (sample_wallet_node (sample_engine [0, 1])) = Some (sample_engine [0, 1])"
    by (simp add: sample_wallet_node_def)
  have u: "rc_unhex (re_codec sample_getblock_env) (from_bytes b) = Some b" for b
    by (simp add: sample_getblock_env_def sample_rpc_env_def sample_rpc_codec_def)
  have g: "\<exists>i. get_block_by_hash (re_kernel sample_getblock_env) (sample_engine [0, 1]) x = Some i \<and> bi_height i = 0"
    if "x \<in> {0, 1}" for x
    using that by (auto simp: get_block_by_hash_def sample_getblock_env_def sample_kernel_def sample_engine_def
        block_tree_entry_to_info_def)
  obtain i1 i2 where i: "get_block_by_hash (re_kernel sample_getblock_env) (sample_engine [0, 1]) (hash_of_bytes (rev b1)) = Some i1"
      "get_block_by_hash (re_kernel sample_getblock_env) (sample_engine [0, 1]) (hash_of_bytes (rev b2)) = Some i2"
      "bi_height i1 = bi_height i2"
    using g [of 0] g [of 1] unfolding h by auto
  have "b1 \<noteq> b2"
    using h by auto
  then have "from_bytes b1 \<noteq> from_bytes b2"
    using u by (metis option.inject)
  then show ?thesis
    using getblock_by_height [OF c u l(1) u l(2) i] by blast
qed

end
