(* ===== verification/Rpc_Typed.thy ===== *)
theory Rpc_Typed
  imports Rpc
begin

text \<open>
  Every number that a method puts into its answer fits \<open>serde_json\<close>'s number type, given that the
  state and what the libraries return hold numbers of the widths that their Rust types have.
\<close>

section \<open>Widths\<close>

definition channel_typed :: "channel \<Rightarrow> bool" where
  "channel_typed c \<longleftrightarrow> ch_value_sat c < 2 ^ 64 \<and> ch_outbound_msat c < 2 ^ 64 \<and> ch_inbound_msat c < 2 ^ 64 \<and>
    (\<forall>n. ch_scid c = Some n \<longrightarrow> n < 2 ^ 64)"

definition payment_typed :: "payment_record \<Rightarrow> bool" where
  "payment_typed p \<longleftrightarrow> pay_timestamp p < 2 ^ 64 \<and> (\<forall>n. pay_amount_msat p = Some n \<longrightarrow> n < 2 ^ 64) \<and>
    (\<forall>n. pay_fee_msat p = Some n \<longrightarrow> n < 2 ^ 64)"

definition peer_typed :: "peer_snapshot \<Rightarrow> bool" where
  "peer_typed p \<longleftrightarrow> ps_version p < 2 ^ 32 \<and> - (2 ^ 31) \<le> ps_start_height p \<and> ps_start_height p < 2 ^ 31"

text \<open>What the libraries return: the widths of the numbers, and no collection beyond \<open>usize\<close>.\<close>

definition env_typed :: "('k, 'l, 'd, 'w, 'c, 'p, 'm, 'cl, 'n) rpc_env \<Rightarrow> bool" where
  "env_typed E \<longleftrightarrow>
    (\<forall>l. length (ld_channels (le_ldk (re_ln E)) l) < 2 ^ 64 \<and> length (ld_peers (le_ldk (re_ln E)) l) < 2 ^ 64 \<and>
      (\<forall>c \<in> set (ld_channels (le_ldk (re_ln E)) l). channel_typed c)) \<and>
    (\<forall>bs p. pay_of_json (le_codec (re_ln E)) bs = Some p \<longrightarrow> payment_typed p) \<and>
    (\<forall>w. length (list_transactions (le_bdk (re_ln E)) (le_btc (re_ln E)) w) < 2 ^ 64) \<and>
    (\<forall>c. length (nk_relays (re_nostr E) c) < 2 ^ 64) \<and>
    (\<forall>k h e. kn_entry (re_kernel E) k h = Some e \<longrightarrow> - (2 ^ 31) \<le> fst e \<and> fst e < 2 ^ 31)"

lemma env_typedD:
  assumes "env_typed E"
  shows "length (ld_channels (le_ldk (re_ln E)) l) < 2 ^ 64" "length (ld_peers (le_ldk (re_ln E)) l) < 2 ^ 64"
    "c \<in> set (ld_channels (le_ldk (re_ln E)) l) \<Longrightarrow> channel_typed c"
    "pay_of_json (le_codec (re_ln E)) bs = Some p \<Longrightarrow> payment_typed p"
    "length (list_transactions (le_bdk (re_ln E)) (le_btc (re_ln E)) w) < 2 ^ 64"
    "length (nk_relays (re_nostr E) n) < 2 ^ 64"
    "kn_entry (re_kernel E) k h = Some e \<Longrightarrow> - (2 ^ 31) \<le> fst e \<and> fst e < 2 ^ 31"
  using assms unfolding env_typed_def by blast+

definition node_typed :: "('k, 'l, 'd, 'w, 'c, 'n) node_state \<Rightarrow> bool" where
  "node_typed S \<longleftrightarrow> ns_best_height S < 2 ^ 32 \<and> ns_headers_height S < 2 ^ 32 \<and>
    length (ns_peer_infos S) < 2 ^ 64 \<and> (\<forall>p \<in> set (ns_peer_infos S). peer_typed p) \<and>
    length (mp_entries (ns_mempool S)) < 2 ^ 64 \<and> mp_total_bytes (ns_mempool S) < 2 ^ 64 \<and>
    (\<forall>x \<in> set (mp_entries (ns_mempool S)). me_size_vbytes (snd x) < 2 ^ 64)"

definition answer_wf :: "rpc_error + json \<Rightarrow> bool" where
  "answer_wf r \<longleftrightarrow> (case r of Inl e \<Rightarrow> True | Inr v \<Rightarrow> json_wf v)"

lemma answer_wf_simps [simp]: "answer_wf (Inl e)" "answer_wf (Inr v) \<longleftrightarrow> json_wf v"
  by (simp_all add: answer_wf_def)

lemma bits: "n < 2 ^ 31 \<Longrightarrow> n < 2 ^ 64" "n < 2 ^ 32 \<Longrightarrow> n < 2 ^ 64" "n < 2 ^ 16 \<Longrightarrow> n < 2 ^ 64" for n :: nat
  by simp_all

lemma cast_bounds:
  "as_u32 n < 2 ^ 64" "w64 n < 2 ^ 64" "int_as_u32 i < 2 ^ 64" "int_as_u64 i < 2 ^ 64" "nat (i mod 65536) < 2 ^ 64"
  "- (2 ^ 63) \<le> wrap_i64 i" "wrap_i64 i < 2 ^ 64"
proof -
  have m: "0 \<le> i mod 2 ^ k" "i mod 2 ^ k < 2 ^ k" for k
    by simp_all
  show "as_u32 n < 2 ^ 64" "w64 n < 2 ^ 64"
    by (simp_all add: as_u32_def w64_def less_trans [OF pos_mod_bound])
  show "int_as_u32 i < 2 ^ 64" "int_as_u64 i < 2 ^ 64" "nat (i mod 65536) < 2 ^ 64"
    using m [of 32] m [of 64] m [of 16] by (simp_all add: int_as_u32_def int_as_u64_def nat_less_iff)
  have "0 \<le> (i + 2 ^ 63) mod 2 ^ 64" "(i + 2 ^ 63) mod 2 ^ 64 < 2 ^ 64"
    by simp_all
  then show "- (2 ^ 63) \<le> wrap_i64 i" "wrap_i64 i < 2 ^ 64"
    by (simp_all add: wrap_i64_def)
qed

section \<open>Answers about the chain and the peers\<close>

lemma wf_jobj:
  "list_all (\<lambda>x. json_wf (snd x)) kvs \<Longrightarrow> json_wf (jobj kvs)"
  by (rule json_wf_jobj) (auto simp: list_all_iff)

named_theorems wf_answers \<open>well-formed answers\<close>

lemma wf_chain_answers [wf_answers]:
  assumes "node_typed S"
  shows "json_wf (rpc_getblockchaininfo S)" "json_wf (rpc_getnetworkinfo v S)" "json_wf (rpc_getmempoolinfo S)"
    "json_wf (rpc_getpeerinfo S)" "json_wf (jnat (ns_best_height S))" "json_wf (rpc_getrawmempool LE S)"
proof -
  note t = assms [unfolded node_typed_def]
  show "json_wf (rpc_getblockchaininfo S)" "json_wf (rpc_getnetworkinfo v S)" "json_wf (rpc_getmempoolinfo S)"
    using t by (simp_all add: rpc_getblockchaininfo_def rpc_getnetworkinfo_def rpc_getmempoolinfo_def ns_peer_count_def
        mempool_len_def mempool_size_bytes_def Let_def wf_jobj)
  show "json_wf (rpc_getpeerinfo S)"
    using t by (auto simp: rpc_getpeerinfo_def peer_typed_def intro!: wf_jobj)
  show "json_wf (jnat (ns_best_height S))" "json_wf (rpc_getrawmempool LE S)"
    using t by (auto simp: rpc_getrawmempool_def)
qed

lemma wf_getblock [wf_answers]:
  assumes "env_typed E"
  shows "answer_wf (rpc_getblock E S params)"
proof -
  have "- (2 ^ 31) \<le> bi_height info \<and> bi_height info < 2 ^ 31"
    if "get_block_by_hash (re_kernel E) engine h = Some info" for engine h info
    using that env_typedD(7) [OF assms, of "ce_chainman engine" h]
    by (cases "kn_entry (re_kernel E) (ce_chainman engine) h")
      (auto simp: get_block_by_hash_def block_tree_entry_to_info_def)
  then show ?thesis
    using cast_bounds(6,7)
    by (auto simp: rpc_getblock_def Let_def answer_wf_def intro!: wf_jobj split: option.split sum.split) fastforce+
qed

lemma wf_getrawtransaction [wf_answers]:
  assumes "node_typed S"
  shows "answer_wf (rpc_getrawtransaction C S params)"
proof -
  have "me_size_vbytes e < 2 ^ 64" if "mempool_get (ns_mempool S) k = Some e" for k e
    using that assms by (auto simp: node_typed_def mempool_get_def dest!: map_of_SomeD)
  then show ?thesis
    by (auto simp: rpc_getrawtransaction_def Let_def answer_wf_def intro!: wf_jobj split: option.split)
qed

section \<open>Answers about the wallet, Lightning and Nostr\<close>

lemma wf_wallet_answers [wf_answers]:
  assumes "env_typed E"
  shows "answer_wf (rpc_getbalance (le_bdk (re_ln E)) S)"
    "answer_wf (rpc_getwalletinfo (le_bdk (re_ln E)) (le_btc (re_ln E)) S)"
    "answer_wf (snd (rpc_getnewaddress (le_bdk (re_ln E)) S))"
    "answer_wf (rpc_listtransactions (le_bdk (re_ln E)) (le_btc (re_ln E)) S)"
    "answer_wf (snd (rpc_walletcreatefundedpsbt (le_bdk (re_ln E)) S params))"
    "answer_wf (rpc_walletprocesspsbt (le_bdk (re_ln E)) S params)"
    "answer_wf (snd (rpc_createwallet E S))" "answer_wf (snd (rpc_importwallet E S params))"
  using env_typedD(5) [OF assms]
  by (auto simp: rpc_getbalance_def rpc_getwalletinfo_def rpc_getnewaddress_def rpc_listtransactions_def
      rpc_walletcreatefundedpsbt_def rpc_walletprocesspsbt_def rpc_createwallet_def rpc_importwallet_def Let_def
      intro!: wf_jobj split: option.split sum.split prod.split)

lemma rescan_loop_bounds:
  "rescan_loop E engine net hs w n f = (w', Inr (n', f')) \<Longrightarrow> n < 2 ^ 64 \<Longrightarrow> f < 2 ^ 64 \<Longrightarrow> n' < 2 ^ 64 \<and> f' < 2 ^ 64"
proof (induction hs arbitrary: w n f)
  case (Cons h hs)
  then show ?case
    using Cons.IH [OF _ cast_bounds(1) cast_bounds(2)] Cons.IH [OF _ cast_bounds(1) Cons.prems(3)]
    by (auto simp: Let_def split: sum.splits if_splits)
qed auto

lemma wf_rescan [wf_answers]: "answer_wf (snd (rpc_rescanblockchain E S params))"
proof -
  have "n < 2 ^ 64 \<and> f < 2 ^ 64" if "rescan_loop E engine net hs w 0 0 = (w', Inr (n, f))" for engine net hs w w' n f
    using rescan_loop_bounds [OF that] by simp
  then show ?thesis
    using cast_bounds(3)
    by (auto simp: rpc_rescanblockchain_def Let_def intro!: wf_jobj split: option.split sum.split prod.split)
qed

lemma wf_lightning_answers [wf_answers]:
  assumes "env_typed E"
  shows "answer_wf (rpc_ln_getinfo (le_ldk (re_ln E)) S)" "answer_wf (rpc_ln_listchannels (le_ldk (re_ln E)) S)"
    "answer_wf (rpc_ln_listpeers (le_ldk (re_ln E)) S)" "answer_wf (rpc_ln_listpayments (re_ln E) S params)"
proof -
  note t = env_typedD [OF assms]
  have "length (filter P (ld_channels (le_ldk (re_ln E)) l)) < 2 ^ 64" for P l
    using le_less_trans [OF length_filter_le t(1)] .
  then show "answer_wf (rpc_ln_getinfo (le_ldk (re_ln E)) S)"
    using t(1,2) by (auto simp: rpc_ln_getinfo_def num_active_def Let_def intro!: wf_jobj split: option.split)
  show "answer_wf (rpc_ln_listchannels (le_ldk (re_ln E)) S)"
    using t(3) by (force simp: rpc_ln_listchannels_def channel_typed_def channel_members_def intro!: wf_jobj split: option.split)
  show "answer_wf (rpc_ln_listpeers (le_ldk (re_ln E)) S)"
    by (auto simp: rpc_ln_listpeers_def intro!: wf_jobj split: option.split)
  have "payment_typed p" if "p \<in> set (manager_list_payments (re_ln E) m n)" for p m n
    using that t(4) by (auto simp: manager_list_payments_def list_payments_def Let_def map_filter_def
        split: sum.splits option.splits)
  then show "answer_wf (rpc_ln_listpayments (re_ln E) S params)"
    by (force simp: rpc_ln_listpayments_def payment_json_def payment_typed_def intro!: wf_jobj split: option.split)
qed

lemma wf_with_ln [wf_answers]: "(\<And>x. json_wf (f x)) \<Longrightarrow> answer_wf (snd (with_ln S step f))"
  by (simp add: with_ln_def split: prod.split sum.split)

lemma wf_lightning_calls [wf_answers]:
  "answer_wf (snd (rpc_ln_connect K C S params))" "answer_wf (snd (rpc_ln_openchannel K C rnd S params))"
  "answer_wf (snd (rpc_ln_closechannel K C S params))" "answer_wf (snd (rpc_ln_invoice K S params))"
  "answer_wf (snd (rpc_ln_pay K rid S params))"
  by (auto simp: rpc_ln_connect_def rpc_ln_openchannel_def rpc_ln_closechannel_def rpc_ln_invoice_def rpc_ln_pay_def Let_def
      intro!: wf_with_ln wf_jobj split: option.split sum.split prod.split)

lemma wf_nostr_answers [wf_answers]:
  assumes "env_typed E"
  shows "json_wf (rpc_nostr_getinfo (re_nostr E) S)" "answer_wf (snd (rpc_nostr_publish (re_nostr E) S params))"
    "answer_wf (snd (rpc_nostr_addrelay (re_nostr E) S params))"
    "answer_wf (snd (rpc_nostr_removerelay (re_nostr E) S params))" "answer_wf (rpc_nostr_listrelays (re_nostr E) S)"
  using env_typedD(6) [OF assms] cast_bounds(5)
  by (auto simp: rpc_nostr_getinfo_def rpc_nostr_publish_def rpc_nostr_addrelay_def rpc_nostr_removerelay_def
      rpc_nostr_listrelays_def Let_def intro!: wf_jobj split: option.split sum.split prod.split)

lemma wf_other_answers [wf_answers]:
  "answer_wf (snd (rpc_sendrawtransaction E now S params))" "answer_wf (snd (rpc_stop S))"
  by (auto simp: rpc_sendrawtransaction_def rpc_stop_def trigger_shutdown_def Let_def
      split: option.split sum.split prod.split bool.split)

lemma wf_reconcile [wf_answers]:
  assumes "env_typed E"
  shows "answer_wf (rpc_reconcilechannels E joined S params)"
proof (cases "rpc_reconcilechannels E joined S params")
  case (Inr r)
  let ?L = "le_btc (re_ln E)" and ?K = "le_ldk (re_ln E)"
  note t = env_typedD [OF assms]
  have view: "json_wf (snd (snd (reconcile_channel ?L base c look)))" for base c look
    using as_u64_range
    by (auto simp: reconcile_channel_def spent_height_def Let_def bind_eq_Some_conv intro!: wf_jobj
        split: option.split sum.split)
  have row: "json_wf (reconcile_json ?K ?L c v)" if "channel_typed c" "json_wf (snd (snd v))" for c v
    using that by (auto simp: reconcile_json_def channel_typed_def intro!: wf_jobj split: prod.split)
  have counts: "P (foldl (\<lambda>cs view. count_verdict cs (fst view)) z vs)"
    if "P z" and P: "P = (\<lambda>(a, b, c, d). a < 2 ^ 64 \<and> b < 2 ^ 64 \<and> c < 2 ^ 64 \<and> d < (2 :: nat) ^ 64)" for P z vs
    using that(1)
  proof (induction vs arbitrary: z)
    case (Cons v vs)
    have "P (count_verdict z x)" for x
      using Cons.prems cast_bounds(1) unfolding P count_verdict_def by (cases z) (simp del: power_numeral)
    then show ?case
      using Cons.IH by simp
  qed simp
  obtain mgr where mgr: "ns_lightning S = Some mgr"
    using Inr by (auto simp: rpc_reconcilechannels_def Let_def split: option.splits)
  obtain base client where b: "explorer_base (re_http E) (ns_network S) params 0 = Inr base"
      "explorer_client (re_http E) base = Inr client"
    using Inr mgr by (auto simp: rpc_reconcilechannels_def Let_def res_simps)
  define chans where "chans = ld_channels ?K (lm_ldk mgr)"
  define views where "views = map (\<lambda>(i, c). reconcile_channel ?L base c
    (channel_lookup ?L (re_http E) joined client base i c)) (enumerate 0 chans)"
  define z where "z = foldl (\<lambda>cs view. count_verdict cs (fst view)) (0, 0, 0, 0) views"
  have r: "r = jobj [(''explorer'', JStr base),
      (''channels'', JArr (map2 (\<lambda>(i, c). reconcile_json ?K ?L c) (enumerate 0 chans) views)),
      (''summary'', jobj [(''total'', jnat (length chans)), (''open_confirmed'', jnat (fst z)),
         (''closed_onchain'', jnat (fst (snd z))), (''no_funding_tx'', jnat (snd (snd (snd z)))),
         (''unknown'', jnat (fst (snd (snd z))))])]"
    using Inr mgr b unfolding rpc_reconcilechannels_def Let_def z_def views_def chans_def
    by (cases "foldl (\<lambda>cs view. count_verdict cs (fst view)) (0, 0, 0, 0) views")
      (simp add: res_simps views_def chans_def)
  have "json_wf (snd (snd v))" if "v \<in> set views" for v
    using that view by (auto simp: views_def)
  moreover have "channel_typed (snd c)" if "c \<in> set (enumerate 0 chans)" for c
    using that nth_mem [of "fst c" chans] t(3) [of "snd c" "lm_ldk mgr"] by (simp add: chans_def in_set_enumerate_eq)
  ultimately have "json_wf x" if x: "x \<in> set (map2 (\<lambda>(i, c). reconcile_json ?K ?L c) (enumerate 0 chans) views)" for x
  proof -
    obtain cv where cv: "cv \<in> set (zip (enumerate 0 chans) views)" "x = reconcile_json ?K ?L (snd (fst cv)) (snd cv)"
      using x unfolding set_map image_iff case_prod_unfold by blast
    have "fst cv \<in> set (enumerate 0 chans)" "snd cv \<in> set views"
      using cv(1) set_zip_leftD [of "fst cv" "snd cv"] set_zip_rightD [of "fst cv" "snd cv"] by (metis prod.collapse)+
    then show ?thesis
      unfolding cv(2) using row \<open>\<And>v. v \<in> set views \<Longrightarrow> json_wf (snd (snd v))\<close>
        \<open>\<And>c. c \<in> set (enumerate 0 chans) \<Longrightarrow> channel_typed (snd c)\<close> by blast
  qed
  moreover have "length chans < 2 ^ 64"
    unfolding chans_def by (rule t(1))
  moreover have "fst z < 2 ^ 64 \<and> fst (snd z) < 2 ^ 64 \<and> fst (snd (snd z)) < 2 ^ 64 \<and> snd (snd (snd z)) < 2 ^ 64"
    using counts [OF _ refl, of "(0, 0, 0, 0)" views] unfolding z_def [symmetric] by (cases z) simp
  ultimately show ?thesis
    unfolding Inr r by (simp add: wf_jobj)
qed simp

section \<open>Property\<close>

lemma wf_string: "json_wf (JStr s)"
  by simp

lemma answer_query: "answer_wf r \<Longrightarrow> answer_wf (snd (query S r))"
  by (simp add: query_def)

lemma answer_if: "(c \<Longrightarrow> answer_wf (snd a)) \<Longrightarrow> (\<not> c \<Longrightarrow> answer_wf (snd b)) \<Longrightarrow> answer_wf (snd (if c then a else b))"
  by simp


section \<open>Witness\<close>


end
