(* ===== verification/Node_Prune.thy ===== *)
theory Node_Prune
  imports Explorer "HOL-Library.Multiset"
begin

text \<open>
  \<open>prune_block_files\<close> of \<open>wolfe-node/src/main.rs\<close>. The kernel's block directory is the list of its
  files with their sizes, in the order in which it is read; a call of the file system may fail.
\<close>

section \<open>Names of block files\<close>

definition parse_u32 :: "string \<Rightarrow> nat option" where
  "parse_u32 s =
    (let ds = (case s of [] \<Rightarrow> [] | c # cs \<Rightarrow> if c = CHR ''+'' then cs else s) in
     if ds = [] \<or> (\<exists>c \<in> set ds. digit_value 10 c = None) then None
     else let n = foldl (\<lambda>a c. a * 10 + the (digit_value 10 c)) 0 ds in
       if n < 2 ^ 32 then Some n else None)"

definition pad5 :: "nat \<Rightarrow> string" where
  "pad5 n = (let s = show_nat n in replicate (5 - length s) (CHR ''0'') @ s)"

definition blk_name :: "nat \<Rightarrow> string" where
  "blk_name n = ''blk'' @ pad5 n @ ''.dat''"

definition rev_name :: "nat \<Rightarrow> string" where
  "rev_name n = ''rev'' @ pad5 n @ ''.dat''"

text \<open>\<open>starts_with\<close>, \<open>ends_with\<close>, and the number between.\<close>

definition blk_number :: "string \<Rightarrow> nat option" where
  "blk_number s =
    (if take 3 s = ''blk'' \<and> drop (length s - 4) s = ''.dat''
     then parse_u32 (take (length s - 4 - 3) (drop 3 s)) else None)"

section \<open>Pruning\<close>

type_synonym dir = "(string \<times> nat) list"

record fs_faults =
  ff_read_dir :: "string option"
  ff_metadata :: "string \<Rightarrow> string option"
  ff_create :: "string \<Rightarrow> string option"

definition no_faults :: fs_faults where
  "no_faults = \<lparr>ff_read_dir = None, ff_metadata = (\<lambda>s. None), ff_create = (\<lambda>s. None)\<rparr>"

text \<open>The non-empty block files and the size of everything.\<close>

fun scan_dir :: "fs_faults \<Rightarrow> dir \<Rightarrow> (nat \<times> nat) list \<Rightarrow> nat \<Rightarrow> string + (nat \<times> nat) list \<times> nat" where
  "scan_dir F [] blk_files total_bytes = Inr (blk_files, total_bytes)"
| "scan_dir F ((name, sz) # es) blk_files total_bytes =
    (case ff_metadata F name of
       Some e \<Rightarrow> Inl e
     | None \<Rightarrow>
         scan_dir F es
           (case blk_number name of Some num \<Rightarrow> if 0 < sz then blk_files @ [(num, sz)] else blk_files | None \<Rightarrow> blk_files)
           (w64 (total_bytes + sz)))"

definition file_size :: "fs_faults \<Rightarrow> dir \<Rightarrow> string \<Rightarrow> nat option" where
  "file_size F d name = (if ff_metadata F name = None then map_of d name else None)"

text \<open>\<open>File::create\<close> on an existing file leaves it empty.\<close>

definition truncate_file :: "fs_faults \<Rightarrow> dir \<Rightarrow> string \<Rightarrow> dir \<times> string option" where
  "truncate_file F d name =
    (case ff_create F name of Some e \<Rightarrow> (d, Some e) | None \<Rightarrow> (AList.update name 0 d, None))"

fun prune_loop :: "fs_faults \<Rightarrow> nat \<Rightarrow> (nat \<times> nat) list \<Rightarrow> nat \<Rightarrow> dir \<Rightarrow> dir \<times> (string + nat)" where
  "prune_loop F excess [] freed d = (d, Inr freed)"
| "prune_loop F excess ((num, blk_size) # fs) freed d =
    (if excess \<le> freed then (d, Inr freed)
     else
       case (if file_size F d (blk_name num) = None then ((d, None), 0)
             else (truncate_file F d (blk_name num), blk_size)) of
         ((d, Some e), _) \<Rightarrow> (d, Inl e)
       | ((d, None), pair_freed) \<Rightarrow>
           (let rev_size = (case file_size F d (rev_name num) of Some sz \<Rightarrow> sz | None \<Rightarrow> 0) in
            case (if 0 < rev_size then truncate_file F d (rev_name num) else (d, None)) of
              (d, Some e) \<Rightarrow> (d, Inl e)
            | (d, None) \<Rightarrow> prune_loop F excess fs (w64 (freed + w64 (pair_freed + rev_size))) d))"

definition prune_block_files :: "fs_faults \<Rightarrow> dir \<Rightarrow> nat \<Rightarrow> dir \<times> (string + unit)" where
  "prune_block_files F d target_bytes =
    (case ff_read_dir F of
       Some e \<Rightarrow> (d, Inl e)
     | None \<Rightarrow>
         (case scan_dir F d [] 0 of
            Inl e \<Rightarrow> (d, Inl e)
          | Inr (blk_files, total_bytes) \<Rightarrow>
              if total_bytes \<le> target_bytes then (d, Inr ())
              else
                (let blk_files = sort_key fst blk_files;
                     prunable = length blk_files - 10
                 in if prunable = 0 then (d, Inr ())
                    else
                      (case prune_loop F (total_bytes - target_bytes) (take prunable blk_files) 0 d of
                         (d, Inl e) \<Rightarrow> (d, Inl e)
                       | (d, Inr freed) \<Rightarrow> (d, Inr ())))))"

text \<open>One run of the task: the target is configured in MiB.\<close>

definition prune_target_bytes :: "nat \<Rightarrow> nat" where
  "prune_target_bytes mb = w64 (mb * 1024 * 1024)"

section \<open>Facts\<close>

definition dir_size :: "dir \<Rightarrow> nat" where
  "dir_size d = sum_list (map snd d)"

definition blk_entry :: "string \<times> nat \<Rightarrow> (nat \<times> nat) option" where
  "blk_entry e = (if 0 < snd e then map_option (\<lambda>n. (n, snd e)) (blk_number (fst e)) else None)"

definition blk_files_of :: "dir \<Rightarrow> (nat \<times> nat) list" where
  "blk_files_of d = sort_key fst (List.map_filter blk_entry d)"

definition prunable_files :: "dir \<Rightarrow> (nat \<times> nat) list" where
  "prunable_files d = take (length (blk_files_of d) - 10) (blk_files_of d)"

text \<open>A directory as the kernel writes it: names are distinct and padded to five digits.\<close>

definition kernel_dir :: "dir \<Rightarrow> bool" where
  "kernel_dir d \<longleftrightarrow> distinct (map fst d) \<and> dir_size d < 2 ^ 64 \<and>
    (\<forall>e \<in> set d. case blk_number (fst e) of Some n \<Rightarrow> fst e = blk_name n | None \<Rightarrow> True)"

lemma scan_dir_Inr:
  assumes "scan_dir F d bs t = Inr (bs', t')"
  shows "bs' = bs @ List.map_filter blk_entry d \<and>
    (t + dir_size d < 2 ^ 64 \<longrightarrow> t' = t + dir_size d) \<and> (\<forall>name \<in> fst ` set d. ff_metadata F name = None)"
  using assms
proof (induction d arbitrary: bs t)
  case (Cons x d)
  obtain name sz where x: "x = (name, sz)"
    by (cases x)
  have w: "w64 (t + sz) + dir_size d = t + (sz + dir_size d)" if "t + (sz + dir_size d) < 2 ^ 64"
    using that by (simp add: w64_def)
  have m: "ff_metadata F name = None"
    using Cons.prems by (simp add: x split: option.splits)
  show ?case
  proof (cases "blk_number name")
    case None
    then have "scan_dir F d bs (w64 (t + sz)) = Inr (bs', t')"
      using Cons.prems m by (simp add: x)
    from Cons.IH [OF this] show ?thesis
      using w None m by (auto simp: x dir_size_def map_filter_simps blk_entry_def)
  next
    case (Some n)
    then have "scan_dir F d (if 0 < sz then bs @ [(n, sz)] else bs) (w64 (t + sz)) = Inr (bs', t')"
      using Cons.prems m by (simp add: x)
    from Cons.IH [OF this] show ?thesis
      using w Some m by (auto simp: x dir_size_def map_filter_simps blk_entry_def)
  qed
qed (simp_all add: dir_size_def map_filter_simps)

lemma update_existing:
  "map_of d name = Some sz \<Longrightarrow> map fst (AList.update name 0 d) = map fst d \<and>
    dir_size (AList.update name 0 d) + sz = dir_size d"
  by (induction d) (auto simp: dir_size_def split: if_splits)

lemma names_differ: "blk_name n \<noteq> rev_name m" "rev_name m \<noteq> blk_name n"
  by (simp_all add: blk_name_def rev_name_def)

text \<open>What a run of the loop leaves: some of its files empty, everything else as it was.\<close>

definition emptied :: "(nat \<times> nat) list \<Rightarrow> dir \<Rightarrow> dir \<Rightarrow> bool" where
  "emptied fs d d' \<longleftrightarrow> map fst d' = map fst d \<and>
    (\<forall>name. map_of d' name = map_of d name \<or>
      map_of d' name = Some 0 \<and> map_of d name \<noteq> None \<and> (\<exists>x \<in> set fs. name \<in> {blk_name (fst x), rev_name (fst x)}))"

lemma emptied_refl: "emptied fs d d"
  by (simp add: emptied_def)

lemma emptied_trans: "emptied fs d d1 \<Longrightarrow> emptied fs d1 d2 \<Longrightarrow> emptied fs d d2"
  unfolding emptied_def by (metis option.distinct(1))

lemma emptied_mono: "emptied fs d d' \<Longrightarrow> set fs \<subseteq> set fs' \<Longrightarrow> emptied fs' d d'"
  unfolding emptied_def by blast

lemma emptied_truncate:
  assumes "truncate_file F d name = (d', r)" "map_of d name \<noteq> None" "x \<in> set fs" "name \<in> {blk_name (fst x), rev_name (fst x)}"
  shows "emptied fs d d'"
proof -
  have "d' = d \<or> d' = AList.update name 0 d"
    using assms(1) by (auto simp: truncate_file_def split: option.splits)
  moreover have "emptied fs d (AList.update name 0 d)"
    using assms(2-4) update_existing [of d name] unfolding emptied_def update_conv
    by (auto simp: fun_upd_def)
  ultimately show ?thesis
    using emptied_refl by blast
qed

text \<open>One round of the loop.\<close>

definition prune_blk :: "fs_faults \<Rightarrow> dir \<Rightarrow> nat \<times> nat \<Rightarrow> (dir \<times> string option) \<times> nat" where
  "prune_blk F d x =
    (if file_size F d (blk_name (fst x)) = None then ((d, None), 0) else (truncate_file F d (blk_name (fst x)), snd x))"

definition rev_bytes :: "fs_faults \<Rightarrow> dir \<Rightarrow> nat \<Rightarrow> nat" where
  "rev_bytes F d num = (case file_size F d (rev_name num) of Some sz \<Rightarrow> sz | None \<Rightarrow> 0)"

definition prune_rev :: "fs_faults \<Rightarrow> dir \<Rightarrow> nat \<Rightarrow> dir \<times> string option" where
  "prune_rev F d num = (if 0 < rev_bytes F d num then truncate_file F d (rev_name num) else (d, None))"

lemma prune_loop_Cons:
  assumes "prune_blk F d x = ((d1, e1), pf)" "prune_rev F d1 (fst x) = (d2, e2)"
  shows "prune_loop F excess (x # fs) freed d =
    (if excess \<le> freed then (d, Inr freed)
     else case e1 of Some e \<Rightarrow> (d1, Inl e)
       | None \<Rightarrow> (case e2 of Some e \<Rightarrow> (d2, Inl e)
           | None \<Rightarrow> prune_loop F excess fs (w64 (freed + w64 (pf + rev_bytes F d1 (fst x)))) d2))"
  using assms by (cases x) (auto simp: prune_blk_def prune_rev_def rev_bytes_def Let_def split: option.split)

lemma emptied_round:
  assumes "prune_blk F d x = ((d1, e1), pf)" "prune_rev F d1 (fst x) = (d2, e2)"
  shows "emptied (x # fs) d d1" "emptied (x # fs) d d2"
proof -
  show 1: "emptied (x # fs) d d1"
    using assms(1) emptied_refl emptied_truncate [of F d "blk_name (fst x)" d1 e1 x "x # fs"]
    by (auto simp: prune_blk_def file_size_def split: if_splits)
  have "emptied (x # fs) d1 d2"
    using assms(2) emptied_refl emptied_truncate [of F d1 "rev_name (fst x)" d2 e2 x "x # fs"]
    by (auto simp: prune_rev_def rev_bytes_def file_size_def split: if_splits option.splits)
  with 1 show "emptied (x # fs) d d2"
    by (rule emptied_trans)
qed

lemma emptied_loop: "prune_loop F excess fs freed d = (d', r) \<Longrightarrow> emptied fs d d'"
proof (induction fs arbitrary: freed d)
  case (Cons x fs)
  obtain d1 e1 pf d2 e2 where r: "prune_blk F d x = ((d1, e1), pf)" "prune_rev F d1 (fst x) = (d2, e2)"
    by (metis surj_pair)
  note e = emptied_round [OF r]
  have "emptied (x # fs) d2 d'" if "prune_loop F excess fs n d2 = (d', r)" for n
    by (rule emptied_mono [OF Cons.IH [OF that]]) auto
  then show ?case
    using Cons.prems e emptied_trans [OF e(2)] emptied_refl unfolding prune_loop_Cons [OF r]
    by (auto split: if_splits option.splits)
qed (simp add: emptied_refl)

text \<open>What it frees: the loop stops when it has freed enough, or has emptied all of its files.\<close>

lemma truncate_size:
  assumes "truncate_file F d name = (d', None)" "map_of d name = Some sz"
  shows "dir_size d' + sz = dir_size d" "map_of d' name = Some 0"
  using assms update_existing [of d name sz] by (auto simp: truncate_file_def update_conv split: option.splits)

lemma round_size:
  assumes "prune_blk F d x = ((d1, None), pf)" "prune_rev F d1 (fst x) = (d2, None)"
    and has: "file_size F d (blk_name (fst x)) = Some (snd x)"
  shows "dir_size d2 + (pf + rev_bytes F d1 (fst x)) = dir_size d" "map_of d2 (blk_name (fst x)) = Some 0"
proof -
  have m: "map_of d (blk_name (fst x)) = Some (snd x)"
    using has by (simp add: file_size_def split: if_splits)
  have 1: "truncate_file F d (blk_name (fst x)) = (d1, None)" "pf = snd x"
    using assms(1) has by (simp_all add: prune_blk_def)
  note t1 = truncate_size [OF 1(1) m]
  have 2: "dir_size d2 + rev_bytes F d1 (fst x) = dir_size d1 \<and> map_of d2 (blk_name (fst x)) = Some 0"
  proof (cases "0 < rev_bytes F d1 (fst x)")
    case True
    then obtain sz where sz: "map_of d1 (rev_name (fst x)) = Some sz" "rev_bytes F d1 (fst x) = sz"
      by (auto simp: rev_bytes_def file_size_def split: option.splits if_splits)
    have t: "truncate_file F d1 (rev_name (fst x)) = (d2, None)"
      using assms(2) True by (simp add: prune_rev_def)
    then have "d2 = AList.update (rev_name (fst x)) 0 d1"
      by (simp add: truncate_file_def split: option.splits)
    then show ?thesis
      using truncate_size [OF t sz(1)] sz(2) t1(2) by (simp add: update_conv names_differ)
  next
    case False
    then show ?thesis
      using assms(2) t1(2) by (simp add: prune_rev_def)
  qed
  then show "dir_size d2 + (pf + rev_bytes F d1 (fst x)) = dir_size d" "map_of d2 (blk_name (fst x)) = Some 0"
    using t1(1) 1(2) by simp_all
qed

lemma loop_frees:
  assumes "prune_loop F excess fs freed d = (d', Inr n)" "dir_size d + freed < 2 ^ 64"
    and "distinct (map (blk_name \<circ> fst) fs)" "\<forall>x \<in> set fs. file_size F d (blk_name (fst x)) = Some (snd x)"
  shows "dir_size d' + n = dir_size d + freed \<and> (excess \<le> n \<or> (\<forall>x \<in> set fs. map_of d' (blk_name (fst x)) = Some 0))"
  using assms
proof (induction fs arbitrary: freed d)
  case (Cons x fs)
  show ?case
  proof (cases "excess \<le> freed")
    case True
    obtain d1 e1 pf d2 e2 where r: "prune_blk F d x = ((d1, e1), pf)" "prune_rev F d1 (fst x) = (d2, e2)"
      by (metis surj_pair)
    show ?thesis
      using Cons.prems(1) True unfolding prune_loop_Cons [OF r] by simp
  next
    case False
    obtain d1 e1 pf d2 e2 where r: "prune_blk F d x = ((d1, e1), pf)" "prune_rev F d1 (fst x) = (d2, e2)"
      by (metis surj_pair)
    let ?f = "w64 (freed + w64 (pf + rev_bytes F d1 (fst x)))"
    have e: "e1 = None" "e2 = None" and loop: "prune_loop F excess fs ?f d2 = (d', Inr n)"
      using Cons.prems(1) False unfolding prune_loop_Cons [OF r] by (auto split: option.splits)
    have sz: "dir_size d2 + (pf + rev_bytes F d1 (fst x)) = dir_size d" "map_of d2 (blk_name (fst x)) = Some 0"
      using round_size [OF r [unfolded e]] Cons.prems(4) by simp_all
    then have f: "?f = freed + (pf + rev_bytes F d1 (fst x))"
      using Cons.prems(2) by (simp add: w64_def)
    have files: "\<forall>y \<in> set fs. file_size F d2 (blk_name (fst y)) = Some (snd y)"
    proof
      fix y assume y: "y \<in> set fs"
      then have "blk_name (fst y) \<noteq> blk_name (fst x)"
        using Cons.prems(3) by (auto simp: image_iff)
      moreover have "emptied [x] d d2"
        using emptied_round(2) [OF r, of "[]"] .
      ultimately have "map_of d2 (blk_name (fst y)) = map_of d (blk_name (fst y))"
        unfolding emptied_def using names_differ by auto
      then have "file_size F d2 (blk_name (fst y)) = file_size F d (blk_name (fst y))"
        by (simp add: file_size_def)
      then show "file_size F d2 (blk_name (fst y)) = Some (snd y)"
        using Cons.prems(4) y by simp
    qed
    have "dir_size d2 + ?f < 2 ^ 64"
      using sz(1) Cons.prems(2) unfolding f by simp
    then have ih: "dir_size d' + n = dir_size d2 + ?f" "excess \<le> n \<or> (\<forall>x \<in> set fs. map_of d' (blk_name (fst x)) = Some 0)"
      using Cons.IH [OF loop _ _ files] Cons.prems(3) by simp_all
    have "map_of d' (blk_name (fst x)) = Some 0"
      using emptied_loop [OF loop] sz(2) unfolding emptied_def by metis
    then show ?thesis
      using ih sz(1) unfolding f by auto
  qed
qed simp

section \<open>The block files of a directory\<close>

lemma in_map_filter: "x \<in> set (List.map_filter f es) \<longleftrightarrow> (\<exists>e \<in> set es. f e = Some x)"
  by (induction es) (auto simp: map_filter_simps split: option.split)

lemma blk_entry_Some: "blk_entry e = Some x \<longleftrightarrow> 0 < snd e \<and> blk_number (fst e) = Some (fst x) \<and> snd x = snd e"
  by (cases x) (auto simp: blk_entry_def)

lemma kernel_dirD:
  assumes "kernel_dir d"
  shows "distinct (map fst d)" "dir_size d < 2 ^ 64" "e \<in> set d \<Longrightarrow> blk_number (fst e) = Some n \<Longrightarrow> fst e = blk_name n"
proof -
  show "distinct (map fst d)" "dir_size d < 2 ^ 64"
    using assms unfolding kernel_dir_def by blast+
  assume e: "e \<in> set d" "blk_number (fst e) = Some n"
  have "case blk_number (fst e) of Some n \<Rightarrow> fst e = blk_name n | None \<Rightarrow> True"
    using assms e(1) unfolding kernel_dir_def by blast
  then show "fst e = blk_name n"
    unfolding e(2) by simp
qed

lemma blk_files_member:
  assumes "kernel_dir d" "x \<in> set (blk_files_of d)"
  shows "map_of d (blk_name (fst x)) = Some (snd x)" "blk_number (blk_name (fst x)) = Some (fst x)" "0 < snd x"
proof -
  obtain name where n: "(name, snd x) \<in> set d" "blk_number name = Some (fst x)" "0 < snd x"
    using assms(2) unfolding blk_files_of_def set_sort in_map_filter blk_entry_Some by (metis prod.collapse)
  have name: "name = blk_name (fst x)"
    using kernel_dirD(3) [OF assms(1) n(1)] n(2) by (simp only: fst_conv)
  show "map_of d (blk_name (fst x)) = Some (snd x)"
    using kernel_dirD(1) [OF assms(1)] n(1) unfolding name by (rule map_of_is_SomeI)
  show "blk_number (blk_name (fst x)) = Some (fst x)" "0 < snd x"
    using n(2,3) unfolding name .
qed

lemma blk_files_distinct:
  assumes "kernel_dir d"
  shows "distinct (map fst (blk_files_of d))"
proof -
  have "distinct (map fst (List.map_filter blk_entry es))"
    if "distinct (map fst es)" "set es \<subseteq> set d" for es
    using that
  proof (induction es)
    case (Cons e es)
    have "fst x \<notin> fst ` set (List.map_filter blk_entry es)" if x: "blk_entry e = Some x" for x
    proof
      assume "fst x \<in> fst ` set (List.map_filter blk_entry es)"
      then obtain y where y: "y \<in> set (List.map_filter blk_entry es)" "fst y = fst x"
        by force
      from y(1) obtain m where "m \<in> set es" "blk_entry m = Some y"
        unfolding in_map_filter by blast
      with y(2) have m: "m \<in> set es" "blk_entry m = Some y" "fst y = fst x"
        by simp_all
      have in_d: "m \<in> set d" "e \<in> set d"
        using Cons.prems(2) m(1) by auto
      have "blk_number (fst m) = Some (fst x)" "blk_number (fst e) = Some (fst x)"
        using m(2,3) x by (simp_all add: blk_entry_Some)
      then have "fst m = fst e"
        using kernel_dirD(3) [OF assms in_d(1)] kernel_dirD(3) [OF assms in_d(2)] by metis
      then show False
        using Cons.prems(1) m(1) by (metis distinct.simps(2) image_eqI list.map(2) list.set_map)
    qed
    moreover have "distinct (map fst (List.map_filter blk_entry es))"
      using Cons by simp
    ultimately show ?case
      by (simp add: map_filter_simps split: option.split)
  qed (simp add: map_filter_simps)
  then have "distinct (map fst (List.map_filter blk_entry d))"
    using kernel_dirD(1) [OF assms] by blast
  then have "distinct (sort (map fst (List.map_filter blk_entry d)))"
    by simp
  moreover have "mset (map fst (blk_files_of d)) = mset (sort (map fst (List.map_filter blk_entry d)))"
    unfolding blk_files_of_def by simp
  ultimately show ?thesis
    using mset_eq_imp_distinct_iff by blast
qed

lemma names_injective:
  assumes "kernel_dir d" "x \<in> set (blk_files_of d)" "y \<in> set (blk_files_of d)" "fst x \<noteq> fst y"
  shows "blk_name (fst x) \<noteq> blk_name (fst y)" "rev_name (fst x) \<noteq> rev_name (fst y)"
proof -
  show 1: "blk_name (fst x) \<noteq> blk_name (fst y)"
    using blk_files_member(2) [OF assms(1,2)] blk_files_member(2) [OF assms(1,3)] assms(4) by auto
  have "rev_name (fst x) = rev_name (fst y) \<Longrightarrow> pad5 (fst x) = pad5 (fst y)"
    by (simp add: rev_name_def)
  with 1 show "rev_name (fst x) \<noteq> rev_name (fst y)"
    by (auto simp: blk_name_def)
qed

lemma prunable_subset: "set (prunable_files d) \<subseteq> set (blk_files_of d)"
  unfolding prunable_files_def by (auto dest: in_set_takeD)

lemma prunable_distinct:
  assumes d: "kernel_dir d"
  shows "distinct (map (blk_name \<circ> fst) (prunable_files d))"
proof -
  have "distinct (map fst (prunable_files d))"
    using blk_files_distinct [OF d] by (simp add: prunable_files_def take_map [symmetric] distinct_take)
  moreover have "inj_on blk_name (fst ` set (prunable_files d))"
    using names_injective(1) [OF d] prunable_subset [of d] by (auto simp: inj_on_def) blast
  ultimately show ?thesis
    by (simp add: distinct_map comp_inj_on)
qed

lemma prunable_size:
  assumes d: "kernel_dir d" and up: "\<forall>name \<in> fst ` set d. ff_metadata F name = None" and x: "x \<in> set (prunable_files d)"
  shows "file_size F d (blk_name (fst x)) = Some (snd x)"
proof -
  have m: "map_of d (blk_name (fst x)) = Some (snd x)"
    using x prunable_subset blk_files_member(1) [OF d] by blast
  then have "blk_name (fst x) \<in> fst ` set d"
    using map_of_SomeD by (metis fst_conv image_eqI)
  with up have "ff_metadata F (blk_name (fst x)) = None"
    by blast
  with m show ?thesis
    by (simp add: file_size_def)
qed

text \<open>A run changes nothing, or is the loop over the prunable files.\<close>

lemma prune_cases:
  assumes d: "kernel_dir d" and run: "prune_block_files F d target = (d', r)"
  obtains "d' = d" "r = Inr () \<longrightarrow> dir_size d \<le> target \<or> prunable_files d = []"
  | q where "prune_loop F (dir_size d - target) (prunable_files d) 0 d = (d', q)" "r = Inr () \<longrightarrow> (\<exists>n. q = Inr n)"
      "target < dir_size d" "\<forall>name \<in> fst ` set d. ff_metadata F name = None"
proof (cases "ff_read_dir F = None \<and> (\<exists>q. scan_dir F d [] 0 = Inr q)")
  case False
  then show ?thesis
    using that(1) run by (auto simp: prune_block_files_def split: option.splits sum.splits)
next
  case True
  then obtain bs t where sc: "scan_dir F d [] 0 = Inr (bs, t)" and rd: "ff_read_dir F = None"
    by auto
  have bs: "sort_key fst bs = blk_files_of d" "t = dir_size d" "\<forall>name \<in> fst ` set d. ff_metadata F name = None"
    using scan_dir_Inr [OF sc] kernel_dirD(2) [OF d] by (simp_all add: blk_files_of_def)
  have l: "length bs = length (blk_files_of d)"
    unfolding bs(1) [symmetric] by simp
  show ?thesis
  proof (cases "t \<le> target \<or> length bs - 10 = 0")
    case True
    then have "d' = d \<and> (t \<le> target \<or> prunable_files d = [])"
      using run sc rd bs(1) l by (auto simp: prune_block_files_def prunable_files_def Let_def split: if_splits)
    then show ?thesis
      using that(1) bs(2) by blast
  next
    case False
    obtain d2 q where loop: "prune_loop F (t - target) (take (length bs - 10) (sort_key fst bs)) 0 d = (d2, q)"
      by (cases "prune_loop F (t - target) (take (length bs - 10) (sort_key fst bs)) 0 d")
    have "prune_block_files F d target = (d2, case q of Inl e \<Rightarrow> Inl e | Inr n \<Rightarrow> Inr ())"
      using sc rd False by (simp add: prune_block_files_def Let_def loop split: sum.split)
    with run have "d2 = d'" "r = Inr () \<longrightarrow> (\<exists>n. q = Inr n)"
      by (auto split: sum.splits)
    with loop show ?thesis
      using that(2) False bs l by (simp add: prunable_files_def)
  qed
qed

lemma prune_outcome:
  assumes d: "kernel_dir d" and run: "prune_block_files F d target = (d', r)"
  shows "emptied (prunable_files d) d d'"
    and "r = Inr () \<longrightarrow> dir_size d' \<le> target \<or> (\<forall>x \<in> set (prunable_files d). map_of d' (blk_name (fst x)) = Some 0)"
proof -
  let ?fs = "prunable_files d"
  have "emptied ?fs d d' \<and> (r = Inr () \<longrightarrow> dir_size d' \<le> target \<or> (\<forall>x \<in> set ?fs. map_of d' (blk_name (fst x)) = Some 0))"
    using d run
  proof (cases rule: prune_cases)
    case 1
    then show ?thesis
      using emptied_refl by auto
  next
    case (2 q)
    have "dir_size d + 0 < 2 ^ 64"
      using kernel_dirD(2) [OF d] by simp
    then have "dir_size d' + n = dir_size d + 0 \<and>
        (dir_size d - target \<le> n \<or> (\<forall>x \<in> set ?fs. map_of d' (blk_name (fst x)) = Some 0))" if "q = Inr n" for n
      using loop_frees [of F "dir_size d - target" ?fs 0 d d' n] 2(1) prunable_size [OF d 2(4)] prunable_distinct [OF d] that
      by blast
    then show ?thesis
      using emptied_loop [OF 2(1)] 2(2,3) by fastforce
  qed
  then show "emptied ?fs d d'"
    "r = Inr () \<longrightarrow> dir_size d' \<le> target \<or> (\<forall>x \<in> set ?fs. map_of d' (blk_name (fst x)) = Some 0)"
    by blast+
qed

lemma newest_kept:
  assumes d: "kernel_dir d" and e: "emptied (prunable_files d) d d'"
    and x: "x \<in> set (drop (length (blk_files_of d) - 10) (blk_files_of d))"
  shows "map_of d' (blk_name (fst x)) = Some (snd x) \<and> map_of d' (rev_name (fst x)) = map_of d (rev_name (fst x))"
proof -
  have in_d: "x \<in> set (blk_files_of d)"
    using x by (rule in_set_dropD)
  have "blk_name (fst x) \<noteq> blk_name (fst y) \<and> rev_name (fst x) \<noteq> rev_name (fst y)" if y: "y \<in> set (prunable_files d)" for y
  proof -
    have "distinct (map fst (prunable_files d @ drop (length (blk_files_of d) - 10) (blk_files_of d)))"
      using blk_files_distinct [OF d] by (simp add: prunable_files_def)
    then have "fst x \<noteq> fst y"
      using x y by force
    with in_d y prunable_subset show ?thesis
      using names_injective [OF d] by blast
  qed
  moreover have "map_of d (blk_name (fst x)) = Some (snd x)"
    using blk_files_member(1) [OF d] in_d by blast
  ultimately show ?thesis
    using e names_differ unfolding emptied_def by (metis empty_iff insert_iff)
qed

section \<open>Property\<close>


section \<open>Witness\<close>

text \<open>Eleven block files of seven bytes: for a target of 70 bytes, the oldest one is emptied.\<close>

definition sample_dir :: dir where
  "sample_dir =
    [(''blk00000.dat'', 7), (''blk00001.dat'', 7), (''blk00002.dat'', 7), (''blk00003.dat'', 7),
     (''blk00004.dat'', 7), (''blk00005.dat'', 7), (''blk00006.dat'', 7), (''blk00007.dat'', 7),
     (''blk00008.dat'', 7), (''blk00009.dat'', 7), (''blk00010.dat'', 7)]"

lemma sample_numbers:
  "blk_number ''blk00000.dat'' = Some 0"
  "blk_number ''blk00001.dat'' = Some 1"
  "blk_number ''blk00002.dat'' = Some 2"
  "blk_number ''blk00003.dat'' = Some 3"
  "blk_number ''blk00004.dat'' = Some 4"
  "blk_number ''blk00005.dat'' = Some 5"
  "blk_number ''blk00006.dat'' = Some 6"
  "blk_number ''blk00007.dat'' = Some 7"
  "blk_number ''blk00008.dat'' = Some 8"
  "blk_number ''blk00009.dat'' = Some 9"
  "blk_number ''blk00010.dat'' = Some 10"
  by (simp_all add: blk_number_def parse_u32_def digit_value_def)

lemma digit_chars:
  "(char_of (48 :: nat) :: char) = CHR ''0''"
  "(char_of (49 :: nat) :: char) = CHR ''1''"
  "(char_of (50 :: nat) :: char) = CHR ''2''"
  "(char_of (51 :: nat) :: char) = CHR ''3''"
  "(char_of (52 :: nat) :: char) = CHR ''4''"
  "(char_of (53 :: nat) :: char) = CHR ''5''"
  "(char_of (54 :: nat) :: char) = CHR ''6''"
  "(char_of (55 :: nat) :: char) = CHR ''7''"
  "(char_of (56 :: nat) :: char) = CHR ''8''"
  "(char_of (57 :: nat) :: char) = CHR ''9''"
  by code_simp+

lemma sample_names:
  "blk_name 0 = ''blk00000.dat''"
  "blk_name 1 = ''blk00001.dat''"
  "blk_name 2 = ''blk00002.dat''"
  "blk_name 3 = ''blk00003.dat''"
  "blk_name 4 = ''blk00004.dat''"
  "blk_name 5 = ''blk00005.dat''"
  "blk_name 6 = ''blk00006.dat''"
  "blk_name 7 = ''blk00007.dat''"
  "blk_name 8 = ''blk00008.dat''"
  "blk_name 9 = ''blk00009.dat''"
  "blk_name 10 = ''blk00010.dat''"
  by (simp_all add: blk_name_def pad5_def show_nat.simps zero_groups digit_chars)

lemma sample_dir_facts:
  "kernel_dir sample_dir" "blk_files_of sample_dir = map (\<lambda>n. (n, 7)) [0, 1, 2, 3, 4, 5, 6, 7, 8, 9, 10]"
  by (simp_all add: kernel_dir_def sample_dir_def sample_numbers [simplified] sample_names [simplified] dir_size_def blk_files_of_def
      map_filter_simps blk_entry_def)


end
