(* ===== verification/Node_Main.thy ===== *)
theory Node_Main
  imports Rpc Sync P2p_Loop Peer_Store Node_Prune
begin

text \<open>
  The node binary: \<open>wolfe-node/src/metrics.rs\<close> and \<open>main.rs\<close>. \<open>main\<close> builds the components, starts
  tasks and then handles the events of the peer-to-peer manager one at a time. What it shares with the
  RPC server (pool, wallet, Lightning manager, consensus engine) is held in the \<open>node_state\<close>; the
  sync engine and the store belong to the loop. A step of a task or of the RPC server happens between two
  events. Command line, logging and signals are not modelled.
\<close>

section \<open>Metrics\<close>

record node_metrics =
  mx_started_at :: nat
  mx_headers_height :: nat
  mx_blocks_height :: nat
  mx_peers_connected :: nat
  mx_peers_inbound :: nat
  mx_peers_outbound :: nat
  mx_messages_received :: nat
  mx_mempool_txs :: nat
  mx_mempool_bytes :: nat
  mx_rpc_requests :: nat
  mx_ln_channels_active :: nat
  mx_ln_peers_connected :: nat
  mx_ln_capacity_sat :: nat

definition metrics_new :: "nat \<Rightarrow> node_metrics" where
  "metrics_new now =
    \<lparr>mx_started_at = now, mx_headers_height = 0, mx_blocks_height = 0, mx_peers_connected = 0,
     mx_peers_inbound = 0, mx_peers_outbound = 0, mx_messages_received = 0, mx_mempool_txs = 0,
     mx_mempool_bytes = 0, mx_rpc_requests = 0, mx_ln_channels_active = 0, mx_ln_peers_connected = 0,
     mx_ln_capacity_sat = 0\<rparr>"

definition metric_lines :: "string \<Rightarrow> string \<Rightarrow> string \<Rightarrow> nat \<Rightarrow> string" where
  "metric_lines name doc kind v =
    (let nl = [CHR 0x0A] in
     ''# HELP '' @ name @ '' '' @ doc @ nl @ ''# TYPE '' @ name @ '' '' @ kind @ nl @
     name @ '' '' @ show_nat v @ nl @ nl)"

definition metrics_render :: "nat \<Rightarrow> node_metrics \<Rightarrow> string" where
  "metrics_render now m =
    metric_lines ''wolfe_uptime_seconds'' ''Node uptime in seconds.'' ''gauge'' (now - mx_started_at m) @
    metric_lines ''wolfe_headers_height'' ''Current best header height.'' ''gauge'' (mx_headers_height m) @
    metric_lines ''wolfe_blocks_height'' ''Current validated block height.'' ''gauge'' (mx_blocks_height m) @
    metric_lines ''wolfe_peers_connected'' ''Total connected peers.'' ''gauge'' (mx_peers_connected m) @
    metric_lines ''wolfe_peers_inbound'' ''Inbound peer connections.'' ''gauge'' (mx_peers_inbound m) @
    metric_lines ''wolfe_peers_outbound'' ''Outbound peer connections.'' ''gauge'' (mx_peers_outbound m) @
    metric_lines ''wolfe_p2p_messages_received_total'' ''Total P2P messages received.'' ''counter''
      (mx_messages_received m) @
    metric_lines ''wolfe_mempool_transactions'' ''Current mempool transaction count.'' ''gauge'' (mx_mempool_txs m) @
    metric_lines ''wolfe_mempool_bytes'' ''Current mempool size in bytes.'' ''gauge'' (mx_mempool_bytes m) @
    metric_lines ''wolfe_rpc_requests_total'' ''Total RPC requests served.'' ''counter'' (mx_rpc_requests m) @
    metric_lines ''wolfe_ln_channels_active'' ''Active Lightning channels.'' ''gauge'' (mx_ln_channels_active m) @
    metric_lines ''wolfe_ln_peers_connected'' ''Connected Lightning peers.'' ''gauge'' (mx_ln_peers_connected m) @
    metric_lines ''wolfe_ln_capacity_sat'' ''Total Lightning channel capacity in satoshis.'' ''gauge''
      (mx_ln_capacity_sat m)"

section \<open>Starting up\<close>

definition block_for_ldk ::
    "('k, 'l, 'd, 'w, 'c, 'p, 'm, 'cl, 'n) rpc_env \<Rightarrow> 'k consensus_engine \<Rightarrow> nat \<Rightarrow> block option" where
  "block_for_ldk E engine height =
    (case read_chain_block E engine height of Inl e \<Rightarrow> None | Inr block \<Rightarrow> Some block)"

text \<open>Feeding the missed blocks stops at the first that cannot be read.\<close>

fun feed_missed ::
    "('k, 'l, 'd, 'w, 'c, 'p, 'm, 'cl, 'n) rpc_env \<Rightarrow> 'k consensus_engine \<Rightarrow> nat list
      \<Rightarrow> ('l, 'd, 'w, 'c) ln_manager \<Rightarrow> ('l, 'd, 'w, 'c) ln_manager" where
  "feed_missed E engine [] m = m"
| "feed_missed E engine (height # hs) m =
    (case block_for_ldk E engine height of
       None \<Rightarrow> m
     | Some block \<Rightarrow> feed_missed E engine hs (block_connected (le_ldk (re_ln E)) m block height))"

definition ln_catch_up ::
    "('k, 'l, 'd, 'w, 'c, 'p, 'm, 'cl, 'n) rpc_env \<Rightarrow> 'k consensus_engine \<Rightarrow> ('l, 'd, 'w, 'c) ln_manager
      \<Rightarrow> ('l, 'd, 'w, 'c) ln_manager" where
  "ln_catch_up E engine m =
    (let K = le_ldk (re_ln E); ldk_height = best_block_height K m;
         height = chain_height (re_kernel E) engine;
         kernel_height = (if 0 < height then int_as_u32 height else 0)
     in if 0 < kernel_height \<and> kernel_height < ldk_height then
          (case block_for_ldk E engine kernel_height of
             None \<Rightarrow> m | Some block \<Rightarrow> handle_reorg K m kernel_height (blk_header block))
        else if 0 < kernel_height \<and> ldk_height < kernel_height then
          (if ld_channels K (lm_ldk m) \<noteq> []
           then feed_missed E engine [ldk_height + 1..<Suc kernel_height] m
           else
             (case block_for_ldk E engine kernel_height of
                None \<Rightarrow> m | Some block \<Rightarrow> block_connected K m block kernel_height))
        else m)"

text \<open>What the RPC server is given; the pool is the node's, and the clock is the time of the start.\<close>

definition wire_rpc_state ::
    "rpc_codec \<Rightarrow> config \<Rightarrow> network \<Rightarrow> mempool \<Rightarrow> nat \<Rightarrow> 'k consensus_engine option
      \<Rightarrow> ('w, 'c) node_wallet option \<Rightarrow> ('l, 'd, 'w, 'c) ln_manager option
      \<Rightarrow> ('k, 'l, 'd, 'w, 'c, 'n) node_state" where
  "wire_rpc_state C cfg net pool now engine wallet lightning =
    (let path = path_join (storage_data_dir (cfg_storage cfg)) (db_path (cfg_wallet cfg));
         S = node_state_new (chain_name (cfg_network cfg)) net path pool now;
         S = set_shutdown_flag False S;
         S = set_l402_config (cfg_l402 cfg) S;
         S = (case engine of Some e \<Rightarrow> ns_set_consensus e S | None \<Rightarrow> S);
         S = (case wallet of Some w \<Rightarrow> ns_set_wallet w S | None \<Rightarrow> S)
     in case lightning of
          None \<Rightarrow> S
        | Some m \<Rightarrow>
            (let S = set_paid_invoices ManagerPaid (set_lightning m S)
             in if l402_enabled (cfg_l402 cfg) then set_l402_secret (derive_l402_secret C (lm_seed m)) S else S))"

section \<open>Tasks\<close>

text \<open>The Lightning task persists at every fifth tick.\<close>

definition ln_background ::
    "('l, 'd, 'w, 'c, 'p, 'm) ln_env \<Rightarrow> mempool \<Rightarrow> (nat \<times> nat) list \<Rightarrow> (nat \<times> nat) list
      \<Rightarrow> nat \<times> ('l, 'd, 'w, 'c) ln_manager \<Rightarrow> (nat \<times> ('l, 'd, 'w, 'c) ln_manager) option" where
  "ln_background LE pool stamps1 stamps2 s =
    (case s of (persist_counter, m) \<Rightarrow>
       map_option (\<lambda>m. let persist_counter = w64 (persist_counter + 1) in
           (persist_counter, if persist_counter mod 5 = 0 then persist_state LE m else m))
         (tick LE pool stamps1 stamps2 m))"

definition split_ln_peer :: "rpc_codec \<Rightarrow> string \<Rightarrow> string + string \<times> string" where
  "split_ln_peer C s =
    (if CHR ''@'' \<notin> set s then Inl ''expected pubkey@host:port''
     else
       case rc_pubkey C (takeWhile (\<lambda>c. c \<noteq> CHR ''@'') s) of
         Inl e \<Rightarrow> Inl e
       | Inr pubkey \<Rightarrow> Inr (pubkey, tl (dropWhile (\<lambda>c. c \<noteq> CHR ''@'') s)))"

definition valid_peers :: "rpc_codec \<Rightarrow> string list \<Rightarrow> (string \<times> string) list" where
  "valid_peers C peers =
    List.map_filter (\<lambda>s. case split_ln_peer C s of Inl e \<Rightarrow> None | Inr p \<Rightarrow> Some p) peers"

text \<open>One round of the reconnector; \<open>resolve\<close> is the resolver of the round.\<close>

definition reconnect_peers ::
    "'l ldk \<Rightarrow> (string \<Rightarrow> string option) \<Rightarrow> (string \<times> string) list \<Rightarrow> ('l, 'd, 'w, 'c) ln_manager
      \<Rightarrow> ('l, 'd, 'w, 'c) ln_manager" where
  "reconnect_peers K resolve peers m =
    (let connected = map fst (ld_peers K (lm_ldk m)) in
     foldl (\<lambda>m (pubkey, addr_str).
         if pubkey \<in> set connected then m
         else case resolve addr_str of None \<Rightarrow> m | Some addr \<Rightarrow> fst (connect_peer K m pubkey addr)) m peers)"

definition mempool_maintenance :: "order \<Rightarrow> nat \<Rightarrow> nat \<Rightarrow> mempool \<Rightarrow> mempool" where
  "mempool_maintenance it now expiry m =
    mempool_expire it now (mempool_trim it m) (w64 (expiry * 3600))"

definition pool_add :: "btc \<Rightarrow> nat \<Rightarrow> mempool \<Rightarrow> transaction \<Rightarrow> mempool" where
  "pool_add L now pool tx = (case mempool_add L now pool tx 0 of Inl e \<Rightarrow> pool | Inr (pool, k) \<Rightarrow> pool)"

text \<open>A transaction of the Lightning manager goes to the pool and to every peer.\<close>

definition ln_broadcast :: "btc \<Rightarrow> nat \<Rightarrow> mempool \<Rightarrow> transaction \<Rightarrow> mempool \<times> net_msg" where
  "ln_broadcast L now pool tx = (pool_add L now pool tx, TxMsg tx)"

section \<open>The main loop\<close>

text \<open>
  \<open>ma_has_wallet\<close> says whether the wallet was opened at the start: then the loop holds the same
  wallet as the RPC server, otherwise it holds none, for as long as it runs. \<open>ma_nostr\<close> is the queue of
  the Nostr bridge, where there is one, and \<open>ma_sent\<close> what was handed to the peer manager.
\<close>

record ('k, 'l, 'd, 'w, 'c, 'n) main_state =
  ma_sync :: "('d, 'k) sync_engine"
  ma_rpc :: "('k, 'l, 'd, 'w, 'c, 'n) node_state"
  ma_metrics :: node_metrics
  ma_addrs :: "(nat \<times> string \<times> bool) list"
  ma_has_wallet :: bool
  ma_nostr :: "nostr_msg list option"
  ma_sent :: "(nat \<times> net_msg) list"

text \<open>The two clocks, the order in which a hash map of heights is read, and the configuration.\<close>

record main_ctx =
  mc_ms :: nat
  mc_unix :: nat
  mc_order :: "(nat \<times> nat) list \<Rightarrow> (nat \<times> nat) list"

type_synonym ('k, 'l, 'd, 'w, 'c, 'n) main_step =
  "('k, 'l, 'd, 'w, 'c, 'n) main_state \<Rightarrow> ('k, 'l, 'd, 'w, 'c, 'n) main_state"

definition send_to :: "(nat \<times> net_msg) option \<Rightarrow> ('k, 'l, 'd, 'w, 'c, 'n) main_step" where
  "send_to reply M = (case reply of Some r \<Rightarrow> M\<lparr>ma_sent := ma_sent M @ [r]\<rparr> | None \<Rightarrow> M)"

definition map_rpc :: "('k, 'l, 'd, 'w, 'c, 'n) ns_update \<Rightarrow> ('k, 'l, 'd, 'w, 'c, 'n) main_step" where
  "map_rpc f M = M\<lparr>ma_rpc := f (ma_rpc M)\<rparr>"

definition map_metrics :: "(node_metrics \<Rightarrow> node_metrics) \<Rightarrow> ('k, 'l, 'd, 'w, 'c, 'n) main_step" where
  "map_metrics f M = M\<lparr>ma_metrics := f (ma_metrics M)\<rparr>"

definition best_height_of :: "'k kernel \<Rightarrow> ('d, 'k) sync_engine \<Rightarrow> nat" where
  "best_height_of K s =
    (case consensus s of Some engine \<Rightarrow> nat (max (chain_height K engine) 0) | None \<Rightarrow> tip_height s)"

text \<open>A write of the store whose errors are ignored.\<close>

definition try_write :: "'d redb \<Rightarrow> ('d \<Rightarrow> store_fail + 'd) \<Rightarrow> ('k, 'l, 'd, 'w, 'c, 'n) main_step" where
  "try_write R body M =
    (let db = se_store (ma_sync M);
         db' = (case rd_begin_write R db of
             Inl e \<Rightarrow> db
           | Inr txn \<Rightarrow>
               (case rd_commit R (case body txn of Inl e \<Rightarrow> txn | Inr txn' \<Rightarrow> txn') of Inl e \<Rightarrow> db | Inr db' \<Rightarrow> db'))
     in M\<lparr>ma_sync := (ma_sync M)\<lparr>se_store := db'\<rparr>\<rparr>)"

definition count_up :: "bool \<Rightarrow> node_metrics \<Rightarrow> node_metrics" where
  "count_up inbound m =
    (let m = m\<lparr>mx_peers_connected := w64 (mx_peers_connected m + 1)\<rparr> in
     if inbound then m\<lparr>mx_peers_inbound := w64 (mx_peers_inbound m + 1)\<rparr>
     else m\<lparr>mx_peers_outbound := w64 (mx_peers_outbound m + 1)\<rparr>)"

definition count_down :: "bool \<Rightarrow> node_metrics \<Rightarrow> node_metrics" where
  "count_down inbound m =
    (if inbound then m\<lparr>mx_peers_inbound := mx_peers_inbound m - 1\<rparr>
     else m\<lparr>mx_peers_outbound := mx_peers_outbound m - 1\<rparr>)"

definition on_connected ::
    "('k, 'l, 'd, 'w, 'c, 'p, 'm, 'cl, 'n) rpc_env \<Rightarrow> peer_codec \<Rightarrow> main_ctx \<Rightarrow> peer_info
      \<Rightarrow> ('k, 'l, 'd, 'w, 'c, 'n) main_step" where
  "on_connected E J cx info M =
    (let R = le_redb (re_ln E); L = le_btc (re_ln E);
         M = map_metrics (count_up (pi_inbound info)) M;
         M = M\<lparr>ma_addrs := AList.update (pi_id info) (pi_addr info, pi_inbound info) (ma_addrs M)\<rparr>;
         M = try_write R (\<lambda>txn. peer_upsert R J txn
           \<lparr>pr_addr = pi_addr info, pr_services = 0, pr_last_seen = mc_unix cx, pr_first_seen = mc_unix cx,
            pr_connection_count = 1, pr_fail_count = 0, pr_user_agent = pi_user_agent info\<rparr>) M;
         M = map_rpc (ns_set_best_height (best_height_of (re_kernel E) (ma_sync M))) M;
         M = map_rpc (add_peer_info
           \<lparr>ps_addr = pi_addr info, ps_user_agent = pi_user_agent info, ps_version = pi_version info,
            ps_inbound = pi_inbound info, ps_v2_transport = pi_v2_transport info,
            ps_start_height = pi_start_height info\<rparr>) M
     in case on_peer_connected R L (ma_sync M) (pi_id info) (pi_start_height info) of
          (s, msg) \<Rightarrow> send_to (map_option (\<lambda>m. (pi_id info, m)) msg) (M\<lparr>ma_sync := s\<rparr>))"

definition on_disconnected ::
    "('k, 'l, 'd, 'w, 'c, 'p, 'm, 'cl, 'n) rpc_env \<Rightarrow> main_ctx \<Rightarrow> nat \<Rightarrow> ('k, 'l, 'd, 'w, 'c, 'n) main_step" where
  "on_disconnected E cx peer_id M =
    (let M = map_metrics (\<lambda>m. m\<lparr>mx_peers_connected := mx_peers_connected m - 1\<rparr>) M;
         M = M\<lparr>ma_sync := on_peer_disconnected (ma_sync M) peer_id\<rparr>;
         M = (case try_select_sync_peer (le_redb (re_ln E)) (le_btc (re_ln E)) (mc_order cx) (ma_sync M) of
                (s, reply) \<Rightarrow> send_to reply (M\<lparr>ma_sync := s\<rparr>))
     in case map_of (ma_addrs M) peer_id of
          None \<Rightarrow> M
        | Some (addr, was_inbound) \<Rightarrow>
            map_metrics (count_down was_inbound)
              (map_rpc (remove_peer_info addr) (M\<lparr>ma_addrs := AList.delete peer_id (ma_addrs M)\<rparr>)))"

section \<open>A message of a peer\<close>

text \<open>The sync engine runs the consensus engine that the RPC server also holds.\<close>

definition process_message ::
    "('k, 'l, 'd, 'w, 'c, 'p, 'm, 'cl, 'n) rpc_env \<Rightarrow> main_ctx \<Rightarrow> nat \<Rightarrow> net_msg \<Rightarrow> ('k, 'l, 'd, 'w, 'c, 'n) main_step" where
  "process_message E cx peer_id msg M =
    (case handle_message (le_redb (re_ln E)) (le_btc (re_ln E)) (re_kernel E) (mc_ms cx) (ma_sync M) peer_id msg of
       (s, reply) \<Rightarrow> send_to reply (map_rpc (\<lambda>S. S\<lparr>ns_consensus := consensus s\<rparr>) (M\<lparr>ma_sync := s\<rparr>)))"

definition drop_confirmed :: "('k, 'l, 'd, 'w, 'c, 'n) main_step" where
  "drop_confirmed M =
    (case take_confirmed_txids (ma_sync M) of
       (s, confirmed) \<Rightarrow>
         (let M = M\<lparr>ma_sync := s\<rparr> in
          if confirmed = [] then M
          else map_rpc (\<lambda>S. S\<lparr>ns_mempool := remove_for_block (ns_mempool S) confirmed\<rparr>) M))"

text \<open>A change of the wallet that the loop holds, if it holds one.\<close>

definition on_wallet ::
    "(('w, 'c) node_wallet \<Rightarrow> ('w, 'c) node_wallet) \<Rightarrow> ('k, 'l, 'd, 'w, 'c, 'n) main_step" where
  "on_wallet f M =
    (case ns_wallet (ma_rpc M) of
       Some w \<Rightarrow> if ma_has_wallet M then map_rpc (write_wallet (f w)) M else M
     | None \<Rightarrow> M)"

definition accept_pending ::
    "('k, 'l, 'd, 'w, 'c, 'p, 'm, 'cl, 'n) rpc_env \<Rightarrow> main_ctx \<Rightarrow> ('k, 'l, 'd, 'w, 'c, 'n) main_step" where
  "accept_pending E cx M =
    (case take_pending_txs (ma_sync M) of
       (s, txs) \<Rightarrow>
         (let M = M\<lparr>ma_sync := s\<rparr> in
          if txs = [] then M
          else
            (let M = on_wallet (\<lambda>w. fst (apply_unconfirmed_txs (le_bdk (re_ln E)) w (map (\<lambda>tx. (tx, mc_unix cx)) txs))) M
             in map_rpc (\<lambda>S. S\<lparr>ns_mempool := foldl (pool_add (le_btc (re_ln E)) (mc_unix cx)) (ns_mempool S) txs\<rparr>) M)))"

definition map_ln :: "(('l, 'd, 'w, 'c) ln_manager \<Rightarrow> ('l, 'd, 'w, 'c) ln_manager) \<Rightarrow> ('k, 'l, 'd, 'w, 'c, 'n) main_step" where
  "map_ln f = map_rpc (\<lambda>S. S\<lparr>ns_lightning := map_option f (ns_lightning S)\<rparr>)"

definition notify_reorg ::
    "('k, 'l, 'd, 'w, 'c, 'p, 'm, 'cl, 'n) rpc_env \<Rightarrow> ('k, 'l, 'd, 'w, 'c, 'n) main_step" where
  "notify_reorg E M =
    (case take_reorg_height (ma_sync M) of
       (s, r) \<Rightarrow>
         (let M = M\<lparr>ma_sync := s\<rparr> in
          case (r, consensus s) of
            (Some height, Some engine) \<Rightarrow>
              (case block_for_ldk E engine height of
                 None \<Rightarrow> M
               | Some block \<Rightarrow> map_ln (\<lambda>m. handle_reorg (le_ldk (re_ln E)) m height (blk_header block)) M)
          | _ \<Rightarrow> M))"

text \<open>A validated block was serialised when it was validated.\<close>

definition announcement :: "btc \<Rightarrow> block \<Rightarrow> nat \<Rightarrow> nostr_msg" where
  "announcement L block height =
    BlockValidated height (hash_str L (block_hash L (blk_header block))) (unat (hdr_time (blk_header block)))
      (length (txdata block)) (case ser_block L block of Some bs \<Rightarrow> length bs | None \<Rightarrow> 0)"

definition feed_validated ::
    "('k, 'l, 'd, 'w, 'c, 'p, 'm, 'cl, 'n) rpc_env \<Rightarrow> config \<Rightarrow> ('k, 'l, 'd, 'w, 'c, 'n) main_step" where
  "feed_validated E cfg M =
    (case take_validated_block (ma_sync M) of
       (s, r) \<Rightarrow>
         (let M = M\<lparr>ma_sync := s\<rparr> in
          case r of
            None \<Rightarrow> M
          | Some (block, height) \<Rightarrow>
              (let M = on_wallet (\<lambda>w. fst (apply_block (le_bdk (re_ln E)) w block height)) M;
                   M = map_ln (\<lambda>m. block_connected (le_ldk (re_ln E)) m block height) M
               in if block_announcements (cfg_nostr cfg)
                  then M\<lparr>ma_nostr := map_option (\<lambda>q. q @ [announcement (le_btc (re_ln E)) block height]) (ma_nostr M)\<rparr>
                  else M)))"

definition update_metrics ::
    "('k, 'l, 'd, 'w, 'c, 'p, 'm, 'cl, 'n) rpc_env \<Rightarrow> ('k, 'l, 'd, 'w, 'c, 'n) main_step" where
  "update_metrics E M =
    (let S = ma_rpc M; K = le_ldk (re_ln E);
         M = map_metrics (\<lambda>m. m\<lparr>mx_headers_height := tip_height (ma_sync M),
           mx_mempool_txs := mempool_len (ns_mempool S)\<rparr>) M
     in case ns_lightning S of
          None \<Rightarrow> M
        | Some mgr \<Rightarrow>
            (let channels = ld_channels K (lm_ldk mgr) in
             map_metrics (\<lambda>m. m\<lparr>mx_ln_channels_active := num_active channels,
               mx_ln_capacity_sat := foldl (\<lambda>n c. w64 (n + ch_value_sat c)) 0 channels,
               mx_ln_peers_connected := length (ld_peers K (lm_ldk mgr))\<rparr>) M))"

definition update_rpc ::
    "('k, 'l, 'd, 'w, 'c, 'p, 'm, 'cl, 'n) rpc_env \<Rightarrow> ('k, 'l, 'd, 'w, 'c, 'n) main_step" where
  "update_rpc E M =
    (let s = ma_sync M in
     map_rpc (\<lambda>S. set_syncing (sync_status s \<noteq> Synced)
       (set_best_hash (hash_str (le_btc (re_ln E)) (tip_hash s))
       (set_headers_height (tip_height s)
       (ns_set_best_height (best_height_of (re_kernel E) s) S)))) M)"

definition on_net_message ::
    "('k, 'l, 'd, 'w, 'c, 'p, 'm, 'cl, 'n) rpc_env \<Rightarrow> config \<Rightarrow> main_ctx \<Rightarrow> nat \<Rightarrow> net_msg
      \<Rightarrow> ('k, 'l, 'd, 'w, 'c, 'n) main_step" where
  "on_net_message E cfg cx peer_id msg M =
    (let M = map_metrics (\<lambda>m. m\<lparr>mx_messages_received := w64 (mx_messages_received m + 1)\<rparr>) M;
         M = process_message E cx peer_id msg M;
         M = drop_confirmed M;
         M = accept_pending E cx M;
         M = notify_reorg E M;
         M = feed_validated E cfg M;
         M = update_metrics E M
     in update_rpc E M)"

definition on_banned ::
    "('k, 'l, 'd, 'w, 'c, 'p, 'm, 'cl, 'n) rpc_env \<Rightarrow> config \<Rightarrow> main_ctx \<Rightarrow> nat \<Rightarrow> ('k, 'l, 'd, 'w, 'c, 'n) main_step" where
  "on_banned E cfg cx peer_id M =
    (case map_of (ma_addrs M) peer_id of
       None \<Rightarrow> M
     | Some (addr, inbound) \<Rightarrow>
         try_write (le_redb (re_ln E)) (\<lambda>txn. peer_ban (le_redb (re_ln E)) txn addr
           (w64 (mc_unix cx + ban_duration_secs (cfg_p2p cfg)))) M)"

section \<open>The events\<close>

fun main_event ::
    "('k, 'l, 'd, 'w, 'c, 'p, 'm, 'cl, 'n) rpc_env \<Rightarrow> peer_codec \<Rightarrow> config \<Rightarrow> main_ctx \<Rightarrow> peer_event
      \<Rightarrow> ('k, 'l, 'd, 'w, 'c, 'n) main_step" where
  "main_event E J cfg cx (EvConnected info) M = on_connected E J cx info M"
| "main_event E J cfg cx (EvDisconnected peer_id) M = on_disconnected E cx peer_id M"
| "main_event E J cfg cx (EvMessage peer_id msg) M = on_net_message E cfg cx peer_id msg M"
| "main_event E J cfg cx (EvBanned peer_id reason) M = on_banned E cfg cx peer_id M"

text \<open>The tick of the loop: it ends when the shutdown flag is set, and otherwise looks for a stall.\<close>

definition main_tick ::
    "('k, 'l, 'd, 'w, 'c, 'p, 'm, 'cl, 'n) rpc_env \<Rightarrow> main_ctx \<Rightarrow> ('k, 'l, 'd, 'w, 'c, 'n) main_state
      \<Rightarrow> ('k, 'l, 'd, 'w, 'c, 'n) main_state \<times> bool" where
  "main_tick E cx M =
    (if ns_shutdown (ma_rpc M) = Some True then (M, False)
     else
       case check_stall (le_redb (re_ln E)) (le_btc (re_ln E)) (mc_ms cx) (ma_sync M) of
         (s, reply) \<Rightarrow> (send_to reply (M\<lparr>ma_sync := s\<rparr>), True))"

definition main_shutdown ::
    "('k, 'l, 'd, 'w, 'c, 'p, 'm, 'cl, 'n) rpc_env \<Rightarrow> ('k, 'l, 'd, 'w, 'c, 'n) main_step" where
  "main_shutdown E M = map_ln (shutdown (re_ln E)) M"

section \<open>The whole node\<close>

text \<open>
  What the start depends on: the library's own start-up, the directories, the paths that exist, and
  fresh random bytes for the seed.
\<close>

record ('l, 'd, 'g, 'sc, 'mo) start_env =
  st_ldk :: "('l, 'd, 'g, 'sc, 'mo) ldk_start"
  st_mkdir :: "string \<Rightarrow> string option"
  st_utf8 :: "string \<Rightarrow> bool"
  st_exists :: "string \<Rightarrow> bool"
  st_random :: bytes

datatype start_error = StartConfig wolfe_error | StartStore store_fail

text \<open>The options of the command line that override the file.\<close>

record cli_options =
  cli_network :: "string option"
  cli_datadir :: "string option"
  cli_connect :: "string option"

definition apply_cli :: "cli_options \<Rightarrow> config \<Rightarrow> config" where
  "apply_cli cli c =
    (let c = (case cli_network cli of None \<Rightarrow> c | Some n \<Rightarrow> c\<lparr>cfg_network := (cfg_network c)\<lparr>chain_name := n\<rparr>\<rparr>);
         c = (case cli_datadir cli of None \<Rightarrow> c | Some d \<Rightarrow> c\<lparr>cfg_storage := (cfg_storage c)\<lparr>storage_data_dir := d\<rparr>\<rparr>)
     in case cli_connect cli of None \<Rightarrow> c | Some p \<Rightarrow> c\<lparr>cfg_p2p := (cfg_p2p c)\<lparr>p2p_connect := [p]\<rparr>\<rparr>)"

definition start_consensus ::
    "'k kernel \<Rightarrow> ('l, 'd, 'g, 'sc, 'mo) start_env \<Rightarrow> string \<Rightarrow> network \<Rightarrow> 'k consensus_engine option" where
  "start_consensus K T data_dir net =
    (case consensus_new K (st_mkdir T) (st_utf8 T) (path_join data_dir ''kernel'') (chain_type_from_network net) of
       Inl e \<Rightarrow> None | Inr engine \<Rightarrow> Some engine)"

definition start_wallet ::
    "('w, 'c, 'p, 'm) bdk \<Rightarrow> ('l, 'd, 'g, 'sc, 'mo) start_env \<Rightarrow> wallet_config \<Rightarrow> string \<Rightarrow> network
      \<Rightarrow> ('w, 'c) node_wallet option" where
  "start_wallet B T c data_dir net =
    (if wallet_enabled c then
       (let wallet_db = path_join data_dir (db_path c);
            result =
              (if external_descriptor c = [] \<or> internal_descriptor c = [] then
                 (if st_exists T wallet_db then load_existing B wallet_db net
                  else Inl (Bdk (''no wallet '' @ [CHR 0xE2, CHR 0x80, CHR 0x94] @ '' use createwallet RPC'')))
               else open_with_encryption B wallet_db net (external_descriptor c) (internal_descriptor c) (encryption_key c))
        in case result of Inl e \<Rightarrow> None | Inr w \<Rightarrow> Some w)
     else None)"

text \<open>The Lightning manager keeps its seed in the store of the node.\<close>

definition start_lightning ::
    "('k, 'l, 'd, 'w, 'c, 'p, 'm, 'cl, 'n) rpc_env \<Rightarrow> ('l, 'd, 'g, 'sc, 'mo) start_env \<Rightarrow> config \<Rightarrow> network
      \<Rightarrow> 'k consensus_engine option \<Rightarrow> ('w, 'c) node_wallet option \<Rightarrow> ('d, 'k) sync_engine
      \<Rightarrow> ('d, 'k) sync_engine \<times> ('l, 'd, 'w, 'c) ln_manager option" where
  "start_lightning E T cfg net engine wallet s =
    (if ln_enabled (cfg_lightning cfg) then
       (case ln_manager_new (re_ln E) (st_ldk T) (cfg_lightning cfg) net (storage_data_dir (cfg_storage cfg))
           (se_store s) (st_random T) (tip_hash s) (as_u32 (validated_height s)) of
          (store, Inl e) \<Rightarrow> (s\<lparr>se_store := store\<rparr>, None)
        | (store, Inr m) \<Rightarrow>
            (s\<lparr>se_store := store\<rparr>,
             Some (let m = (case wallet of Some w \<Rightarrow> set_wallet w m | None \<Rightarrow> m)
                   in case engine of Some e \<Rightarrow> ln_catch_up E e m | None \<Rightarrow> m)))
     else (s, None))"

definition start_nostr ::
    "'n nostr_sdk \<Rightarrow> nostr_config \<Rightarrow> string \<Rightarrow> ('k, 'l, 'd, 'w, 'c, 'n) node_state
      \<Rightarrow> ('k, 'l, 'd, 'w, 'c, 'n) node_state \<times> nostr_msg list option" where
  "start_nostr N c chain S =
    (if nostr_enabled c then
       (case bridge_new N (secret_key c) (relays c) chain (fee_oracle_interval_secs c) (nostr_name c)
           (nostr_about c) (nostr_picture c) of
          Inl e \<Rightarrow> (S, None)
        | Inr bridge \<Rightarrow> (set_nostr_pubkey (nk_npub N (nb_public_key bridge)) (set_nostr_client (nb_client bridge) S), Some []))
     else (S, None))"

text \<open>The start up to the main loop; an error ends the program.\<close>

definition main_start ::
    "('k, 'l, 'd, 'w, 'c, 'p, 'm, 'cl, 'n) rpc_env \<Rightarrow> ('l, 'd, 'g, 'sc, 'mo) start_env \<Rightarrow> config \<Rightarrow> nat \<Rightarrow> nat
      \<Rightarrow> start_error + ('k, 'l, 'd, 'w, 'c, 'n) main_state" where
  "main_start E T cfg ms now =
    (let R = le_redb (re_ln E); data_dir = storage_data_dir (cfg_storage cfg) in
     case bitcoin_network (cfg_network cfg) of
       Inl e \<Rightarrow> Inl (StartConfig e)
     | Inr net \<Rightarrow>
     (case node_open R (path_join data_dir ''nodestore.redb'') of
       Inl e \<Rightarrow> Inl (StartStore e)
     | Inr store \<Rightarrow>
     (case in_read R store (sync_height R) of
       Inl e \<Rightarrow> Inl (StartStore e)
     | Inr h \<Rightarrow>
         (let engine = start_consensus (re_kernel E) T data_dir net;
              s = sync_new R (le_btc (re_ln E)) store net ms;
              s = (case engine of Some e \<Rightarrow> set_consensus (re_kernel E) e s | None \<Rightarrow> s);
              wallet = start_wallet (le_bdk (re_ln E)) T (cfg_wallet cfg) data_dir net
          in case start_lightning E T cfg net engine wallet s of
               (s, lightning) \<Rightarrow>
                 (let S = wire_rpc_state (re_codec E) cfg net (mempool_new (cfg_mempool cfg)) now engine wallet lightning
                  in case start_nostr (re_nostr E) (cfg_nostr cfg) (chain_name (cfg_network cfg)) S of
                       (S, queue) \<Rightarrow>
                         Inr \<lparr>ma_sync = s, ma_rpc = set_tx_broadcast S, ma_metrics = metrics_new now, ma_addrs = [],
                           ma_has_wallet = (wallet \<noteq> None), ma_nostr = queue, ma_sent = []\<rparr>)))))"

text \<open>
  What can happen, in any order: an event or a tick of the loop, a request, a tick of the Lightning
  task, a transaction that it broadcasts, and the upkeep of the pool. A funding transaction of the
  Lightning task spends from the one wallet; a tick that panics ends its task. The two counters of the
  task (its own, and the tick count of the manager) both start at zero and count its rounds.
\<close>

datatype node_input =
    PeerInput main_ctx peer_event
  | LoopTick main_ctx
  | RpcInput rpc_server rpc_ctx extracted http_request
  | LnTick "(nat \<times> nat) list" "(nat \<times> nat) list"
  | LnTransaction nat transaction
  | PoolUpkeep nat

definition run_ln_tick ::
    "('l, 'd, 'w, 'c, 'p, 'm) ln_env \<Rightarrow> (nat \<times> nat) list \<Rightarrow> (nat \<times> nat) list \<Rightarrow> ('k, 'l, 'd, 'w, 'c, 'n) ns_update" where
  "run_ln_tick LE stamps1 stamps2 S =
    (case ns_lightning S of
       None \<Rightarrow> S
     | Some m \<Rightarrow>
         (case ln_background LE (ns_mempool S) stamps1 stamps2 (lm_tick_count m, m) of
            None \<Rightarrow> S
          | Some (n, m') \<Rightarrow> S\<lparr>ns_lightning := Some m', ns_wallet := lw_wallet (lm_world m')\<rparr>))"

fun node_step ::
    "('k, 'l, 'd, 'w, 'c, 'p, 'm, 'cl, 'n) rpc_env \<Rightarrow> peer_codec \<Rightarrow> config
      \<Rightarrow> ('k, 'l, 'd, 'w, 'c, 'n) main_state \<Rightarrow> node_input \<Rightarrow> ('k, 'l, 'd, 'w, 'c, 'n) main_state" where
  "node_step E J cfg M (PeerInput cx ev) = main_event E J cfg cx ev M"
| "node_step E J cfg M (LoopTick cx) = fst (main_tick E cx M)"
| "node_step E J cfg M (RpcInput sv rcx x req) = map_rpc (\<lambda>S. fst (serve E sv rcx x req S)) M"
| "node_step E J cfg M (LnTick stamps1 stamps2) = map_rpc (run_ln_tick (re_ln E) stamps1 stamps2) M"
| "node_step E J cfg M (LnTransaction now tx) =
    map_rpc (\<lambda>S. S\<lparr>ns_mempool := fst (ln_broadcast (le_btc (re_ln E)) now (ns_mempool S) tx)\<rparr>) M"
| "node_step E J cfg M (PoolUpkeep now) =
    map_rpc (\<lambda>S. S\<lparr>ns_mempool := mempool_maintenance (le_order (re_ln E)) now (expiry_hours (cfg_mempool cfg)) (ns_mempool S)\<rparr>) M"

end
