(* ===== verification/Node_Main_Props.thy ===== *)
theory Node_Main_Props
  imports Node_Main Peer_Props
begin

text \<open>
  Properties of the running node: what an event leaves behind in the sync engine, what a validated
  block and a relayed transaction do to the other components, and the invariants that the events of
  the loop, its ticks and the requests to the RPC server keep in any order.
\<close>

section \<open>What waits in the sync engine\<close>

definition queues :: "('d, 'k) sync_engine \<Rightarrow>
    transaction list \<times> hash list \<times> (block \<times> nat) option \<times> nat option \<times> 'k consensus_engine option" where
  "queues s = (pending_txs s, last_confirmed_txids s, last_validated_block s, last_reorg_height s, consensus s)"

named_theorems keeps_queues \<open>operations that leave the queues and the consensus engine alone\<close>

lemma queues_new: "queues (sync_new R L store net now) = ([], [], None, None, None)"
  by (simp add: sync_new_def queues_def Let_def case_prod_unfold)

lemma queues_consensus: "queues (set_consensus K e s) = (case queues s of (a, b, c, d, _) \<Rightarrow> (a, b, c, d, Some e))"
  by (simp add: set_consensus_def queues_def Let_def)

lemma queues_request [keeps_queues]: "queues (fst (request_next_blocks R L s p)) = queues s"
  by (simp add: request_next_blocks_def queues_def Let_def split: sum.split)

lemma queues_state [keeps_queues]: "queues (set_state st s) = queues s"
  by (simp add: set_state_def queues_def)

lemma queues_updates [keeps_queues]:
  "queues (s\<lparr>se_progress := p\<rparr>) = queues s" "queues (s\<lparr>sync_peer := q\<rparr>) = queues s"
  "queues (s\<lparr>pending_blocks := b\<rparr>) = queues s" "queues (s\<lparr>last_block_time := t\<rparr>) = queues s"
  "queues (s\<lparr>peer_heights := h\<rparr>) = queues s" "queues (s\<lparr>se_store := db\<rparr>) = queues s"
  by (simp_all add: queues_def)

lemma queues_after_block [keeps_queues]: "queues (fst (after_block R L K engine s p)) = queues s"
  by (simp add: after_block_def Let_def keeps_queues)

lemma queues_connected [keeps_queues]: "queues (fst (on_peer_connected R L s p h)) = queues s"
  by (simp add: on_peer_connected_def Let_def keeps_queues case_prod_unfold)

lemma queues_disconnected [keeps_queues]: "queues (on_peer_disconnected s p) = queues s"
  by (simp add: on_peer_disconnected_def Let_def keeps_queues)

lemma queues_select [keeps_queues]: "queues (fst (try_select_sync_peer R L it s)) = queues s"
  by (auto simp: try_select_sync_peer_def Let_def keeps_queues split: option.split)

lemma queues_stall [keeps_queues]: "queues (fst (check_stall R L now s)) = queues s"
  by (auto simp: check_stall_def Let_def keeps_queues split: option.split)

text \<open>Between two events nothing waits, and the RPC server holds the engine that the loop runs.\<close>

definition settled :: "('k, 'l, 'd, 'w, 'c, 'n) main_state \<Rightarrow> bool" where
  "settled M \<longleftrightarrow> queues (ma_sync M) = ([], [], None, None, ns_consensus (ma_rpc M))"

lemma send_to_simps [simp]:
  "ma_sync (send_to r M) = ma_sync M" "ma_rpc (send_to r M) = ma_rpc M" "ma_metrics (send_to r M) = ma_metrics M"
  "ma_addrs (send_to r M) = ma_addrs M" "ma_has_wallet (send_to r M) = ma_has_wallet M"
  "ma_nostr (send_to r M) = ma_nostr M"
  by (simp_all add: send_to_def split: option.split)

lemma map_simps [simp]:
  "ma_sync (map_rpc f M) = ma_sync M" "ma_rpc (map_rpc f M) = f (ma_rpc M)" "ma_metrics (map_rpc f M) = ma_metrics M"
  "ma_addrs (map_rpc f M) = ma_addrs M" "ma_has_wallet (map_rpc f M) = ma_has_wallet M" "ma_nostr (map_rpc f M) = ma_nostr M"
  "ma_sync (map_metrics g M) = ma_sync M" "ma_rpc (map_metrics g M) = ma_rpc M" "ma_metrics (map_metrics g M) = g (ma_metrics M)"
  "ma_addrs (map_metrics g M) = ma_addrs M" "ma_has_wallet (map_metrics g M) = ma_has_wallet M"
  "ma_nostr (map_metrics g M) = ma_nostr M"
  "ma_rpc (try_write R b M) = ma_rpc M" "ma_metrics (try_write R b M) = ma_metrics M" "ma_addrs (try_write R b M) = ma_addrs M"
  "ma_has_wallet (try_write R b M) = ma_has_wallet M" "queues (ma_sync (try_write R b M)) = queues (ma_sync M)"
  by (simp_all add: map_rpc_def map_metrics_def try_write_def Let_def keeps_queues)

lemma on_wallet_simps [simp]:
  "ma_sync (on_wallet f M) = ma_sync M" "ns_consensus (ma_rpc (on_wallet f M)) = ns_consensus (ma_rpc M)"
  "ns_mempool (ma_rpc (on_wallet f M)) = ns_mempool (ma_rpc M)" "ma_nostr (on_wallet f M) = ma_nostr M"
  "ma_has_wallet (on_wallet f M) = ma_has_wallet M" "ma_metrics (on_wallet f M) = ma_metrics M" "ma_addrs (on_wallet f M) = ma_addrs M"
  by (simp_all add: on_wallet_def write_wallet_def split: option.split)

lemma map_ln_simps [simp]:
  "ma_sync (map_ln g M) = ma_sync M" "ns_consensus (ma_rpc (map_ln g M)) = ns_consensus (ma_rpc M)"
  "ns_mempool (ma_rpc (map_ln g M)) = ns_mempool (ma_rpc M)" "ma_nostr (map_ln g M) = ma_nostr M"
  "ns_wallet (ma_rpc (map_ln g M)) = ns_wallet (ma_rpc M)" "ns_lightning (ma_rpc (map_ln g M)) = map_option g (ns_lightning (ma_rpc M))"
  "ma_has_wallet (map_ln g M) = ma_has_wallet M" "ma_metrics (map_ln g M) = ma_metrics M" "ma_addrs (map_ln g M) = ma_addrs M"
  by (simp_all add: map_ln_def)

lemma take_simps [simp]:
  "take_confirmed_txids s = (s\<lparr>last_confirmed_txids := []\<rparr>, last_confirmed_txids s)"
  "take_pending_txs s = (s\<lparr>pending_txs := []\<rparr>, pending_txs s)"
  "take_validated_block s = (s\<lparr>last_validated_block := None\<rparr>, last_validated_block s)"
  "take_reorg_height s = (s\<lparr>last_reorg_height := None\<rparr>, last_reorg_height s)"
  by (simp_all add: take_confirmed_txids_def take_pending_txs_def take_validated_block_def take_reorg_height_def)

lemma stages_sync:
  "ma_sync (drop_confirmed M) = (ma_sync M)\<lparr>last_confirmed_txids := []\<rparr>"
  "ma_sync (accept_pending E cx M) = (ma_sync M)\<lparr>pending_txs := []\<rparr>"
  "ma_sync (notify_reorg E M) = (ma_sync M)\<lparr>last_reorg_height := None\<rparr>"
  "ma_sync (feed_validated E cfg M) = (ma_sync M)\<lparr>last_validated_block := None\<rparr>"
  "ma_sync (update_metrics E M) = ma_sync M" "ma_sync (update_rpc E M) = ma_sync M"
  by (simp_all add: drop_confirmed_def accept_pending_def notify_reorg_def feed_validated_def update_metrics_def
      update_rpc_def Let_def split: option.split)

lemma stages_consensus:
  "ns_consensus (ma_rpc (drop_confirmed M)) = ns_consensus (ma_rpc M)"
  "ns_consensus (ma_rpc (accept_pending E cx M)) = ns_consensus (ma_rpc M)"
  "ns_consensus (ma_rpc (notify_reorg E M)) = ns_consensus (ma_rpc M)"
  "ns_consensus (ma_rpc (feed_validated E cfg M)) = ns_consensus (ma_rpc M)"
  "ns_consensus (ma_rpc (update_metrics E M)) = ns_consensus (ma_rpc M)"
  "ns_consensus (ma_rpc (update_rpc E M)) = ns_consensus (ma_rpc M)"
  by (simp_all add: drop_confirmed_def accept_pending_def notify_reorg_def feed_validated_def update_metrics_def
      update_rpc_def Let_def set_syncing_def set_best_hash_def set_headers_height_def ns_set_best_height_def split: option.split)

lemma process_consensus:
  "ns_consensus (ma_rpc (process_message E cx p msg M)) = consensus (ma_sync (process_message E cx p msg M))"
  by (simp add: process_message_def split: prod.split)

lemma settled_message: "settled (on_net_message E cfg cx p msg M)"
  by (simp add: settled_def on_net_message_def Let_def queues_def stages_sync stages_consensus process_consensus)

lemma settled_event:
  assumes "settled M"
  shows "settled (main_event E J cfg cx ev M)"
proof (cases ev)
  case (EvConnected info)
  then show ?thesis
    using assms by (simp add: settled_def on_connected_def Let_def ns_set_best_height_def add_peer_info_def
        case_prod_unfold keeps_queues)
next
  case (EvDisconnected p)
  then show ?thesis
    using assms by (simp add: settled_def on_disconnected_def Let_def remove_peer_info_def case_prod_unfold keeps_queues
        split: option.split)
next
  case (EvMessage p msg)
  then show ?thesis
    by (simp add: settled_message)
next
  case (EvBanned p reason)
  then show ?thesis
    using assms by (simp add: settled_def on_banned_def split: option.split prod.split)
qed

section \<open>The wallet and the engine are shared\<close>

definition node_inv :: "('k, 'l, 'd, 'w, 'c, 'n) main_state \<Rightarrow> bool" where
  "node_inv M \<longleftrightarrow> settled M \<and> wallet_shared (ma_rpc M)"

lemma wallet_shared_write: "ns_wallet S \<noteq> None \<Longrightarrow> wallet_shared S \<Longrightarrow> wallet_shared (write_wallet w S)"
  using safe_write [of S w "Inr JNull"] by (simp add: safe_step_def)

lemma shared_on_wallet [simp]:
  "wallet_shared (ma_rpc M) \<Longrightarrow> wallet_shared (ma_rpc (on_wallet f M))"
  by (auto simp: on_wallet_def intro: wallet_shared_write split: option.split)

lemma wallet_on_wallet [simp]: "ns_wallet (ma_rpc (on_wallet f M)) = None \<longleftrightarrow> ns_wallet (ma_rpc M) = None"
  by (simp add: on_wallet_def write_wallet_def split: option.split)

lemma shared_map_ln:
  assumes "wallet_shared (ma_rpc M)" "\<And>m. lw_wallet (lm_world (g m)) = lw_wallet (lm_world m)"
  shows "wallet_shared (ma_rpc (map_ln g M))"
  using assms by (auto simp: wallet_shared_def)

lemma block_wallet [simp]:
  "lw_wallet (lm_world (block_connected K m b h)) = lw_wallet (lm_world m)"
  "lw_wallet (lm_world (handle_reorg K m h hdr)) = lw_wallet (lm_world m)"
  by (simp_all add: block_connected_def handle_reorg_def map_ldk_def)

text \<open>The fields that sharing depends on.\<close>

lemma shared_cong:
  "ns_lightning S' = ns_lightning S \<Longrightarrow> ns_wallet S' = ns_wallet S \<Longrightarrow> wallet_shared S' = wallet_shared S"
  by (simp add: wallet_shared_def)

lemma rpc_fields:
  "ns_lightning (ma_rpc (process_message E cx p msg M)) = ns_lightning (ma_rpc M)"
  "ns_wallet (ma_rpc (process_message E cx p msg M)) = ns_wallet (ma_rpc M)"
  "ns_lightning (ma_rpc (drop_confirmed M)) = ns_lightning (ma_rpc M)" "ns_wallet (ma_rpc (drop_confirmed M)) = ns_wallet (ma_rpc M)"
  "ns_lightning (ma_rpc (update_metrics E M)) = ns_lightning (ma_rpc M)" "ns_wallet (ma_rpc (update_metrics E M)) = ns_wallet (ma_rpc M)"
  "ns_lightning (ma_rpc (update_rpc E M)) = ns_lightning (ma_rpc M)" "ns_wallet (ma_rpc (update_rpc E M)) = ns_wallet (ma_rpc M)"
  by (simp_all add: process_message_def drop_confirmed_def update_metrics_def update_rpc_def Let_def set_syncing_def
      set_best_hash_def set_headers_height_def ns_set_best_height_def split: prod.split option.split)

lemma shared_simps [simp]:
  "wallet_shared (S\<lparr>ns_mempool := pool\<rparr>) = wallet_shared S" "wallet_shared (S\<lparr>ns_consensus := c\<rparr>) = wallet_shared S"
  "wallet_shared (ma_rpc (process_message E cx p msg M)) = wallet_shared (ma_rpc M)"
  "wallet_shared (ma_rpc (drop_confirmed M)) = wallet_shared (ma_rpc M)"
  "wallet_shared (ma_rpc (update_metrics E M)) = wallet_shared (ma_rpc M)"
  "wallet_shared (ma_rpc (update_rpc E M)) = wallet_shared (ma_rpc M)"
  by (rule shared_cong; simp add: rpc_fields)+

lemma shared_stages:
  assumes "wallet_shared (ma_rpc M)"
  shows "wallet_shared (ma_rpc (accept_pending E cx M))" "wallet_shared (ma_rpc (notify_reorg E M))"
    "wallet_shared (ma_rpc (feed_validated E cfg M))"
proof -
  have up: "wallet_shared (ma_rpc (M\<lparr>ma_sync := s\<rparr>))" for s
    using assms by simp
  show "wallet_shared (ma_rpc (accept_pending E cx M))"
    using up by (simp add: accept_pending_def Let_def)
  show "wallet_shared (ma_rpc (notify_reorg E M))"
    using up by (auto simp: notify_reorg_def Let_def intro: shared_map_ln split: option.split)
  show "wallet_shared (ma_rpc (feed_validated E cfg M))"
    using up by (auto simp: feed_validated_def Let_def intro!: shared_map_ln shared_on_wallet split: option.split)
qed

lemma wallet_stages:
  "ns_wallet (ma_rpc (accept_pending E cx M)) = None \<longleftrightarrow> ns_wallet (ma_rpc M) = None"
  "ns_wallet (ma_rpc (notify_reorg E M)) = ns_wallet (ma_rpc M)"
  "ns_wallet (ma_rpc (feed_validated E cfg M)) = None \<longleftrightarrow> ns_wallet (ma_rpc M) = None"
  by (simp_all add: accept_pending_def notify_reorg_def feed_validated_def Let_def split: option.split)

lemma has_wallet_stages [simp]:
  "ma_has_wallet (process_message E cx p msg M) = ma_has_wallet M" "ma_has_wallet (drop_confirmed M) = ma_has_wallet M"
  "ma_has_wallet (accept_pending E cx M) = ma_has_wallet M" "ma_has_wallet (notify_reorg E M) = ma_has_wallet M"
  "ma_has_wallet (feed_validated E cfg M) = ma_has_wallet M" "ma_has_wallet (update_metrics E M) = ma_has_wallet M"
  "ma_has_wallet (update_rpc E M) = ma_has_wallet M"
  by (simp_all add: process_message_def drop_confirmed_def accept_pending_def notify_reorg_def feed_validated_def
      update_metrics_def update_rpc_def Let_def split: prod.split option.split)

lemma has_wallet_event [simp]: "ma_has_wallet (main_event E J cfg cx ev M) = ma_has_wallet M"
proof (cases ev)
  case (EvConnected info)
  then show ?thesis
    by (simp add: on_connected_def Let_def case_prod_unfold)
next
  case (EvDisconnected p)
  then show ?thesis
    by (simp add: on_disconnected_def Let_def case_prod_unfold split: option.split)
next
  case (EvMessage p msg)
  then show ?thesis
    by (simp add: on_net_message_def Let_def)
next
  case (EvBanned p r)
  then show ?thesis
    by (simp add: on_banned_def split: option.split)
qed

lemma node_inv_event:
  assumes "node_inv M"
  shows "node_inv (main_event E J cfg cx ev M)"
proof -
  note s = settled_event [of M E J cfg cx ev]
  have "wallet_shared (ma_rpc (main_event E J cfg cx ev M)) \<and>
      (ns_wallet (ma_rpc (main_event E J cfg cx ev M)) = None \<longleftrightarrow> ns_wallet (ma_rpc M) = None)"
  proof (cases ev)
    case (EvMessage p msg)
    then show ?thesis
      using assms by (simp add: on_net_message_def Let_def node_inv_def shared_stages wallet_stages rpc_fields)
  next
    case (EvConnected info)
    then show ?thesis
      using assms by (simp add: node_inv_def on_connected_def Let_def wallet_shared_def ns_set_best_height_def add_peer_info_def
          case_prod_unfold)
  next
    case (EvDisconnected p)
    then show ?thesis
      using assms by (simp add: node_inv_def on_disconnected_def Let_def wallet_shared_def remove_peer_info_def
          case_prod_unfold split: option.split)
  next
    case (EvBanned p reason)
    then show ?thesis
      using assms by (simp add: node_inv_def on_banned_def split: option.split prod.split)
  qed
  with s show ?thesis
    using assms by (auto simp: node_inv_def)
qed

lemma node_inv_tick: "node_inv M \<Longrightarrow> node_inv (fst (main_tick E cx M))"
  by (simp add: main_tick_def node_inv_def settled_def case_prod_unfold keeps_queues)


lemma node_inv_step: "node_inv M \<Longrightarrow> node_inv (node_step E J cfg M x)"
proof (cases x)
  case (RpcInput sv rcx y req)
  assume inv: "node_inv M"
  note ok = serve_safe [of "ma_rpc M" E sv rcx y req "Inr JNull"]
  then have "ns_consensus (fst (serve E sv rcx y req (ma_rpc M))) = ns_consensus (ma_rpc M)"
    by (auto simp: safe_step_def node_frame_def)
  with inv ok RpcInput show ?thesis
    by (simp add: node_inv_def settled_def safe_step_def)
next
  case (LnTick st1 st2)
  assume "node_inv M"
  then show ?thesis
    using LnTick by (auto simp: node_inv_def settled_def run_ln_tick_def wallet_shared_def split: option.split)
qed (simp_all add: node_inv_event node_inv_tick, simp_all add: node_inv_def settled_def)

interpretation node: machine "node_step E J cfg" node_inv for E J cfg
  by unfold_locales (rule node_inv_step)

lemma feed_missed_wallet [simp]: "lw_wallet (lm_world (feed_missed E engine hs m)) = lw_wallet (lm_world m)"
  by (induction hs arbitrary: m) (simp_all split: option.split)

lemma catch_up_wallet [simp]: "lw_wallet (lm_world (ln_catch_up E engine m)) = lw_wallet (lm_world m)"
  by (simp add: ln_catch_up_def Let_def split: option.split)

lemma new_manager_wallet:
  "ln_manager_new E T cfg net dir store rnd h n = (store', Inr m) \<Longrightarrow> lw_wallet (lm_world m) = None"
  by (auto simp: ln_manager_new_def Let_def split: prod.splits sum.splits)

lemma start_lightning_wallet:
  "start_lightning E T cfg net engine wallet s = (s', Some m) \<Longrightarrow> lw_wallet (lm_world m) = wallet"
  by (auto simp: start_lightning_def Let_def set_wallet_def dest: new_manager_wallet
      split: if_splits prod.splits sum.splits option.splits)

lemma start_lightning_queues: "queues (fst (start_lightning E T cfg net engine wallet s)) = queues s"
  by (simp add: start_lightning_def keeps_queues split: prod.split sum.split)

lemma start_nostr_fields:
  "ns_consensus (fst (start_nostr N c chain S)) = ns_consensus S" "ns_wallet (fst (start_nostr N c chain S)) = ns_wallet S"
  "ns_lightning (fst (start_nostr N c chain S)) = ns_lightning S"
  by (simp_all add: start_nostr_def set_nostr_pubkey_def set_nostr_client_def split: sum.split)

lemma wire_fields:
  "ns_consensus (wire_rpc_state C cfg net pool now engine wallet lightning) = engine"
  "ns_wallet (wire_rpc_state C cfg net pool now engine wallet lightning) = wallet"
  "ns_lightning (wire_rpc_state C cfg net pool now engine wallet lightning) = lightning"
  by (simp_all add: wire_rpc_state_def Let_def node_state_new_def set_shutdown_flag_def set_l402_config_def
      ns_set_consensus_def ns_set_wallet_def set_paid_invoices_def set_lightning_def set_l402_secret_def split: option.split)

text \<open>The start has two stages: opening the parts, then wiring them.\<close>

lemma wired_inv:
  assumes "start_lightning E T cfg net engine wallet s0 = (s, lightning)"
    and "start_nostr N c chain (wire_rpc_state C cfg' net' pool now engine wallet lightning) = (S, queue)"
    and "queues s0 = ([], [], None, None, engine)"
  shows "node_inv \<lparr>ma_sync = s, ma_rpc = set_tx_broadcast S, ma_metrics = x, ma_addrs = y, ma_has_wallet = b,
    ma_nostr = q, ma_sent = z\<rparr>"
proof -
  have "queues s = ([], [], None, None, engine)"
    using assms(3) start_lightning_queues [of E T cfg net engine wallet s0] by (simp add: assms(1))
  moreover have "ns_consensus S = engine" "ns_wallet S = wallet" "ns_lightning S = lightning"
    using start_nostr_fields [of N c chain "wire_rpc_state C cfg' net' pool now engine wallet lightning"]
    by (simp_all add: assms(2) wire_fields)
  moreover have "lw_wallet (lm_world m) = wallet" if "lightning = Some m" for m
    using assms(1) that by (auto intro: start_lightning_wallet)
  ultimately show ?thesis
    by (simp add: node_inv_def settled_def wallet_shared_def set_tx_broadcast_def)
qed

lemma node_inv_start: "main_start E T cfg ms now = Inr M \<Longrightarrow> node_inv M"
  by (auto simp: main_start_def Let_def queues_new queues_consensus
      split: sum.splits prod.splits option.splits intro!: wired_inv)

text \<open>
  C1: Whatever happens in a node that has started, in whatever order - events of peers, ticks of the
  loop, requests to the RPC server, ticks of the Lightning task, upkeep - at the end of every step no
  block, transaction, confirmation or reorganisation waits unhandled in the sync engine, the RPC server
  holds the very consensus engine that the loop runs, and the Lightning manager has the wallet of the
  node.\<close>

theorem node_stays_settled:
  assumes "main_start E T cfg ms now = Inr M0"
  shows "let M = foldl (node_step E J cfg) M0 inputs; s = ma_sync M; S = ma_rpc M
    in pending_txs s = [] \<and> last_confirmed_txids s = [] \<and> last_validated_block s = None \<and> last_reorg_height s = None \<and>
       ns_consensus S = consensus s \<and>
       (case ns_lightning S of None \<Rightarrow> True | Some m \<Rightarrow> lw_wallet (lm_world m) = ns_wallet S)"
  using node.run_inv [OF node_inv_start [OF assms], of E J cfg inputs]
  by (auto simp: node_inv_def settled_def queues_def wallet_shared_def Let_def split: option.split)

section \<open>A running sample\<close>

definition sample_config :: config where
  "sample_config = (config_default None)
     \<lparr>cfg_network := (cfg_network (config_default None))\<lparr>chain_name := ''regtest''\<rparr>,
      cfg_lightning := lightning_config_default\<lparr>ln_enabled := True\<rparr>\<rparr>"

definition sample_start :: "(ldk_event list, sample_db, unit, unit, unit) start_env" where
  "sample_start = \<lparr>st_ldk = sample_ldk_start, st_mkdir = (\<lambda>p. None), st_utf8 = (\<lambda>p. True), st_exists = (\<lambda>p. False),
     st_random = replicate 32 7\<rparr>"

lemma sample_open:
  "\<exists>v. node_open sample_redb p = Inr [(META, [(as_bytes KEY_DB_VERSION, v)])]"
  by (simp add: node_open_def in_write_def init_if_needed_def fetch_w_def set_db_version_def meta_set_def put_def)

lemma sample_seed:
  "\<exists>store. load_or_create_seed sample_redb rnd [(META, [(as_bytes KEY_DB_VERSION, v)])] = (store, Inr rnd)"
  by (simp add: load_or_create_seed_def in_read_def meta_get_def meta_set_def fetch_def put_def LN_SEED_KEY_def KEY_DB_VERSION_def)

lemma sample_starts:
  obtains M where "main_start (sample_rpc_env JNull) sample_start sample_config 0 0 = Inr M" "ns_lightning (ma_rpc M) \<noteq> None"
proof -
  let ?E = "sample_rpc_env JNull"
  have R: "re_ln ?E = sample_ln_env" "le_redb sample_ln_env = sample_redb" "le_ldk sample_ln_env = sample_ldk"
    by (simp_all add: sample_rpc_env_def sample_ln_env_def)
  have c: "bitcoin_network (cfg_network sample_config) = Inr Regtest" "ln_enabled (cfg_lightning sample_config)"
    "\<not> nostr_enabled (cfg_nostr sample_config)"
    by (simp_all add: sample_config_def bitcoin_network_def config_default_def nostr_config_default_def)
  obtain v where v: "node_open sample_redb (path_join (storage_data_dir (cfg_storage sample_config)) ''nodestore.redb'')
      = Inr [(META, [(as_bytes KEY_DB_VERSION, v)])]" (is "_ = Inr ?d")
    using sample_open by blast
  have h: "in_read sample_redb ?d (sync_height sample_redb) = Inr None"
    by (simp add: in_read_def sync_height_def meta_get_def fetch_def KEY_SYNC_HEIGHT_def KEY_DB_VERSION_def)
  have ln: "\<exists>s' m. start_lightning ?E sample_start sample_config Regtest engine wallet s = (s', Some m)"
    if "se_store s = ?d" for engine wallet s
  proof -
    obtain store where "load_or_create_seed sample_redb (st_random sample_start) ?d = (store, Inr (st_random sample_start))"
      using sample_seed by blast
    then show ?thesis
      using that c by (simp add: start_lightning_def R ln_manager_new_def sample_ln_env_def sample_start_def
          sample_ldk_start_def Let_def)
  qed
  have store: "se_store (sync_new sample_redb L d net ms) = d" "se_store (set_consensus K e s) = se_store s" for L d net ms K e s
    by (simp_all add: sync_new_def set_consensus_def Let_def case_prod_unfold)
  obtain S' m where m: "start_lightning ?E sample_start sample_config Regtest
      (start_consensus (re_kernel ?E) sample_start (storage_data_dir (cfg_storage sample_config)) Regtest)
      (start_wallet (le_bdk sample_ln_env) sample_start (cfg_wallet sample_config)
        (storage_data_dir (cfg_storage sample_config)) Regtest)
      (case start_consensus (re_kernel ?E) sample_start (storage_data_dir (cfg_storage sample_config)) Regtest of
         None \<Rightarrow> sync_new sample_redb (le_btc sample_ln_env) ?d Regtest 0
       | Some e \<Rightarrow> set_consensus (re_kernel ?E) e (sync_new sample_redb (le_btc sample_ln_env) ?d Regtest 0)) = (S', Some m)"
    using ln by (metis (no_types, lifting) option.case_eq_if store)
  show ?thesis
    using that m by (simp add: main_start_def R c v h Let_def start_nostr_def set_tx_broadcast_def wire_fields split: prod.split)
qed

theorem node_stays_settled_witness:
  "\<exists>M0. main_start (sample_rpc_env JNull) sample_start sample_config 0 0 = Inr M0 \<and>
    (let M = foldl (node_step (sample_rpc_env JNull) Peer_Props.sample_codec sample_config) M0
           [LnTick [] [], PeerInput \<lparr>mc_ms = 5, mc_unix = 6, mc_order = id\<rparr> (EvMessage 1 (TxMsg (sample_tx 1 [] [5])))]
     in pending_txs (ma_sync M) = [] \<and> ns_lightning (ma_rpc M0) \<noteq> None)"
proof -
  obtain M0 where M0: "main_start (sample_rpc_env JNull) sample_start sample_config 0 0 = Inr M0"
    and ln: "ns_lightning (ma_rpc M0) \<noteq> None"
    using sample_starts by blast
  show ?thesis
    using node_stays_settled [OF M0] ln by (intro exI [of _ M0]) (simp add: M0 Let_def del: foldl_Cons)
qed

end
