(* ===== verification/Node_Run_Props.thy ===== *)
theory Node_Run_Props
  imports Node_Main_Props Sync_Props
begin

text \<open>
  What one event of the loop does to the components around it: a validated block reaches all of them,
  a wallet opened late reaches none, and the gauges count the peers.
\<close>

section \<open>A validated block\<close>

lemma handle_block_accepted:
  assumes "consensus s = Some engine" "ser_block L b = Some bs" "block_hash L (blk_header b) \<in> set (pending_blocks s)"
    and "validate_block K engine bs = (engine', Inr NewBlock)"
  shows "queues (fst (handle_block R L K now s p b)) =
    (pending_txs s, map (compute_txid L) (txdata b), Some (b, as_u32 (validated_height s + 1)), last_reorg_height s, Some engine')"
  using assms by (simp add: handle_block_def Let_def keeps_queues) (simp add: queues_def)

lemma lm_ldk_wallet [simp]: "lm_ldk (set_wallet w m) = lm_ldk m" "lm_has_channels (set_wallet w m) = lm_has_channels m"
  by (simp_all add: set_wallet_def lm_ldk_def)

lemma lm_ldk_connected: "lm_ldk m = lm_ldk m' \<Longrightarrow> lm_has_channels m = lm_has_channels m' \<Longrightarrow>
    lm_ldk (block_connected K m b h) = lm_ldk (block_connected K m' b h)"
  by (simp add: block_connected_def lm_ldk_def map_ldk_def)

lemma feed_wallet_ldk:
  "map_option (\<lambda>m. lm_ldk (block_connected K m b h)) (ns_lightning (ma_rpc (on_wallet f M))) =
    map_option (\<lambda>m. lm_ldk (block_connected K m b h)) (ns_lightning (ma_rpc M))"
  by (cases "ns_lightning (ma_rpc M)")
    (auto simp: on_wallet_def write_wallet_def intro!: lm_ldk_connected split: option.split)

lemma on_wallet_wallet:
  "ns_wallet (ma_rpc (on_wallet f M)) =
    (if ma_has_wallet M then map_option f (ns_wallet (ma_rpc M)) else ns_wallet (ma_rpc M))"
  by (simp add: on_wallet_def write_wallet_def split: option.split)

lemma update_fields [simp]:
  "ns_mempool (ma_rpc (update_metrics E M)) = ns_mempool (ma_rpc M)" "ns_mempool (ma_rpc (update_rpc E M)) = ns_mempool (ma_rpc M)"
  "ma_nostr (update_metrics E M) = ma_nostr M" "ma_nostr (update_rpc E M) = ma_nostr M"
  "ns_lightning (ma_rpc (update_metrics E M)) = ns_lightning (ma_rpc M)" "ns_lightning (ma_rpc (update_rpc E M)) = ns_lightning (ma_rpc M)"
  "ns_wallet (ma_rpc (update_metrics E M)) = ns_wallet (ma_rpc M)" "ns_wallet (ma_rpc (update_rpc E M)) = ns_wallet (ma_rpc M)"
  by (simp_all add: update_metrics_def update_rpc_def Let_def ns_set_best_height_def set_headers_height_def
      set_best_hash_def set_syncing_def split: option.split)

text \<open>The stages after the sync engine, when it holds one validated block and nothing else.\<close>

definition block_fed ::
    "('k, 'l, 'd, 'w, 'c, 'p, 'm, 'cl, 'n) rpc_env \<Rightarrow> config \<Rightarrow> block \<Rightarrow> nat
      \<Rightarrow> ('k, 'l, 'd, 'w, 'c, 'n) main_state \<Rightarrow> ('k, 'l, 'd, 'w, 'c, 'n) main_state \<Rightarrow> bool" where
  "block_fed E cfg b h M M' \<longleftrightarrow>
    (let L = le_btc (re_ln E); S = ma_rpc M; S' = ma_rpc M' in
       ns_mempool S' = remove_for_block (ns_mempool S) (map (compute_txid L) (txdata b)) \<and>
       ns_wallet S' =
         (if ma_has_wallet M then map_option (\<lambda>w. fst (apply_block (le_bdk (re_ln E)) w b h)) (ns_wallet S)
          else ns_wallet S) \<and>
       map_option lm_ldk (ns_lightning S') =
         map_option (\<lambda>m. lm_ldk (block_connected (le_ldk (re_ln E)) m b h)) (ns_lightning S) \<and>
       ma_nostr M' =
         (if block_announcements (cfg_nostr cfg) then map_option (\<lambda>q. q @ [announcement L b h]) (ma_nostr M)
          else ma_nostr M))"

lemma process_fields:
  "ma_sync (process_message E cx p msg M) =
    fst (handle_message (le_redb (re_ln E)) (le_btc (re_ln E)) (re_kernel E) (mc_ms cx) (ma_sync M) p msg)"
  "ma_nostr (process_message E cx p msg M) = ma_nostr M" "ns_mempool (ma_rpc (process_message E cx p msg M)) = ns_mempool (ma_rpc M)"
  "ns_wallet (ma_rpc (process_message E cx p msg M)) = ns_wallet (ma_rpc M)"
  "ns_lightning (ma_rpc (process_message E cx p msg M)) = ns_lightning (ma_rpc M)"
  by (simp_all add: process_message_def split: prod.split)

lemma drop_fields:
  "ns_mempool (ma_rpc (drop_confirmed M)) = remove_for_block (ns_mempool (ma_rpc M)) (last_confirmed_txids (ma_sync M))"
  "ma_nostr (drop_confirmed M) = ma_nostr M" "ns_wallet (ma_rpc (drop_confirmed M)) = ns_wallet (ma_rpc M)"
  "ns_lightning (ma_rpc (drop_confirmed M)) = ns_lightning (ma_rpc M)"
  by (simp_all add: drop_confirmed_def Let_def remove_for_block_def)

lemma idle_stages:
  "pending_txs (ma_sync M) = [] \<Longrightarrow> accept_pending E cx M = M"
  "last_reorg_height (ma_sync M) = None \<Longrightarrow> notify_reorg E M = M"
  by (cases M, simp add: accept_pending_def notify_reorg_def Let_def)+

lemma feed_fields:
  assumes "last_validated_block (ma_sync M) = Some (b, h)"
  shows "ns_mempool (ma_rpc (feed_validated E cfg M)) = ns_mempool (ma_rpc M)"
    "ns_wallet (ma_rpc (feed_validated E cfg M)) =
       (if ma_has_wallet M then map_option (\<lambda>w. fst (apply_block (le_bdk (re_ln E)) w b h)) (ns_wallet (ma_rpc M))
        else ns_wallet (ma_rpc M))"
    "map_option lm_ldk (ns_lightning (ma_rpc (feed_validated E cfg M))) =
       map_option (\<lambda>m. lm_ldk (block_connected (le_ldk (re_ln E)) m b h)) (ns_lightning (ma_rpc M))"
    "ma_nostr (feed_validated E cfg M) =
       (if block_announcements (cfg_nostr cfg)
        then map_option (\<lambda>q. q @ [announcement (le_btc (re_ln E)) b h]) (ma_nostr M) else ma_nostr M)"
  using assms by (simp_all add: feed_validated_def Let_def on_wallet_wallet option.map_comp comp_def feed_wallet_ldk
      del: map_simps(2)) 

text \<open>The bookkeeping of a message that is not one of the peer-to-peer protocol's own.\<close>

lemma on_net_message_stages:
  "on_net_message E cfg cx p msg M =
    update_rpc E (update_metrics E (feed_validated E cfg (notify_reorg E (accept_pending E cx (drop_confirmed
      (process_message E cx p msg
        (map_metrics (\<lambda>m. m\<lparr>mx_messages_received := w64 (mx_messages_received m + 1)\<rparr>) M)))))))"
  by (simp add: on_net_message_def Let_def)

text \<open>
  C6: A block that the loop asked for and the kernel accepts reaches every component within the one
  event: the pool loses its transactions, the wallet (where one was opened at the start) and the
  Lightning manager are given the block at the next height of the cursor, the Nostr bridge is told
  where announcements are configured, and the RPC server answers from the advanced engine.\<close>

theorem validated_block_reaches_all:
  assumes "settled M"
    and "consensus (ma_sync M) = Some engine" "ser_block (le_btc (re_ln E)) b = Some bs"
    and "block_hash (le_btc (re_ln E)) (blk_header b) \<in> set (pending_blocks (ma_sync M))"
    and "validate_block (re_kernel E) engine bs = (engine', Inr NewBlock)"
  shows "let M' = main_event E J cfg cx (EvMessage p (BlockMsg b)) M in
    block_fed E cfg b (as_u32 (validated_height (ma_sync M) + 1)) M M' \<and> ns_consensus (ma_rpc M') = Some engine'"
proof -
  define h where "h = as_u32 (validated_height (ma_sync M) + 1)"
  define M0 where "M0 = map_metrics (\<lambda>m. m\<lparr>mx_messages_received := w64 (mx_messages_received m + 1)\<rparr>) M"
  define M1 where "M1 = process_message E cx p (BlockMsg b) M0"
  define M2 where "M2 = drop_confirmed M1"
  have "queues (ma_sync M) = ([], [], None, None, Some engine)"
    using assms(1,2) by (simp add: settled_def queues_def)
  with handle_block_accepted [OF assms(2-5), of "le_redb (re_ln E)" "mc_ms cx" p]
  have q: "queues (ma_sync M1) = ([], map (compute_txid (le_btc (re_ln E))) (txdata b), Some (b, h), None, Some engine')"
    by (simp add: process_fields M1_def M0_def h_def) (simp add: queues_def)
  then have idle: "pending_txs (ma_sync M2) = []" "last_reorg_height (ma_sync M2) = None"
    and fed: "last_validated_block (ma_sync M2) = Some (b, h)"
    by (simp_all add: M2_def queues_def stages_sync)
  have 1: "main_event E J cfg cx (EvMessage p (BlockMsg b)) M =
      update_rpc E (update_metrics E (feed_validated E cfg M2))"
    by (simp only: main_event.simps on_net_message_stages M0_def [symmetric] M1_def [symmetric] M2_def [symmetric]
        idle_stages(1) [OF idle(1)] idle_stages(2) [OF idle(2)])
  have 2: "ns_mempool (ma_rpc M2) = remove_for_block (ns_mempool (ma_rpc M)) (map (compute_txid (le_btc (re_ln E))) (txdata b))"
    "ns_wallet (ma_rpc M2) = ns_wallet (ma_rpc M)" "ns_lightning (ma_rpc M2) = ns_lightning (ma_rpc M)"
    "ma_nostr M2 = ma_nostr M" "ma_has_wallet M2 = ma_has_wallet M" "ns_consensus (ma_rpc M2) = Some engine'"
    using q by (simp_all add: M2_def M1_def M0_def drop_fields process_fields queues_def stages_consensus process_consensus)
  show ?thesis
    unfolding 1 h_def [symmetric] by (simp add: block_fed_def Let_def feed_fields [OF fed] 2 stages_consensus)
qed

definition sample_block :: block where
  "sample_block = \<lparr>blk_header = sample_hdr 1, txdata = [sample_tx 4 [] [5]]\<rparr>"

definition sample_main_env ::
    "(hash list, ldk_event list, sample_db, nat, bool, nat, string,
      (string \<times> ip_addr list) option, event_builder list) rpc_env" where
  "sample_main_env = (sample_rpc_env JNull)\<lparr>re_kernel := sample_kernel\<lparr>kn_process_block := \<lambda>k bs. (k, NewBlock, False)\<rparr>\<rparr>"

definition sample_main ::
    "(hash list, ldk_event list, sample_db, nat, bool, event_builder list) main_state" where
  "sample_main =
    \<lparr>ma_sync = sample_sync\<lparr>pending_blocks := [1, 2, 3]\<rparr>,
     ma_rpc = (sample_node (Some sample_manager))\<lparr>ns_consensus := Some (sample_engine [0])\<rparr>,
     ma_metrics = metrics_new 0, ma_addrs = [], ma_has_wallet = False, ma_nostr = Some [], ma_sent = []\<rparr>"

lemma sample_main_settled: "settled sample_main"
  by (simp add: settled_def queues_def sample_main_def sample_sync_def)

theorem validated_block_reaches_all_witness:
  "let M' = main_event sample_main_env Peer_Props.sample_codec sample_config \<lparr>mc_ms = 5, mc_unix = 6, mc_order = id\<rparr>
      (EvMessage 7 (BlockMsg sample_block)) sample_main in
    block_fed sample_main_env sample_config sample_block 1 sample_main M' \<and>
    ns_consensus (ma_rpc M') = Some (sample_engine [0])"
proof -
  let ?L = "le_btc (re_ln sample_main_env)"
  have L: "?L = sample_btc"
    by (simp add: sample_main_env_def sample_rpc_env_def sample_ln_env_def)
  have "consensus (ma_sync sample_main) = Some (sample_engine [0])"
    "block_hash ?L (blk_header sample_block) \<in> set (pending_blocks (ma_sync sample_main))"
    by (simp_all add: L sample_main_def sample_block_def sample_hdr_def)
  moreover obtain bs where bs: "ser_block ?L sample_block = Some bs"
    by (simp add: L sample_block_def)
  moreover have "validate_block (re_kernel sample_main_env) (sample_engine [0]) bs = (sample_engine [0], Inr NewBlock)"
    by (simp add: validate_block_def has_fatal_error_def sample_engine_def sample_kernel_def sample_main_env_def)
  moreover have "as_u32 (validated_height (ma_sync sample_main) + 1) = 1"
    by (simp add: sample_main_def as_u32_def)
  ultimately show ?thesis
    using validated_block_reaches_all [OF sample_main_settled] by metis
qed

section \<open>A wallet that is opened later\<close>

lemma event_wallet:
  assumes "\<not> ma_has_wallet M"
  shows "ns_wallet (ma_rpc (main_event E J cfg cx ev M)) = ns_wallet (ma_rpc M)"
proof (cases ev)
  case (EvMessage p msg)
  have accept: "ns_wallet (ma_rpc (accept_pending E cx N)) = ns_wallet (ma_rpc N)"
    and feed: "ns_wallet (ma_rpc (feed_validated E cfg N)) = ns_wallet (ma_rpc N)" if "\<not> ma_has_wallet N" for N
    using that by (simp_all add: accept_pending_def feed_validated_def Let_def on_wallet_wallet split: option.split)
  show ?thesis
    using assms EvMessage by (simp add: on_net_message_stages accept feed wallet_stages drop_fields process_fields)
qed (simp_all add: on_connected_def on_disconnected_def on_banned_def ns_set_best_height_def add_peer_info_def
    remove_peer_info_def Let_def case_prod_unfold split: option.split)

lemma has_wallet_step [simp]: "ma_has_wallet (node_step E J cfg M x) = ma_has_wallet M"
  by (cases x) (simp_all add: main_tick_def case_prod_unfold)

lemma has_wallet_run: "ma_has_wallet (foldl (node_step E J cfg) M inputs) = ma_has_wallet M"
  by (induction inputs arbitrary: M) simp_all

lemma start_wallet_flag:
  "main_start E T cfg ms now = Inr M \<Longrightarrow> ma_has_wallet M \<longleftrightarrow> ns_wallet (ma_rpc M) \<noteq> None"
  by (auto simp: main_start_def Let_def set_tx_broadcast_def split: sum.splits prod.splits
      dest!: arg_cong [of "start_nostr _ _ _ _" _ "\<lambda>x. ns_wallet (fst x)"] simp: start_nostr_fields wire_fields)

text \<open>
  C39: In a node that started without a wallet no event of the loop ever touches the wallet: one that is
  created or imported over RPC is not given the blocks and transactions that arrive afterwards.\<close>

theorem late_wallet_not_fed:
  assumes "main_start E T cfg ms now = Inr M0" "ns_wallet (ma_rpc M0) = None"
    and "foldl (node_step E J cfg) M0 inputs = M"
  shows "ns_wallet (ma_rpc (main_event E J cfg cx ev M)) = ns_wallet (ma_rpc M)"
  using assms(2,3) has_wallet_run [of E J cfg M0 inputs] start_wallet_flag [OF assms(1)] by (intro event_wallet) simp

lemma sample_createwallet:
  assumes "ns_wallet S = None"
  shows "ns_wallet (fst (serve (sample_rpc_env JNull) (sample_server None False []) sample_ctx
    (sample_call ''createwallet'') sample_post S)) \<noteq> None"
proof -
  obtain w where "create_new (le_bdk (re_ln (sample_rpc_env JNull))) (ns_wallet_db_path S) (ns_network S) = Inr (w, ''abandon'')"
    by (simp add: sample_rpc_env_def sample_ln_env_def sample_bdk_def create_new_def wallet_open_def open_with_encryption_def)
  then have 1: "ns_wallet (fst (rpc_createwallet (sample_rpc_env JNull) S)) = Some w"
    using assms by (simp add: rpc_createwallet_def inject_wallet_def ns_set_wallet_def Let_def)
  have 2: "fst (json_rpc E cx S \<lparr>jr_jsonrpc = None, jr_id = JNull, jr_method = ''createwallet'', jr_params = None\<rparr>) =
      fst (rpc_createwallet E S)" for E :: "(_, _, _, _, _, _, _, _, _) rpc_env" and cx S
    by (simp add: json_rpc_def dispatch_rpc_def Let_def split: prod.split)
  show ?thesis
    using 1 by (simp add: serve_def admit_def sample_post_def guard_of_def authenticated_paths_def auth_middleware_def
        sample_server_def expected_credentials_def rpc_config_default_def nostr_config_default_def handle_request_def
        sample_call_def Let_def 2 del: fst_conv split: prod.split) (metis "2" fst_conv option.distinct(1))
qed

lemma sample_no_wallet:
  assumes "main_start (sample_rpc_env JNull) sample_start sample_config 0 0 = Inr M"
  shows "ns_wallet (ma_rpc M) = None"
proof -
  have "start_wallet B sample_start (cfg_wallet sample_config) d n = None" for B :: "(nat, bool, nat, string) bdk" and d n
    by (simp add: start_wallet_def sample_config_def config_default_def wallet_config_default_def)
  then have "\<not> ma_has_wallet M"
    using assms by (auto simp: main_start_def Let_def split: sum.splits prod.splits)
  then show ?thesis
    using start_wallet_flag [OF assms] by simp
qed

theorem late_wallet_not_fed_witness:
  "\<exists>M0 M. main_start (sample_rpc_env JNull) sample_start sample_config 0 0 = Inr M0 \<and>
    M = node_step (sample_rpc_env JNull) Peer_Props.sample_codec sample_config M0
      (RpcInput (sample_server None False []) sample_ctx (sample_call ''createwallet'') sample_post) \<and>
    ns_wallet (ma_rpc M) \<noteq> None \<and>
    ns_wallet (ma_rpc (main_event (sample_rpc_env JNull) Peer_Props.sample_codec sample_config
      \<lparr>mc_ms = 5, mc_unix = 6, mc_order = id\<rparr> (EvMessage 7 (BlockMsg sample_block)) M)) = ns_wallet (ma_rpc M)"
proof -
  obtain M0 where M0: "main_start (sample_rpc_env JNull) sample_start sample_config 0 0 = Inr M0"
    using sample_starts by blast
  note none = sample_no_wallet [OF M0]
  let ?x = "RpcInput (sample_server None False []) sample_ctx (sample_call ''createwallet'') sample_post"
  define M where "M = node_step (sample_rpc_env JNull) Peer_Props.sample_codec sample_config M0 ?x"
  have "foldl (node_step (sample_rpc_env JNull) Peer_Props.sample_codec sample_config) M0 [?x] = M"
    by (simp add: M_def)
  note kept = late_wallet_not_fed [OF M0 none this]
  have "ns_wallet (ma_rpc M) \<noteq> None"
    using sample_createwallet [OF none] by (simp add: M_def)
  with M0 kept M_def show ?thesis
    by blast
qed

section \<open>The gauges of the peers\<close>

text \<open>Peers come and go: an identifier is announced as connected only while it is not, and the reverse.\<close>

fun lifecycle :: "nat set \<Rightarrow> node_input list \<Rightarrow> bool" where
  "lifecycle C [] = True"
| "lifecycle C (PeerInput cx (EvConnected info) # xs) = (pi_id info \<notin> C \<and> lifecycle (insert (pi_id info) C) xs)"
| "lifecycle C (PeerInput cx (EvDisconnected p) # xs) = (p \<in> C \<and> lifecycle (C - {p}) xs)"
| "lifecycle C (x # xs) = lifecycle C xs"

definition inbound_peers :: "(nat \<times> string \<times> bool) list \<Rightarrow> nat" where
  "inbound_peers ps = length (filter (snd \<circ> snd) ps)"

definition gauges :: "('k, 'l, 'd, 'w, 'c, 'n) main_state \<Rightarrow> (nat \<times> string \<times> bool) list \<times> nat \<times> nat \<times> nat" where
  "gauges M = (ma_addrs M, mx_peers_connected (ma_metrics M), mx_peers_inbound (ma_metrics M), mx_peers_outbound (ma_metrics M))"

definition gauges_ok :: "nat set \<Rightarrow> nat \<Rightarrow> (nat \<times> string \<times> bool) list \<times> nat \<times> nat \<times> nat \<Rightarrow> bool" where
  "gauges_ok C n g \<longleftrightarrow> (case g of (ps, t, i, out) \<Rightarrow>
     fst ` set ps = C \<and> distinct (map fst ps) \<and> length ps \<le> n \<and>
     t = length ps \<and> i = inbound_peers ps \<and> i + out = length ps)"

lemma update_new: "k \<notin> fst ` set ps \<Longrightarrow> AList.update k v ps = ps @ [(k, v)]"
  by (induction ps) auto

lemma gauges_simps [simp]:
  "gauges (send_to r M) = gauges M" "gauges (map_rpc f M) = gauges M" "gauges (try_write R b M) = gauges M"
  "gauges (M\<lparr>ma_sync := s\<rparr>) = gauges M" "gauges (on_wallet g M) = gauges M" "gauges (map_ln h M) = gauges M"
  "gauges (M\<lparr>ma_nostr := q\<rparr>) = gauges M"
  by (simp_all add: gauges_def)

lemma gauges_stages:
  "gauges (process_message E cx p msg M) = gauges M" "gauges (drop_confirmed M) = gauges M"
  "gauges (accept_pending E cx M) = gauges M" "gauges (notify_reorg E M) = gauges M"
  "gauges (feed_validated E cfg M) = gauges M" "gauges (update_metrics E M) = gauges M" "gauges (update_rpc E M) = gauges M"
  "gauges (map_metrics (\<lambda>m. m\<lparr>mx_messages_received := x m\<rparr>) M) = gauges M"
  by (simp_all add: process_message_def drop_confirmed_def accept_pending_def notify_reorg_def feed_validated_def
      update_rpc_def Let_def split: prod.split option.split)
    (simp_all add: gauges_def update_metrics_def Let_def split: option.split)

lemma gauges_quiet:
  "gauges (on_net_message E cfg cx p msg M) = gauges M" "gauges (on_banned E cfg cx p M) = gauges M"
  "gauges (fst (main_tick E cx M)) = gauges M"
  by (simp_all add: on_net_message_stages gauges_stages on_banned_def main_tick_def case_prod_unfold split: option.split)

lemma gauges_connected:
  "gauges (on_connected E J cx info M) =
    (AList.update (pi_id info) (pi_addr info, pi_inbound info) (ma_addrs M), w64 (mx_peers_connected (ma_metrics M) + 1),
     if pi_inbound info then w64 (mx_peers_inbound (ma_metrics M) + 1) else mx_peers_inbound (ma_metrics M),
     if pi_inbound info then mx_peers_outbound (ma_metrics M) else w64 (mx_peers_outbound (ma_metrics M) + 1))"
  by (simp add: on_connected_def Let_def case_prod_unfold) (simp add: gauges_def count_up_def Let_def)

lemma gauges_disconnected:
  "map_of (ma_addrs M) p = Some (addr, inb) \<Longrightarrow> gauges (on_disconnected E cx p M) =
    (AList.delete p (ma_addrs M), mx_peers_connected (ma_metrics M) - 1,
     if inb then mx_peers_inbound (ma_metrics M) - 1 else mx_peers_inbound (ma_metrics M),
     if inb then mx_peers_outbound (ma_metrics M) else mx_peers_outbound (ma_metrics M) - 1)"
  by (simp add: on_disconnected_def Let_def case_prod_unfold) (simp add: gauges_def count_down_def Let_def)

lemma ok_connect:
  assumes "gauges_ok C n (ps, t, i, out)" "k \<notin> C" "n + 1 < 2 ^ 64"
  shows "gauges_ok (insert k C) (Suc n) (AList.update k (a, inb) ps, w64 (t + 1),
    if inb then w64 (i + 1) else i, if inb then out else w64 (out + 1))"
  using assms by (auto simp: gauges_ok_def update_new inbound_peers_def u64_simps)

lemma delete_split:
  assumes "distinct (map fst ps)" "map_of ps p = Some v"
  obtains as bs where "ps = as @ (p, v) # bs" "AList.delete p ps = as @ bs"
proof -
  obtain as bs where ps: "ps = as @ (p, v) # bs"
    using assms(2) by (meson map_of_SomeD split_list)
  moreover have "p \<notin> fst ` set as" "p \<notin> fst ` set bs"
    using assms(1) ps by auto
  then have "AList.delete p as = as" "AList.delete p bs = bs"
    by (auto simp: AList.delete_eq filter_id_conv image_iff)
  then have "AList.delete p ps = as @ bs"
    by (simp add: ps AList.delete_eq)
  ultimately show ?thesis
    using that by blast
qed

lemma ok_disconnect:
  assumes "gauges_ok C n (ps, t, i, out)" "map_of ps p = Some (a, inb)"
  shows "gauges_ok (C - {p}) (Suc n) (AList.delete p ps, t - 1, if inb then i - 1 else i, if inb then out else out - 1)"
proof -
  have d: "distinct (map fst ps)"
    using assms(1) by (simp add: gauges_ok_def)
  obtain as bs where ps: "ps = as @ (p, a, inb) # bs" and del: "AList.delete p ps = as @ bs"
    using delete_split [OF d assms(2)] .
  obtain x y where "length as = length (filter (snd \<circ> snd) as) + x" "length bs = length (filter (snd \<circ> snd) bs) + y"
    using length_filter_le [of "snd \<circ> snd" as] length_filter_le [of "snd \<circ> snd" bs] le_Suc_ex by blast
  then show ?thesis
    using assms(1) d unfolding del by (auto simp: gauges_ok_def ps inbound_peers_def)
qed

lemma gauges_event:
  assumes ok: "gauges_ok C n (gauges M)" and life: "lifecycle C (x # xs)" and n: "n + 1 < 2 ^ 64"
  obtains C' where "gauges_ok C' (Suc n) (gauges (node_step E J cfg M x))" "lifecycle C' xs"
proof -
  have weak: "gauges_ok C (Suc n) (gauges M)"
    using ok by (auto simp: gauges_ok_def)
  show ?thesis
  proof (cases x)
    case (PeerInput cx ev)
    show ?thesis
    proof (cases ev)
      case (EvConnected info)
      show ?thesis
        using that [of "insert (pi_id info) C"] ok_connect [OF ok [unfolded gauges_def], of "pi_id info"] life n
        by (simp add: PeerInput EvConnected gauges_connected)
    next
      case (EvDisconnected p)
      have "fst ` set (ma_addrs M) = C" "p \<in> C"
        using ok life by (simp_all add: PeerInput EvDisconnected gauges_ok_def gauges_def)
      then obtain a inb where "map_of (ma_addrs M) p = Some (a, inb)"
        by (metis map_of_eq_None_iff not_None_eq surj_pair)
      then show ?thesis
        using that [of "C - {p}"] ok_disconnect [OF ok [unfolded gauges_def]] life
        by (simp add: PeerInput EvDisconnected gauges_disconnected)
    next
      case (EvMessage p msg)
      then show ?thesis
        using that [of C] weak life by (simp add: PeerInput gauges_quiet)
    next
      case (EvBanned p r)
      then show ?thesis
        using that [of C] weak life by (simp add: PeerInput gauges_quiet)
    qed
  qed (use that [of C] weak life in \<open>simp_all add: gauges_quiet\<close>)
qed

lemma gauges_run:
  "gauges_ok C n (gauges M) \<Longrightarrow> lifecycle C xs \<Longrightarrow> n + length xs < 2 ^ 64 \<Longrightarrow>
    \<exists>C'. gauges_ok C' (n + length xs) (gauges (foldl (node_step E J cfg) M xs))"
proof (induction xs arbitrary: C n M)
  case (Cons x xs)
  obtain C' where "gauges_ok C' (Suc n) (gauges (node_step E J cfg M x))" "lifecycle C' xs"
    using gauges_event [OF Cons.prems(1,2), of E J cfg] Cons.prems(3) by auto
  from Cons.IH [OF this] Cons.prems(3) show ?case
    by simp
qed auto

text \<open>
  C38: As long as every peer is announced as connected once before it is announced as gone, the gauges of
  the metrics endpoint count the peers of the loop exactly, in total and by direction.\<close>

theorem gauges_count_peers:
  assumes "main_start E T cfg ms now = Inr M0" "lifecycle {} inputs" "length inputs < 2 ^ 64"
    and "foldl (node_step E J cfg) M0 inputs = M"
  shows "mx_peers_connected (ma_metrics M) = length (ma_addrs M) \<and>
    mx_peers_inbound (ma_metrics M) = inbound_peers (ma_addrs M) \<and>
    mx_peers_inbound (ma_metrics M) + mx_peers_outbound (ma_metrics M) = length (ma_addrs M) \<and>
    distinct (map fst (ma_addrs M))"
proof -
  have "gauges M0 = ([], 0, 0, 0)"
    using assms(1) by (auto simp: main_start_def gauges_def metrics_new_def Let_def split: sum.splits prod.splits)
  then have "gauges_ok {} 0 (gauges M0)"
    by (simp add: gauges_ok_def inbound_peers_def)
  from gauges_run [OF this assms(2)] assms(3,4) obtain C n where "gauges_ok C n (gauges M)"
    by fastforce
  then show ?thesis
    by (simp add: gauges_ok_def gauges_def)
qed

definition sample_remote :: "nat \<Rightarrow> peer_info" where
  "sample_remote n =
    \<lparr>pi_id = n, pi_addr = show_nat n, pi_user_agent = ''x'', pi_version = 70016, pi_services = 1,
     pi_start_height = 0, pi_relay = True, pi_inbound = (n = 1), pi_v2_transport = False, pi_connected_at = 0\<rparr>"

theorem gauges_count_peers_witness:
  "\<exists>M0. main_start (sample_rpc_env JNull) sample_start sample_config 0 0 = Inr M0 \<and>
    (let cx = \<lparr>mc_ms = 5, mc_unix = 6, mc_order = id\<rparr>;
         M = foldl (node_step (sample_rpc_env JNull) Peer_Props.sample_codec sample_config) M0
           [PeerInput cx (EvConnected (sample_remote 1)), PeerInput cx (EvConnected (sample_remote 2)),
            PeerInput cx (EvDisconnected 1)]
     in mx_peers_connected (ma_metrics M) = length (ma_addrs M))"
proof -
  obtain M0 where M0: "main_start (sample_rpc_env JNull) sample_start sample_config 0 0 = Inr M0"
    using sample_starts by blast
  let ?cx = "\<lparr>mc_ms = 5, mc_unix = 6, mc_order = id\<rparr>"
  let ?xs = "[PeerInput ?cx (EvConnected (sample_remote 1)), PeerInput ?cx (EvConnected (sample_remote 2)),
    PeerInput ?cx (EvDisconnected 1)]"
  have "lifecycle {} ?xs" "length ?xs < 2 ^ 64"
    by (simp_all add: sample_remote_def)
  from gauges_count_peers [OF M0 this refl, of Peer_Props.sample_codec] M0 show ?thesis
    unfolding Let_def by blast
qed

end
