(* ===== verification/Spec2Isabelle.thy ===== *)
theory Spec2Isabelle
  imports Config Mempool_Props Node_Props Peer_Props Sync_Props P2p_Props Ln_Fees Ln_Store Wallet
    Ln_Events Lightning Ln_Props Json Nostr Explorer Rpc_State L402 Rpc_Auth Rpc_Chain
    Rpc_Wallet Rpc_Lightning Rpc_Sweep Rpc Rpc_Typed Node_Prune Node_Main Node_Main_Props
    Node_Run_Props
begin

text \<open>
  Verification development of the BitcoinWolfe node, a Bitcoin full node with a wallet, a Lightning
  node and a Nostr bridge, in Rust under \<open>src/crates\<close>. The consensus rules themselves are those of
  Bitcoin Core (through the \<open>bitcoinkernel\<close> crate), the channels those of LDK and the wallet's coin
  selection that of BDK; what the repository adds, and what is verified here, is the node around
  them.

  \<^bold>\<open>How the parts interact.\<close> A peer connection (\<open>wolfe-p2p\<close>) decodes messages and hands them to the
  loop of the node (\<open>wolfe-node/src/main.rs\<close>), which passes them to the sync engine (\<open>sync.rs\<close>). The
  sync engine asks for headers with a block locator, checks linkage and proof of work, stores them
  (\<open>wolfe-store\<close>), downloads the blocks and gives them to the consensus engine (\<open>wolfe-consensus\<close>).
  What it returns, the loop hands on: transactions to the pool (\<open>wolfe-mempool\<close>) and the wallet
  (\<open>wolfe-wallet\<close>), validated blocks to the pool, the wallet, the Lightning manager
  (\<open>wolfe-lightning\<close>) and the Nostr bridge (\<open>wolfe-nostr\<close>). The RPC server (\<open>wolfe-rpc\<close>) works on the
  same pool, wallet, engine and Lightning manager between two events of the loop; its paid routes
  open to the payments that the Lightning manager saw claimed. \<open>main_start\<close> (\<open>Node_Main\<close>) builds all
  of this from a configuration, and \<open>node_step\<close> is the running node: events of peers, ticks, requests
  and the background tasks as one list of inputs in any order. A property of the whole node is an
  invariant of \<open>node_step\<close>.

  \<^bold>\<open>Conventions.\<close> A struct is a record and an enum a datatype with the source's
  constructors; a hash map is an association list with distinct keys and, where the code walks
  over it, the order is an argument. \<open>u64\<close> and \<open>usize\<close> are naturals with the wrap-around of a
  release build written out (\<open>w64\<close>, \<open>sub64\<close>, \<open>as_u32\<close>, \<open>as_i32\<close>); hashes and header fields are
  words; \<open>f64\<close> is the type of \<open>Float64\<close>, rounding included; a JSON value is the type of \<open>Json\<close>. A
  \<open>Result\<close> is a sum with the error on the left, a panic is an error value of its own where the code
  can reach one. A method on \<open>&mut self\<close> returns the state after the call beside its result, so that
  what it changed before an error stays changed.

  \<^bold>\<open>Parameters.\<close> Crates that are not in the repository are records of functions given as arguments:
  \<open>btc\<close> (\<open>bitcoin\<close>), \<open>redb\<close> with \<open>range\<close>, \<open>kernel\<close> (\<open>bitcoinkernel\<close>), \<open>bip324\<close>, \<open>bdk\<close> (\<open>bdk_wallet\<close>,
  \<open>rusqlite\<close>, \<open>bip39\<close>), \<open>nostr_sdk\<close> and \<open>nip98_lib\<close>, \<open>http\<close> (\<open>reqwest\<close>, the resolver, the URL parser),
  \<open>rpc_codec\<close>, \<open>peer_codec\<close> and \<open>payment_codec\<close> (base64, HMAC, JSON), \<open>start_env\<close> (directories and random
  bytes). LDK, third-party code vendored under \<open>src/deps\<close>, is treated the same way: \<open>ldk\<close> for the
  library at work and \<open>ldk_start\<close> for its construction from persisted bytes. The records are bundled
  in \<open>ln_env\<close> and \<open>rpc_env\<close>. What a theorem needs of them is a named hypothesis on documented behaviour
  (\<open>redb_ok\<close>, \<open>redb_up\<close>, \<open>range_ok\<close>, \<open>hdr_codec_ok\<close>, \<open>vbytes_ok\<close>, \<open>peer_codec_ok\<close>, \<open>payment_codec_ok\<close>,
  \<open>rpc_codec_ok\<close>, \<open>wire_ok\<close>, \<open>env_typed\<close>), and the witnesses instantiate it with concrete functions
  (\<open>Samples\<close>, \<open>Sample_Db\<close>, \<open>Sample_Chain\<close>, and the end of each theory).

  \<^bold>\<open>Theories.\<close>
  \<^item> \<open>Wolfe_Prelude\<close>: integers, bytes, results, association lists, sorting, and the locale
    \<open>machine\<close> of operations that keep an invariant. \<open>Float64\<close>: IEEE doubles. \<open>Bitcoin_Types\<close>:
    the data of the \<open>bitcoin\<close> crate. \<open>Config\<close>: \<open>wolfe-types\<close>.
  \<^item> \<open>Policy\<close>, \<open>Mempool\<close>, \<open>Mempool_Facts\<close>, \<open>Mempool_Props\<close>: \<open>wolfe-mempool\<close>. The facts are the
    accounting invariant and the effect of each call; the properties say exactly which
    transactions are admitted, that the capacity is kept over every sequence of calls, what
    eviction removes, and which of the configured limits the code does not enforce.
  \<^item> \<open>Redb\<close>, \<open>Header_Store\<close>, \<open>Header_Facts\<close>, \<open>Node_Store\<close>, \<open>Node_Facts\<close>, \<open>Node_Props\<close>,
    \<open>Peer_Store\<close>, \<open>Peer_Props\<close>: \<open>wolfe-store\<close>. The abstract specification of the header store is a
    map from hashes to headers with a best chain, a map from heights to headers (locale
    \<open>header_index\<close>); \<open>index_ok\<close> is the invariant under which every operation refines it.
  \<^item> \<open>Consensus\<close>: \<open>wolfe-consensus\<close>, with the latch that a fatal error sets.
  \<^item> \<open>Net_Messages\<close>, \<open>Sync\<close>, \<open>Sync_Facts\<close>, \<open>Sync_Props\<close>: \<open>wolfe-node/src/sync.rs\<close>. The
    invariant \<open>sync_ok\<close> is that the stored chain is complete, linked and mined below the tip.
  \<^item> \<open>P2p_Message\<close>, \<open>P2p_Conn\<close>, \<open>P2p_Loop\<close>, \<open>P2p_Manager\<close>, \<open>P2p_Facts\<close>, \<open>P2p_Props\<close>:
    \<open>wolfe-p2p\<close>. The codec, the handshake and the message loop are functions; the manager is an
    inductive step relation in which every access to a shared table is a step, so that its
    invariant covers all interleavings of its tasks.
  \<^item> \<open>Wallet\<close>: \<open>wolfe-wallet\<close>, every method of \<open>NodeWallet\<close>.
  \<^item> \<open>Ln_Fees\<close>, \<open>Ln_Store\<close>, \<open>Ln_Events\<close>, \<open>Lightning\<close>, \<open>Ln_Props\<close>: \<open>wolfe-lightning\<close>, a theory for each
    of \<open>fee_estimator.rs\<close>, \<open>persister.rs\<close>, \<open>event_handler.rs\<close> and \<open>lib.rs\<close>. The persister refines a map
    from names to bytes (locale \<open>kv_store\<close>); the manager is the inductive relation \<open>ln_reach\<close> over its
    operations, along which the claims that the library reported are recorded and compared with the
    table of paid invoices.
  \<^item> \<open>Nostr\<close>: \<open>wolfe-nostr\<close>, the NIP-98 check, the events and the bridge.
  \<^item> \<open>Json\<close>, \<open>Explorer\<close>, \<open>Rpc_State\<close>, \<open>L402\<close>, \<open>Rpc_Auth\<close>, \<open>Rpc_Chain\<close>, \<open>Rpc_Wallet\<close>,
    \<open>Rpc_Lightning\<close>, \<open>Rpc_Sweep\<close>, \<open>Rpc\<close>, \<open>Rpc_Typed\<close>: \<open>wolfe-rpc\<close>. \<open>Rpc_State\<close>, \<open>Rpc_Auth\<close> and \<open>L402\<close> are
    \<open>server.rs\<close> and \<open>l402.rs\<close>; the handlers of \<open>handlers.rs\<close> are grouped by the component they work
    on; \<open>Rpc\<close> has the table of methods and serves one request from its headers to its answer. The
    properties say who is let in, what a request may change, that no handler answers with a number
    that JSON cannot hold, and what the methods that move money or compare channels with the chain do.
  \<^item> \<open>Node_Prune\<close>, \<open>Node_Main\<close>, \<open>Node_Main_Props\<close>, \<open>Node_Run_Props\<close>: the binary (\<open>wolfe-node\<close>), with its
    start, its tasks and the composition of all components. \<open>node_inv\<close> says that between two events the
    queues of the sync engine are empty, the RPC server holds the consensus engine that the loop runs,
    and its wallet is the Lightning manager's; the run properties follow one block or peer through the components.

  \<^bold>\<open>Bounds and fuel.\<close> No definition takes fuel: the loops of the sync engine and of the codec
  have termination proofs (the locator doubles its step, so that it has at most 45 hashes for a
  chain of 32-bit height; a resynchronisation reads at most one megabyte), the tables are
  finite lists, and the message loop and the node are functions of the finite list of events they are
  given.

  \<^bold>\<open>Not modelled.\<close> The vendored copy of LDK (\<open>src/deps\<close>) and the dashboard are other programs. Of the
  crates: logging, the parser of the command line, signals, the binding of sockets (the RPC server,
  the Lightning listener, the metrics endpoint, the sockets of the peers), and the encodings of the libraries. A lock is
  taken and released within one step, and a method of the pool, the wallet or the Lightning manager is
  one step; only the peer manager, whose tasks share tables without a lock around a whole operation, is
  modelled access by access. Locks are not poisoned. When the peer manager dials an address is left
  open. The ticks of the background tasks happen at any time, so that no property is about how long
  something takes.
\<close>

end
